(* ===== verification/Py_Prelude.thy ===== *)
theory Py_Prelude
  imports Complex_Main "HOL-Library.AList" "HOL-Library.Sublist" "HOL-Library.Char_ord"
    "HOL-Library.List_Lexorder" "HOL-Library.Product_Lexorder"
begin

text \<open>
  The part of Python that the orchestrator relies on: dynamically typed values, dictionaries in
  insertion order, the built-in conversions \<open>str\<close>, \<open>int\<close> and \<open>bool\<close>, string methods, and
  exceptions as values of a sum type.

  \<^item> A \<open>char\<close> stands for a code point below 256, so a \<open>string\<close> is a Python \<open>str\<close> over Latin-1;
    \<open>strip\<close>, \<open>lower\<close>, \<open>splitlines\<close> and \<open>repr\<close> are those of Python on that range.
  \<^item> An integer is an unbounded \<open>int\<close>. A finite float is \<open>PFloat m e\<close>, standing for the float whose
    shortest decimal representation is \<open>m * 10 ^ e\<close> (\<open>m = 0\<close> or \<open>m\<close> not divisible by 10): printing a
    float is computed from it, and the order of two floats is the order of these decimals.
    Infinities, NaN and negative zero are not modelled.
  \<^item> A dictionary is an association list in insertion order; writing an existing key keeps its place.
\<close>

named_theorems py_simps \<open>facts about dictionaries and conversions used by the component proofs\<close>

section \<open>Values, dictionaries and exceptions\<close>

datatype pyval =
    PNone
  | PBool bool
  | PInt int
  | PFloat int int
  | PStr string
  | PList "pyval list"
  | PDict "(string \<times> pyval) list"

type_synonym pydict = "(string \<times> pyval) list"

datatype exn =
    ValueError string
  | TypeError string
  | AttributeError string
  | KeyError string
  | RuntimeError string
  | OSError string
  | OverflowError string
  | OtherError string string

text \<open>\<open>OtherError n m\<close> is an exception of the class named \<open>n\<close>.\<close>

type_synonym 'a result = "exn + 'a"

text \<open>The text \<open>str(exc)\<close> of an exception.\<close>

fun exn_str :: "exn \<Rightarrow> string" where
  "exn_str (ValueError m) = m"
| "exn_str (TypeError m) = m"
| "exn_str (AttributeError m) = m"
| "exn_str (KeyError m) = m"
| "exn_str (RuntimeError m) = m"
| "exn_str (OSError m) = m"
| "exn_str (OverflowError m) = m"
| "exn_str (OtherError n m) = m"

definition bind_r :: "'a result \<Rightarrow> ('a \<Rightarrow> 'b result) \<Rightarrow> 'b result" where
  "bind_r m f = (case m of Inl e \<Rightarrow> Inl e | Inr x \<Rightarrow> f x)"

text \<open>Evaluation unfolds the sequencing, so that a continuation is evaluated only once its argument is known.\<close>

declare bind_r_def [code_unfold]

lemma bind_r_Inl [simp]: "bind_r (Inl e) f = Inl e"
  and bind_r_Inr [simp]: "bind_r (Inr x) f = f x"
  by (simp_all add: bind_r_def)

lemma bind_r_eq_Inr: "bind_r m f = Inr y \<longleftrightarrow> (\<exists>x. m = Inr x \<and> f x = Inr y)"
  by (cases m) auto

fun map_r :: "('a \<Rightarrow> 'b result) \<Rightarrow> 'a list \<Rightarrow> 'b list result" where
  "map_r f [] = Inr []"
| "map_r f (x # xs) = bind_r (f x) (\<lambda>y. bind_r (map_r f xs) (\<lambda>ys. Inr (y # ys)))"

lemma map_r_length: "map_r f xs = Inr ys \<Longrightarrow> length ys = length xs"
  by (induction xs arbitrary: ys) (auto simp: bind_r_eq_Inr)

lemma map_r_nth: "map_r f xs = Inr ys \<Longrightarrow> i < length xs \<Longrightarrow> f (xs ! i) = Inr (ys ! i)"
  by (induction xs arbitrary: ys i) (auto simp: bind_r_eq_Inr nth_Cons split: nat.splits)

abbreviation dset :: "pydict \<Rightarrow> string \<Rightarrow> pyval \<Rightarrow> pydict" where
  "dset d k v \<equiv> AList.update k v d"

text \<open>\<open>d.get(k, default)\<close>; \<open>d.get(k)\<close> is \<open>dget d k PNone\<close>.\<close>

definition dget :: "pydict \<Rightarrow> string \<Rightarrow> pyval \<Rightarrow> pyval" where
  "dget d k v = (case map_of d k of None \<Rightarrow> v | Some w \<Rightarrow> w)"

text \<open>\<open>{**a, **b}\<close>: every entry of \<open>b\<close> is written into a copy of \<open>a\<close>, in order.\<close>

definition dmerge :: "pydict \<Rightarrow> pydict \<Rightarrow> pydict" where
  "dmerge a b = fold (\<lambda>(k, v) d. dset d k v) b a"

lemma map_of_dset [simp, py_simps]:
  "map_of (AList.update k v d) k' = (if k' = k then Some v else map_of d k')"
  by (induction d) auto

lemma dget_dset [simp, py_simps]:
  "dget (dset d k v) k' w = (if k' = k then v else dget d k' w)"
  by (simp add: dget_def)

lemma map_of_dmerge:
  "distinct (map fst b) \<Longrightarrow>
    map_of (dmerge a b) k = (case map_of b k of None \<Rightarrow> map_of a k | Some v \<Rightarrow> Some v)"
proof (induction b arbitrary: a)
  case Nil
  then show ?case by (simp add: dmerge_def)
next
  case (Cons p b)
  obtain i v where p: "p = (i, v)" by (cases p)
  have "dmerge a (p # b) = dmerge (dset a i v) b" by (simp add: dmerge_def p)
  moreover have "map_of b i = None" using Cons.prems by (simp add: p map_of_eq_None_iff)
  ultimately show ?case using Cons by (auto simp: p split: option.splits)
qed

lemma dget_Nil [simp]: "dget [] k v = v"
  by (simp add: dget_def)

lemma dget_Cons [simp]: "dget ((k', w) # d) k v = (if k = k' then w else dget d k v)"
  by (simp add: dget_def)

text \<open>The last \<open>k\<close> elements: bounded histories and windows are cut to it.\<close>

definition lastn :: "nat \<Rightarrow> 'a list \<Rightarrow> 'a list" where
  "lastn k xs = drop (length xs - k) xs"

lemma lastn_rev: "lastn k xs = rev (take k (rev xs))"
  by (simp add: lastn_def rev_take)

lemma lastn_lastn_append: "lastn k (lastn k xs @ ys) = lastn k (xs @ ys)"
  by (simp add: lastn_rev min_def)

lemma length_lastn [simp]: "length (lastn k xs) = min k (length xs)"
  by (simp add: lastn_def)

lemma lastn_all: "length xs \<le> k \<Longrightarrow> lastn k xs = xs"
  by (simp add: lastn_def)

lemma set_lastn_subset: "set (lastn k xs) \<subseteq> set xs"
  by (simp add: lastn_def set_drop_subset)

text \<open>Slices \<open>xs[:n]\<close> and \<open>xs[-n:]\<close> with Python's reading of negative bounds; \<open>xs[-0:]\<close> is all of \<open>xs\<close>.\<close>

definition py_take :: "int \<Rightarrow> 'a list \<Rightarrow> 'a list" where
  "py_take n xs = (if 0 \<le> n then take (nat n) xs else take (length xs - nat (- n)) xs)"

definition py_tail :: "int \<Rightarrow> 'a list \<Rightarrow> 'a list" where
  "py_tail n xs = (if 0 < n then lastn (nat n) xs else drop (nat (- n)) xs)"

lemma length_py_tail: "0 < n \<Longrightarrow> length (py_tail n xs) \<le> nat n"
  by (simp add: py_tail_def)

lemma length_py_take: "0 \<le> n \<Longrightarrow> int (length (py_take n xs)) \<le> n"
  by (simp add: py_take_def)

section \<open>Type tests and coercions\<close>

fun py_bool :: "pyval \<Rightarrow> bool" where
  "py_bool PNone = False"
| "py_bool (PBool b) = b"
| "py_bool (PInt i) = (i \<noteq> 0)"
| "py_bool (PFloat m e) = (m \<noteq> 0)"
| "py_bool (PStr s) = (s \<noteq> [])"
| "py_bool (PList xs) = (xs \<noteq> [])"
| "py_bool (PDict d) = (d \<noteq> [])"

fun is_dict :: "pyval \<Rightarrow> bool" where
  "is_dict (PDict d) = True"
| "is_dict _ = False"

text \<open>\<open>dict(v) if isinstance(v, dict) else {}\<close> and \<open>list(v) if isinstance(v, list) else []\<close>.\<close>

fun as_dict :: "pyval \<Rightarrow> pydict" where
  "as_dict (PDict d) = d"
| "as_dict _ = []"

fun as_list :: "pyval \<Rightarrow> pyval list" where
  "as_list (PList xs) = xs"
| "as_list _ = []"

text \<open>\<open>[entry for entry in xs if isinstance(entry, dict)]\<close>.\<close>

fun dicts_of :: "pyval list \<Rightarrow> pydict list" where
  "dicts_of [] = []"
| "dicts_of (PDict d # xs) = d # dicts_of xs"
| "dicts_of (_ # xs) = dicts_of xs"

abbreviation dict_list :: "pydict list \<Rightarrow> pyval" where
  "dict_list ds \<equiv> PList (map PDict ds)"

abbreviation str_list :: "string list \<Rightarrow> pyval" where
  "str_list ss \<equiv> PList (map PStr ss)"

lemma dicts_of_map_PDict [simp]: "dicts_of (map PDict ds) = ds"
  by (induction ds) auto

lemma dicts_of_map_comp [simp]: "dicts_of (map (PDict \<circ> f) xs) = map f xs"
  by (induction xs) auto

lemma length_dicts_of: "length (dicts_of xs) \<le> length xs"
  by (induction xs rule: dicts_of.induct) auto

text \<open>
  \<open>int(v) if isinstance(v, int) else default\<close>: a \<open>bool\<close> is an \<open>int\<close> in Python. The variant
  \<open>strict_int_or\<close> excludes \<open>bool\<close>.
\<close>

fun int_or :: "pyval \<Rightarrow> int \<Rightarrow> int" where
  "int_or (PInt i) d = i"
| "int_or (PBool b) d = of_bool b"
| "int_or _ d = d"

fun strict_int_or :: "pyval \<Rightarrow> int \<Rightarrow> int" where
  "strict_int_or (PInt i) d = i"
| "strict_int_or _ d = d"

fun type_name :: "pyval \<Rightarrow> string" where
  "type_name PNone = ''NoneType''"
| "type_name (PBool b) = ''bool''"
| "type_name (PInt i) = ''int''"
| "type_name (PFloat m e) = ''float''"
| "type_name (PStr s) = ''str''"
| "type_name (PList xs) = ''list''"
| "type_name (PDict d) = ''dict''"

section \<open>String methods\<close>

definition code :: "char \<Rightarrow> nat" where
  "code c = of_char c"

definition is_space :: "char \<Rightarrow> bool" where
  "is_space c = (let n = code c in 9 \<le> n \<and> n \<le> 13 \<or> 28 \<le> n \<and> n \<le> 32 \<or> n = 133 \<or> n = 160)"

definition lower_char :: "char \<Rightarrow> char" where
  "lower_char c = (let n = code c in
     if 65 \<le> n \<and> n \<le> 90 \<or> 192 \<le> n \<and> n \<le> 222 \<and> n \<noteq> 215 then char_of (n + 32) else c)"

definition lower :: "string \<Rightarrow> string" where
  "lower s = map lower_char s"

definition lstrip :: "string \<Rightarrow> string" where
  "lstrip s = dropWhile is_space s"

definition rstrip :: "string \<Rightarrow> string" where
  "rstrip s = rev (dropWhile is_space (rev s))"

definition strip :: "string \<Rightarrow> string" where
  "strip s = rstrip (lstrip s)"

fun join :: "string \<Rightarrow> string list \<Rightarrow> string" where
  "join sep [] = []"
| "join sep [x] = x"
| "join sep (x # y # xs) = x @ sep @ join sep (y # xs)"

text \<open>\<open>s.split(c)\<close> for a one-character separator: never empty, empty segments kept.\<close>

fun split_on :: "char \<Rightarrow> string \<Rightarrow> string list" where
  "split_on c [] = [[]]"
| "split_on c (x # xs) =
     (if x = c then [] # split_on c xs
      else (case split_on c xs of [] \<Rightarrow> [[x]] | y # ys \<Rightarrow> (x # y) # ys))"

definition is_linebreak :: "char \<Rightarrow> bool" where
  "is_linebreak c = (let n = code c in 10 \<le> n \<and> n \<le> 13 \<or> 28 \<le> n \<and> n \<le> 30 \<or> n = 133)"

fun splitlines_aux :: "string \<Rightarrow> string \<Rightarrow> string list" where
  "splitlines_aux cur [] = (if cur = [] then [] else [rev cur])"
| "splitlines_aux cur (x # xs) =
     (if is_linebreak x
      then rev cur # splitlines_aux []
             (if code x = 13 \<and> xs \<noteq> [] \<and> code (hd xs) = 10 then tl xs else xs)
      else splitlines_aux (x # cur) xs)"

definition splitlines :: "string \<Rightarrow> string list" where
  "splitlines s = splitlines_aux [] s"

text \<open>\<open>len(s.encode("utf-8"))\<close>: a Latin-1 code point takes one or two bytes.\<close>

definition utf8_len :: "string \<Rightarrow> nat" where
  "utf8_len s = sum_list (map (\<lambda>c. if code c < 128 then 1 else 2) s)"

lemma lower_Nil [simp]: "lower [] = []"
  and strip_Nil [simp]: "strip [] = []"
  and lstrip_Nil [simp]: "lstrip [] = []"
  and rstrip_Nil [simp]: "rstrip [] = []"
  by (simp_all add: lower_def strip_def lstrip_def rstrip_def)

lemma length_lower [simp]: "length (lower s) = length s"
  by (simp add: lower_def)

lemma length_lstrip: "length (lstrip s) \<le> length s"
  by (simp add: lstrip_def length_dropWhile_le)

lemma length_rstrip: "length (rstrip s) \<le> length s"
  using length_dropWhile_le [of is_space "rev s"] by (simp add: rstrip_def)

lemma length_strip: "length (strip s) \<le> length s"
  unfolding strip_def using length_rstrip length_lstrip order_trans by blast

lemma rstrip_prefix: "prefix (rstrip s) s"
  unfolding rstrip_def suffix_to_prefix [symmetric] rev_rev_ident
  by (metis rev_rev_ident suffix_dropWhile suffix_to_prefix)

lemma strip_ends: "s \<noteq> [] \<Longrightarrow> \<not> is_space (hd s) \<Longrightarrow> \<not> is_space (last s) \<Longrightarrow> strip s = s"
proof -
  assume a: "s \<noteq> []" "\<not> is_space (hd s)" "\<not> is_space (last s)"
  have l: "lstrip s = s" using a by (cases s) (auto simp: lstrip_def)
  have "dropWhile is_space (rev s) = rev s" using a by (cases s rule: rev_cases) auto
  then show ?thesis by (simp add: strip_def l rstrip_def)
qed

lemma strip_strip [simp]: "strip (strip s) = strip s"
proof (cases "strip s = []")
  case False
  define l where "l = lstrip s"
  have st: "strip s = rstrip l" by (simp add: strip_def l_def)
  obtain v where v: "l = rstrip l @ v" using rstrip_prefix [of l] by (auto simp: prefix_def)
  have "l \<noteq> []" using False st by auto
  then have "\<not> is_space (hd l)" unfolding l_def lstrip_def by (metis hd_dropWhile dropWhile_eq_Nil_conv)
  then have 1: "\<not> is_space (hd (strip s))" using v False st by (metis hd_append2)
  have "dropWhile is_space (rev l) \<noteq> []" using False st by (simp add: rstrip_def)
  then have "\<not> is_space (hd (dropWhile is_space (rev l)))" by (rule hd_dropWhile)
  then have 2: "\<not> is_space (last (strip s))" by (simp add: st rstrip_def last_rev)
  show ?thesis using strip_ends [OF False 1 2] .
qed simp

lemma split_on_neq_Nil [simp]: "split_on c s \<noteq> []"
  by (induction s) (auto split: list.splits)

lemma utf8_len_ge: "length s \<le> utf8_len s"
  unfolding utf8_len_def by (induction s) auto

end
