(* ===== verification/Py_Text.thy ===== *)
theory Py_Text
  imports Py_Prelude
begin

text \<open>
  Text and numbers: \<open>str\<close> and \<open>repr\<close> of every value, \<open>int\<close> of a value with the exceptions it
  raises, \<open>json.dumps\<close>, and shell-style pattern matching as \<open>fnmatch.fnmatch\<close> does it on a
  POSIX system.
\<close>

section \<open>Decimal numerals\<close>

definition digit_char :: "nat \<Rightarrow> char" where
  "digit_char n = char_of (48 + n)"

fun nat_str :: "nat \<Rightarrow> string" where
  "nat_str n = (if n < 10 then [digit_char n] else nat_str (n div 10) @ [digit_char (n mod 10)])"

declare nat_str.simps [simp del]

definition int_str :: "int \<Rightarrow> string" where
  "int_str i = (if i < 0 then CHR ''-'' # nat_str (nat (- i)) else nat_str (nat i))"

lemma nat_str_neq_Nil [simp]: "nat_str n \<noteq> []"
  by (subst nat_str.simps) simp

text \<open>
  The accumulator of \<open>int(text)\<close> for a text in base 10: digits with single underscores between
  them. The flag says that the character before was a digit.
\<close>

fun parse_digits :: "int \<Rightarrow> bool \<Rightarrow> string \<Rightarrow> int option" where
  "parse_digits acc ok [] = (if ok then Some acc else None)"
| "parse_digits acc ok (c # cs) =
     (if 48 \<le> code c \<and> code c \<le> 57
      then parse_digits (acc * 10 + int (code c - 48)) True cs
      else if c = CHR ''_'' \<and> ok then parse_digits acc False cs
      else None)"

definition parse_int :: "string \<Rightarrow> int option" where
  "parse_int s = (case strip s of
       [] \<Rightarrow> None
     | c # cs \<Rightarrow> if c = CHR ''-'' then map_option uminus (parse_digits 0 False cs)
                else if c = CHR ''+'' then parse_digits 0 False cs
                else parse_digits 0 False (c # cs))"

text \<open>
  The numeral of a number parses back to it; used where counters and budgets travel as text.
\<close>

lemma code_digit_char: "n < 10 \<Longrightarrow> code (digit_char n) = 48 + n"
  by (simp add: code_def digit_char_def of_char_of)

lemma parse_digits_nat_str:
  "parse_digits acc ok (nat_str n @ s)
     = parse_digits (acc * 10 ^ length (nat_str n) + int n) True s"
proof (induction n arbitrary: acc ok s rule: nat_str.induct)
  case (1 n)
  show ?case
  proof (cases "n < 10")
    case True
    then show ?thesis
      by (simp add: nat_str.simps [of n] code_digit_char)
  next
    case False
    have cd: "code (digit_char (n mod 10)) = 48 + n mod 10"
      by (simp add: code_digit_char)
    have "n mod 10 \<le> 9" by simp
    with False cd have "parse_digits acc ok (nat_str n @ s)
        = parse_digits ((acc * 10 ^ length (nat_str (n div 10)) + int (n div 10)) * 10
            + int (n mod 10)) True s"
      using "1.IH" [OF False] by (simp add: nat_str.simps [of n])
    also have "(acc * 10 ^ length (nat_str (n div 10)) + int (n div 10)) * 10 + int (n mod 10)
        = acc * 10 ^ length (nat_str n) + int n"
    proof -
      have "int (n mod 10) + 10 * int (n div 10) = int n" by presburger
      then show ?thesis using False by (simp add: nat_str.simps [of n] algebra_simps)
    qed
    finally show ?thesis .
  qed
qed

section \<open>Printing\<close>

text \<open>
  \<open>repr\<close> of a float from its shortest decimal digits: fixed notation when the decimal point falls
  within the digits or close to them, scientific notation otherwise.
\<close>

definition pad2 :: "nat \<Rightarrow> string" where
  "pad2 n = (if n < 10 then CHR ''0'' # nat_str n else nat_str n)"

definition float_abs_str :: "nat \<Rightarrow> int \<Rightarrow> string" where
  "float_abs_str m e =
     (if m = 0 then ''0.0'' else
      let ds = nat_str m; n = int (length ds); pt = n + e in
      if pt \<le> -4 \<or> 16 < pt then
        hd ds # (if tl ds = [] then [] else CHR ''.'' # tl ds) @ ''e''
          @ (if pt - 1 < 0 then ''-'' @ pad2 (nat (1 - pt)) else ''+'' @ pad2 (nat (pt - 1)))
      else if pt \<le> 0 then ''0.'' @ replicate (nat (- pt)) (CHR ''0'') @ ds
      else if n \<le> pt then ds @ replicate (nat (pt - n)) (CHR ''0'') @ ''.0''
      else take (nat pt) ds @ ''.'' @ drop (nat pt) ds)"

definition float_str :: "int \<Rightarrow> int \<Rightarrow> string" where
  "float_str m e = (if m < 0 then CHR ''-'' # float_abs_str (nat (- m)) e
                    else float_abs_str (nat m) e)"

definition hex_char :: "nat \<Rightarrow> char" where
  "hex_char n = (if n < 10 then char_of (48 + n) else char_of (87 + n))"

definition hex2 :: "nat \<Rightarrow> string" where
  "hex2 n = [hex_char (n div 16), hex_char (n mod 16)]"

definition printable :: "char \<Rightarrow> bool" where
  "printable c = (let n = code c in 32 \<le> n \<and> n \<le> 126 \<or> 161 \<le> n \<and> n \<noteq> 173)"

definition repr_char :: "char \<Rightarrow> char \<Rightarrow> string" where
  "repr_char q c =
     (if c = q \<or> code c = 92 then [char_of (92::nat), c]
      else if code c = 10 then [char_of (92::nat), CHR ''n'']
      else if code c = 13 then [char_of (92::nat), CHR ''r'']
      else if code c = 9 then [char_of (92::nat), CHR ''t'']
      else if printable c then [c]
      else [char_of (92::nat), CHR ''x''] @ hex2 (code c))"

definition quote1 :: char where
  "quote1 = char_of (39::nat)"

definition quote2 :: char where
  "quote2 = char_of (34::nat)"

definition repr_str :: "string \<Rightarrow> string" where
  "repr_str s = (let q = (if quote1 \<in> set s \<and> quote2 \<notin> set s then quote2 else quote1)
                 in [q] @ concat (map (repr_char q) s) @ [q])"

fun py_repr :: "pyval \<Rightarrow> string" where
  "py_repr PNone = ''None''"
| "py_repr (PBool b) = (if b then ''True'' else ''False'')"
| "py_repr (PInt i) = int_str i"
| "py_repr (PFloat m e) = float_str m e"
| "py_repr (PStr s) = repr_str s"
| "py_repr (PList xs) = ''['' @ join '', '' (map py_repr xs) @ '']''"
| "py_repr (PDict d) = ''{'' @ join '', '' (map (\<lambda>kv. repr_str (fst kv) @ '': '' @ py_repr (snd kv)) d) @ ''}''"

definition py_str :: "pyval \<Rightarrow> string" where
  "py_str v = (case v of PStr s \<Rightarrow> s | _ \<Rightarrow> py_repr v)"

lemma py_str_PStr [simp, py_simps]: "py_str (PStr s) = s"
  by (simp add: py_str_def)

lemma py_str_PNone [simp, py_simps]: "py_str PNone = ''None''"
  by (simp add: py_str_def)

text \<open>\<open>str(d.get(k, default))\<close>, the most frequent read of the code.\<close>

abbreviation gets :: "pydict \<Rightarrow> string \<Rightarrow> string \<Rightarrow> string" where
  "gets d k v \<equiv> py_str (dget d k (PStr v))"

text \<open>\<open>x or y\<close> on strings.\<close>

definition or_str :: "string \<Rightarrow> string \<Rightarrow> string" where
  "or_str s t = (if s = [] then t else s)"

section \<open>The conversion to integers\<close>

definition trunc_dec :: "int \<Rightarrow> int \<Rightarrow> int" where
  "trunc_dec m e = (if 0 \<le> e then m * 10 ^ nat e else sgn m * (\<bar>m\<bar> div 10 ^ nat (- e)))"

definition int_digit_limit :: nat where
  "int_digit_limit = 4300"

definition py_int :: "pyval \<Rightarrow> int result" where
  "py_int v = (case v of
       PInt i \<Rightarrow> Inr i
     | PBool b \<Rightarrow> Inr (of_bool b)
     | PFloat m e \<Rightarrow> Inr (trunc_dec m e)
     | PStr s \<Rightarrow>
         (case parse_int s of
            None \<Rightarrow> Inl (ValueError (''invalid literal for int() with base 10: '' @ repr_str s))
          | Some i \<Rightarrow>
              (let n = length (filter (\<lambda>c. 48 \<le> code c \<and> code c \<le> 57) s) in
               if int_digit_limit < n
               then Inl (ValueError (''Exceeds the limit (4300 digits) for integer string conversion: value has ''
                      @ nat_str n @ '' digits; use sys.set_int_max_str_digits() to increase the limit''))
               else Inr i))
     | _ \<Rightarrow> Inl (TypeError (''int() argument must be a string, a bytes-like object or a real number, not ''
                 @ [quote1] @ type_name v @ [quote1])))"

lemma py_int_PInt [simp, py_simps]: "py_int (PInt i) = Inr i"
  by (simp add: py_int_def)

text \<open>\<open>v or default\<close> on values.\<close>

definition or_val :: "pyval \<Rightarrow> pyval \<Rightarrow> pyval" where
  "or_val v w = (if py_bool v then v else w)"

text \<open>\<open>try: int(v) except (TypeError, ValueError): default\<close>.\<close>

definition int_default :: "pyval \<Rightarrow> int \<Rightarrow> int" where
  "int_default v d = (case py_int v of Inl _ \<Rightarrow> d | Inr i \<Rightarrow> i)"

text \<open>
  Calling \<open>v.get(...)\<close> on a value that is no dictionary, and iterating over a value that is no
  collection, raise. Iterating over a string or a dictionary yields its characters or keys.
\<close>

definition dict_method :: "pyval \<Rightarrow> string \<Rightarrow> pydict result" where
  "dict_method v meth = (case v of
       PDict d \<Rightarrow> Inr d
     | _ \<Rightarrow> Inl (AttributeError ([quote1] @ type_name v @ [quote1] @ '' object has no attribute ''
                 @ [quote1] @ meth @ [quote1])))"

definition py_iter :: "pyval \<Rightarrow> pyval list result" where
  "py_iter v = (case v of
       PList xs \<Rightarrow> Inr xs
     | PStr s \<Rightarrow> Inr (map (\<lambda>c. PStr [c]) s)
     | PDict d \<Rightarrow> Inr (map (\<lambda>kv. PStr (fst kv)) d)
     | _ \<Rightarrow> Inl (TypeError ([quote1] @ type_name v @ [quote1] @ '' object is not iterable'')))"

definition py_len :: "pyval \<Rightarrow> nat result" where
  "py_len v = (case v of
       PList xs \<Rightarrow> Inr (length xs)
     | PStr s \<Rightarrow> Inr (length s)
     | PDict d \<Rightarrow> Inr (length d)
     | _ \<Rightarrow> Inl (TypeError (''object of type '' @ [quote1] @ type_name v @ [quote1] @ '' has no len()'')))"

text \<open>
  \<open>dict(v)\<close>: a copy of a dictionary, or a dictionary from a sequence of pairs. Keys of the model are
  strings, so a pair whose first component is no string is an error here.
\<close>

definition pair_of :: "pyval \<Rightarrow> (string \<times> pyval) option" where
  "pair_of v = (case v of
       PList [PStr k, w] \<Rightarrow> Some (k, w)
     | PStr [a, b] \<Rightarrow> Some ([a], PStr [b])
     | PDict [(k, _), (l, _)] \<Rightarrow> Some (k, PStr l)
     | _ \<Rightarrow> None)"

fun pairs_dict :: "pyval list \<Rightarrow> pydict \<Rightarrow> pydict result" where
  "pairs_dict [] acc = Inr acc"
| "pairs_dict (v # vs) acc = (case pair_of v of
       None \<Rightarrow> Inl (TypeError ''cannot convert dictionary update sequence element to a sequence'')
     | Some (k, w) \<Rightarrow> pairs_dict vs (dset acc k w))"

definition py_dict :: "pyval \<Rightarrow> pydict result" where
  "py_dict v = (case v of PDict d \<Rightarrow> Inr d
                | _ \<Rightarrow> bind_r (py_iter v) (\<lambda>xs. pairs_dict xs []))"

lemma py_dict_PDict [simp, py_simps]: "py_dict (PDict d) = Inr d"
  by (simp add: py_dict_def)

lemma py_iter_PList [simp, py_simps]: "py_iter (PList xs) = Inr xs"
  by (simp add: py_iter_def)

section \<open>JSON text\<close>

definition json_char :: "char \<Rightarrow> string" where
  "json_char c =
     (let n = code c; bs = char_of (92::nat) in
      if n = 34 \<or> n = 92 then [bs, c]
      else if n = 10 then [bs, CHR ''n''] else if n = 13 then [bs, CHR ''r'']
      else if n = 9 then [bs, CHR ''t''] else if n = 8 then [bs, CHR ''b'']
      else if n = 12 then [bs, CHR ''f'']
      else if n < 32 then [bs] @ ''u00'' @ hex2 n
      else [c])"

definition json_str :: "string \<Rightarrow> string" where
  "json_str s = [quote2] @ concat (map json_char s) @ [quote2]"

text \<open>
  \<open>json.dumps(v, ensure_ascii=False)\<close> with the item and key separators as arguments;
  \<open>sort_keys\<close> sorts every dictionary by key.
\<close>

definition key_order :: "bool \<Rightarrow> (string \<times> 'a) list \<Rightarrow> (string \<times> 'a) list" where
  "key_order b d = (if b then sort_key fst d else d)"

fun json_dumps :: "bool \<Rightarrow> string \<Rightarrow> string \<Rightarrow> pyval \<Rightarrow> string" where
  "json_dumps b sep ksep PNone = ''null''"
| "json_dumps b sep ksep (PBool x) = (if x then ''true'' else ''false'')"
| "json_dumps b sep ksep (PInt i) = int_str i"
| "json_dumps b sep ksep (PFloat m e) = float_str m e"
| "json_dumps b sep ksep (PStr s) = json_str s"
| "json_dumps b sep ksep (PList xs) = ''['' @ join sep (map (json_dumps b sep ksep) xs) @ '']''"
| "json_dumps b sep ksep (PDict d) =
     ''{'' @ join sep (map (\<lambda>(k, t). json_str k @ ksep @ t)
                        (key_order b (map (\<lambda>kv. (fst kv, json_dumps b sep ksep (snd kv))) d)))
     @ ''}''"

section \<open>Shell patterns\<close>

text \<open>
  \<open>fnmatch.fnmatch\<close>: the star matches any sequence of characters, separators included, the question
  mark one character, and a bracket one character of a set, with ranges and negation. A bracket that
  is never closed is an ordinary character.
\<close>

datatype pat_item = Star | AnyChar | Lit char | Class bool "(nat \<times> nat) list"

fun class_ranges :: "string \<Rightarrow> (nat \<times> nat) list" where
  "class_ranges (a # m # b # cs) =
     (if m = CHR ''-'' then (code a, code b) # class_ranges cs
      else (code a, code a) # class_ranges (m # b # cs))"
| "class_ranges (a # cs) = (code a, code a) # class_ranges cs"
| "class_ranges [] = []"

text \<open>
  The body of a bracket ends at the first closing bracket that is not its first character (after
  an optional exclamation mark).
\<close>

definition bracket_body :: "string \<Rightarrow> (bool \<times> string \<times> string) option" where
  "bracket_body s =
     (let neg = (s \<noteq> [] \<and> hd s = CHR ''!''); r = (if neg then tl s else s) in
      case r of
        [] \<Rightarrow> None
      | c # cs \<Rightarrow>
          (let body = takeWhile (\<lambda>x. x \<noteq> CHR '']'') cs; rest = dropWhile (\<lambda>x. x \<noteq> CHR '']'') cs
           in if rest = [] then None else Some (neg, c # body, tl rest)))"

lemma bracket_body_length: "bracket_body s = Some (neg, b, rest) \<Longrightarrow> length rest < length s"
proof -
  assume a: "bracket_body s = Some (neg, b, rest)"
  obtain r where r: "r = (if s \<noteq> [] \<and> hd s = CHR ''!'' then tl s else s)" by blast
  from a r obtain c cs where cs: "r = c # cs" "rest = tl (dropWhile (\<lambda>x. x \<noteq> CHR '']'') cs)"
    by (auto simp: bracket_body_def Let_def split: list.splits if_splits)
  have "length rest \<le> length cs"
    using cs(2) length_dropWhile_le [of "\<lambda>x. x \<noteq> CHR '']''" cs] by simp
  moreover have "length r \<le> length s" using r by (auto split: if_splits)
  ultimately show ?thesis using cs(1) by simp
qed

function pat_items :: "string \<Rightarrow> pat_item list" where
  "pat_items [] = []"
| "pat_items (c # cs) =
     (if c = CHR ''*'' then Star # pat_items cs
      else if c = CHR ''?'' then AnyChar # pat_items cs
      else if c = CHR ''['' then
        (case bracket_body cs of
           None \<Rightarrow> Lit c # pat_items cs
         | Some (neg, body, rest) \<Rightarrow> Class neg (class_ranges body) # pat_items rest)
      else Lit c # pat_items cs)"
  by pat_completeness auto
termination
  by (relation "measure length") (auto dest: bracket_body_length)

fun pat_match :: "pat_item list \<Rightarrow> string \<Rightarrow> bool" where
  "pat_match [] s = (s = [])"
| "pat_match (Star # ps) [] = pat_match ps []"
| "pat_match (Star # ps) (c # s) = (pat_match ps (c # s) \<or> pat_match (Star # ps) s)"
| "pat_match (AnyChar # ps) s = (case s of [] \<Rightarrow> False | c # s' \<Rightarrow> pat_match ps s')"
| "pat_match (Lit x # ps) s = (case s of [] \<Rightarrow> False | c # s' \<Rightarrow> c = x \<and> pat_match ps s')"
| "pat_match (Class neg rs # ps) s =
     (case s of [] \<Rightarrow> False
      | c # s' \<Rightarrow> (neg \<noteq> list_ex (\<lambda>(a, b). a \<le> code c \<and> code c \<le> b) rs) \<and> pat_match ps s')"

definition fnmatch :: "string \<Rightarrow> string \<Rightarrow> bool" where
  "fnmatch name pat = pat_match (pat_items pat) name"

lemma pat_match_Star: "pat_match (Star # ps) s \<longleftrightarrow> (\<exists>u v. s = u @ v \<and> pat_match ps v)"
proof (induction s)
  case Nil
  then show ?case by simp
next
  case (Cons c s)
  show ?case
  proof
    assume "pat_match (Star # ps) (c # s)"
    then consider "pat_match ps (c # s)" | "pat_match (Star # ps) s" by auto
    then show "\<exists>u v. c # s = u @ v \<and> pat_match ps v"
    proof cases
      case 1
      then have "c # s = [] @ (c # s) \<and> pat_match ps (c # s)" by simp
      then show ?thesis by blast
    next
      case 2
      then obtain u v where "s = u @ v" "pat_match ps v" using Cons.IH by blast
      then have "c # s = (c # u) @ v \<and> pat_match ps v" by simp
      then show ?thesis by blast
    qed
  next
    assume "\<exists>u v. c # s = u @ v \<and> pat_match ps v"
    then obtain u v where uv: "c # s = u @ v" "pat_match ps v" by blast
    show "pat_match (Star # ps) (c # s)"
    proof (cases u)
      case Nil
      then have "pat_match ps (c # s)" using uv by simp
      then show ?thesis by simp
    next
      case (Cons d u')
      then have "s = u' @ v" using uv(1) by simp
      then show ?thesis using uv(2) Cons.IH by auto
    qed
  qed
qed

end
