(* ===== verification/Py_Regex.thy ===== *)
theory Py_Regex
  imports Py_Text
begin

text \<open>
  The part of the module \<open>re\<close> that the code uses: regular expressions over single characters, classes,
  word boundaries, alternatives and repetition, what it means that one matches a segment of a text,
  and an executable search. Whether \<open>re.search\<close> finds a match does not depend on greediness, so the
  engine computes the set of all ends of a match.
\<close>

section \<open>Character classes\<close>

text \<open>The characters of the class \<open>\w\<close> below code point 256.\<close>

definition re_word_char :: "char \<Rightarrow> bool" where
  "re_word_char c = (let n = code c in
     48 \<le> n \<and> n \<le> 57 \<or> 65 \<le> n \<and> n \<le> 90 \<or> n = 95 \<or> 97 \<le> n \<and> n \<le> 122 \<or>
     n \<in> {170, 178, 179, 181, 185, 186, 188, 189, 190} \<or> 192 \<le> n \<and> n \<noteq> 215 \<and> n \<noteq> 247)"

datatype cclass =
    Space
  | WordC
  | Letter
  | AnyButNewline
  | OneOf string
  | NotIn cclass

fun in_class :: "cclass \<Rightarrow> char \<Rightarrow> bool" where
  "in_class Space c = is_space c"
| "in_class WordC c = re_word_char c"
| "in_class Letter c = (65 \<le> code c \<and> code c \<le> 90 \<or> 97 \<le> code c \<and> code c \<le> 122)"
| "in_class AnyButNewline c = (code c \<noteq> 10)"
| "in_class (OneOf cs) c = (c \<in> set cs)"
| "in_class (NotIn k) c = (\<not> in_class k c)"

section \<open>Expressions and their meaning\<close>

text \<open>\<open>RCharI\<close> is a letter under the flag \<open>(?i)\<close>.\<close>

datatype regex =
    REps
  | RChar char
  | RCharI char
  | RClass cclass
  | RBoundary
  | RSeq regex regex
  | RAlt regex regex
  | RStar regex

definition r_string :: "string \<Rightarrow> regex" where
  "r_string s = foldr (\<lambda>c r. RSeq (RChar c) r) s REps"

definition r_string_i :: "string \<Rightarrow> regex" where
  "r_string_i s = foldr (\<lambda>c r. RSeq (RCharI c) r) s REps"

definition r_seq :: "regex list \<Rightarrow> regex" where
  "r_seq rs = foldr RSeq rs REps"

abbreviation r_plus :: "regex \<Rightarrow> regex" where
  "r_plus r \<equiv> RSeq r (RStar r)"

abbreviation r_opt :: "regex \<Rightarrow> regex" where
  "r_opt r \<equiv> RAlt r REps"

definition char_at :: "(char \<Rightarrow> bool) \<Rightarrow> string \<Rightarrow> nat \<Rightarrow> bool" where
  "char_at P s i = (i < length s \<and> P (s ! i))"

definition boundary :: "string \<Rightarrow> nat \<Rightarrow> bool" where
  "boundary s i = ((0 < i \<and> char_at re_word_char s (i - 1)) \<noteq> char_at re_word_char s i)"

text \<open>\<open>re_match s r i j\<close>: the expression matches the characters of \<open>s\<close> from \<open>i\<close> up to \<open>j\<close>.\<close>

inductive re_match :: "string \<Rightarrow> regex \<Rightarrow> nat \<Rightarrow> nat \<Rightarrow> bool" for s where
  m_eps: "i \<le> length s \<Longrightarrow> re_match s REps i i"
| m_char: "char_at (\<lambda>x. x = c) s i \<Longrightarrow> re_match s (RChar c) i (Suc i)"
| m_char_i: "char_at (\<lambda>x. lower_char x = c) s i \<Longrightarrow> re_match s (RCharI c) i (Suc i)"
| m_class: "char_at (in_class k) s i \<Longrightarrow> re_match s (RClass k) i (Suc i)"
| m_boundary: "i \<le> length s \<Longrightarrow> boundary s i \<Longrightarrow> re_match s RBoundary i i"
| m_seq: "re_match s r i j \<Longrightarrow> re_match s q j k \<Longrightarrow> re_match s (RSeq r q) i k"
| m_alt1: "re_match s r i j \<Longrightarrow> re_match s (RAlt r q) i j"
| m_alt2: "re_match s q i j \<Longrightarrow> re_match s (RAlt r q) i j"
| m_star0: "i \<le> length s \<Longrightarrow> re_match s (RStar r) i i"
| m_star1: "re_match s r i j \<Longrightarrow> re_match s (RStar r) j k \<Longrightarrow> re_match s (RStar r) i k"

inductive_cases match_epsE: "re_match s REps i j"
inductive_cases match_charE: "re_match s (RChar c) i j"
inductive_cases match_char_iE: "re_match s (RCharI c) i j"
inductive_cases match_classE: "re_match s (RClass k) i j"
inductive_cases match_boundaryE: "re_match s RBoundary i j"
inductive_simps match_seq_iff: "re_match s (RSeq r q) i k"
inductive_simps match_alt_iff: "re_match s (RAlt r q) i j"

lemma re_match_range: "re_match s r i j \<Longrightarrow> i \<le> j \<and> j \<le> length s"
  by (induction rule: re_match.induct) (auto simp: char_at_def)

section \<open>The search\<close>

text \<open>The positions reached from \<open>front\<close> by a step function; the fuel bounds the number of rounds.\<close>

fun reach :: "(nat \<Rightarrow> nat list) \<Rightarrow> nat \<Rightarrow> nat list \<Rightarrow> nat list \<Rightarrow> nat list" where
  "reach f 0 front seen = seen"
| "reach f (Suc n) front seen =
     (let new = filter (\<lambda>x. x \<notin> set seen) (remdups (concat (map f front)))
      in if new = [] then seen else reach f n new (new @ seen))"

fun ends :: "string \<Rightarrow> regex \<Rightarrow> nat \<Rightarrow> nat list" where
  "ends s REps i = (if i \<le> length s then [i] else [])"
| "ends s (RChar c) i = (if char_at (\<lambda>x. x = c) s i then [Suc i] else [])"
| "ends s (RCharI c) i = (if char_at (\<lambda>x. lower_char x = c) s i then [Suc i] else [])"
| "ends s (RClass k) i = (if char_at (in_class k) s i then [Suc i] else [])"
| "ends s RBoundary i = (if i \<le> length s \<and> boundary s i then [i] else [])"
| "ends s (RSeq r q) i = remdups (concat (map (ends s q) (ends s r i)))"
| "ends s (RAlt r q) i = remdups (ends s r i @ ends s q i)"
| "ends s (RStar r) i = (if i \<le> length s then reach (ends s r) (Suc (length s)) [i] [i] else [])"

definition re_search :: "regex \<Rightarrow> string \<Rightarrow> bool" where
  "re_search r s = list_ex (\<lambda>i. ends s r i \<noteq> []) [0..<Suc (length s)]"

section \<open>The search finds a match exactly when there is one\<close>

text \<open>
  The closure: everything seen is reachable, what is reachable from an element outside the front is
  already seen in one step, and every round but the last adds a position, of which there are
  \<open>Suc N\<close>.
\<close>

lemma reach_sound:
  assumes "\<And>x y. x \<in> R \<Longrightarrow> y \<in> set (f x) \<Longrightarrow> y \<in> R" and "set front \<subseteq> R" "set seen \<subseteq> R"
  shows "set (reach f n front seen) \<subseteq> R"
  using assms(2,3)
proof (induction n arbitrary: front seen)
  case (Suc n)
  let ?new = "filter (\<lambda>x. x \<notin> set seen) (remdups (concat (map f front)))"
  have "set ?new \<subseteq> R" using Suc.prems assms(1) by auto
  then show ?case using Suc by (auto simp: Let_def)
qed auto

lemma reach_closed:
  assumes "\<And>x y. y \<in> set (f x) \<Longrightarrow> y \<le> N"
    and "set front \<subseteq> set seen" "set seen \<subseteq> {..N}" "distinct seen"
    and "\<And>x y. x \<in> set seen - set front \<Longrightarrow> y \<in> set (f x) \<Longrightarrow> y \<in> set seen"
    and "Suc N \<le> length seen + n"
  shows "set seen \<subseteq> set (reach f n front seen) \<and>
    (\<forall>x\<in>set (reach f n front seen). set (f x) \<subseteq> set (reach f n front seen))"
  using assms(2-)
proof (induction n arbitrary: front seen)
  case 0
  have "card (set seen) = Suc N"
    using 0 card_mono [of "{..N}" "set seen"] by (simp add: distinct_card)
  then have "set seen = {..N}" using 0 by (intro card_subset_eq) auto
  then show ?case using assms(1) by auto
next
  case (Suc n)
  let ?new = "filter (\<lambda>x. x \<notin> set seen) (remdups (concat (map f front)))"
  show ?case
  proof (cases "?new = []")
    case True
    have "y \<in> set seen" if "x \<in> set seen" "y \<in> set (f x)" for x y
      using that Suc.prems(4) True by (cases "x \<in> set front") (auto simp: filter_empty_conv)
    then show ?thesis using True by (auto simp: Let_def)
  next
    case False
    have "set (?new @ seen) \<subseteq> set (reach f n ?new (?new @ seen)) \<and>
      (\<forall>x\<in>set (reach f n ?new (?new @ seen)). set (f x) \<subseteq> set (reach f n ?new (?new @ seen)))"
    proof (rule Suc.IH)
      show "set (?new @ seen) \<subseteq> {..N}" using Suc.prems assms(1) by auto
      show "distinct (?new @ seen)" using Suc.prems by auto
      show "y \<in> set (?new @ seen)" if "x \<in> set (?new @ seen) - set ?new" "y \<in> set (f x)" for x y
        using that Suc.prems(4) by (cases "x \<in> set front") auto
      show "Suc N \<le> length (?new @ seen) + n" using Suc.prems(5) False by (cases ?new) auto
    qed auto
    then show ?thesis using False by (auto simp: Let_def)
  qed
qed

lemma match_star_snoc: "re_match s (RStar r) i j \<Longrightarrow> re_match s r j k \<Longrightarrow> re_match s (RStar r) i k"
proof (induction "RStar r" i j rule: re_match.induct)
  case (m_star0 i)
  then show ?case using re_match.m_star1 re_match.m_star0 re_match_range by blast
next
  case (m_star1 i j k')
  then show ?case using re_match.m_star1 by blast
qed

lemma star_in_closed:
  assumes "re_match s (RStar r) i j" and "i \<in> A" and "\<And>x y. x \<in> A \<Longrightarrow> re_match s r x y \<Longrightarrow> y \<in> A"
  shows "j \<in> A"
  using assms by (induction "RStar r" i j rule: re_match.induct) auto

lemma ends_correct: "j \<in> set (ends s r i) \<longleftrightarrow> re_match s r i j"
proof (induction r arbitrary: i j)
  case (RSeq r q)
  then show ?case by (auto simp: match_seq_iff)
next
  case (RAlt r q)
  then show ?case by (auto simp: match_alt_iff)
next
  case (RStar r)
  let ?R = "reach (ends s r) (Suc (length s)) [i] [i]"
  show ?case
  proof (cases "i \<le> length s")
    case True
    have "set ?R \<subseteq> {j. re_match s (RStar r) i j}"
      by (rule reach_sound) (use RStar True in \<open>auto intro: match_star_snoc re_match.m_star0\<close>)
    moreover have "j \<in> set ?R" if "re_match s (RStar r) i j"
    proof (rule star_in_closed [OF that])
      have "set [i] \<subseteq> set ?R \<and> (\<forall>x\<in>set ?R. set (ends s r x) \<subseteq> set ?R)"
        by (rule reach_closed) (use RStar True re_match_range in auto)
      then show "i \<in> set ?R" and "\<And>x y. x \<in> set ?R \<Longrightarrow> re_match s r x y \<Longrightarrow> y \<in> set ?R"
        using RStar by (simp, blast)
    qed
    ultimately show ?thesis using True by auto
  next
    case False
    then show ?thesis using re_match_range by force
  qed
qed (auto intro: re_match.intros elim: match_epsE match_charE match_char_iE match_classE match_boundaryE)

lemma re_search_iff: "re_search r s \<longleftrightarrow> (\<exists>i j. re_match s r i j)"
proof -
  have "ends s r i \<noteq> [] \<longleftrightarrow> (\<exists>j. re_match s r i j)" for i
    by (simp add: ex_in_conv flip: ends_correct)
  then have "re_search r s \<longleftrightarrow> (\<exists>i\<le>length s. \<exists>j. re_match s r i j)"
    by (auto simp: re_search_def list_ex_iff less_Suc_eq_le simp del: upt_Suc)
  then show ?thesis using re_match_range order_trans by meson
qed

text \<open>Matching concrete pieces of a text.\<close>

lemma match_r_string: "re_match (u @ w @ v) (r_string w) (length u) (length u + length w)"
proof (induction w arbitrary: u)
  case Nil
  then show ?case by (simp add: r_string_def re_match.m_eps)
next
  case (Cons c w)
  have "re_match (u @ (c # w) @ v) (RChar c) (length u) (Suc (length u))"
    by (rule re_match.m_char) (simp add: char_at_def nth_append)
  moreover have "re_match (u @ (c # w) @ v) (r_string w) (Suc (length u)) (length u + length (c # w))"
    using Cons.IH [of "u @ [c]"] by simp
  ultimately show ?case by (simp add: r_string_def re_match.m_seq)
qed

lemma match_class_star:
  assumes "list_all (in_class k) w"
  shows "re_match (u @ w @ v) (RStar (RClass k)) (length u) (length u + length w)"
  using assms
proof (induction w arbitrary: u)
  case Nil
  then show ?case by (simp add: re_match.m_star0)
next
  case (Cons c w)
  have "re_match (u @ (c # w) @ v) (RClass k) (length u) (Suc (length u))"
    by (rule re_match.m_class) (use Cons.prems in \<open>simp add: char_at_def nth_append\<close>)
  moreover have "re_match (u @ (c # w) @ v) (RStar (RClass k)) (Suc (length u)) (length u + length (c # w))"
    using Cons.IH [of "u @ [c]"] Cons.prems by simp
  ultimately show ?case by (rule re_match.m_star1)
qed

end
