(* ===== verification/Glean.thy ===== *)
theory Glean
  imports Py_Regex
begin

text \<open>
  \<open>glean.py\<close>: guidelines as regular expressions on the text of a tool call or its result, the default
  guidelines, and the auditor that records violations and reports the blocking ones. A guideline keeps
  the text of its pattern, which appears in messages, and the expression that the text denotes.
\<close>

section \<open>Guidelines\<close>

record Guideline =
  gl_id :: string
  gl_description :: string
  gl_check :: string
  gl_pattern :: string
  gl_regex :: regex
  gl_severity :: string

record GuidelineViolation =
  gv_guideline_id :: string
  gv_tool_name :: string
  gv_detail :: string
  gv_severity :: string

definition bsl :: string where
  "bsl = [CHR 0x5C]"

definition git_push :: regex where
  "git_push = r_seq [r_string ''git'', r_plus (RClass Space), r_string ''push'', r_plus (RClass Space),
                     RStar (RClass AnyButNewline)]"

definition no_force_push :: Guideline where
  "no_force_push = \<lparr> gl_id = ''no-force-push'',
     gl_description = ''Prevent force-pushing to remote git branches, which can destroy history.'',
     gl_check = ''pre'',
     gl_pattern = ''git'' @ bsl @ ''s+push'' @ bsl @ ''s+.*--force|git'' @ bsl @ ''s+push'' @ bsl @ ''s+.*-f'' @ bsl @ ''b'',
     gl_regex = RAlt (RSeq git_push (r_string ''--force''))
                     (RSeq git_push (RSeq (r_string ''-f'') RBoundary)),
     gl_severity = ''block'' \<rparr>"

definition rm_flags :: "string \<Rightarrow> string \<Rightarrow> regex" where
  "rm_flags a b = r_seq [r_string ''rm'', r_plus (RClass Space), RStar (RClass AnyButNewline), r_string ''-'',
     RStar (RClass Letter), r_string a, RStar (RClass Letter), r_string b, RStar (RClass Letter),
     r_plus (RClass Space), r_string ''/'', RClass (NotIn WordC)]"

definition rm_flags_text :: "string \<Rightarrow> string \<Rightarrow> string" where
  "rm_flags_text a b = ''rm'' @ bsl @ ''s+.*-[a-zA-Z]*'' @ a @ ''[a-zA-Z]*'' @ b @ ''[a-zA-Z]*'' @ bsl @ ''s+/'' @ bsl @ ''W''"

definition no_rm_rf_root :: Guideline where
  "no_rm_rf_root = \<lparr> gl_id = ''no-rm-rf-root'',
     gl_description = ''Prevent recursive deletion of root or home directories.'',
     gl_check = ''pre'',
     gl_pattern = rm_flags_text ''r'' ''f'' @ ''|'' @ rm_flags_text ''f'' ''r'' @ ''|rm'' @ bsl @ ''s+.*-rf'' @ bsl @ ''s+~'',
     gl_regex = RAlt (rm_flags ''r'' ''f'') (RAlt (rm_flags ''f'' ''r'')
        (r_seq [r_string ''rm'', r_plus (RClass Space), RStar (RClass AnyButNewline), r_string ''-rf'',
                r_plus (RClass Space), r_string ''~''])),
     gl_severity = ''block'' \<rparr>"

definition no_secret_in_stdout :: Guideline where
  "no_secret_in_stdout = \<lparr> gl_id = ''no-secret-in-stdout'',
     gl_description = ''Warn when output may contain secrets (API keys, passwords, tokens).'',
     gl_check = ''post'',
     gl_pattern = ''(?i)(api[_-]?key|secret|password|token|bearer)'' @ bsl @ ''s*[=:]'' @ bsl @ ''s*'' @ bsl @ ''S{8,}'',
     gl_regex = r_seq ([RAlt (r_seq [r_string_i ''api'', r_opt (RClass (OneOf ''_-'')), r_string_i ''key''])
          (RAlt (r_string_i ''secret'') (RAlt (r_string_i ''password'') (RAlt (r_string_i ''token'') (r_string_i ''bearer'')))),
        RStar (RClass Space), RClass (OneOf ''=:''), RStar (RClass Space)]
        @ replicate 8 (RClass (NotIn Space)) @ [RStar (RClass (NotIn Space))]),
     gl_severity = ''warning'' \<rparr>"

definition DEFAULT_GUIDELINES :: "Guideline list" where
  "DEFAULT_GUIDELINES = [no_force_push, no_rm_rf_root, no_secret_in_stdout]"

section \<open>The auditor\<close>

record GleanAuditor =
  ga_guidelines :: "Guideline list"
  ga_violations :: "GuidelineViolation list"
  ga_evidence :: "pydict list"

definition new_auditor :: GleanAuditor where
  "new_auditor = \<lparr> ga_guidelines = [], ga_violations = [], ga_evidence = [] \<rparr>"

definition add_guideline :: "Guideline \<Rightarrow> GleanAuditor \<Rightarrow> GleanAuditor" where
  "add_guideline g a = a \<lparr> ga_guidelines := ga_guidelines a @ [g] \<rparr>"

definition pre_violation :: "string \<Rightarrow> string \<Rightarrow> Guideline \<Rightarrow> GuidelineViolation" where
  "pre_violation tool_name subject g =
     \<lparr> gv_guideline_id = gl_id g, gv_tool_name = tool_name,
       gv_detail = ''pre-execution pattern '' @ [quote1] @ gl_pattern g @ [quote1] @ '' matched args: '' @ take 200 subject,
       gv_severity = gl_severity g \<rparr>"

definition post_violation :: "string \<Rightarrow> string \<Rightarrow> Guideline \<Rightarrow> GuidelineViolation" where
  "post_violation tool_name subject g =
     \<lparr> gv_guideline_id = gl_id g, gv_tool_name = tool_name,
       gv_detail = ''post-execution pattern '' @ [quote1] @ gl_pattern g @ [quote1] @ '' matched result: '' @ take 200 subject,
       gv_severity = gl_severity g \<rparr>"

definition matching :: "string \<Rightarrow> string \<Rightarrow> GleanAuditor \<Rightarrow> Guideline list" where
  "matching phase subject a = filter (\<lambda>g. gl_check g = phase \<and> re_search (gl_regex g) subject) (ga_guidelines a)"

definition is_blocking :: "GuidelineViolation \<Rightarrow> bool" where
  "is_blocking v = (gv_severity v = ''block'')"

definition check_pre_execution ::
  "string \<Rightarrow> pydict \<Rightarrow> GleanAuditor \<Rightarrow> GuidelineViolation list \<times> GleanAuditor" where
  "check_pre_execution tool_name tool_args a =
     (let subject = py_str (PDict tool_args);
          new = map (pre_violation tool_name subject) (matching ''pre'' subject a)
      in (filter is_blocking new, a \<lparr> ga_violations := ga_violations a @ new \<rparr>))"

definition check_post_execution ::
  "string \<Rightarrow> pydict \<Rightarrow> GleanAuditor \<Rightarrow> GuidelineViolation list \<times> GleanAuditor" where
  "check_post_execution tool_name res a =
     (let subject = py_str (PDict res);
          new = map (post_violation tool_name subject) (matching ''post'' subject a)
      in (new, a \<lparr> ga_violations := ga_violations a @ new \<rparr>))"

definition record_evidence :: "string \<Rightarrow> string \<Rightarrow> string \<Rightarrow> GleanAuditor \<Rightarrow> GleanAuditor" where
  "record_evidence tool_name action detail a =
     a \<lparr> ga_evidence := ga_evidence a @ [[(''tool_name'', PStr tool_name), (''action'', PStr action),
                                          (''detail'', PStr detail)]] \<rparr>"

definition glean_summary :: "GleanAuditor \<Rightarrow> pydict" where
  "glean_summary a =
     (let blocking = filter is_blocking (ga_violations a) in
      [(''guidelines_checked'', PInt (int (length (ga_guidelines a)))),
       (''violations'', PInt (int (length (ga_violations a)))),
       (''blocking_violations'', PInt (int (length blocking))),
       (''evidence_entries'', PInt (int (length (ga_evidence a)))),
       (''compliant'', PBool (length blocking = 0))])"

definition export_violations :: "GleanAuditor \<Rightarrow> pydict list" where
  "export_violations a =
     map (\<lambda>v. [(''guideline_id'', PStr (gv_guideline_id v)), (''tool_name'', PStr (gv_tool_name v)),
                (''detail'', PStr (gv_detail v)), (''severity'', PStr (gv_severity v))]) (ga_violations a)"

text \<open>\<open>_maybe_create_glean_auditor\<close> of \<open>nodes/executor.py\<close>; \<open>flag\<close> is the variable \<open>LG_GLEAN_ENABLED\<close>, if set.\<close>

definition maybe_create_glean_auditor :: "string option \<Rightarrow> GleanAuditor option" where
  "maybe_create_glean_auditor flag =
     (if lower (case flag of None \<Rightarrow> ''false'' | Some v \<Rightarrow> v) \<notin> {''true'', ''1'', ''yes''} then None
      else Some (fold add_guideline DEFAULT_GUIDELINES new_auditor))"

section \<open>Properties\<close>

lemma default_auditor:
  "maybe_create_glean_auditor flag = Some a \<Longrightarrow>
     a = \<lparr> ga_guidelines = DEFAULT_GUIDELINES, ga_violations = [], ga_evidence = [] \<rparr>"
  by (simp add: maybe_create_glean_auditor_def add_guideline_def new_auditor_def DEFAULT_GUIDELINES_def
      split: if_splits)

lemma check_pre_grows:
  "check_pre_execution t args a = (b, a') \<Longrightarrow> ga_guidelines a' = ga_guidelines a \<and>
     (\<exists>new. ga_violations a' = ga_violations a @ new \<and> b = filter is_blocking new)"
  by (auto simp: check_pre_execution_def Let_def)

lemma check_post_grows:
  "check_post_execution t r a = (b, a') \<Longrightarrow> ga_guidelines a' = ga_guidelines a \<and>
     ga_violations a' = ga_violations a @ b"
  by (auto simp: check_post_execution_def Let_def)

lemma match_space_plus:
  "list_all is_space w \<Longrightarrow> w \<noteq> [] \<Longrightarrow>
     re_match (u @ w @ v) (r_plus (RClass Space)) (length u) (length u + length w)"
proof -
  assume a: "list_all is_space w" "w \<noteq> []"
  then obtain c w' where w: "w = c # w'" by (cases w) auto
  have "re_match (u @ w @ v) (RClass Space) (length u) (Suc (length u))"
    by (rule re_match.m_class) (use a w in \<open>simp add: char_at_def nth_append\<close>)
  moreover have "re_match (u @ w @ v) (RStar (RClass Space)) (Suc (length u)) (length u + length w)"
    using match_class_star [of Space w' "u @ [c]" v] a w by (simp add: list_all_iff)
  ultimately show ?thesis by (rule re_match.m_seq)
qed

lemma match_r_seq_Cons: "re_match s r i j \<Longrightarrow> re_match s (r_seq rs) j k \<Longrightarrow> re_match s (r_seq (r # rs)) i k"
  by (auto simp: r_seq_def intro: re_match.m_seq)

lemma match_r_seq_Nil: "i \<le> length s \<Longrightarrow> re_match s (r_seq []) i i"
  by (simp add: r_seq_def re_match.m_eps)

lemma match_git_push:
  assumes "list_all is_space p" "p \<noteq> []" "list_all is_space q" "q \<noteq> []" "list_all (\<lambda>c. code c \<noteq> 10) w"
  shows "re_match (u @ ''git'' @ p @ ''push'' @ q @ w @ v) git_push (length u)
           (length (u @ ''git'' @ p @ ''push'' @ q @ w))"
proof -
  let ?s = "u @ ''git'' @ p @ ''push'' @ q @ w @ v"
  have 1: "re_match ?s (r_string ''git'') (length u) (length (u @ ''git''))"
    using match_r_string [of u "''git''" "p @ ''push'' @ q @ w @ v"] by simp
  have 2: "re_match ?s (r_plus (RClass Space)) (length (u @ ''git'')) (length (u @ ''git'' @ p))"
    using match_space_plus [OF assms(1,2), of "u @ ''git''" "''push'' @ q @ w @ v"] by (simp add: ac_simps)
  have 3: "re_match ?s (r_string ''push'') (length (u @ ''git'' @ p)) (length (u @ ''git'' @ p @ ''push''))"
    using match_r_string [of "u @ ''git'' @ p" "''push''" "q @ w @ v"] by (simp add: ac_simps)
  have 4: "re_match ?s (r_plus (RClass Space)) (length (u @ ''git'' @ p @ ''push'')) (length (u @ ''git'' @ p @ ''push'' @ q))"
    using match_space_plus [OF assms(3,4), of "u @ ''git'' @ p @ ''push''" "w @ v"] by (simp add: ac_simps)
  have 5: "re_match ?s (RStar (RClass AnyButNewline)) (length (u @ ''git'' @ p @ ''push'' @ q))
             (length (u @ ''git'' @ p @ ''push'' @ q @ w))"
    using match_class_star [of AnyButNewline w "u @ ''git'' @ p @ ''push'' @ q" v] assms(5)
    by (simp add: ac_simps list_all_iff)
  have 6: "re_match ?s (r_seq []) (length (u @ ''git'' @ p @ ''push'' @ q @ w)) (length (u @ ''git'' @ p @ ''push'' @ q @ w))"
    by (rule match_r_seq_Nil) simp
  show ?thesis
    unfolding git_push_def
    using match_r_seq_Cons [OF 1 match_r_seq_Cons [OF 2 match_r_seq_Cons [OF 3
        match_r_seq_Cons [OF 4 match_r_seq_Cons [OF 5 6]]]]] .
qed

text \<open>
  With the default guidelines, a tool call whose arguments contain a command line \<open>git push\<close> with
  \<open>--force\<close> after it on the same line is blocked, whatever stands around and between the words.
\<close>

theorem force_push_blocked:
  assumes a: "maybe_create_glean_auditor flag = Some a"
    and args: "py_str (PDict args) = u @ ''git'' @ p @ ''push'' @ q @ w @ ''--force'' @ v"
    and sp: "list_all is_space p" "p \<noteq> []" "list_all is_space q" "q \<noteq> []"
    and w: "list_all (\<lambda>c. code c \<noteq> 10) w"
  shows "fst (check_pre_execution tool args a) \<noteq> [] \<and>
         dget (glean_summary (snd (check_pre_execution tool args a))) ''compliant'' PNone = PBool False"
proof -
  let ?s = "u @ ''git'' @ p @ ''push'' @ q @ w @ ''--force'' @ v"
  have "re_match ?s git_push (length u) (length (u @ ''git'' @ p @ ''push'' @ q @ w))"
    using match_git_push [OF sp w, of u "''--force'' @ v"] by simp
  moreover have "re_match ?s (r_string ''--force'') (length (u @ ''git'' @ p @ ''push'' @ q @ w))
      (length (u @ ''git'' @ p @ ''push'' @ q @ w @ ''--force''))"
    using match_r_string [of "u @ ''git'' @ p @ ''push'' @ q @ w" "''--force''" v] by (simp add: ac_simps)
  ultimately have "re_match ?s (gl_regex no_force_push) (length u) (length (u @ ''git'' @ p @ ''push'' @ q @ w @ ''--force''))"
    by (auto simp: no_force_push_def intro: re_match.m_alt1 re_match.m_seq)
  then have s: "re_search (gl_regex no_force_push) ?s" unfolding re_search_iff by blast
  have "pre_violation tool ?s no_force_push \<in> set (fst (check_pre_execution tool args a))"
    using s default_auditor [OF a] args
    by (auto simp: check_pre_execution_def matching_def DEFAULT_GUIDELINES_def Let_def is_blocking_def
        pre_violation_def no_force_push_def)
  then have ne: "fst (check_pre_execution tool args a) \<noteq> []" by auto
  obtain new where "ga_violations (snd (check_pre_execution tool args a)) = ga_violations a @ new"
    "fst (check_pre_execution tool args a) = filter is_blocking new"
    using check_pre_grows [OF surjective_pairing] by blast
  with ne have "filter is_blocking (ga_violations (snd (check_pre_execution tool args a))) \<noteq> []" by simp
  then show ?thesis using ne by (simp add: glean_summary_def Let_def)
qed

theorem force_push_blocked_witness:
  "\<exists>a. maybe_create_glean_auditor (Some ''true'') = Some a \<and>
     fst (check_pre_execution ''exec'' [(''cmd'', PStr ''git push origin --force'')] a) \<noteq> []"
proof -
  let ?args = "[(''cmd'', PStr ''git push origin --force'')]"
  obtain a where a: "maybe_create_glean_auditor (Some ''true'') = Some a"
    by (simp add: maybe_create_glean_auditor_def lower_def lower_char_def code_def Let_def)
  have s: "py_str (PDict ?args) = ''{'' @ [quote1] @ ''cmd'' @ [quote1] @ '': '' @ [quote1] @ ''git push origin --force'' @ [quote1] @ ''}''"
    by code_simp
  have "fst (check_pre_execution ''exec'' ?args a) \<noteq> [] \<and>
         dget (glean_summary (snd (check_pre_execution ''exec'' ?args a))) ''compliant'' PNone = PBool False"
    by (rule force_push_blocked [OF a, where u = "''{'' @ [quote1] @ ''cmd'' @ [quote1] @ '': '' @ [quote1]"
          and p = "'' ''" and q = "'' ''" and w = "''origin ''" and v = "[quote1] @ ''}''"])
       (simp_all add: s is_space_def code_def Let_def)
  then show ?thesis using a by blast
qed

text \<open>
  The same command in the form in which the runner's \<open>exec\<close> tool takes it, a program and a list of
  arguments, is not blocked: in the text of the dictionary quotes and commas separate the words, and
  the pattern only allows white space between them.
\<close>

theorem structured_force_push_not_blocked:
  "fst (check_pre_execution ''exec''
      [(''cmd'', PStr ''git''), (''args'', PList [PStr ''push'', PStr ''--force''])]
      \<lparr> ga_guidelines = DEFAULT_GUIDELINES, ga_violations = [], ga_evidence = [] \<rparr>) = []"
  by code_simp

end
