(* ===== verification/Sha256.thy ===== *)
theory Sha256
  imports Py_Text "HOL-Library.Word"
begin

text \<open>
  \<open>hashlib.sha256(text.encode("utf-8")).hexdigest()\<close>: the secure hash standard on 32-bit words,
  used by the code for failure fingerprints and for the digests of evicted tool output.
\<close>

unbundle bit_operations_syntax

type_synonym u32 = "32 word"

definition utf8_bytes :: "string \<Rightarrow> nat list" where
  "utf8_bytes s = concat (map (\<lambda>c. if code c < 128 then [code c]
                                   else [192 + code c div 64, 128 + code c mod 64]) s)"

lemma length_utf8_bytes: "length (utf8_bytes s) = utf8_len s"
  unfolding utf8_bytes_def utf8_len_def by (induction s) auto

text \<open>
  The constants are those of the standard: the first 32 bits of the fractional parts of the square roots
  (initial state) and of the cube roots (round constants) of the first primes.
\<close>

definition int_root :: "nat \<Rightarrow> int \<Rightarrow> int" where
  "int_root k n = fold (\<lambda>i r. if (r + 2 ^ i) ^ k \<le> n then r + 2 ^ i else r) (rev [0..<36]) 0"

definition frac_root :: "nat \<Rightarrow> int \<Rightarrow> u32" where
  "frac_root k p = of_int (int_root k (p * 2 ^ (32 * k)))"

definition sha_primes :: "int list" where
  "sha_primes = [
    2, 3, 5, 7, 11, 13, 17, 19, 23, 29, 31, 37, 41, 43, 47, 53,
    59, 61, 67, 71, 73, 79, 83, 89, 97, 101, 103, 107, 109, 113, 127, 131,
    137, 139, 149, 151, 157, 163, 167, 173, 179, 181, 191, 193, 197, 199, 211, 223,
    227, 229, 233, 239, 241, 251, 257, 263, 269, 271, 277, 281, 283, 293, 307, 311]"

definition sha_k :: "u32 list" where
  "sha_k = map (frac_root 3) sha_primes"

definition sha_init :: "u32 list" where
  "sha_init = map (frac_root 2) (take 8 sha_primes)"

definition rotr :: "nat \<Rightarrow> u32 \<Rightarrow> u32" where
  "rotr n x = drop_bit n x OR push_bit (32 - n) x"

definition be_bytes :: "nat \<Rightarrow> nat \<Rightarrow> nat list" where
  "be_bytes n v = map (\<lambda>i. v div 256 ^ (n - 1 - i) mod 256) [0..<n]"

definition sha_pad :: "nat list \<Rightarrow> nat list" where
  "sha_pad bs = (let l = length bs in
     bs @ [128] @ replicate ((119 - l mod 64) mod 64) 0 @ be_bytes 8 (8 * l))"

fun be_words :: "nat list \<Rightarrow> u32 list" where
  "be_words (a # b # c # d # bs) = of_nat (((a * 256 + b) * 256 + c) * 256 + d) # be_words bs"
| "be_words _ = []"

definition sched_next :: "u32 list \<Rightarrow> u32" where
  "sched_next ws = (let n = length ws; a = ws ! (n - 15); b = ws ! (n - 2);
       s0 = rotr 7 a XOR rotr 18 a XOR drop_bit 3 a;
       s1 = rotr 17 b XOR rotr 19 b XOR drop_bit 10 b
     in ws ! (n - 16) + s0 + ws ! (n - 7) + s1)"

definition sha_schedule :: "u32 list \<Rightarrow> u32 list" where
  "sha_schedule ws = ((\<lambda>v. v @ [sched_next v]) ^^ 48) ws"

fun sha_round :: "(u32 \<times> u32) \<Rightarrow> u32 list \<Rightarrow> u32 list" where
  "sha_round (k, w) [a, b, c, d, e, f, g, h] =
     (let s1 = rotr 6 e XOR rotr 11 e XOR rotr 25 e;
          ch = (e AND f) XOR (NOT e AND g);
          t1 = h + s1 + ch + k + w;
          s0 = rotr 2 a XOR rotr 13 a XOR rotr 22 a;
          maj = (a AND b) XOR (a AND c) XOR (b AND c)
      in [t1 + (s0 + maj), a, b, c, d + t1, e, f, g])"
| "sha_round _ st = st"

definition sha_block :: "u32 list \<Rightarrow> u32 list \<Rightarrow> u32 list" where
  "sha_block ws st = map2 (+) st (fold sha_round (zip sha_k (sha_schedule ws)) st)"

fun sha_blocks :: "nat \<Rightarrow> u32 list \<Rightarrow> u32 list \<Rightarrow> u32 list" where
  "sha_blocks 0 ws st = st"
| "sha_blocks (Suc n) ws st = sha_blocks n (drop 16 ws) (sha_block (take 16 ws) st)"

definition hex8 :: "u32 \<Rightarrow> string" where
  "hex8 w = concat (map hex2 (be_bytes 4 (unat w)))"

definition sha256_hex :: "string \<Rightarrow> string" where
  "sha256_hex s = (let ws = be_words (sha_pad (utf8_bytes s))
                   in concat (map hex8 (sha_blocks (length ws div 16) ws sha_init)))"

lemma length_hex8 [simp]: "length (hex8 w) = 8"
proof -
  have "[0..<4::nat] = [0, 1, 2, 3]" by (simp add: upt_rec)
  then show ?thesis by (simp add: hex8_def be_bytes_def hex2_def)
qed

lemma length_sha_round: "length st = 8 \<Longrightarrow> length (sha_round kw st) = 8"
  by (cases "(kw, st)" rule: sha_round.cases) (auto simp: Let_def)

lemma length_sha_block: "length st = 8 \<Longrightarrow> length (sha_block ws st) = 8"
proof -
  assume "length st = 8"
  moreover from this have "length (fold sha_round xs st) = 8" for xs
    by (induction xs arbitrary: st) (auto simp: length_sha_round)
  ultimately show ?thesis by (simp add: sha_block_def)
qed

lemma length_sha_blocks: "length st = 8 \<Longrightarrow> length (sha_blocks n ws st) = 8"
  by (induction n arbitrary: ws st) (auto simp: length_sha_block)

text \<open>The digest is 64 characters; the code keeps a prefix of it as a fingerprint.\<close>

lemma length_sha256_hex: "length (sha256_hex s) = 64"
proof -
  have concat: "length (concat (map hex8 ws)) = 8 * length ws" for ws
    by (induction ws) auto
  have "length sha_init = 8" by (simp add: sha_init_def sha_primes_def)
  then show ?thesis by (simp add: sha256_hex_def Let_def concat length_sha_blocks)
qed

end
