(* ===== verification/Approvals.thy ===== *)
theory Approvals
  imports Sha256
begin

text \<open>
  \<open>api/approvals.py\<close>: signed approval tokens, the tool that an approval is for, the text of an approval
  request and the handler of the approval endpoint. The environment variable with the secret, the
  nonce and the clock are arguments; the run service is the argument \<open>approve_run\<close>. \<open>coerce_approval_token\<close>,
  the check of a token's shape in \<open>nodes/executor.py\<close>, is here beside the generator.
\<close>

section \<open>HMAC-SHA256\<close>

definition sha256_bytes :: "nat list \<Rightarrow> nat list" where
  "sha256_bytes bs = (let ws = be_words (sha_pad bs)
                      in concat (map (\<lambda>w. be_bytes 4 (unat w)) (sha_blocks (length ws div 16) ws sha_init)))"

definition xor_bytes :: "nat \<Rightarrow> nat list \<Rightarrow> nat list" where
  "xor_bytes k bs = map (\<lambda>b. unat (Bit_Operations.xor (of_nat b :: 8 word) (of_nat k))) bs"

definition hmac_key :: "nat list \<Rightarrow> nat list" where
  "hmac_key k = (let k' = (if 64 < length k then sha256_bytes k else k)
                 in k' @ replicate (64 - length k') 0)"

definition hmac_sha256_hex :: "string \<Rightarrow> string \<Rightarrow> string" where
  "hmac_sha256_hex secret message =
     (let k = hmac_key (utf8_bytes secret)
      in concat (map hex2 (sha256_bytes (xor_bytes 92 k @ sha256_bytes (xor_bytes 54 k @ utf8_bytes message)))))"

section \<open>Tokens\<close>

definition approval_token_for_challenge :: "string \<Rightarrow> nat \<Rightarrow> string \<Rightarrow> string \<Rightarrow> string" where
  "approval_token_for_challenge secret iat nonce challenge_id =
     (if secret = [] then ''approve:'' @ challenge_id
      else let message = challenge_id @ ''|'' @ nat_str iat @ ''|'' @ nonce;
               signature = hmac_sha256_hex secret message
           in challenge_id @ ''.'' @ nat_str iat @ ''.'' @ nonce @ ''.'' @ signature)"

text \<open>Four non-empty parts separated by dots or by bars, or no separator at all.\<close>

definition token_shape_ok :: "string \<Rightarrow> bool" where
  "token_shape_ok token_s =
     (let dot_parts = split_on (CHR ''.'') token_s; pipe_parts = split_on (CHR ''|'') token_s
      in if length dot_parts = 4 then list_all (\<lambda>p. p \<noteq> []) dot_parts
         else if length pipe_parts = 4 then list_all (\<lambda>p. p \<noteq> []) pipe_parts
         else length dot_parts = 1 \<and> length pipe_parts = 1)"

definition coerce_approval_token :: "pyval \<Rightarrow> pydict option" where
  "coerce_approval_token raw = (case raw of
       PDict d \<Rightarrow>
         (case (dget d ''challenge_id'' PNone, dget d ''token'' PNone) of
            (PStr challenge_id, PStr token) \<Rightarrow>
              if strip challenge_id = [] \<or> strip token = [] then None
              else if token_shape_ok (strip token)
              then Some [(''challenge_id'', PStr (strip challenge_id)), (''token'', PStr (strip token))]
              else None
          | _ \<Rightarrow> None)
     | _ \<Rightarrow> None)"

section \<open>Requests\<close>

definition non_empty_str :: "pyval \<Rightarrow> string option" where
  "non_empty_str raw = (case raw of PStr s \<Rightarrow> if strip s = [] then None else Some (strip s) | _ \<Rightarrow> None)"

definition opt_or :: "'a option \<Rightarrow> 'a \<Rightarrow> 'a" where
  "opt_or x d = (case x of None \<Rightarrow> d | Some y \<Rightarrow> y)"

definition tool_name_for_approval :: "string \<Rightarrow> string \<Rightarrow> string" where
  "tool_name_for_approval operation_class challenge_id =
     (let joined = lower (operation_class @ '':'' @ challenge_id) in
      if sublist ''apply_patch'' joined then ''apply_patch''
      else if sublist ''exec'' joined then ''exec'' else ''apply_patch'')"

definition approval_summary_text :: "pydict \<Rightarrow> string" where
  "approval_summary_text details =
     (let operation_class = opt_or (non_empty_str (dget details ''operation_class'' PNone)) ''mutation'';
          reason = opt_or (non_empty_str (dget details ''reason'' PNone)) ''approval_required'';
          s1 = operation_class @ '' requires approval'';
          s2 = (case non_empty_str (dget details ''challenge_id'' PNone) of
                  None \<Rightarrow> s1 | Some c \<Rightarrow> s1 @ '' ('' @ c @ '')'')
      in if reason \<notin> {''approval_required'', ''challenge_required'', ''missing_approval_token''}
         then s2 @ '': '' @ reason else s2)"

definition handle_spa_approve ::
  "(string \<Rightarrow> pydict \<Rightarrow> string \<Rightarrow> pydict option result) \<Rightarrow> string \<Rightarrow> pydict \<Rightarrow> string \<Rightarrow> pydict result" where
  "handle_spa_approve approve_run run_id payload auth_subject =
     (let actor = opt_or (non_empty_str (dget payload ''actor'' PNone)) (or_str auth_subject ''spa'');
          opt = (\<lambda>k. case non_empty_str (dget payload k PNone) of None \<Rightarrow> [] | Some v \<Rightarrow> [(k, PStr v)]);
          approve_payload = [(''actor'', PStr actor)] @ opt ''challenge_id'' @ opt ''rationale''
      in bind_r (approve_run run_id approve_payload auth_subject) (\<lambda>r. case r of
           None \<Rightarrow> Inl (ValueError ''run_not_found'') | Some d \<Rightarrow> Inr d))"

section \<open>A generated token has the shape that is accepted\<close>

lemma split_on_no_sep: "c \<notin> set s \<Longrightarrow> split_on c s = [s]"
  by (induction s) auto

lemma split_on_append: "c \<notin> set u \<Longrightarrow> split_on c (u @ c # v) = u # split_on c v"
  by (induction u) auto

lemma hex_char_safe: "n < 16 \<Longrightarrow> hex_char n \<noteq> CHR ''.'' \<and> hex_char n \<noteq> CHR ''|'' \<and> \<not> is_space (hex_char n)"
proof -
  assume "n < 16"
  then have "n \<in> {0..<16}" by simp
  moreover have "\<forall>n\<in>{0..<16::nat}. hex_char n \<noteq> CHR ''.'' \<and> hex_char n \<noteq> CHR ''|'' \<and> \<not> is_space (hex_char n)"
    by code_simp
  ultimately show ?thesis by blast
qed

lemma be_bytes_less: "b \<in> set (be_bytes k n) \<Longrightarrow> b < 256"
  by (auto simp: be_bytes_def)

lemma sha256_bytes_less: "b \<in> set (sha256_bytes bs) \<Longrightarrow> b < 256"
  by (auto simp: sha256_bytes_def Let_def dest: be_bytes_less)

lemma length_sha256_bytes: "length (sha256_bytes bs) = 32"
proof -
  have concat: "length (concat (map (\<lambda>w. be_bytes 4 (unat (w :: 32 word))) ws)) = 4 * length ws" for ws
    by (induction ws) (auto simp: be_bytes_def)
  have "length sha_init = 8" by (simp add: sha_init_def sha_primes_def)
  then show ?thesis by (simp add: sha256_bytes_def Let_def concat length_sha_blocks)
qed

lemma hmac_safe:
  "c \<in> set (hmac_sha256_hex s m) \<Longrightarrow> c \<noteq> CHR ''.'' \<and> c \<noteq> CHR ''|'' \<and> \<not> is_space c"
  and hmac_nonempty: "hmac_sha256_hex s m \<noteq> []"
proof -
  define bs where "bs = sha256_bytes (xor_bytes 92 (hmac_key (utf8_bytes s))
     @ sha256_bytes (xor_bytes 54 (hmac_key (utf8_bytes s)) @ utf8_bytes m))"
  have h: "hmac_sha256_hex s m = concat (map hex2 bs)" by (simp add: hmac_sha256_hex_def bs_def Let_def)
  have "length bs = 32" by (simp add: bs_def length_sha256_bytes)
  then show "hmac_sha256_hex s m \<noteq> []" unfolding h by (cases bs) (auto simp: hex2_def)
  show "c \<noteq> CHR ''.'' \<and> c \<noteq> CHR ''|'' \<and> \<not> is_space c" if c: "c \<in> set (hmac_sha256_hex s m)"
  proof -
    obtain b where b: "b \<in> set bs" "c \<in> set (hex2 b)" using c unfolding h by auto
    then have "b < 256" using sha256_bytes_less by (simp add: bs_def)
    then have "b div 16 < 16" by (simp add: less_mult_imp_div_less)
    then show ?thesis using b(2) hex_char_safe [of "b div 16"] hex_char_safe [of "b mod 16"]
      by (auto simp: hex2_def)
  qed
qed

lemma nat_str_digits: "c \<in> set (nat_str n) \<Longrightarrow> 48 \<le> code c \<and> code c \<le> 57"
proof (induction n rule: nat_str.induct)
  case (1 n)
  then show ?case by (subst (asm) (2) nat_str.simps) (auto simp: code_digit_char split: if_splits)
qed

text \<open>The parts of a token.\<close>

lemma token_parts:
  fixes secret c nonce :: string and iat :: nat
  assumes "secret \<noteq> []"
  defines "sig \<equiv> hmac_sha256_hex secret (c @ ''|'' @ nat_str iat @ ''|'' @ nonce)"
  shows "approval_token_for_challenge secret iat nonce c = c @ CHR ''.'' # nat_str iat @ CHR ''.'' # nonce @ CHR ''.'' # sig"
    and "sig \<noteq> []" "CHR ''.'' \<notin> set sig" "CHR ''|'' \<notin> set sig" "\<not> is_space (last sig)"
    and "CHR ''.'' \<notin> set (nat_str iat)" "CHR ''|'' \<notin> set (nat_str iat)"
proof -
  show "approval_token_for_challenge secret iat nonce c = c @ CHR ''.'' # nat_str iat @ CHR ''.'' # nonce @ CHR ''.'' # sig"
    using assms(1) by (simp add: approval_token_for_challenge_def sig_def Let_def)
  show "sig \<noteq> []" "CHR ''.'' \<notin> set sig" "CHR ''|'' \<notin> set sig" "\<not> is_space (last sig)"
    using hmac_safe hmac_nonempty last_in_set unfolding sig_def by blast+
  show "CHR ''.'' \<notin> set (nat_str iat)" "CHR ''|'' \<notin> set (nat_str iat)"
    using nat_str_digits [of "CHR ''.''" iat] nat_str_digits [of "CHR ''|''" iat] by (auto simp: code_def)
qed

text \<open>
  A token made with a secret for a challenge without a dot is accepted by the shape check of the
  executor, unchanged and together with its challenge, for every secret, time and non-empty nonce
  without a dot (the generator draws hexadecimal digits).
\<close>

theorem generated_token_accepted:
  assumes "secret \<noteq> []" and "c \<noteq> []" "\<not> is_space (hd c)" "\<not> is_space (last c)" "CHR ''.'' \<notin> set c"
    and "nonce \<noteq> []" "CHR ''.'' \<notin> set nonce"
  shows "coerce_approval_token (PDict [(''challenge_id'', PStr c),
            (''token'', PStr (approval_token_for_challenge secret iat nonce c))])
         = Some [(''challenge_id'', PStr c), (''token'', PStr (approval_token_for_challenge secret iat nonce c))]"
proof -
  note t = token_parts [OF assms(1)]
  define tok where "tok = approval_token_for_challenge secret iat nonce c"
  have tok: "tok = c @ CHR ''.'' # nat_str iat @ CHR ''.'' # nonce @ CHR ''.'' # hmac_sha256_hex secret (c @ ''|'' @ nat_str iat @ ''|'' @ nonce)"
    unfolding tok_def by (rule t(1))
  have "split_on (CHR ''.'') tok = [c, nat_str iat, nonce, hmac_sha256_hex secret (c @ ''|'' @ nat_str iat @ ''|'' @ nonce)]"
    using assms t by (simp add: tok split_on_append split_on_no_sep)
  moreover have "strip c = c" by (rule strip_ends) (use assms in auto)
  moreover have "strip tok = tok" by (rule strip_ends) (use assms t in \<open>auto simp: tok\<close>)
  moreover have "tok \<noteq> []" by (simp add: tok)
  ultimately have "coerce_approval_token (PDict [(''challenge_id'', PStr c), (''token'', PStr tok)])
         = Some [(''challenge_id'', PStr c), (''token'', PStr tok)]"
    using assms(2,6) t(2) by (simp add: coerce_approval_token_def token_shape_ok_def Let_def)
  then show ?thesis by (simp add: tok_def)
qed

theorem generated_token_accepted_witness:
  "coerce_approval_token (PDict [(''challenge_id'', PStr ''approval:apply_patch''),
      (''token'', PStr (approval_token_for_challenge ''k'' 7 ''ab'' ''approval:apply_patch''))]) \<noteq> None"
  using generated_token_accepted [of "''k''" "''approval:apply_patch''" "''ab''" 7]
  by (simp add: is_space_def code_def)

lemma length_split_on: "length (split_on c s) = length (filter (\<lambda>x. x = c) s) + 1"
proof (induction s)
  case (Cons x s)
  then show ?case by (cases "split_on c s") auto
qed simp

text \<open>
  C36. The shape check is too narrow for the other challenges: the runner allows dots in a challenge, but a token that is made
  for a challenge with a dot (and no bar) is never accepted. So for challenges without bars the tokens that are
  accepted are exactly those whose challenge has no dot.
\<close>

theorem token_accepted_iff:
  assumes "secret \<noteq> []" and "c \<noteq> []" "\<not> is_space (hd c)" "\<not> is_space (last c)" "CHR ''|'' \<notin> set c"
    and "nonce \<noteq> []" "CHR ''.'' \<notin> set nonce" "CHR ''|'' \<notin> set nonce"
  shows "coerce_approval_token (PDict [(''challenge_id'', PStr c),
            (''token'', PStr (approval_token_for_challenge secret iat nonce c))])
         = (if CHR ''.'' \<in> set c then None
            else Some [(''challenge_id'', PStr c), (''token'', PStr (approval_token_for_challenge secret iat nonce c))])"
proof (cases "CHR ''.'' \<in> set c")
  case True
  note t = token_parts [OF assms(1)]
  define tok where "tok = approval_token_for_challenge secret iat nonce c"
  have tok: "tok = c @ CHR ''.'' # nat_str iat @ CHR ''.'' # nonce @ CHR ''.'' # hmac_sha256_hex secret (c @ ''|'' @ nat_str iat @ ''|'' @ nonce)"
    unfolding tok_def by (rule t(1))
  have "filter (\<lambda>x. x = CHR ''.'') c \<noteq> []" using True by (auto simp: filter_empty_conv)
  then have "4 < length (split_on (CHR ''.'') tok)" by (simp add: length_split_on tok)
  moreover have "length (split_on (CHR ''|'') tok) = 1"
    using assms(5,8) t(4,7) by (simp add: length_split_on tok filter_empty_conv) blast
  moreover have "strip tok = tok" by (rule strip_ends) (use assms t in \<open>auto simp: tok\<close>)
  ultimately show ?thesis using True by (simp add: coerce_approval_token_def token_shape_ok_def Let_def flip: tok_def)
next
  case False
  then show ?thesis using generated_token_accepted [OF assms(1-4) _ assms(6,7)] by simp
qed

theorem token_accepted_iff_witness:
  "coerce_approval_token (PDict [(''challenge_id'', PStr ''v1.2''), (''token'', PStr (approval_token_for_challenge ''k'' 7 ''ab'' ''v1.2''))]) = None"
  using token_accepted_iff [of "''k''" "''v1.2''" "''ab''" 7] by (simp add: is_space_def code_def)

end
