(* ===== verification/Policy.thy ===== *)
theory Policy
  imports Py_Text
begin

text \<open>
  The policy component: \<open>policy.py\<close> (network policy and loop budget), the trace helpers of
  \<open>trace.py\<close> that every node calls, the graph node \<open>nodes/policy_gate.py\<close> and the entry node
  \<open>nodes/ingest.py\<close>.

  What is outside the repository enters as an argument: \<open>validate\<close> is pydantic's adapter for a
  non-negative integer (\<open>None\<close> when it raises), \<open>now\<close> gives the clock reading taken for the n-th
  event of a trace, and \<open>uuid\<close> is a fresh hexadecimal identifier.
\<close>

section \<open>Network policy and loop budget (policy.py)\<close>

record PolicyDecision =
  allow_network :: bool
  require_approval_for_mutations :: bool
  allowed_write_paths :: "string list"

record LoopBudgetDecision =
  lb_allow :: bool
  lb_current_loop :: int
  lb_max_loops :: int
  lb_halt_reason :: string

definition decide_policy :: "string \<Rightarrow> bool \<Rightarrow> string list \<Rightarrow> PolicyDecision" where
  "decide_policy network_default require_approval paths =
     \<lparr> allow_network = (lower (strip network_default) = ''allow''),
       require_approval_for_mutations = require_approval,
       allowed_write_paths = map strip (filter (\<lambda>p. strip p \<noteq> []) paths) \<rparr>"

type_synonym int_adapter = "pyval \<Rightarrow> int option"

definition coerce_non_negative_int :: "int_adapter \<Rightarrow> pyval \<Rightarrow> int \<Rightarrow> int" where
  "coerce_non_negative_int validate value fallback = (case value of
       PBool b \<Rightarrow> fallback
     | _ \<Rightarrow> (let v = (case value of PStr s \<Rightarrow> PStr (strip s) | _ \<Rightarrow> value)
            in case validate v of None \<Rightarrow> fallback | Some i \<Rightarrow> i))"

definition enforce_loop_budget ::
  "int_adapter \<Rightarrow> pydict \<Rightarrow> int \<Rightarrow> int option \<Rightarrow> LoopBudgetDecision" where
  "enforce_loop_budget validate budgets configured_max_loops plan_max_iterations =
     (let safe_max = (if 1 \<le> configured_max_loops then configured_max_loops else 1);
          plan_limit = (case plan_max_iterations of
                          Some n \<Rightarrow> if 1 \<le> n then Some n else None | None \<Rightarrow> None);
          effective_max = (case plan_limit of Some n \<Rightarrow> min safe_max n | None \<Rightarrow> safe_max);
          m0 = coerce_non_negative_int validate (dget budgets ''max_loops'' PNone) effective_max;
          m1 = (if m0 < 1 then effective_max else m0);
          max_loops = min m1 effective_max;
          current_loop = coerce_non_negative_int validate (dget budgets ''current_loop'' PNone) 0
      in if max_loops \<le> current_loop
         then \<lparr> lb_allow = False, lb_current_loop = current_loop, lb_max_loops = max_loops,
                lb_halt_reason = (if plan_limit = Some max_loops
                                  then ''plan_max_iterations_exhausted''
                                  else ''max_loops_exhausted'') \<rparr>
         else \<lparr> lb_allow = True, lb_current_loop = current_loop + 1, lb_max_loops = max_loops,
                lb_halt_reason = [] \<rparr>)"

text \<open>
  What pydantic documents of the adapter \<open>Annotated[int, Field(ge=0)]\<close>: an integer is accepted
  exactly when it is not negative, and unchanged; nothing is accepted as a negative number; \<open>None\<close>
  is rejected.
\<close>

definition non_neg_adapter :: "int_adapter \<Rightarrow> bool" where
  "non_neg_adapter validate \<longleftrightarrow>
     (\<forall>i. validate (PInt i) = (if 0 \<le> i then Some i else None)) \<and>
     (\<forall>v i. validate v = Some i \<longrightarrow> 0 \<le> i) \<and> validate PNone = None"

lemma coerce_nonneg:
  "non_neg_adapter validate \<Longrightarrow> 0 \<le> d \<Longrightarrow> 0 \<le> coerce_non_negative_int validate v d"
  by (auto simp: coerce_non_negative_int_def non_neg_adapter_def Let_def
        split: pyval.splits option.splits)

lemma coerce_PInt:
  "non_neg_adapter validate \<Longrightarrow>
    coerce_non_negative_int validate (PInt i) d = (if 0 \<le> i then i else d)"
  by (simp add: coerce_non_negative_int_def non_neg_adapter_def)

lemma coerce_PNone:
  "non_neg_adapter validate \<Longrightarrow> coerce_non_negative_int validate PNone d = d"
  by (simp add: coerce_non_negative_int_def non_neg_adapter_def)

text \<open>The effective limit of a decision never exceeds the configured one and is at least one.\<close>

lemma enforce_max_bounds:
  assumes "non_neg_adapter validate"
  shows "1 \<le> lb_max_loops (enforce_loop_budget validate b c p)"
    and "lb_max_loops (enforce_loop_budget validate b c p) \<le> max 1 c"
    and "p = Some n \<Longrightarrow> 1 \<le> n \<Longrightarrow> lb_max_loops (enforce_loop_budget validate b c p) \<le> n"
proof -
  define lim where "lim = (case (case p of Some n \<Rightarrow> if 1 \<le> n then Some n else None | None \<Rightarrow> None) of
    Some n \<Rightarrow> min (if 1 \<le> c then c else 1) n | None \<Rightarrow> if 1 \<le> c then c else 1)"
  define m where "m = coerce_non_negative_int validate (dget b ''max_loops'' PNone) lim"
  have lim: "1 \<le> lim" "lim \<le> max 1 c" "p = Some n \<Longrightarrow> 1 \<le> n \<Longrightarrow> lim \<le> n"
    unfolding lim_def by (auto split: option.splits)
  have le: "lb_max_loops (enforce_loop_budget validate b c p) = min (if m < 1 then lim else m) lim"
    by (simp only: enforce_loop_budget_def Let_def if_distrib [of lb_max_loops] LoopBudgetDecision.simps if_cancel flip: lim_def m_def)
  show "1 \<le> lb_max_loops (enforce_loop_budget validate b c p)" "lb_max_loops (enforce_loop_budget validate b c p) \<le> max 1 c"
    "p = Some n \<Longrightarrow> 1 \<le> n \<Longrightarrow> lb_max_loops (enforce_loop_budget validate b c p) \<le> n"
    unfolding le using lim by auto
qed

lemma enforce_allow_iff:
  "lb_allow (enforce_loop_budget validate b c p) \<longleftrightarrow>
     coerce_non_negative_int validate (dget b ''current_loop'' PNone) 0
       < lb_max_loops (enforce_loop_budget validate b c p)"
  by (auto simp: enforce_loop_budget_def Let_def)

lemma enforce_current:
  "lb_current_loop (enforce_loop_budget validate b c p) =
     coerce_non_negative_int validate (dget b ''current_loop'' PNone) 0
       + of_bool (lb_allow (enforce_loop_budget validate b c p))"
  by (auto simp: enforce_loop_budget_def Let_def)

lemma enforce_halt:
  "\<not> lb_allow (enforce_loop_budget validate b c p) \<Longrightarrow>
     lb_halt_reason (enforce_loop_budget validate b c p)
       \<in> {''max_loops_exhausted'', ''plan_max_iterations_exhausted''}"
  "lb_allow (enforce_loop_budget validate b c p) \<Longrightarrow>
     lb_halt_reason (enforce_loop_budget validate b c p) = []"
  by (auto simp: enforce_loop_budget_def Let_def split: if_splits)

section \<open>Trace events (trace.py)\<close>

type_synonym clock = "nat \<Rightarrow> int"

definition ensure_run_id :: "string \<Rightarrow> pydict \<Rightarrow> pydict" where
  "ensure_run_id uuid state =
     (let existing = dget state ''_run_id'' PNone in
      if py_bool existing then [(''_run_id'', existing)] else [(''_run_id'', PStr uuid)])"

definition append_event :: "clock \<Rightarrow> pydict \<Rightarrow> string \<Rightarrow> pydict \<Rightarrow> pydict result" where
  "append_event now state kind data =
     bind_r (py_iter (or_val (dget state ''_trace_events'' (PList [])) (PList [])))
       (\<lambda>events. Inr (dset state ''_trace_events''
          (PList (events @ [PDict [(''ts_ms'', PInt (now (length events))),
                                   (''kind'', PStr kind), (''data'', PDict data)]]))))"

abbreviation node_event :: "clock \<Rightarrow> pydict \<Rightarrow> string \<Rightarrow> string \<Rightarrow> pydict result" where
  "node_event now state name phase \<equiv>
     append_event now state ''node'' [(''name'', PStr name), (''phase'', PStr phase)]"

text \<open>An event changes the trace and nothing else.\<close>

lemma append_event_other:
  "append_event now s kind data = Inr s' \<Longrightarrow> k \<noteq> ''_trace_events'' \<Longrightarrow> dget s' k v = dget s k v"
  by (auto simp: append_event_def bind_r_eq_Inr)

lemma append_event_trace:
  "append_event now s kind data = Inr s' \<Longrightarrow>
     \<exists>events. dget s' ''_trace_events'' v
       = PList (events @ [PDict [(''ts_ms'', PInt (now (length events))),
                                 (''kind'', PStr kind), (''data'', PDict data)]])"
  by (auto simp: append_event_def bind_r_eq_Inr)

text \<open>A state whose trace is absent, null or a list: every event can be appended to it.\<close>

definition trace_ok :: "pydict \<Rightarrow> bool" where
  "trace_ok s = (case dget s ''_trace_events'' PNone of PNone \<Rightarrow> True | PList _ \<Rightarrow> True | _ \<Rightarrow> False)"

lemma append_event_total:
  "trace_ok s \<Longrightarrow> \<exists>s'. append_event now s kind data = Inr s' \<and> trace_ok s'"
  by (auto simp: trace_ok_def append_event_def or_val_def dget_def split: pyval.splits option.splits)

lemma trace_ok_cong:
  "dget s ''_trace_events'' PNone = dget t ''_trace_events'' PNone \<Longrightarrow> trace_ok s = trace_ok t"
  by (simp add: trace_ok_def)

lemma trace_ok_dset [simp]: "k \<noteq> ''_trace_events'' \<Longrightarrow> trace_ok (dset s k v) = trace_ok s"
  by (rule trace_ok_cong) simp

section \<open>The gate node (nodes/policy\_gate.py)\<close>

definition strip_strs :: "pyval list \<Rightarrow> string list" where
  "strip_strs xs = concat (map (\<lambda>v. case v of PStr s \<Rightarrow> [strip s] | _ \<Rightarrow> []) xs)"

text \<open>
  The guards part of the node. On the values of the model none of the operations inside the
  source's \<open>try\<close> raises, so the fail-closed handler is not reached.
\<close>

definition gate_guards :: "pydict \<Rightarrow> pydict \<Rightarrow> pydict" where
  "gate_guards cfg_policy guards =
     (let nd = gets cfg_policy ''network_default'' ''deny'';
          require_approval = py_bool (dget cfg_policy ''require_approval_for_mutations'' (PBool True));
          paths = strip_strs (as_list (dget cfg_policy ''allowed_write_paths'' (PList [])));
          network_default = (if nd \<notin> {''allow'', ''deny''} then ''deny'' else nd);
          decision = decide_policy network_default require_approval paths
      in dset (dset (dset guards ''allow_network'' (PBool (allow_network decision)))
                ''require_approval_for_mutations'' (PBool (require_approval_for_mutations decision)))
           ''allowed_write_paths'' (str_list (allowed_write_paths decision)))"

definition gate_plan_limit :: "pydict \<Rightarrow> int" where
  "gate_plan_limit state =
     (let raw = dget (as_dict (dget state ''plan'' (PDict []))) ''max_iterations'' PNone
      in if raw = PNone then 0 else int_default raw 0)"

definition gate_decision :: "int_adapter \<Rightarrow> pydict \<Rightarrow> pydict \<Rightarrow> LoopBudgetDecision" where
  "gate_decision validate state budgets =
     (let n = gate_plan_limit state in
      enforce_loop_budget validate budgets
        (int_default (dget state ''_budget_max_loops'' (PInt 3)) 3)
        (if 1 \<le> n then Some n else None))"

definition gate_budgets :: "LoopBudgetDecision \<Rightarrow> pydict \<Rightarrow> pydict \<Rightarrow> pydict" where
  "gate_budgets ld state budgets =
     (let b1 = dset budgets ''max_loops'' (PInt (lb_max_loops ld));
          b2 = dset b1 ''current_loop'' (PInt (lb_current_loop ld));
          b3 = dset b2 ''loop''
                 (PDict [(''remaining'', PInt (max (lb_max_loops ld - lb_current_loop ld) 0))]);
          n = gate_plan_limit state;
          b4 = (if 1 \<le> n then dset b3 ''plan_max_iterations'' (PInt n) else b3);
          calls = int_default (dget state ''_budget_max_tool_calls_per_loop'' (PInt 0)) 0;
          bytes = int_default (dget state ''_budget_max_patch_bytes'' (PInt 0)) 0;
          b5 = dset b4 ''tool_calls_limit'' (PInt (max calls 0));
          b6 = dset b5 ''tool_calls_used'' (PInt 0);
          b7 = dset b6 ''patch_bytes_limit'' (PInt (max bytes 0))
      in dset b7 ''context'' (PDict (as_dict (dget state ''_budget_context'' (PDict [])))))"

definition gate_exhausted_report :: "string \<Rightarrow> pydict" where
  "gate_exhausted_report halt_reason =
     [(''ok'', PBool False),
      (''checks'', dict_list [[(''name'', PStr ''loop_budget''), (''ok'', PBool False),
                              (''tool'', PStr ''policy_gate''), (''exit_code'', PInt 1),
                              (''summary'', PStr ''Loop budget exhausted'')]]),
      (''acceptance_ok'', PBool False), (''acceptance_checks'', PList []),
      (''retry_target'', PStr ''planner''), (''plan_action'', PStr ''keep''),
      (''failure_class'', PStr halt_reason), (''failure_fingerprint'', PStr halt_reason),
      (''recovery'', PNone), (''recovery_packet'', PNone), (''loop_summary'', PStr halt_reason)]"

definition policy_gate :: "int_adapter \<Rightarrow> clock \<Rightarrow> pydict \<Rightarrow> pydict result" where
  "policy_gate validate now state0 =
     bind_r (node_event now state0 ''policy_gate'' ''start'') (\<lambda>state.
     bind_r (py_dict (dget state ''budgets'' (PDict []))) (\<lambda>budgets.
     bind_r (py_dict (dget state ''guards'' (PDict []))) (\<lambda>guards0.
     bind_r (py_dict (dget state ''_config_policy'' (PDict []))) (\<lambda>cfg_policy.
       let guards = gate_guards cfg_policy guards0;
           loop_decision = gate_decision validate state budgets;
           out1 = dset (dset (dset state ''guards'' (PDict guards))
                         ''budgets'' (PDict (gate_budgets loop_decision state budgets)))
                    ''halt_reason'' (PStr (lb_halt_reason loop_decision));
           out2 = (if \<not> lb_allow loop_decision
                   then dset out1 ''verification''
                          (PDict (gate_exhausted_report (lb_halt_reason loop_decision)))
                   else out1)
       in node_event now out2 ''policy_gate'' ''end''))))"

text \<open>The facts about a run of the gate that the rest of the development uses.\<close>

lemma policy_gate_cases:
  assumes "policy_gate validate now s = Inr t"
  obtains b g c where
    "py_dict (dget s ''budgets'' (PDict [])) = Inr b"
    "py_dict (dget s ''guards'' (PDict [])) = Inr g"
    "py_dict (dget s ''_config_policy'' (PDict [])) = Inr c"
    "dget t ''budgets'' PNone = PDict (gate_budgets (gate_decision validate s b) s b)"
    "dget t ''guards'' PNone = PDict (gate_guards c g)"
    "dget t ''halt_reason'' PNone = PStr (lb_halt_reason (gate_decision validate s b))"
    "\<And>k v. k \<notin> {''_trace_events'', ''guards'', ''budgets'', ''halt_reason'', ''verification''} \<Longrightarrow>
       dget t k v = dget s k v"
proof -
  from assms obtain s1 b g c where
    s1: "node_event now s ''policy_gate'' ''start'' = Inr s1"
    and b: "py_dict (dget s1 ''budgets'' (PDict [])) = Inr b"
    and g: "py_dict (dget s1 ''guards'' (PDict [])) = Inr g"
    and c: "py_dict (dget s1 ''_config_policy'' (PDict [])) = Inr c"
    and t: "(let ld = gate_decision validate s1 b;
           out1 = dset (dset (dset s1 ''guards'' (PDict (gate_guards c g)))
                         ''budgets'' (PDict (gate_budgets ld s1 b)))
                    ''halt_reason'' (PStr (lb_halt_reason ld));
           out2 = (if \<not> lb_allow ld
                   then dset out1 ''verification'' (PDict (gate_exhausted_report (lb_halt_reason ld)))
                   else out1)
       in node_event now out2 ''policy_gate'' ''end'') = Inr t"
    unfolding policy_gate_def bind_r_eq_Inr by (auto simp: Let_def)
  have same: "dget s1 k v = dget s k v" if "k \<noteq> ''_trace_events''" for k v
    using append_event_other [OF s1 that] .
  have gl: "gate_plan_limit s1 = gate_plan_limit s"
    by (simp add: gate_plan_limit_def same)
  have gd: "gate_decision validate s1 b = gate_decision validate s b"
    by (simp add: gate_decision_def gl same)
  have gb: "gate_budgets ld s1 b = gate_budgets ld s b" for ld
    by (simp add: gate_budgets_def gl same)
  show thesis
  proof (rule that)
    show "py_dict (dget s ''budgets'' (PDict [])) = Inr b" using b same by simp
    show "py_dict (dget s ''guards'' (PDict [])) = Inr g" using g same by simp
    show "py_dict (dget s ''_config_policy'' (PDict [])) = Inr c" using c same by simp
  qed (use t in \<open>auto simp: Let_def gd gb same append_event_other split: if_splits\<close>)
qed

section \<open>The entry node (nodes/ingest.py)\<close>

definition orch_defaults :: pydict where
  "orch_defaults =
     [(''intent'', PStr ''analysis''), (''repo_context'', PDict []), (''facts'', PList []),
      (''plan'', PNone), (''tool_results'', PList []), (''patches'', PList []),
      (''verification'', PNone), (''final'', PStr []), (''guards'', PDict []),
      (''budgets'', PDict []), (''approvals'', PDict []), (''security'', PDict []),
      (''telemetry'', PDict []), (''route'', PNone), (''active_handoff'', PNone),
      (''retry_target'', PNone), (''recovery_packet'', PNone),
      (''context_reset_requested'', PBool False), (''plan_discarded'', PBool False),
      (''plan_discard_reason'', PStr []), (''halt_reason'', PStr []),
      (''loop_summaries'', PList []), (''history_policy'', PDict []), (''provenance'', PList []),
      (''checkpoint'', PDict []), (''snapshots'', PList []), (''undo'', PDict []),
      (''resume'', PDict [])]"

definition internal_keys :: "pydict \<Rightarrow> pydict" where
  "internal_keys raw = filter (\<lambda>(k, _). prefix ''_'' k) raw"

text \<open>
  \<open>validate_state({"request": req}).model_dump()\<close>: the declared fields of \<open>OrchState\<close> under their field
  names (not their aliases), the request first and every other field with its default. A string is a
  legal request.
\<close>

definition orch_state_dump :: "string \<Rightarrow> pydict" where
  "orch_state_dump req =
     (''request'', PStr req) # orch_defaults @
     [(''mcp_tools'', PList []), (''worktree_path'', PNone), (''long_term_memory_path'', PNone),
      (''repo_root'', PNone), (''runner_url'', PNone), (''healing_job_id'', PNone),
      (''test_repair_mode'', PBool False), (''run_id_internal'', PStr []),
      (''repo_root_internal'', PStr []), (''runner_base_url_internal'', PStr ''http://127.0.0.1:8088''),
      (''runner_api_key_internal'', PNone), (''mcp_enabled_internal'', PBool False),
      (''mcp_servers_internal'', PDict []), (''checkpoint_internal'', PDict []),
      (''models_internal'', PDict []), (''model_routing_policy_internal'', PDict []),
      (''model_provider_runtime_internal'', PDict []), (''budget_max_loops_internal'', PInt 1),
      (''budget_max_tool_calls_per_loop_internal'', PInt 1), (''budget_max_patch_bytes_internal'', PInt 0),
      (''budget_context_internal'', PDict []), (''config_policy_internal'', PDict []),
      (''trace_enabled_internal'', PBool False), (''trace_out_dir_internal'', PStr []),
      (''trace_capture_model_metadata_internal'', PBool False), (''run_store_path_internal'', PStr []),
      (''procedure_cache_path_internal'', PStr []), (''vericoding_enabled_internal'', PBool False),
      (''vericoding_extensions_internal'', PList []), (''request_id_internal'', PStr []),
      (''remote_api_context_internal'', PDict []), (''resume_approvals_internal'', PDict []),
      (''approval_context_internal'', PDict []), (''runner_enabled_internal'', PBool True),
      (''trace_events_internal'', PList [])]"

definition ingest :: "string \<Rightarrow> clock \<Rightarrow> pydict \<Rightarrow> pydict result" where
  "ingest uuid now raw =
     (let internal0 = internal_keys raw;
          internal = dmerge internal0 (ensure_run_id uuid internal0);
          req = strip (gets raw ''request'' [])
      in node_event now (dmerge (orch_state_dump req) internal) ''ingest'' ''end'')"

section \<open>Properties\<close>

lemma strip_strs_stripped: "map strip (filter (\<lambda>p. strip p \<noteq> []) (strip_strs xs)) = filter (\<lambda>p. p \<noteq> []) (strip_strs xs)"
proof (induction xs)
  case (Cons x xs)
  have "strip_strs (x # xs) = (case x of PStr s \<Rightarrow> [strip s] | _ \<Rightarrow> []) @ strip_strs xs" by (simp add: strip_strs_def)
  then show ?case using Cons by (cases x) simp_all
qed (simp add: strip_strs_def)

lemma gate_guards_spec:
  "dget (gate_guards cfg guards) ''allow_network'' v = PBool (gets cfg ''network_default'' ''deny'' = ''allow'')"
  "dget (gate_guards cfg guards) ''require_approval_for_mutations'' v =
     PBool (py_bool (dget cfg ''require_approval_for_mutations'' (PBool True)))"
  "dget (gate_guards cfg guards) ''allowed_write_paths'' v =
     str_list (filter (\<lambda>p. p \<noteq> []) (strip_strs (as_list (dget cfg ''allowed_write_paths'' (PList [])))))"
proof -
  have "lower (strip ''allow'') = ''allow''" "lower (strip ''deny'') = ''deny''" by code_simp+
  then show "dget (gate_guards cfg guards) ''allow_network'' v = PBool (gets cfg ''network_default'' ''deny'' = ''allow'')"
    by (simp add: gate_guards_def Let_def decide_policy_def)
qed (simp_all only: gate_guards_def Let_def decide_policy_def dget_dset PolicyDecision.simps strip_strs_stripped
       list.inject char.inject if_True simp_thms, simp_all)

text \<open>The gate returns on every state with a trace that can be extended and dictionaries where it expects them.\<close>

lemma policy_gate_total:
  assumes "trace_ok s" "py_dict (dget s ''budgets'' (PDict [])) = Inr b" "py_dict (dget s ''guards'' (PDict [])) = Inr g"
    "py_dict (dget s ''_config_policy'' (PDict [])) = Inr c"
  shows "\<exists>t. policy_gate validate now s = Inr t"
proof -
  obtain s1 where s1: "node_event now s ''policy_gate'' ''start'' = Inr s1" "trace_ok s1"
    using append_event_total [OF assms(1)] by blast
  let ?ld = "gate_decision validate s1 b"
  let ?o = "dset (dset (dset s1 ''guards'' (PDict (gate_guards c g))) ''budgets'' (PDict (gate_budgets ?ld s1 b)))
                    ''halt_reason'' (PStr (lb_halt_reason ?ld))"
  let ?o2 = "if \<not> lb_allow ?ld then dset ?o ''verification'' (PDict (gate_exhausted_report (lb_halt_reason ?ld))) else ?o"
  have "trace_ok ?o2" using s1(2) by simp
  then obtain t where "node_event now ?o2 ''policy_gate'' ''end'' = Inr t" using append_event_total by blast
  then show ?thesis
    using s1(1) assms(2-4) append_event_other [OF s1(1)] by (simp add: policy_gate_def Let_def)
qed

lemma distinct_dset: "distinct (map fst d) \<Longrightarrow> distinct (map fst (dset d k v))"
  by (rule distinct_update)

lemma map_of_internal_keys: "map_of (internal_keys raw) k = (if prefix ''_'' k then map_of raw k else None)"
  by (induction raw) (auto simp: internal_keys_def)

lemma distinct_internal_keys: "distinct (map fst raw) \<Longrightarrow> distinct (map fst (internal_keys raw))"
  by (induction raw) (auto simp: internal_keys_def)

text \<open>What the entry node passes on of a key that it does not set itself.\<close>

lemma ingest_map_of:
  assumes d: "distinct (map fst raw)" and run: "ingest uuid now raw = Inr t" and k: "k \<noteq> ''_trace_events''"
  shows "map_of t k =
     (if k = ''_run_id'' then Some (or_val (dget raw ''_run_id'' PNone) (PStr uuid))
      else if prefix ''_'' k then (case map_of raw k of None \<Rightarrow> map_of (orch_state_dump (strip (gets raw ''request'' []))) k
                                   | Some v \<Rightarrow> Some v)
      else map_of (orch_state_dump (strip (gets raw ''request'' []))) k)"
proof -
  let ?i = "internal_keys raw" and ?d = "orch_state_dump (strip (gets raw ''request'' []))"
  let ?run = "or_val (dget raw ''_run_id'' PNone) (PStr uuid)"
  have "dget ?i ''_run_id'' PNone = dget raw ''_run_id'' PNone" by (simp add: dget_def map_of_internal_keys)
  then have i: "dmerge ?i (ensure_run_id uuid ?i) = dset ?i ''_run_id'' ?run"
    by (simp add: ensure_run_id_def Let_def dmerge_def or_val_def)
  have "distinct (map fst (dset ?i ''_run_id'' ?run))"
    by (intro distinct_dset distinct_internal_keys d)
  note m = map_of_dmerge [OF this, of ?d]
  have "map_of t k = map_of (dmerge ?d (dset ?i ''_run_id'' ?run)) k"
    using run k by (auto simp: ingest_def Let_def i append_event_def bind_r_eq_Inr)
  then show ?thesis unfolding m by (simp add: map_of_internal_keys)
qed

lemma orch_state_dump_internal: "prefix ''_'' k \<Longrightarrow> map_of (orch_state_dump req) k = None"
proof -
  have "list_all (\<lambda>k. hd k \<noteq> CHR ''_'') (map fst (orch_state_dump req))"
    by (simp add: orch_state_dump_def orch_defaults_def)
  moreover assume "prefix ''_'' k"
  then have "hd k = CHR ''_''" by (cases k) auto
  ultimately show ?thesis by (auto simp: map_of_eq_None_iff list_all_iff)
qed

text \<open>
  C24. Bounds of the loop budget: the effective limit is at least one and never above the configured
  limit nor above a positive limit of the plan; a pass is granted exactly while the counter is below
  that limit, and then counts one; a refused pass names its reason.
\<close>

theorem loop_budget_bounds:
  fixes budgets :: pydict and configured :: int and plan_limit :: "int option"
  assumes "non_neg_adapter validate"
  defines "ld \<equiv> enforce_loop_budget validate budgets configured plan_limit"
    and "used \<equiv> coerce_non_negative_int validate (dget budgets ''current_loop'' PNone) 0"
  shows "1 \<le> lb_max_loops ld \<and> lb_max_loops ld \<le> max 1 configured \<and>
     (case plan_limit of Some n \<Rightarrow> n < 1 \<or> lb_max_loops ld \<le> n | None \<Rightarrow> True) \<and>
     (lb_allow ld \<longleftrightarrow> used < lb_max_loops ld) \<and> lb_current_loop ld = used + of_bool (lb_allow ld) \<and>
     (lb_allow ld \<longleftrightarrow> lb_halt_reason ld = [])"
proof -
  have "case plan_limit of Some n \<Rightarrow> n < 1 \<or> lb_max_loops ld \<le> n | None \<Rightarrow> True"
    using enforce_max_bounds(3) [OF assms(1) refl] by (cases plan_limit) (simp_all add: ld_def, meson not_less)
  then show ?thesis
    using enforce_max_bounds(1,2) [OF assms(1)] enforce_allow_iff enforce_current enforce_halt
    unfolding ld_def used_def by fastforce
qed

definition int_only_adapter :: int_adapter where
  "int_only_adapter v = (case v of PInt i \<Rightarrow> if 0 \<le> i then Some i else None | _ \<Rightarrow> None)"

lemma int_only_adapter_ok: "non_neg_adapter int_only_adapter"
  by (auto simp: non_neg_adapter_def int_only_adapter_def split: pyval.splits if_splits)

theorem loop_budget_bounds_witness:
  "lb_max_loops (enforce_loop_budget int_only_adapter [(''current_loop'', PInt 2)] 5 (Some 3)) \<le> 3 \<and>
   lb_current_loop (enforce_loop_budget int_only_adapter [(''current_loop'', PInt 2)] 5 (Some 3)) = 3"
  using loop_budget_bounds [OF int_only_adapter_ok, of "[(''current_loop'', PInt 2)]" 5 "Some 3"]
  by (auto simp: enforce_loop_budget_def coerce_non_negative_int_def int_only_adapter_def Let_def)

text \<open>
  C25. The gate fails safe: whatever the caller put into the guards, the network is open only if the
  configuration says exactly \<open>allow\<close>, mutations need an approval unless the configuration switches that
  off, and the write paths are the non-empty stripped ones of the configuration.
\<close>

theorem policy_gate_fail_safe:
  assumes "policy_gate validate now s = Inr t" "dget s ''_config_policy'' (PDict []) = PDict cfg"
  shows "dget (as_dict (dget t ''guards'' PNone)) ''allow_network'' PNone =
       PBool (gets cfg ''network_default'' ''deny'' = ''allow'') \<and>
     dget (as_dict (dget t ''guards'' PNone)) ''require_approval_for_mutations'' PNone =
       PBool (py_bool (dget cfg ''require_approval_for_mutations'' (PBool True))) \<and>
     dget (as_dict (dget t ''guards'' PNone)) ''allowed_write_paths'' PNone =
       str_list (filter (\<lambda>p. p \<noteq> []) (strip_strs (as_list (dget cfg ''allowed_write_paths'' (PList [])))))"
  using assms(1)
proof (rule policy_gate_cases)
  fix b g c
  assume c: "py_dict (dget s ''_config_policy'' (PDict [])) = Inr c" and g: "dget t ''guards'' PNone = PDict (gate_guards c g)"
  have "c = cfg" using c assms(2) by simp
  then show ?thesis by (simp add: g gate_guards_spec)
qed

theorem policy_gate_fail_safe_witness:
  "\<exists>t. policy_gate int_only_adapter (\<lambda>_. 0)
         [(''guards'', PDict [(''allow_network'', PBool True)]), (''_config_policy'', PDict [])] = Inr t \<and>
       dget (as_dict (dget t ''guards'' PNone)) ''allow_network'' PNone = PBool False"
proof -
  let ?s = "[(''guards'', PDict [(''allow_network'', PBool True)]), (''_config_policy'', PDict [])]"
  obtain t where t: "policy_gate int_only_adapter (\<lambda>_. 0) ?s = Inr t"
    using policy_gate_total [of ?s "[]" "[(''allow_network'', PBool True)]" "[]" int_only_adapter "\<lambda>_. 0"]
    by (auto simp: trace_ok_def)
  show ?thesis using policy_gate_fail_safe [OF t, of "[]"] t by simp
qed

text \<open>
  C26. The entry node resets the state: of the caller's public keys only the stripped request survives,
  every other public key has its default, and the internal keys are kept as they are (a run id is
  added where none is set).
\<close>

theorem ingest_resets_state:
  assumes "distinct (map fst raw)" "ingest uuid now raw = Inr t" "k \<noteq> ''_trace_events''"
  shows "map_of t k =
     (if k = ''_run_id'' then Some (or_val (dget raw ''_run_id'' PNone) (PStr uuid))
      else if prefix ''_'' k then map_of raw k
      else map_of (orch_state_dump (strip (gets raw ''request'' []))) k)"
  using ingest_map_of [OF assms] orch_state_dump_internal by (auto split: option.splits)

theorem ingest_resets_state_witness:
  "\<exists>t. ingest ''u1'' (\<lambda>_. 0) [(''request'', PStr ''fix it''), (''plan'', PDict []), (''_budget_max_loops'', PInt 2)] = Inr t \<and>
     map_of t ''plan'' = Some PNone \<and> map_of t ''_budget_max_loops'' = Some (PInt 2)"
proof -
  let ?raw = "[(''request'', PStr ''fix it''), (''plan'', PDict []), (''_budget_max_loops'', PInt 2)]"
  have "(case ingest ''u1'' (\<lambda>_. 0) ?raw of Inr _ \<Rightarrow> True | Inl _ \<Rightarrow> False) = True" by code_simp
  then obtain t where t: "ingest ''u1'' (\<lambda>_. 0) ?raw = Inr t" by (auto split: sum.splits)
  show ?thesis
    using ingest_resets_state [OF _ t, of "''plan''"] ingest_resets_state [OF _ t, of "''_budget_max_loops''"] t
    by (auto simp: prefix_def orch_state_dump_def orch_defaults_def)
qed

end
