(* ===== verification/Memory.thy ===== *)
theory Memory
  imports Sha256 Policy
begin

text \<open>
  \<open>memory.py\<close>: the history policy and the pruning of tool results around verification, the context
  layers with their token budgets and compression decisions, the fact pack, and the provenance
  records. The long-term store is an argument of \<open>build_context_layers\<close>; the episodes that the code
  stores in it are returned.
\<close>

section \<open>Small helpers\<close>

definition as_int :: "pyval \<Rightarrow> int \<Rightarrow> int \<Rightarrow> int \<Rightarrow> int" where
  "as_int value dflt minimum maximum =
     (let parsed = (case value of
          PInt i \<Rightarrow> Some i
        | PFloat m e \<Rightarrow> Some (trunc_dec m e)
        | PStr s \<Rightarrow> (if strip s = [] then None
                     else case py_int (PStr (strip s)) of Inr i \<Rightarrow> Some i | Inl _ \<Rightarrow> None)
        | _ \<Rightarrow> None)
      in case parsed of None \<Rightarrow> dflt | Some i \<Rightarrow> min (max i minimum) maximum)"

definition normalize_history_policy :: "pydict \<Rightarrow> pydict" where
  "normalize_history_policy raw =
     [(''schema_version'', PInt 1),
      (''retain_recent_tool_results'',
         PInt (as_int (dget raw ''retain_recent_tool_results'' PNone) 40 5 500)),
      (''read_file_prune_threshold_chars'',
         PInt (as_int (dget raw ''read_file_prune_threshold_chars'' PNone) 4000 200 200000))]"

definition tool_results_of :: "pydict \<Rightarrow> pydict list" where
  "tool_results_of state = dicts_of (as_list (dget state ''tool_results'' (PList [])))"

definition provenance_of :: "pydict \<Rightarrow> pydict list" where
  "provenance_of state = dicts_of (as_list (dget state ''provenance'' (PList [])))"

definition approx_token_count :: "string \<Rightarrow> int" where
  "approx_token_count text = (if text = [] then 0 else max 1 ((int (length text) + 3) div 4))"

record context_budgets =
  cb_stable_prefix_tokens :: int
  cb_working_set_tokens :: int
  cb_tool_result_summary_chars :: int

definition context_budget_settings :: "pydict \<Rightarrow> context_budgets" where
  "context_budget_settings state =
     (let src = as_dict (dget state ''_budget_context'' (PDict [])) in
      \<lparr> cb_stable_prefix_tokens = as_int (dget src ''stable_prefix_tokens'' PNone) 1600 200 100000,
        cb_working_set_tokens = as_int (dget src ''working_set_tokens'' PNone) 1600 200 100000,
        cb_tool_result_summary_chars =
          as_int (dget src ''tool_result_summary_chars'' PNone) 480 80 20000 \<rparr>)"

definition safe_json :: "pyval \<Rightarrow> string" where
  "safe_json v = json_dumps True '', '' '': '' v"

definition first_nonempty_line :: "string \<Rightarrow> string" where
  "first_nonempty_line text =
     (case find (\<lambda>l. strip l \<noteq> []) (splitlines text) of None \<Rightarrow> [] | Some l \<Rightarrow> strip l)"

definition dec_val :: "int \<Rightarrow> int \<Rightarrow> rat" where
  "dec_val m e = (if 0 \<le> e then of_int m * 10 ^ nat e else of_int m / 10 ^ nat (- e))"

text \<open>\<open>float(v) if isinstance(v, (int, float)) else 0.0\<close>.\<close>

fun num_val :: "pyval \<Rightarrow> rat" where
  "num_val (PInt i) = of_int i"
| "num_val (PBool b) = of_bool b"
| "num_val (PFloat m e) = dec_val m e"
| "num_val _ = 0"

section \<open>Semantic hits and tool summaries\<close>

definition hit_key :: "pydict \<Rightarrow> string" where
  "hit_key hit = or_str (strip (gets hit ''path'' [])) (first_nonempty_line (gets hit ''snippet'' []))"

definition hit_score :: "pydict \<Rightarrow> rat" where
  "hit_score hit = num_val (dget hit ''score'' (PInt 0))"

definition best_hit_step :: "pydict \<Rightarrow> (string \<times> pydict) list \<Rightarrow> (string \<times> pydict) list" where
  "best_hit_step hit best =
     (let key = hit_key hit in
      if key = [] then best
      else case map_of best key of
          None \<Rightarrow> AList.update key hit best
        | Some current \<Rightarrow>
            if hit_score current < hit_score hit then AList.update key hit best else best)"

definition dedupe_semantic_hits :: "pydict list \<Rightarrow> pydict list" where
  "dedupe_semantic_hits hits =
     sort_key (\<lambda>item. - num_val (dget item ''score'' PNone)) (map snd (fold best_hit_step hits []))"

definition summarize_tool_result :: "pydict \<Rightarrow> int \<Rightarrow> pydict" where
  "summarize_tool_result result max_chars =
     (let diagnostics = as_list (dget result ''diagnostics'' (PList []));
          diagnostic_message = (case diagnostics of
              PDict d # _ \<Rightarrow> strip (gets d ''message'' []) | _ \<Rightarrow> []);
          d0 = or_str diagnostic_message (first_nonempty_line (gets result ''stderr'' []));
          d1 = or_str d0 (first_nonempty_line (gets result ''stdout'' []));
          detail = (if max_chars < int (length d1)
                    then rstrip (py_take (max_chars - 3) d1) @ ''...'' else d1);
          artifacts = as_dict (dget result ''artifacts'' (PDict []))
      in [(''tool'', PStr (strip (gets result ''tool'' []))),
          (''ok'', PBool (py_bool (dget result ''ok'' (PBool False)))),
          (''exit_code'', PInt (int_or (dget result ''exit_code'' PNone) 0)),
          (''summary'', PStr detail), (''error'', PStr (strip (gets artifacts ''error'' [])))])"

section \<open>Fitting segments into a token budget\<close>

definition compressed_marker :: string where
  "compressed_marker = [CHR 0x0A] @ ''...[compressed]...'' @ [CHR 0x0A]"

definition truncate_text_to_budget :: "string \<Rightarrow> int \<Rightarrow> string \<times> bool" where
  "truncate_text_to_budget text budget_tokens =
     (if budget_tokens \<le> 0 then ([], True)
      else let max_chars = budget_tokens * 4 in
        if int (length text) \<le> max_chars then (text, False)
        else if max_chars \<le> 64 then (rstrip (py_take max_chars text), True)
        else let n = int (length compressed_marker);
                 head_chars = max ((max_chars - n) * 2 div 3) 40;
                 tail_chars = max (max_chars - n - head_chars) 20
             in (rstrip (py_take head_chars text) @ compressed_marker
                   @ lstrip (py_tail tail_chars text), True))"

type_synonym segment = "string \<times> string"

record fit_state =
  fs_remaining :: int
  fs_chunks :: "string list"
  fs_decisions :: "pydict list"

definition segment_decision :: "string \<Rightarrow> string \<Rightarrow> int \<Rightarrow> int \<Rightarrow> pydict" where
  "segment_decision label action before after =
     [(''segment'', PStr label), (''action'', PStr action), (''tokens_before'', PInt before),
      (''tokens_after'', PInt after)]"

definition segment_block :: "segment \<Rightarrow> string" where
  "segment_block seg = strip (''['' @ fst seg @ '']'' @ [CHR 0x0A] @ snd seg)"

definition fit_step :: "segment \<Rightarrow> fit_state \<Rightarrow> fit_state" where
  "fit_step seg st =
     (if strip (snd seg) = [] then st
      else let block = segment_block seg; tokens_before = approx_token_count block;
               remaining = fs_remaining st in
        if remaining \<le> 0 then
          st\<lparr> fs_decisions := fs_decisions st @ [segment_decision (fst seg) ''dropped'' tokens_before 0] \<rparr>
        else if tokens_before \<le> remaining then
          st\<lparr> fs_chunks := fs_chunks st @ [block], fs_remaining := remaining - tokens_before \<rparr>
        else let tr = truncate_text_to_budget block remaining; compressed = fst tr;
                 tokens_after = approx_token_count compressed in
          st\<lparr> fs_chunks := fs_chunks st @ (if strip compressed \<noteq> [] then [compressed] else []),
              fs_decisions := fs_decisions st
                @ [segment_decision (fst seg) (if snd tr then ''compressed'' else ''kept'')
                     tokens_before tokens_after],
              fs_remaining := max (remaining - tokens_after) 0 \<rparr>)"

definition newline2 :: string where
  "newline2 = [CHR 0x0A, CHR 0x0A]"

definition fit_all :: "segment list \<Rightarrow> int \<Rightarrow> fit_state" where
  "fit_all segments budget_tokens =
     fold fit_step segments \<lparr> fs_remaining = max budget_tokens 0, fs_chunks = [], fs_decisions = [] \<rparr>"

definition fit_segments :: "segment list \<Rightarrow> int \<Rightarrow> string \<times> pydict list" where
  "fit_segments segments budget_tokens =
     (let st = fit_all segments budget_tokens
      in (strip (join newline2 (filter (\<lambda>c. strip c \<noteq> []) (fs_chunks st))), fs_decisions st))"

definition decision_action :: "pydict \<Rightarrow> string" where
  "decision_action d = strip (gets d ''action'' [])"

definition count_action :: "string \<Rightarrow> pydict list \<Rightarrow> int" where
  "count_action action ds = int (length (filter (\<lambda>d. decision_action d = action) ds))"

definition compression_pressure :: "pydict list \<Rightarrow> pydict" where
  "compression_pressure decisions =
     (let compressed = count_action ''compressed'' decisions;
          dropped = count_action ''dropped'' decisions;
          kept = int (length (filter (\<lambda>d. decision_action d \<notin> {''compressed'', ''dropped''}) decisions))
      in [(''compressed_segments'', PInt compressed), (''dropped_segments'', PInt dropped),
          (''kept_segments'', PInt kept), (''score'', PInt (compressed + dropped * 2))])"

section \<open>The fact pack\<close>

definition normalize_fact :: "pydict \<Rightarrow> pydict option" where
  "normalize_fact f =
     (let fingerprint = strip (gets f ''failure_fingerprint'' []);
          summary = strip (py_str (dget f ''summary'' (dget f ''loop_summary'' (PStr []))))
      in if fingerprint = [] \<and> summary = [] then None
         else let loop_v = strict_int_or (dget f ''loop'' (PInt 0)) 0;
                  salience = strict_int_or (dget f ''salience'' (PInt 0)) 0;
                  e1 = dset f ''kind'' (PStr (or_str (strip (gets f ''kind'' ''fact'')) ''fact''));
                  e2 = dset e1 ''summary'' (PStr summary);
                  e3 = dset e2 ''loop'' (PInt loop_v)
              in Some (dset e3 ''salience'' (PInt salience)))"

definition fact_key :: "pydict \<Rightarrow> string" where
  "fact_key entry = or_str (strip (gets entry ''failure_fingerprint'' [])) (strip (gets entry ''summary'' []))"

text \<open>
  \<open>(int(entry.get("salience", 0) or 0), int(entry.get("loop", 0) or 0))\<close>: in a normalized entry both
  are integers.
\<close>

definition fact_rank :: "pydict \<Rightarrow> int \<times> int" where
  "fact_rank entry = (int_or (dget entry ''salience'' (PInt 0)) 0, int_or (dget entry ''loop'' (PInt 0)) 0)"

definition fact_step :: "pydict \<Rightarrow> (string \<times> pydict) list \<Rightarrow> (string \<times> pydict) list" where
  "fact_step entry deduped =
     (let key = fact_key entry in
      case map_of deduped key of
        None \<Rightarrow> AList.update key entry deduped
      | Some current \<Rightarrow>
          if fact_rank current \<le> fact_rank entry then AList.update key entry deduped else deduped)"

definition fact_order :: "pydict \<Rightarrow> int \<times> int \<times> int" where
  "fact_order item = (- fst (fact_rank item), - snd (fact_rank item),
     - of_bool (strip (gets item ''kind'' []) = ''recovery_fact''))"

definition fact_pack :: "pydict list \<Rightarrow> pydict list" where
  "fact_pack facts =
     (let normalized = List.map_filter normalize_fact facts;
          deduped = fold fact_step normalized []
      in take 8 (sort_key fact_order (map snd deduped)))"

section \<open>Context layers\<close>

definition nonempty_seg :: "string \<Rightarrow> string \<Rightarrow> segment list" where
  "nonempty_seg label text = (if text \<noteq> [] then [(label, text)] else [])"

definition list_seg :: "string \<Rightarrow> pyval \<Rightarrow> nat \<Rightarrow> segment list" where
  "list_seg label v n = (let xs = as_list v in if xs \<noteq> [] then [(label, safe_json (PList (take n xs)))] else [])"

definition py_bool_str :: "pyval \<Rightarrow> string" where
  "py_bool_str v = py_str (PBool (py_bool v))"

definition repo_summary_text :: "pydict \<Rightarrow> string" where
  "repo_summary_text repo_context =
     join [CHR 0x0A]
       [''repo_root: '' @ gets repo_context ''repo_root'' [],
        ''has_py: '' @ py_bool_str (dget repo_context ''has_py'' (PBool False)),
        ''has_rs: '' @ py_bool_str (dget repo_context ''has_rs'' (PBool False)),
        ''top_level: '' @ join '', ''
           (map py_str (take 30 (as_list (dget repo_context ''top_level'' (PList [])))))]"

definition semantic_hits_of :: "pydict \<Rightarrow> pydict list" where
  "semantic_hits_of repo_context =
     (case dget repo_context ''semantic_hits'' (PList []) of
        PList hits \<Rightarrow> dedupe_semantic_hits (dicts_of hits) | _ \<Rightarrow> [])"

text \<open>The text that the long-term store retrieves for a task, given the token limit.\<close>

type_synonym long_term = "string \<Rightarrow> int \<Rightarrow> string"

definition long_term_seg :: "long_term option \<Rightarrow> pydict \<Rightarrow> segment list" where
  "long_term_seg lt state = (case lt of
       None \<Rightarrow> []
     | Some retrieve \<Rightarrow>
         (let task_text = strip (py_str (dget state ''task'' (dget state ''request'' (PStr [])))) in
          if task_text = [] then []
          else let content = retrieve task_text 1000
               in if strip content \<noteq> [] then [(''long_term_memories'', content)] else []))"

definition stable_segments_of :: "long_term option \<Rightarrow> pydict \<Rightarrow> pydict \<Rightarrow> segment list" where
  "stable_segments_of lt state repo_context =
     (let ast_map = dget repo_context ''structural_ast_map'' PNone;
          hits = semantic_hits_of repo_context;
          memories = dicts_of (as_list (dget repo_context ''semantic_memories'' (PList [])))
      in long_term_seg lt state
         @ [(''repo_summary'', repo_summary_text repo_context)]
         @ nonempty_seg ''repo_map'' (strip (gets repo_context ''repo_map'' []))
         @ (if py_bool ast_map then [(''structural_ast_map'', safe_json ast_map)] else [])
         @ (if hits \<noteq> [] then [(''semantic_hits'', safe_json (dict_list (take 8 hits)))] else [])
         @ nonempty_seg ''mcp_catalog'' (strip (gets repo_context ''mcp_catalog'' []))
         @ list_seg ''episodic_facts'' (dget repo_context ''episodic_facts'' (PList [])) 5
         @ (if memories \<noteq> [] then [(''semantic_memories'', safe_json (dict_list (take 5 memories)))] else [])
         @ nonempty_seg ''mcp_recovery_hints'' (strip (gets repo_context ''mcp_recovery_hints'' [])))"

definition pick_keys :: "pydict \<Rightarrow> (string \<times> pyval) list \<Rightarrow> pydict" where
  "pick_keys d kds = map (\<lambda>(k, v). (k, dget d k v)) kds"

definition working_segments_of :: "pydict \<Rightarrow> pydict \<Rightarrow> segment list" where
  "working_segments_of state repo_context =
     (let budgets = context_budget_settings state;
          verification = as_dict (dget state ''verification'' (PDict []));
          recovery_packet = as_dict (dget state ''recovery_packet''
                               (dget verification ''recovery_packet'' (PDict [])));
          plan = as_dict (dget state ''plan'' (PDict []));
          facts = as_list (dget state ''facts'' (PList []));
          pack = fact_pack (dicts_of facts);
          loop_summaries = as_list (dget state ''loop_summaries'' (PList []));
          recent = map (\<lambda>r. PDict (summarize_tool_result r (cb_tool_result_summary_chars budgets)))
                     (lastn 6 (tool_results_of state))
      in (if verification \<noteq> [] then
            [(''verification'', safe_json (PDict (pick_keys verification
               [(''ok'', PNone), (''failure_class'', PStr []), (''failure_fingerprint'', PStr []),
                (''loop_summary'', PStr []), (''recovery'', PNone), (''recovery_packet'', PNone)])))]
          else [])
         @ (if recovery_packet \<noteq> [] then
            [(''recovery_packet'', safe_json (PDict (pick_keys recovery_packet
               [(''failure_class'', PStr []), (''failure_fingerprint'', PStr []), (''summary'', PStr []),
                (''last_check'', PStr []), (''context_scope'', PStr []), (''plan_action'', PStr []),
                (''retry_target'', PStr [])])))]
          else [])
         @ (if pack \<noteq> [] then [(''recovery_fact_pack'', safe_json (dict_list (take 5 pack)))] else [])
         @ list_seg ''mcp_relevant_tools'' (dget repo_context ''mcp_relevant_tools'' (PList [])) 5
         @ (if loop_summaries \<noteq> []
            then [(''loop_summaries'', safe_json (PList (lastn 3 loop_summaries)))] else [])
         @ (if plan \<noteq> [] then
            [(''current_plan'', safe_json (PDict (pick_keys plan
               [(''steps'', PList []), (''acceptance_criteria'', PList []), (''max_iterations'', PInt 1),
                (''recovery'', PNone), (''recovery_packet'', PNone)])))]
          else [])
         @ (if recent \<noteq> [] then [(''recent_tool_results'', safe_json (PList recent))] else [])
         @ (if facts \<noteq> [] then [(''recent_facts'', safe_json (PList (lastn 5 facts)))] else [])
         @ list_seg ''cached_procedures'' (dget repo_context ''cached_procedures'' (PList [])) 3)"

text \<open>The episodes written to the long-term store for the finished loops of a run.\<close>

record episode =
  ep_run_id :: string
  ep_summary :: string
  ep_outcome :: string
  ep_metadata :: pydict

definition episodes_of :: "long_term option \<Rightarrow> pydict \<Rightarrow> episode list" where
  "episodes_of lt state =
     (let raw = dget state ''run_id'' (PStr []); run_id = (if py_bool raw then strip (py_str raw) else [])
      in if lt = None \<or> run_id = [] then []
         else concat (map (\<lambda>entry.
           let summary = strip (py_str (dget entry ''loop_summary'' (dget entry ''summary'' (PStr []))));
               outcome = strip (py_str (dget entry ''outcome'' (dget entry ''status'' (PStr []))))
           in if summary \<noteq> []
              then [\<lparr> ep_run_id = run_id, ep_summary = summary, ep_outcome = outcome,
                      ep_metadata = [(''loop'', dget entry ''loop'' (PInt 0)),
                                     (''failure_class'', dget entry ''failure_class'' (PStr []))] \<rparr>]
              else []) (dicts_of (as_list (dget state ''loop_summaries'' (PList []))))))"

definition layer_dict :: "string \<Rightarrow> int \<Rightarrow> pydict" where
  "layer_dict text budget = [(''content'', PStr text), (''token_budget'', PInt budget),
                             (''token_estimate'', PInt (approx_token_count text))]"

definition build_context_layers ::
  "long_term option \<Rightarrow> pydict \<Rightarrow> pydict \<Rightarrow> pydict \<times> episode list" where
  "build_context_layers lt state repo_context =
     (let budgets = context_budget_settings state;
          hits = semantic_hits_of repo_context;
          memories = dicts_of (as_list (dget repo_context ''semantic_memories'' (PList [])));
          pack = fact_pack (dicts_of (as_list (dget state ''facts'' (PList []))));
          sf = fit_segments (stable_segments_of lt state repo_context) (cb_stable_prefix_tokens budgets);
          wf = fit_segments (working_segments_of state repo_context) (cb_working_set_tokens budgets);
          stable_text = fst sf; working_text = fst wf;
          planner_context = strip (join newline2 (filter (\<lambda>p. strip p \<noteq> []) [stable_text, working_text]));
          sp = compression_pressure (snd sf); wp = compression_pressure (snd wf);
          iget = (\<lambda>d k. int_or (dget d k (PInt 0)) 0);
          overall_score = max (iget sp ''score'') (iget wp ''score'');
          overall = [(''score'', PInt overall_score),
            (''compressed_segments'', PInt (iget sp ''compressed_segments'' + iget wp ''compressed_segments'')),
            (''dropped_segments'', PInt (iget sp ''dropped_segments'' + iget wp ''dropped_segments''))];
          n = int (length memories);
          combined = int (length pack) + min n 3
      in ([(''semantic_hits'', dict_list hits),
           (''stable_prefix'', PDict (layer_dict stable_text (cb_stable_prefix_tokens budgets))),
           (''working_set'', PDict (layer_dict working_text (cb_working_set_tokens budgets))),
           (''planner_context'', PDict
             [(''content'', PStr planner_context),
              (''token_estimate'', PInt (approx_token_count planner_context)),
              (''stable_token_estimate'', PInt (approx_token_count stable_text)),
              (''working_set_token_estimate'', PInt (approx_token_count working_text)),
              (''compression_pressure'', PInt overall_score), (''fact_count'', PInt combined),
              (''semantic_memory_count'', PInt n)]),
           (''compression'', PDict
             [(''stable_prefix'', dict_list (snd sf)), (''working_set'', dict_list (snd wf)),
              (''pressure'', PDict [(''stable_prefix'', PDict sp), (''working_set'', PDict wp),
                                   (''overall'', PDict overall)])])],
          episodes_of lt state))"

section \<open>Provenance\<close>

definition record_compression_provenance :: "pydict \<Rightarrow> pydict \<Rightarrow> int \<Rightarrow> pydict result" where
  "record_compression_provenance state compression_result current_loop =
     (let compression = as_dict (dget compression_result ''compression'' (PDict []));
          pressure = as_dict (dget compression ''pressure'' (PDict []));
          overall = as_dict (dget pressure ''overall'' (PDict []));
          stable = dicts_of (as_list (dget compression ''stable_prefix'' (PList [])));
          working = dicts_of (as_list (dget compression ''working_set'' (PList [])))
      in bind_r (py_int (dget overall ''compressed_segments'' (PInt 0))) (\<lambda>compressed_segments.
         bind_r (py_int (dget overall ''dropped_segments'' (PInt 0))) (\<lambda>dropped_segments.
         bind_r (py_int (dget overall ''score'' (PInt 0))) (\<lambda>pressure_score.
           let entry =
             [(''event'', PStr ''context_compression''), (''version'', PInt 1),
              (''loop'', PInt current_loop),
              (''stable_prefix_compressed'', PInt (count_action ''compressed'' stable)),
              (''stable_prefix_dropped'', PInt (count_action ''dropped'' stable)),
              (''working_set_compressed'', PInt (count_action ''compressed'' working)),
              (''working_set_dropped'', PInt (count_action ''dropped'' working)),
              (''total_compressed'', PInt compressed_segments),
              (''total_dropped'', PInt dropped_segments), (''pressure_score'', PInt pressure_score),
              (''stable_prefix_decisions'', dict_list (take 5 stable)),
              (''working_set_decisions'', dict_list (take 5 working))]
           in Inr (dset state ''provenance'' (dict_list (lastn 20 (provenance_of state @ [entry]))))))))"

definition get_compression_summary :: "pydict \<Rightarrow> pydict result" where
  "get_compression_summary state =
     (let events = filter (\<lambda>e. strip (gets e ''event'' []) = ''context_compression'') (provenance_of state);
          ints = (\<lambda>k. map_r (\<lambda>e. py_int (dget e k (PInt 0))) events)
      in if events = [] then
           Inr [(''total_events'', PInt 0), (''total_compressed'', PInt 0), (''total_dropped'', PInt 0),
                (''max_pressure'', PInt 0)]
         else
           bind_r (ints ''total_compressed'') (\<lambda>cs.
           bind_r (ints ''total_dropped'') (\<lambda>ds.
           bind_r (ints ''pressure_score'') (\<lambda>ps.
           bind_r (map_r (\<lambda>(e, c). py_int (dget e ''loop'' (PInt 0)))
                     (filter (\<lambda>(e, c). 0 < c) (zip events cs))) (\<lambda>ls.
             Inr [(''total_events'', PInt (int (length events))), (''total_compressed'', PInt (sum_list cs)),
                  (''total_dropped'', PInt (sum_list ds)), (''max_pressure'', PInt (Max (set ps))),
                  (''loops_with_compression'', PList (map PInt ls)),
                  (''last_event'', PDict (last events))])))))"

section \<open>History policy and pruning\<close>

text \<open>
  The comparison \<open>policy_src == normalized\<close> of the source ignores the order of the keys and the
  difference between equal numbers of different types.
\<close>

definition eq_int :: "pyval \<Rightarrow> int \<Rightarrow> bool" where
  "eq_int v i = (case v of PInt j \<Rightarrow> j = i | PBool b \<Rightarrow> of_bool b = i
                 | PFloat m e \<Rightarrow> dec_val m e = of_int i | _ \<Rightarrow> False)"

definition policy_eq :: "pydict \<Rightarrow> pydict \<Rightarrow> bool" where
  "policy_eq src normalized = (length src = length normalized \<and>
     list_all (\<lambda>(k, v). eq_int (dget src k PNone) (strict_int_or v 0)) normalized)"

definition ensure_history_policy :: "pydict \<Rightarrow> pydict" where
  "ensure_history_policy state =
     (let policy_src = as_dict (dget state ''history_policy'' (PDict []));
          normalized = normalize_history_policy policy_src
      in if policy_eq policy_src normalized then state
         else dset state ''history_policy'' (PDict normalized))"

definition prune_pre_verification_history :: "pydict \<Rightarrow> pydict" where
  "prune_pre_verification_history state0 =
     (let state = ensure_history_policy state0 in
      case dget state ''history_policy'' (PDict []) of
        PDict policy \<Rightarrow>
          (let retain = as_int (dget policy ''retain_recent_tool_results'' PNone) 40 5 500;
               results = tool_results_of state in
           if int (length results) \<le> retain then state
           else dset (dset state ''tool_results'' (dict_list (py_tail retain results)))
                  ''provenance'' (dict_list (provenance_of state @
                    [[(''event'', PStr ''tool_result_window_trim''),
                      (''reason'', PStr ''sliding_window_pre_verification''),
                      (''dropped'', PInt (int (length results) - retain)), (''kept'', PInt retain)]])))
      | _ \<Rightarrow> state)"

definition pruned_prefix :: string where
  "pruned_prefix = ''[pruned_read_file_payload]''"

definition prunable :: "int \<Rightarrow> pydict \<Rightarrow> bool" where
  "prunable threshold result =
     (strip (gets result ''tool'' []) = ''read_file'' \<and>
      (case dget result ''stdout'' (PStr []) of
         PStr out \<Rightarrow> threshold \<le> int (length out) \<and> \<not> prefix pruned_prefix out | _ \<Rightarrow> False))"

definition compact_result :: "pydict \<Rightarrow> pydict" where
  "compact_result result =
     (let out = gets result ''stdout'' []; digest = sha256_hex out; n = int (length out);
          artifacts = as_dict (dget result ''artifacts'' (PDict []))
      in dset (dset result ''stdout''
                 (PStr (pruned_prefix @ '' chars='' @ int_str n @ '' sha256='' @ digest)))
           ''artifacts'' (PDict (dset artifacts ''pruned''
              (PDict [(''reason'', PStr ''post_verify_after_apply_patch''),
                      (''stdout_chars'', PInt n), (''stdout_sha256'', PStr digest)]))))"

definition eviction_record :: "nat \<Rightarrow> pydict \<Rightarrow> pydict" where
  "eviction_record index result =
     (let out = gets result ''stdout'' [];
          artifacts = as_dict (dget result ''artifacts'' (PDict []));
          path = (case dget artifacts ''path'' PNone of PStr p \<Rightarrow> p | _ \<Rightarrow> [])
      in [(''event'', PStr ''read_file_payload_evicted''),
          (''reason'', PStr ''post_verify_after_apply_patch''), (''tool_index'', PInt (int index)),
          (''path'', PStr path), (''stdout_chars'', PInt (int (length out))),
          (''stdout_sha256'', PStr (sha256_hex out))])"

definition prune_post_verification_history :: "pydict \<Rightarrow> pydict" where
  "prune_post_verification_history state0 =
     (let state = ensure_history_policy state0; results = tool_results_of state in
      case (dget state ''verification'' (PDict []), dget state ''history_policy'' (PDict [])) of
        (PDict verification, PDict policy) \<Rightarrow>
          if \<not> py_bool (dget verification ''ok'' (PBool False)) then state
          else if \<not> list_ex (\<lambda>r. strip (gets r ''tool'' []) = ''apply_patch''
                                \<and> py_bool (dget r ''ok'' (PBool False))) results then state
          else
            let threshold = as_int (dget policy ''read_file_prune_threshold_chars'' PNone) 4000 200 200000;
                evicted = filter (\<lambda>(i, r). prunable threshold r) (enumerate 0 results)
            in if evicted = [] then state
               else dset (dset state ''tool_results''
                      (dict_list (map (\<lambda>r. if prunable threshold r then compact_result r else r) results)))
                    ''provenance'' (dict_list (provenance_of state
                       @ map (\<lambda>(i, r). eviction_record i r) evicted))
      | _ \<Rightarrow> state)"

end
