(* ===== verification/Memory_Props.thy ===== *)
theory Memory_Props
  imports Memory "HOL-Library.Multiset"
begin

text \<open>
  What the memory component guarantees: bounds of the token budget, the selection made by the
  deduplications, idempotence of the history policy, and what pruning keeps.
\<close>

section \<open>Token budgets\<close>

lemma length_marker [simp]: "length compressed_marker = 20"
  by (simp add: compressed_marker_def)

lemma length_rstrip_py_take: "0 \<le> n \<Longrightarrow> int (length (rstrip (py_take n s))) \<le> n"
  using length_rstrip [of "py_take n s"] length_py_take [of n s] by linarith

lemma length_lstrip_py_tail: "0 < n \<Longrightarrow> int (length (lstrip (py_tail n s))) \<le> n"
  using length_lstrip [of "py_tail n s"] length_py_tail [of n s] by linarith

lemma truncate_length:
  "int (length (fst (truncate_text_to_budget u b)))
     \<le> (if 17 \<le> b \<and> b \<le> 19 then 80 else 4 * max b 0) \<and>
   (snd (truncate_text_to_budget u b) \<or> fst (truncate_text_to_budget u b) = u)"
proof -
  consider "b \<le> 0" | "0 < b" "int (length u) \<le> b * 4" | "0 < b" "b \<le> 16" "b * 4 < int (length u)"
    | "16 < b" "b * 4 < int (length u)" by linarith
  then show ?thesis
  proof cases
    case 3
    then show ?thesis
      using length_rstrip_py_take [of "b * 4" u] by (simp add: truncate_text_to_budget_def)
  next
    case 4
    define h where "h = max ((b * 4 - 20) * 2 div 3) 40"
    define t where "t = max (b * 4 - 20 - h) 20"
    have eq: "truncate_text_to_budget u b
        = (rstrip (py_take h u) @ compressed_marker @ lstrip (py_tail t u), True)"
      using 4 by (simp add: truncate_text_to_budget_def Let_def h_def t_def)
    have h: "0 \<le> h" "int (length (rstrip (py_take h u))) \<le> h"
      using length_rstrip_py_take by (simp_all add: h_def)
    have t: "0 < t" "int (length (lstrip (py_tail t u))) \<le> t"
      using length_lstrip_py_tail by (simp_all add: t_def)
    have "h + 20 + t \<le> (if b \<le> 19 then 80 else 4 * b)"
      using 4 unfolding t_def h_def by (simp split: split_max)
    then show ?thesis using 4 h t by (simp add: eq)
  qed (auto simp: truncate_text_to_budget_def)
qed

text \<open>
  The length of a text truncated to a token budget of \<open>b\<close>: at most four characters per token,
  except for the budgets 17, 18 and 19, where the minimal head and tail around the marker can make
  it 80 characters long. An unchanged text is reported as not compressed.
\<close>

theorem truncate_text_length:
  "int (length (fst (truncate_text_to_budget u b)))
     \<le> (if 17 \<le> b \<and> b \<le> 19 then 80 else 4 * max b 0) \<and>
   (snd (truncate_text_to_budget u b) \<or> fst (truncate_text_to_budget u b) = u)"
  by (rule truncate_length)

text \<open>
  The bound of four characters per token is not met for every budget: a text of one hundred
  letters truncated to 17 tokens keeps 80 characters, that is 20 tokens.
\<close>

theorem truncate_text_exceeds_budget:
  "length (fst (truncate_text_to_budget (replicate 100 (CHR ''a'')) 17)) = 80 \<and>
   approx_token_count (fst (truncate_text_to_budget (replicate 100 (CHR ''a'')) 17)) = 20"
  by code_simp

lemma approx_token_count_le: "0 \<le> n \<Longrightarrow> int (length t) \<le> 4 * n \<Longrightarrow> approx_token_count t \<le> n"
  by (cases t) (auto simp: approx_token_count_def)

lemma approx_token_count_ge: "int (length t) \<le> 4 * approx_token_count t"
  by (auto simp: approx_token_count_def)

lemma approx_token_count_nonneg [simp]: "0 \<le> approx_token_count t"
  by (simp add: approx_token_count_def le_max_iff_disj)

definition chunk_tokens :: "string list \<Rightarrow> int" where
  "chunk_tokens cs = sum_list (map approx_token_count cs)"

lemma chunk_tokens_simps [simp]:
  "chunk_tokens [] = 0" "chunk_tokens (c # cs) = approx_token_count c + chunk_tokens cs"
  "chunk_tokens (cs @ ds) = chunk_tokens cs + chunk_tokens ds"
  by (simp_all add: chunk_tokens_def)

definition fit_inv :: "int \<Rightarrow> fit_state \<Rightarrow> bool" where
  "fit_inv b st \<longleftrightarrow> 0 \<le> fs_remaining st \<and>
     (chunk_tokens (fs_chunks st) + fs_remaining st \<le> b \<or>
      fs_remaining st = 0 \<and> chunk_tokens (fs_chunks st) \<le> b + 3)"

lemma truncate_tokens:
  assumes "0 < r"
  shows "approx_token_count (fst (truncate_text_to_budget u r)) \<le> r \<or>
         17 \<le> r \<and> approx_token_count (fst (truncate_text_to_budget u r)) \<le> 20"
proof (cases "17 \<le> r \<and> r \<le> 19")
  case True
  then show ?thesis
    using truncate_length [of u r] approx_token_count_le [of 20] by auto
next
  case False
  then have "int (length (fst (truncate_text_to_budget u r))) \<le> 4 * r"
    using truncate_length [of u r] assms by (auto split: if_splits)
  then show ?thesis using assms by (auto intro: approx_token_count_le)
qed

lemma fit_step_inv: "fit_inv b st \<Longrightarrow> fit_inv b (fit_step seg st)"
proof -
  assume inv: "fit_inv b st"
  define block where "block = segment_block seg"
  define r where "r = fs_remaining st"
  consider "strip (snd seg) = []" | "strip (snd seg) \<noteq> []" "r \<le> 0"
    | "strip (snd seg) \<noteq> []" "0 < r" "approx_token_count block \<le> r"
    | "strip (snd seg) \<noteq> []" "0 < r" "r < approx_token_count block" by linarith
  then show ?thesis
  proof cases
    case 4
    define c where "c = fst (truncate_text_to_budget block r)"
    define k where "k = (if strip c \<noteq> [] then [c] else [])"
    have c: "approx_token_count c \<le> r \<or> 17 \<le> r \<and> approx_token_count c \<le> 20"
      using truncate_tokens [OF 4(2)] by (simp add: c_def)
    have k: "0 \<le> chunk_tokens k" "chunk_tokens k \<le> approx_token_count c"
      by (simp_all add: k_def)
    have st: "fs_remaining (fit_step seg st) = max (r - approx_token_count c) 0"
      "fs_chunks (fit_step seg st) = fs_chunks st @ k"
      using 4 by (simp_all add: fit_step_def Let_def r_def block_def c_def k_def)
    have "chunk_tokens (fs_chunks st) + r \<le> b"
      using inv 4(2) by (auto simp: fit_inv_def r_def)
    then show ?thesis
      unfolding fit_inv_def st using c k by (simp add: max_def) linarith
  qed (use inv in \<open>auto simp: fit_step_def fit_inv_def Let_def r_def block_def\<close>)
qed

lemma fit_fold_inv: "fit_inv b st \<Longrightarrow> fit_inv b (fold fit_step segs st)"
  by (induction segs arbitrary: st) (auto intro: fit_step_inv)

lemma fit_all_tokens:
  assumes "0 \<le> b"
  shows "chunk_tokens (fs_chunks (fit_all segs b)) \<le> b + 3"
proof -
  have "fit_inv b \<lparr> fs_remaining = max b 0, fs_chunks = [], fs_decisions = [] \<rparr>" using assms by (simp add: fit_inv_def)
  then have "fit_inv b (fit_all segs b)" unfolding fit_all_def by (rule fit_fold_inv)
  then show ?thesis by (auto simp: fit_inv_def)
qed

definition nonblank :: "string list \<Rightarrow> string list" where
  "nonblank = filter (\<lambda>c. strip c \<noteq> [])"

text \<open>As long as no decision is recorded every segment that is not blank is kept whole.\<close>

lemma fit_step_uncut:
  assumes "fs_decisions (fit_step seg st) = []"
  shows "fs_decisions st = [] \<and> fs_chunks (fit_step seg st) = fs_chunks st @ (if strip (snd seg) = [] then [] else [segment_block seg])"
proof -
  consider "strip (snd seg) = []" | "strip (snd seg) \<noteq> []" "fs_remaining st \<le> 0"
    | "strip (snd seg) \<noteq> []" "0 < fs_remaining st" "approx_token_count (segment_block seg) \<le> fs_remaining st"
    | "strip (snd seg) \<noteq> []" "0 < fs_remaining st" "fs_remaining st < approx_token_count (segment_block seg)" by linarith
  then show ?thesis by cases (use assms in \<open>simp_all add: fit_step_def Let_def\<close>)
qed

lemma fit_all_uncut:
  assumes "fs_decisions (fit_all segs b) = []"
  shows "fs_chunks (fit_all segs b) = map segment_block (filter (\<lambda>s. strip (snd s) \<noteq> []) segs)"
proof -
  have "fs_decisions st = [] \<and> fs_chunks (fold fit_step segs st) = fs_chunks st @ map segment_block (filter (\<lambda>s. strip (snd s) \<noteq> []) segs)"
    if "fs_decisions (fold fit_step segs st) = []" for st
    using that
  proof (induction segs arbitrary: st)
    case (Cons seg segs)
    have "fs_decisions (fold fit_step segs (fit_step seg st)) = []" using Cons.prems by (simp only: fold_simps)
    from Cons.IH [OF this] show ?case using fit_step_uncut [of seg st] by (simp only: fold_simps) simp
  qed simp
  from this [OF assms [unfolded fit_all_def]] show ?thesis by (simp add: fit_all_def)
qed

lemma fit_step_chunks: "length (fs_chunks (fit_step seg st)) \<le> length (fs_chunks st) + 1"
  by (simp add: fit_step_def Let_def)

lemma fit_all_chunks: "length (fs_chunks (fit_all segs b)) \<le> length segs"
proof -
  have step: "length (fs_chunks (fold fit_step segs st)) \<le> length (fs_chunks st) + length segs" for st
  proof (induction segs arbitrary: st)
    case (Cons seg segs)
    show ?case using Cons [of "fit_step seg st"] fit_step_chunks [of seg st] by simp
  qed simp
  show ?thesis unfolding fit_all_def by (rule order_trans [OF step]) simp
qed

lemma length_join2: "int (length (join newline2 cs)) \<le> 4 * chunk_tokens cs + 2 * max 0 (int (length cs) - 1)"
proof (induction newline2 cs rule: join.induct)
  case (3 x y ys)
  then show ?case using approx_token_count_ge [of x] by (simp add: newline2_def)
qed (use approx_token_count_ge in \<open>simp_all\<close>)

lemma chunk_tokens_filter: "chunk_tokens (filter P cs) \<le> chunk_tokens cs"
  by (induction cs) (simp_all add: add_increasing)

text \<open>
  C32. The text that is assembled from any segments stays near the token budget of its layer: it exceeds the
  budget by at most three tokens (the marker of the segment that is compressed last) and half a
  token for every segment, because the blank lines between the segments are not counted against the budget.
  And when no decision is reported nothing was cut: the text is that of all segments that are not blank, in order.
\<close>

theorem fit_segments_budget:
  assumes "0 \<le> b"
  shows "approx_token_count (fst (fit_segments segs b)) \<le> b + 3 + int (length segs div 2) \<and>
    (snd (fit_segments segs b) = [] \<longrightarrow>
       fst (fit_segments segs b) = strip (join newline2 (nonblank (map segment_block (filter (\<lambda>s. strip (snd s) \<noteq> []) segs)))))"
proof -
  let ?cs = "filter (\<lambda>c. strip c \<noteq> []) (fs_chunks (fit_all segs b))"
  have cs: "chunk_tokens ?cs \<le> b + 3" "length ?cs \<le> length segs"
    using chunk_tokens_filter fit_all_tokens [OF assms, of segs] fit_all_chunks [of segs b] length_filter_le
    by (meson order_trans)+
  have "int (length (fst (fit_segments segs b))) \<le> int (length (join newline2 ?cs))"
    using length_strip [of "join newline2 ?cs"] by (simp add: fit_segments_def Let_def)
  also have "\<dots> \<le> 4 * chunk_tokens ?cs + 2 * max 0 (int (length ?cs) - 1)" by (rule length_join2)
  also have "\<dots> \<le> 4 * (b + 3) + 2 * max 0 (int (length segs) - 1)" using cs by (intro add_mono mult_left_mono max.mono) auto
  also have "\<dots> \<le> 4 * (b + 3 + int (length segs div 2))" by (cases "length segs") (simp_all add: zdiv_int)
  finally have bound: "approx_token_count (fst (fit_segments segs b)) \<le> b + 3 + int (length segs div 2)"
    using assms by (intro approx_token_count_le) auto
  have "fst (fit_segments segs b) = strip (join newline2 (nonblank (map segment_block (filter (\<lambda>s. strip (snd s) \<noteq> []) segs))))"
    if "snd (fit_segments segs b) = []"
    using fit_all_uncut [of segs b] that by (simp add: fit_segments_def nonblank_def Let_def)
  then show ?thesis using bound by blast
qed

theorem fit_segments_budget_witness:
  "approx_token_count (fst (fit_segments [(''a'', ''hello''), (''b'', ''world'')] 5)) \<le> 9"
  using fit_segments_budget [of 5 "[(''a'', ''hello''), (''b'', ''world'')]"] by simp

text \<open>The separators alone break the budget: two segments of two tokens each fit four tokens and make a text of five.\<close>

theorem separators_not_counted:
  "fs_decisions (fit_all [(''a'', ''bcde''), (''f'', ''ghij'')] 4) = [] \<and>
   approx_token_count (fst (fit_segments [(''a'', ''bcde''), (''f'', ''ghij'')] 4)) = 5"
  by code_simp

text \<open>The score of the compression pressure counts a dropped segment twice.\<close>

lemma compression_pressure_score:
  "dget (compression_pressure ds) ''score'' v
     = PInt (count_action ''compressed'' ds + 2 * count_action ''dropped'' ds)"
  by (simp add: compression_pressure_def Let_def)

lemma compression_pressure_zero_iff:
  "count_action ''compressed'' ds + 2 * count_action ''dropped'' ds = 0
     \<longleftrightarrow> (\<forall>d\<in>set ds. decision_action d \<notin> {''compressed'', ''dropped''})"
proof -
  have n: "0 \<le> count_action a ds" for a by (simp add: count_action_def)
  have z: "count_action a ds = 0 \<longleftrightarrow> (\<forall>d\<in>set ds. decision_action d \<noteq> a)" for a
    by (auto simp: count_action_def filter_empty_conv)
  have "count_action ''compressed'' ds + 2 * count_action ''dropped'' ds = 0
      \<longleftrightarrow> count_action ''compressed'' ds = 0 \<and> count_action ''dropped'' ds = 0"
    using n [of "''compressed''"] n [of "''dropped''"] by linarith
  then show ?thesis unfolding z by auto
qed

section \<open>Deduplication by key\<close>

lemma distinct_map_sort_key: "distinct (map f (sort_key g xs)) = distinct (map f xs)"
  by (rule mset_eq_imp_distinct_iff) simp

text \<open>
  Both deduplications fold entries into a dictionary from keys to the best entry seen so far. The
  shared argument: the dictionary has distinct keys, stores every entry under its own key, and for
  every accepted entry holds one of at least the same rank.
\<close>

locale best_by_key =
  fixes key :: "'a \<Rightarrow> string" and rank :: "'a \<Rightarrow> 'r::linorder" and accept :: "'a \<Rightarrow> bool"
    and step :: "'a \<Rightarrow> (string \<times> 'a) list \<Rightarrow> (string \<times> 'a) list"
  assumes step_reject: "\<not> accept x \<Longrightarrow> step x d = d"
    and step_new: "accept x \<Longrightarrow> map_of d (key x) = None \<Longrightarrow> step x d = AList.update (key x) x d"
    and step_better: "accept x \<Longrightarrow> map_of d (key x) = Some y \<Longrightarrow> rank y < rank x \<Longrightarrow>
          step x d = AList.update (key x) x d"
    and step_worse: "accept x \<Longrightarrow> map_of d (key x) = Some y \<Longrightarrow> rank x < rank y \<Longrightarrow> step x d = d"
    and step_equal: "accept x \<Longrightarrow> map_of d (key x) = Some y \<Longrightarrow> rank x = rank y \<Longrightarrow>
          step x d = d \<or> step x d = AList.update (key x) x d"
begin

definition ok :: "'a set \<Rightarrow> (string \<times> 'a) list \<Rightarrow> bool" where
  "ok seen d \<longleftrightarrow> distinct (map fst d) \<and>
     (\<forall>k y. map_of d k = Some y \<longrightarrow> key y = k \<and> y \<in> seen \<and> accept y) \<and>
     (\<forall>x\<in>seen. accept x \<longrightarrow> (\<exists>y. map_of d (key x) = Some y \<and> rank x \<le> rank y))"

lemma ok_empty: "ok {} []"
  by (simp add: ok_def)

lemma step_cases:
  assumes "accept x"
  shows "step x d = AList.update (key x) x d \<and> (\<forall>y. map_of d (key x) = Some y \<longrightarrow> rank y \<le> rank x) \<or>
         step x d = d \<and> (\<exists>y. map_of d (key x) = Some y \<and> rank x \<le> rank y)"
proof (cases "map_of d (key x)")
  case None
  then show ?thesis using step_new [OF assms None] by simp
next
  case (Some y)
  consider "rank y < rank x" | "rank x < rank y" | "rank x = rank y" by (rule linorder_cases)
  then show ?thesis
    using step_better [OF assms Some] step_worse [OF assms Some] step_equal [OF assms Some] Some
    by cases auto
qed

lemma ok_step: "ok seen d \<Longrightarrow> ok (insert x seen) (step x d)"
proof (cases "accept x")
  case False
  assume "ok seen d"
  with False step_reject [OF False] show ?thesis by (auto simp: ok_def)
next
  case True
  assume ok: "ok seen d"
  from step_cases [OF True, of d] show ?thesis
  proof
    assume upd: "step x d = AList.update (key x) x d \<and> (\<forall>y. map_of d (key x) = Some y \<longrightarrow> rank y \<le> rank x)"
    have "\<exists>y. map_of (step x d) (key z) = Some y \<and> rank z \<le> rank y" if "z \<in> seen" "accept z" for z
    proof -
      obtain y where "map_of d (key z) = Some y" "rank z \<le> rank y"
        using ok \<open>z \<in> seen\<close> \<open>accept z\<close> unfolding ok_def by blast
      then show ?thesis using upd by (cases "key z = key x") (auto intro: order_trans)
    qed
    then show ?thesis using upd ok True by (auto simp: ok_def distinct_update)
  next
    assume "step x d = d \<and> (\<exists>y. map_of d (key x) = Some y \<and> rank x \<le> rank y)"
    then show ?thesis using ok by (auto simp: ok_def)
  qed
qed

lemma ok_fold: "ok seen d \<Longrightarrow> ok (seen \<union> set xs) (fold step xs d)"
proof (induction xs arbitrary: seen d)
  case (Cons x xs)
  then have "ok (insert x seen \<union> set xs) (fold step xs (step x d))" by (blast intro: ok_step)
  then show ?case by simp
qed simp

lemma fold_ok: "ok (set xs) (fold step xs [])"
  using ok_fold [OF ok_empty, of xs] by simp

lemma fold_distinct: "distinct (map key (map snd (fold step xs [])))"
proof -
  have d: "distinct (map fst (fold step xs []))" and k: "\<And>k y. map_of (fold step xs []) k = Some y \<Longrightarrow> key y = k"
    using fold_ok [of xs] by (auto simp: ok_def)
  have "map key (map snd (fold step xs [])) = map fst (fold step xs [])"
    using d k by (auto intro!: map_cong simp: comp_def)
  then show ?thesis by (simp only: d)
qed

lemma fold_best:
  "x \<in> set xs \<Longrightarrow> accept x \<Longrightarrow>
     \<exists>y\<in>set (map snd (fold step xs [])). key y = key x \<and> rank x \<le> rank y \<and> y \<in> set xs"
proof -
  assume "x \<in> set xs" "accept x"
  then obtain y where y: "map_of (fold step xs []) (key x) = Some y" "rank x \<le> rank y"
    using fold_ok [of xs] unfolding ok_def by blast
  moreover have "key y = key x" "y \<in> set xs" using fold_ok [of xs] y unfolding ok_def by blast+
  moreover have "y \<in> set (map snd (fold step xs []))" using map_of_SomeD [OF y(1)] by force
  ultimately show ?thesis by blast
qed

lemma fold_sound: "y \<in> set (map snd (fold step xs [])) \<Longrightarrow> y \<in> set xs \<and> accept y"
proof -
  assume "y \<in> set (map snd (fold step xs []))"
  then obtain k where "(k, y) \<in> set (fold step xs [])" by auto
  then have "map_of (fold step xs []) k = Some y" using fold_ok [of xs] by (simp add: ok_def)
  then show ?thesis using fold_ok [of xs] by (auto simp: ok_def)
qed

end

interpretation hits: best_by_key hit_key hit_score "\<lambda>h. hit_key h \<noteq> []" best_hit_step
  by unfold_locales (auto simp: best_hit_step_def Let_def)

interpretation pack: best_by_key fact_key fact_rank "\<lambda>_. True" fact_step
  by unfold_locales (auto simp: fact_step_def Let_def)

text \<open>
  C33. Deduplicated semantic hits: their keys are distinct, they are sorted by falling score, each is
  one of the given hits, and for every given hit with a key one of the same key and at least its
  score is kept.
\<close>

theorem dedupe_semantic_hits_spec:
  "distinct (map hit_key (dedupe_semantic_hits hs)) \<and>
   sorted (map (\<lambda>h. - hit_score h) (dedupe_semantic_hits hs)) \<and>
   set (dedupe_semantic_hits hs) \<subseteq> set hs \<and>
   (\<forall>h\<in>set hs. hit_key h \<noteq> [] \<longrightarrow>
      (\<exists>g\<in>set (dedupe_semantic_hits hs). hit_key g = hit_key h \<and> hit_score h \<le> hit_score g))"
proof -
  have sc: "num_val (dget h ''score'' PNone) = hit_score h" for h
    by (simp add: hit_score_def dget_def split: option.splits)
  have st: "set (dedupe_semantic_hits hs) = set (map snd (fold best_hit_step hs []))"
    by (simp add: dedupe_semantic_hits_def)
  have "distinct (map hit_key (dedupe_semantic_hits hs))"
    using hits.fold_distinct [of hs] unfolding dedupe_semantic_hits_def distinct_map_sort_key .
  moreover have "sorted (map (\<lambda>h. - hit_score h) (dedupe_semantic_hits hs))"
    unfolding dedupe_semantic_hits_def sc by (rule sorted_sort_key)
  moreover have "set (dedupe_semantic_hits hs) \<subseteq> set hs"
    unfolding st using hits.fold_sound by blast
  moreover have "\<forall>h\<in>set hs. hit_key h \<noteq> [] \<longrightarrow>
      (\<exists>g\<in>set (dedupe_semantic_hits hs). hit_key g = hit_key h \<and> hit_score h \<le> hit_score g)"
    unfolding st using hits.fold_best by blast
  ultimately show ?thesis by blast
qed

theorem dedupe_semantic_hits_spec_witness:
  "\<exists>g\<in>set (dedupe_semantic_hits [[(''path'', PStr ''a''), (''score'', PInt 1)], [(''path'', PStr ''a''), (''score'', PInt 2)]]).
     hit_key g = ''a'' \<and> 2 \<le> hit_score g"
proof -
  let ?h = "[(''path'', PStr ''a''), (''score'', PInt 2)] :: pydict"
  have k: "hit_key ?h = ''a''" "hit_score ?h = 2" by code_simp+
  then show ?thesis
    using dedupe_semantic_hits_spec [of "[[(''path'', PStr ''a''), (''score'', PInt 1)], ?h]"] by simp
qed

definition normal_facts :: "pydict list \<Rightarrow> pydict list" where
  "normal_facts facts = List.map_filter normalize_fact facts"

lemma sorted_take_rest:
  assumes "sorted (map f xs)" "x \<in> set xs" "x \<notin> set (take n xs)" "y \<in> set (take n xs)"
  shows "f y \<le> f x" and "length (take n xs) = n"
proof -
  obtain i where i: "i < length xs" "xs ! i = x" using assms(2) by (auto simp: in_set_conv_nth)
  have n: "n \<le> i"
  proof (rule ccontr)
    assume "\<not> n \<le> i"
    then have "x \<in> set (take n xs)" using i by (auto simp: in_set_conv_nth intro!: exI [of _ i])
    then show False using assms(3) by blast
  qed
  obtain j where j: "j < n" "j < length xs" "xs ! j = y" using assms(4) by (auto simp: in_set_conv_nth)
  show "f y \<le> f x" using sorted_nth_mono [OF assms(1), of j i] i j n by simp
  show "length (take n xs) = n" using i n by simp
qed

lemma fact_order_rank: "fact_order g \<le> fact_order f \<Longrightarrow> fact_rank f \<le> fact_rank g"
  by (auto simp: fact_order_def less_eq_prod_def)

text \<open>
  C34. The fact pack holds at most eight facts with distinct keys, sorted by falling salience and loop, each of them one of
  the given facts in normal form. It holds the most salient ones: for every fact with a fingerprint or a summary
  the pack has one of the same key and at least its rank, or it has eight facts that all rank at least as high.
\<close>

theorem fact_pack_spec:
  "length (fact_pack facts) \<le> 8 \<and> distinct (map fact_key (fact_pack facts)) \<and>
   sorted (map fact_order (fact_pack facts)) \<and> set (fact_pack facts) \<subseteq> set (normal_facts facts) \<and>
   (\<forall>f\<in>set (normal_facts facts).
      (\<exists>g\<in>set (fact_pack facts). fact_key g = fact_key f \<and> fact_rank f \<le> fact_rank g) \<or>
      length (fact_pack facts) = 8 \<and> (\<forall>g\<in>set (fact_pack facts). fact_rank f \<le> fact_rank g))"
proof -
  let ?n = "normal_facts facts"
  define ds where "ds = sort_key fact_order (map snd (fold fact_step ?n []))"
  have p: "fact_pack facts = take 8 ds"
    by (simp add: fact_pack_def normal_facts_def ds_def Let_def)
  have d: "distinct (map fact_key ds)"
    unfolding distinct_map_sort_key ds_def by (rule pack.fold_distinct)
  have sorted: "sorted (map fact_order ds)" by (simp add: ds_def)
  have sub: "set ds \<subseteq> set ?n" unfolding ds_def set_sort using pack.fold_sound by blast
  have best: "\<exists>g\<in>set ds. fact_key g = fact_key f \<and> fact_rank f \<le> fact_rank g" if "f \<in> set ?n" for f
    unfolding ds_def set_sort using pack.fold_best [OF that] by blast
  have kept: "(\<exists>g\<in>set (fact_pack facts). fact_key g = fact_key f \<and> fact_rank f \<le> fact_rank g) \<or>
      length (fact_pack facts) = 8 \<and> (\<forall>g\<in>set (fact_pack facts). fact_rank f \<le> fact_rank g)" if f: "f \<in> set ?n" for f
  proof -
    obtain g where g: "g \<in> set ds" "fact_key g = fact_key f" "fact_rank f \<le> fact_rank g" using best [OF f] by blast
    show ?thesis
    proof (cases "g \<in> set (take 8 ds)")
      case False
      then have ne: "take 8 ds \<noteq> []" using g(1) by (cases ds) auto
      have "fact_rank f \<le> fact_rank x" if "x \<in> set (take 8 ds)" for x
        using fact_order_rank [OF sorted_take_rest(1) [OF sorted g(1) False that]] g(3) by simp
      moreover have "length (take 8 ds) = 8"
        using sorted_take_rest(2) [OF sorted g(1) False] ne by (metis list.set_intros(1) neq_Nil_conv)
      ultimately show ?thesis by (simp add: p)
    qed (use g in \<open>auto simp: p\<close>)
  qed
  have "distinct (map fact_key (fact_pack facts))" "sorted (map fact_order (fact_pack facts))"
    using d sorted by (simp_all add: p take_map [symmetric] distinct_take sorted_wrt_take)
  moreover have "set (fact_pack facts) \<subseteq> set ?n"
    using sub set_take_subset by (fastforce simp: p)
  ultimately show ?thesis using kept by (simp add: p)
qed

theorem fact_pack_spec_witness:
  "\<exists>g\<in>set (fact_pack [[(''summary'', PStr ''s''), (''salience'', PInt 6)]]).
     fact_key g = ''s'' \<and> (6, 0) \<le> fact_rank g"
proof -
  let ?f = "[(''summary'', PStr ''s''), (''salience'', PInt 6)] :: pydict"
  let ?n = "[(''summary'', PStr ''s''), (''salience'', PInt 6), (''kind'', PStr ''fact''), (''loop'', PInt 0)] :: pydict"
  have n: "normal_facts [?f] = [?n]" "fact_key ?n = ''s''" "fact_rank ?n = (6, 0)" "length (fact_pack [?f]) = 1" by code_simp+
  show ?thesis using fact_pack_spec [of "[?f]"] by (simp add: n)
qed

section \<open>History policy and pruning\<close>

lemma as_int_range: "lo \<le> hi \<Longrightarrow> lo \<le> d \<Longrightarrow> d \<le> hi \<Longrightarrow> lo \<le> as_int v d lo hi \<and> as_int v d lo hi \<le> hi"
  by (auto simp: as_int_def Let_def split: pyval.splits option.splits sum.splits)

lemma as_int_PInt: "as_int (PInt i) d lo hi = min (max i lo) hi"
  by (simp add: as_int_def)

lemma normalize_history_policy_idem:
  "normalize_history_policy (normalize_history_policy p) = normalize_history_policy p"
  using as_int_range [of 5 500 40 "dget p ''retain_recent_tool_results'' PNone"]
    as_int_range [of 200 200000 4000 "dget p ''read_file_prune_threshold_chars'' PNone"]
  by (simp add: normalize_history_policy_def as_int_PInt)

lemma policy_eq_refl_normalized: "policy_eq (normalize_history_policy p) (normalize_history_policy p)"
  by (simp add: policy_eq_def normalize_history_policy_def eq_int_def)

lemma ensure_history_policy_dict:
  "\<exists>p. dget (ensure_history_policy s) ''history_policy'' (PDict []) = PDict p"
proof (cases "policy_eq (as_dict (dget s ''history_policy'' (PDict [])))
    (normalize_history_policy (as_dict (dget s ''history_policy'' (PDict []))))")
  case True
  then have "as_dict (dget s ''history_policy'' (PDict [])) \<noteq> []"
    by (auto simp: policy_eq_def normalize_history_policy_def)
  then have "\<exists>p. dget s ''history_policy'' (PDict []) = PDict p"
    by (cases "dget s ''history_policy'' (PDict [])") auto
  with True show ?thesis by (simp add: ensure_history_policy_def Let_def)
qed (simp add: ensure_history_policy_def Let_def)

lemma ensure_history_policy_other:
  "k \<noteq> ''history_policy'' \<Longrightarrow> map_of (ensure_history_policy s) k = map_of s k"
  by (simp add: ensure_history_policy_def Let_def)

lemma ensure_history_policy_idem: "ensure_history_policy (ensure_history_policy s) = ensure_history_policy s"
  by (simp add: ensure_history_policy_def Let_def normalize_history_policy_idem policy_eq_refl_normalized)

definition retained_results :: "pydict \<Rightarrow> int" where
  "retained_results s = as_int (dget (as_dict (dget (ensure_history_policy s) ''history_policy'' (PDict [])))
     ''retain_recent_tool_results'' PNone) 40 5 500"

text \<open>
  Pruning before verification keeps exactly the most recent tool results, as many as the policy
  retains (between 5 and 500), and changes no key but the tool results, the provenance and the
  policy.
\<close>

theorem prune_pre_keeps_recent:
  "5 \<le> retained_results s \<and> retained_results s \<le> 500 \<and>
   tool_results_of (prune_pre_verification_history s)
     = lastn (nat (retained_results s)) (tool_results_of s) \<and>
   (\<forall>k. k \<notin> {''tool_results'', ''provenance'', ''history_policy''} \<longrightarrow>
      map_of (prune_pre_verification_history s) k = map_of s k)"
proof -
  obtain p where p: "dget (ensure_history_policy s) ''history_policy'' (PDict []) = PDict p"
    using ensure_history_policy_dict by blast
  have tr: "tool_results_of (ensure_history_policy s) = tool_results_of s"
    by (simp add: tool_results_of_def dget_def ensure_history_policy_other)
  have r: "retained_results s = as_int (dget p ''retain_recent_tool_results'' PNone) 40 5 500"
    by (simp add: retained_results_def p)
  have rng: "5 \<le> retained_results s \<and> retained_results s \<le> 500"
    unfolding r by (rule as_int_range) simp_all
  have pr: "prune_pre_verification_history s =
      (if int (length (tool_results_of s)) \<le> retained_results s then ensure_history_policy s
       else dset (dset (ensure_history_policy s) ''tool_results''
                    (dict_list (py_tail (retained_results s) (tool_results_of s))))
              ''provenance'' (dict_list (provenance_of (ensure_history_policy s) @
                [[(''event'', PStr ''tool_result_window_trim''),
                  (''reason'', PStr ''sliding_window_pre_verification''),
                  (''dropped'', PInt (int (length (tool_results_of s)) - retained_results s)),
                  (''kept'', PInt (retained_results s))]])))"
    by (simp add: prune_pre_verification_history_def Let_def p tr r)
  have "tool_results_of (prune_pre_verification_history s)
     = lastn (nat (retained_results s)) (tool_results_of s)"
  proof (cases "int (length (tool_results_of s)) \<le> retained_results s")
    case True
    then show ?thesis by (simp add: pr tr lastn_all)
  next
    case False
    then show ?thesis
      unfolding pr using rng by (simp add: tool_results_of_def py_tail_def)
  qed
  moreover have "\<forall>k. k \<notin> {''tool_results'', ''provenance'', ''history_policy''} \<longrightarrow>
      map_of (prune_pre_verification_history s) k = map_of s k"
    by (simp add: pr ensure_history_policy_other)
  ultimately show ?thesis using rng by blast
qed

theorem prune_pre_keeps_recent_witness:
  "map_of (prune_pre_verification_history [(''request'', PStr ''r'')]) ''request'' = Some (PStr ''r'')"
proof -
  note all = prune_pre_keeps_recent [of "[(''request'', PStr ''r'')]", THEN conjunct2, THEN conjunct2,
      THEN conjunct2]
  show ?thesis using all [rule_format, of "''request''"] by simp
qed

lemma filter_enumerate_Nil: "filter (\<lambda>(i, x). P x) (enumerate n xs) = [] \<longleftrightarrow> filter P xs = []"
  by (induction xs arbitrary: n) auto

lemma not_prunable_compact: "prunable t r \<Longrightarrow> \<not> prunable t' (compact_result r)"
  by (simp add: prunable_def compact_result_def Let_def)

definition prune_threshold :: "pydict \<Rightarrow> int" where
  "prune_threshold s = as_int (dget (as_dict (dget (ensure_history_policy s) ''history_policy'' (PDict [])))
     ''read_file_prune_threshold_chars'' PNone) 4000 200 200000"

definition verified_patch :: "pydict \<Rightarrow> bool" where
  "verified_patch s \<longleftrightarrow>
     py_bool (dget (as_dict (dget s ''verification'' (PDict []))) ''ok'' (PBool False)) \<and>
     (\<exists>r\<in>set (tool_results_of s). strip (gets r ''tool'' []) = ''apply_patch'' \<and>
        py_bool (dget r ''ok'' (PBool False)))"

lemma prune_post_results:
  "tool_results_of (prune_post_verification_history s) =
     (if verified_patch s
      then map (\<lambda>r. if prunable (prune_threshold s) r then compact_result r else r) (tool_results_of s)
      else tool_results_of s)"
proof -
  obtain p where p: "dget (ensure_history_policy s) ''history_policy'' (PDict []) = PDict p"
    using ensure_history_policy_dict by blast
  have tr: "tool_results_of (ensure_history_policy s) = tool_results_of s"
    by (simp add: tool_results_of_def dget_def ensure_history_policy_other)
  have th: "prune_threshold s = as_int (dget p ''read_file_prune_threshold_chars'' PNone) 4000 200 200000"
    by (simp add: prune_threshold_def p)
  have ver: "dget (ensure_history_policy s) ''verification'' (PDict []) = dget s ''verification'' (PDict [])"
    by (simp add: dget_def ensure_history_policy_other)
  let ?ev = "filter (\<lambda>(i, r). prunable (prune_threshold s) r) (enumerate 0 (tool_results_of s))"
  have none: "?ev = [] \<longleftrightarrow> (\<forall>r\<in>set (tool_results_of s). \<not> prunable (prune_threshold s) r)"
    unfolding filter_enumerate_Nil by (simp add: filter_empty_conv)
  show ?thesis
  proof (cases "dget s ''verification'' (PDict [])")
    case (PDict v)
    have vp: "verified_patch s \<longleftrightarrow> py_bool (dget v ''ok'' (PBool False)) \<and>
        list_ex (\<lambda>r. strip (gets r ''tool'' []) = ''apply_patch'' \<and> py_bool (dget r ''ok'' (PBool False)))
          (tool_results_of s)"
      by (simp add: verified_patch_def PDict list_ex_iff)
    show ?thesis
      unfolding prune_post_verification_history_def Let_def ver PDict p tr th
      using none [unfolded th] by (auto simp: vp tool_results_of_def [of "dset _ _ _"] tr map_idI)
  qed (auto simp: prune_post_verification_history_def verified_patch_def Let_def ver tr)
qed

text \<open>
  Pruning after verification: if the verification passed and a patch was applied, every
  \<open>read_file\<close> payload at or above the threshold is replaced by its digest, so none remains, and the
  other results are unchanged; otherwise the results are left alone.
\<close>

theorem prune_post_evicts:
  "tool_results_of (prune_post_verification_history s) =
     (if verified_patch s
      then map (\<lambda>r. if prunable (prune_threshold s) r then compact_result r else r) (tool_results_of s)
      else tool_results_of s) \<and>
   (verified_patch s \<longrightarrow>
      (\<forall>r\<in>set (tool_results_of (prune_post_verification_history s)). \<not> prunable (prune_threshold s) r))"
  using prune_post_results [of s] by (auto simp: not_prunable_compact split: if_splits)

theorem prune_post_evicts_witness:
  "verified_patch [(''verification'', PDict [(''ok'', PBool True)]),
      (''tool_results'', dict_list [[(''tool'', PStr ''apply_patch''), (''ok'', PBool True)]])] \<and>
   list_all (\<lambda>r. \<not> prunable 4000 r) (tool_results_of (prune_post_verification_history
      [(''verification'', PDict [(''ok'', PBool True)]),
       (''tool_results'', dict_list [[(''tool'', PStr ''apply_patch''), (''ok'', PBool True)]])]))"
proof -
  let ?s = "[(''verification'', PDict [(''ok'', PBool True)]),
       (''tool_results'', dict_list [[(''tool'', PStr ''apply_patch''), (''ok'', PBool True)]])] :: pydict"
  have v: "verified_patch ?s" and t: "prune_threshold ?s = 4000" by code_simp+
  show ?thesis using prune_post_evicts [of ?s] v unfolding t list_all_iff by blast
qed

end
