(* ===== verification/Orch_State.thy ===== *)
theory Orch_State
  imports Py_Text
begin

text \<open>
  The typed messages of \<open>state.py\<close> that the modelled nodes exchange: pydantic models as records, a
  checked constructor for each model with a restricted field (an illegal value raises, as pydantic
  does), and \<open>model_dump\<close> as a dictionary in the order of the declared fields.
\<close>

definition intents :: "string list" where
  "intents = [''code_change'', ''analysis'', ''research'', ''question'', ''refactor'', ''debug'']"

definition route_lanes :: "string list" where
  "route_lanes = [''interactive'', ''deep_planning'', ''recovery'']"

definition retry_targets :: "string list" where
  "retry_targets = [''planner'', ''coder'', ''context_builder'', ''router'']"

definition context_scopes :: "string list" where
  "context_scopes = [''stable_prefix'', ''working_set'', ''full_reset'']"

definition plan_actions :: "string list" where
  "plan_actions = [''keep'', ''amend'', ''discard_reset'']"

definition validation_error :: "string \<Rightarrow> exn" where
  "validation_error field = ValueError (''validation error: '' @ field)"

section \<open>Handoffs and recovery\<close>

record HandoffEvidence =
  ev_kind :: string
  ev_detail :: string
  ev_ref :: string

definition dump_evidence :: "HandoffEvidence \<Rightarrow> pydict" where
  "dump_evidence e = [(''kind'', PStr (ev_kind e)), (''detail'', PStr (ev_detail e)),
                      (''ref'', PStr (ev_ref e))]"

record AgentHandoff =
  ah_producer :: string
  ah_consumer :: string
  ah_objective :: string
  ah_file_scope :: "string list"
  ah_evidence :: "HandoffEvidence list"
  ah_constraints :: "string list"
  ah_acceptance_checks :: "string list"
  ah_retry_budget :: int
  ah_provenance :: "string list"

definition dump_handoff :: "AgentHandoff \<Rightarrow> pydict" where
  "dump_handoff h =
     [(''producer'', PStr (ah_producer h)), (''consumer'', PStr (ah_consumer h)),
      (''objective'', PStr (ah_objective h)), (''file_scope'', str_list (ah_file_scope h)),
      (''evidence'', dict_list (map dump_evidence (ah_evidence h))),
      (''constraints'', str_list (ah_constraints h)),
      (''acceptance_checks'', str_list (ah_acceptance_checks h)),
      (''retry_budget'', PInt (ah_retry_budget h)), (''provenance'', str_list (ah_provenance h))]"

record RecoveryAction =
  ra_failure_class :: string
  ra_failure_fingerprint :: string
  ra_rationale :: string
  ra_retry_target :: string
  ra_context_scope :: string
  ra_plan_action :: string

definition mk_recovery_action ::
  "string \<Rightarrow> string \<Rightarrow> string \<Rightarrow> string \<Rightarrow> string \<Rightarrow> string \<Rightarrow> RecoveryAction result" where
  "mk_recovery_action fc fp rationale rt cs pa =
     (if rt \<notin> set retry_targets then Inl (validation_error ''retry_target'')
      else if cs \<notin> set context_scopes then Inl (validation_error ''context_scope'')
      else if pa \<notin> set plan_actions then Inl (validation_error ''plan_action'')
      else Inr \<lparr> ra_failure_class = fc, ra_failure_fingerprint = fp, ra_rationale = rationale,
                 ra_retry_target = rt, ra_context_scope = cs, ra_plan_action = pa \<rparr>)"

definition dump_recovery_action :: "RecoveryAction \<Rightarrow> pydict" where
  "dump_recovery_action r =
     [(''failure_class'', PStr (ra_failure_class r)),
      (''failure_fingerprint'', PStr (ra_failure_fingerprint r)),
      (''rationale'', PStr (ra_rationale r)), (''retry_target'', PStr (ra_retry_target r)),
      (''context_scope'', PStr (ra_context_scope r)), (''plan_action'', PStr (ra_plan_action r))]"

record RecoveryPacket = RecoveryAction +
  rp_loop :: int
  rp_origin :: string
  rp_summary :: string
  rp_last_check :: string
  rp_discard_reason :: string

definition dump_recovery_packet :: "RecoveryPacket \<Rightarrow> pydict" where
  "dump_recovery_packet p = dump_recovery_action (RecoveryAction.truncate p) @
     [(''loop'', PInt (rp_loop p)), (''origin'', PStr (rp_origin p)),
      (''summary'', PStr (rp_summary p)), (''last_check'', PStr (rp_last_check p)),
      (''discard_reason'', PStr (rp_discard_reason p))]"

section \<open>Routing decisions\<close>

record RouterDecision =
  rd_intent :: string
  rd_task_class :: string
  rd_lane :: string
  rd_rationale :: string
  rd_context_scope :: string
  rd_latency_sensitive :: bool
  rd_cache_affinity :: string
  rd_prefix_segment :: string
  rd_provider_used :: string
  rd_provider :: string
  rd_model :: string
  rd_context_tokens :: int
  rd_compression_pressure :: int
  rd_fact_count :: int

definition check_router_decision :: "RouterDecision \<Rightarrow> RouterDecision result" where
  "check_router_decision d =
     (if rd_intent d \<notin> set intents then Inl (validation_error ''intent'')
      else if rd_lane d \<notin> set route_lanes then Inl (validation_error ''lane'')
      else if rd_context_scope d \<notin> set context_scopes then Inl (validation_error ''context_scope'')
      else if rd_provider_used d \<notin> {''local'', ''remote''} then Inl (validation_error ''provider_used'')
      else Inr d)"

definition dump_router_decision :: "RouterDecision \<Rightarrow> pydict" where
  "dump_router_decision d =
     [(''intent'', PStr (rd_intent d)), (''task_class'', PStr (rd_task_class d)),
      (''lane'', PStr (rd_lane d)), (''rationale'', PStr (rd_rationale d)),
      (''context_scope'', PStr (rd_context_scope d)),
      (''latency_sensitive'', PBool (rd_latency_sensitive d)),
      (''cache_affinity'', PStr (rd_cache_affinity d)),
      (''prefix_segment'', PStr (rd_prefix_segment d)),
      (''provider_used'', PStr (rd_provider_used d)), (''provider'', PStr (rd_provider d)),
      (''model'', PStr (rd_model d)), (''context_tokens'', PInt (rd_context_tokens d)),
      (''compression_pressure'', PInt (rd_compression_pressure d)),
      (''fact_count'', PInt (rd_fact_count d))]"

record ModelRoutingDecision =
  mr_task_class :: string
  mr_lane :: string
  mr_provider_used :: string
  mr_provider :: string
  mr_model :: string
  mr_reason :: string
  mr_fallback_applied :: bool
  mr_cache_affinity :: string
  mr_prefix_segment :: string
  mr_context_tokens :: int
  mr_compression_pressure :: int
  mr_fact_count :: int
  mr_retry_count :: int
  mr_latency_sensitive :: bool

definition check_model_routing :: "ModelRoutingDecision \<Rightarrow> ModelRoutingDecision result" where
  "check_model_routing d =
     (if mr_lane d \<notin> set route_lanes then Inl (validation_error ''lane'')
      else if mr_provider_used d \<notin> {''local'', ''remote''} then Inl (validation_error ''provider_used'')
      else Inr d)"

definition dump_model_routing :: "ModelRoutingDecision \<Rightarrow> pydict" where
  "dump_model_routing d =
     [(''task_class'', PStr (mr_task_class d)), (''lane'', PStr (mr_lane d)),
      (''provider_used'', PStr (mr_provider_used d)), (''provider'', PStr (mr_provider d)),
      (''model'', PStr (mr_model d)), (''reason'', PStr (mr_reason d)),
      (''fallback_applied'', PBool (mr_fallback_applied d)),
      (''cache_affinity'', PStr (mr_cache_affinity d)),
      (''prefix_segment'', PStr (mr_prefix_segment d)),
      (''context_tokens'', PInt (mr_context_tokens d)),
      (''compression_pressure'', PInt (mr_compression_pressure d)),
      (''fact_count'', PInt (mr_fact_count d)), (''retry_count'', PInt (mr_retry_count d)),
      (''latency_sensitive'', PBool (mr_latency_sensitive d))]"

section \<open>Verification reports\<close>

record VerificationCheck =
  vc_name :: string
  vc_ok :: bool
  vc_tool :: string
  vc_exit_code :: int
  vc_summary :: string

definition dump_check :: "VerificationCheck \<Rightarrow> pydict" where
  "dump_check c = [(''name'', PStr (vc_name c)), (''ok'', PBool (vc_ok c)),
     (''tool'', PStr (vc_tool c)), (''exit_code'', PInt (vc_exit_code c)),
     (''summary'', PStr (vc_summary c))]"

record VerifierReport =
  vr_ok :: bool
  vr_checks :: "VerificationCheck list"
  vr_acceptance_ok :: bool
  vr_acceptance_checks :: "pydict list"
  vr_retry_target :: "string option"
  vr_plan_action :: string
  vr_failure_class :: string
  vr_failure_fingerprint :: string
  vr_recovery :: "RecoveryAction option"
  vr_recovery_packet :: "RecoveryPacket option"
  vr_next_handoff :: "AgentHandoff option"
  vr_loop_summary :: string

definition opt_val :: "('a \<Rightarrow> pyval) \<Rightarrow> 'a option \<Rightarrow> pyval" where
  "opt_val f x = (case x of None \<Rightarrow> PNone | Some y \<Rightarrow> f y)"

definition dump_report :: "VerifierReport \<Rightarrow> pydict" where
  "dump_report r =
     [(''ok'', PBool (vr_ok r)), (''checks'', dict_list (map dump_check (vr_checks r))),
      (''acceptance_ok'', PBool (vr_acceptance_ok r)),
      (''acceptance_checks'', dict_list (vr_acceptance_checks r)),
      (''retry_target'', opt_val PStr (vr_retry_target r)),
      (''plan_action'', PStr (vr_plan_action r)), (''failure_class'', PStr (vr_failure_class r)),
      (''failure_fingerprint'', PStr (vr_failure_fingerprint r)),
      (''recovery'', opt_val (PDict \<circ> dump_recovery_action) (vr_recovery r)),
      (''recovery_packet'', opt_val (PDict \<circ> dump_recovery_packet) (vr_recovery_packet r)),
      (''next_handoff'', opt_val (PDict \<circ> dump_handoff) (vr_next_handoff r)),
      (''loop_summary'', PStr (vr_loop_summary r))]"

lemma opt_val_simps [simp]: "opt_val f None = PNone" "opt_val f (Some x) = f x"
  by (simp_all add: opt_val_def)

lemma mk_recovery_action_Inr:
  "mk_recovery_action fc fp ra rt cs pa = Inr r \<Longrightarrow>
     ra_retry_target r = rt \<and> ra_context_scope r = cs \<and> ra_plan_action r = pa \<and>
     rt \<in> set retry_targets \<and> cs \<in> set context_scopes \<and> pa \<in> set plan_actions"
  by (auto simp: mk_recovery_action_def split: if_splits)

lemma check_model_routing_Inr:
  "check_model_routing d = Inr d' \<longleftrightarrow>
     d' = d \<and> mr_lane d \<in> set route_lanes \<and> mr_provider_used d \<in> {''local'', ''remote''}"
  by (auto simp: check_model_routing_def)

lemma check_router_decision_Inr:
  "check_router_decision d = Inr d' \<longleftrightarrow>
     d' = d \<and> rd_intent d \<in> set intents \<and> rd_lane d \<in> set route_lanes \<and>
     rd_context_scope d \<in> set context_scopes \<and> rd_provider_used d \<in> {''local'', ''remote''}"
  by (auto simp: check_router_decision_def)

text \<open>Reading a dumped model back by key.\<close>

lemma dget_dump_report [simp]:
  "dget (dump_report r) ''ok'' v = PBool (vr_ok r)"
  "dget (dump_report r) ''retry_target'' v = opt_val PStr (vr_retry_target r)"
  "dget (dump_report r) ''plan_action'' v = PStr (vr_plan_action r)"
  "dget (dump_report r) ''failure_class'' v = PStr (vr_failure_class r)"
  "dget (dump_report r) ''failure_fingerprint'' v = PStr (vr_failure_fingerprint r)"
  "dget (dump_report r) ''recovery_packet'' v
     = opt_val (PDict \<circ> dump_recovery_packet) (vr_recovery_packet r)"
  "dget (dump_report r) ''next_handoff'' v = opt_val (PDict \<circ> dump_handoff) (vr_next_handoff r)"
  "dget (dump_report r) ''loop_summary'' v = PStr (vr_loop_summary r)"
  by (simp_all add: dump_report_def)

end
