(* ===== verification/Model_Routing.thy ===== *)
theory Model_Routing
  imports Orch_State
begin

text \<open>
  \<open>model_routing.py\<close>: the choice between the local and the remote model provider, the telemetry that
  records it, the latency windows with their fallback policy, the round-robin policies and the
  bounded pool of failure reflections.
\<close>

section \<open>Choosing a provider\<close>

record route_args =
  a_task_class :: string
  a_primary_provider :: string
  a_primary_model :: string
  a_local_provider :: string
  a_fallback_task_classes :: "string list"
  a_lane :: "string option"
  a_context_tokens :: int
  a_retry_count :: int
  a_latency_sensitive :: bool
  a_cache_affinity :: string
  a_prefix_segment :: string
  a_interactive_context_limit :: int
  a_deep_planning_context_limit :: int
  a_recovery_retry_threshold :: int
  a_compression_pressure :: int
  a_fact_count :: int

definition norm_lane :: "route_args \<Rightarrow> string" where
  "norm_lane a = (case a_lane a of Some l \<Rightarrow> strip l | None \<Rightarrow> [])"

definition norm_primary :: "route_args \<Rightarrow> string" where
  "norm_primary a = or_str (strip (a_primary_provider a)) ''local''"

definition norm_local :: "route_args \<Rightarrow> string" where
  "norm_local a = or_str (strip (a_local_provider a)) ''local''"

text \<open>The fields that every branch of \<open>route_choice\<close> fills in the same way.\<close>

definition base_decision ::
  "route_args \<Rightarrow> string \<Rightarrow> string \<Rightarrow> string \<Rightarrow> string \<Rightarrow> string \<Rightarrow> bool \<Rightarrow> ModelRoutingDecision" where
  "base_decision a lane provider_used provider model reason fallback =
     \<lparr> mr_task_class = strip (a_task_class a), mr_lane = lane, mr_provider_used = provider_used,
       mr_provider = provider, mr_model = model, mr_reason = reason, mr_fallback_applied = fallback,
       mr_cache_affinity = a_cache_affinity a, mr_prefix_segment = a_prefix_segment a,
       mr_context_tokens = max (a_context_tokens a) 0,
       mr_compression_pressure = max (a_compression_pressure a) 0,
       mr_fact_count = max (a_fact_count a) 0, mr_retry_count = max (a_retry_count a) 0,
       mr_latency_sensitive = a_latency_sensitive a \<rparr>"

definition route_choice :: "route_args \<Rightarrow> ModelRoutingDecision" where
  "route_choice a =
     (let task = strip (a_task_class a); lane = norm_lane a; primary = norm_primary a;
          model = or_str (strip (a_primary_model a)) ''deterministic''; loc = norm_local a;
          fallback_set = set (map strip (filter (\<lambda>e. strip e \<noteq> []) (a_fallback_task_classes a)));
          pressure = max (a_compression_pressure a) 0; facts = max (a_fact_count a) 0
      in if primary = loc then
           base_decision a (or_str lane ''interactive'') ''local'' loc model
             ''primary_provider_is_local'' False
         else if lane = ''recovery'' then
           base_decision a ''recovery'' ''remote'' primary model ''recovery_capability_path'' False
         else if task \<in> fallback_set \<and> pressure \<le> 0 \<and> facts \<le> 0 then
           base_decision a (or_str lane ''interactive'') ''local'' loc (loc @ '':fallback'')
             ''fallback_task_class_policy'' True
         else if lane = ''interactive'' \<and> a_latency_sensitive a
                 \<and> a_context_tokens a \<le> max (a_interactive_context_limit a) 1
                 \<and> pressure \<le> 0 \<and> facts \<le> 0 then
           base_decision a ''interactive'' ''local'' loc (loc @ '':interactive'')
             ''interactive_low_latency_policy'' False
         else if lane = ''deep_planning'' \<or> max (a_deep_planning_context_limit a) 1 \<le> a_context_tokens a
                 \<or> 0 < pressure \<or> 3 \<le> facts then
           base_decision a (or_str lane ''deep_planning'') ''remote'' primary model
             (if 0 < pressure \<or> 3 \<le> facts then ''compression_pressure_capability_path''
              else ''high_context_capability_path'') False
         else
           base_decision a (or_str lane ''interactive'') ''remote'' primary model
             ''primary_provider_path'' False)"

definition decide_model_route :: "route_args \<Rightarrow> ModelRoutingDecision result" where
  "decide_model_route a = check_model_routing (route_choice a)"

definition latest_model_route :: "pydict \<Rightarrow> string \<Rightarrow> pydict" where
  "latest_model_route state node_name =
     (let telemetry = as_dict (dget state ''telemetry'' (PDict []));
          routes = as_list (dget telemetry ''model_routing'' (PList []))
      in case find (\<lambda>d. gets d ''node'' [] = node_name) (dicts_of (rev routes)) of
           None \<Rightarrow> [] | Some d \<Rightarrow> d)"

text \<open>A counter that is read from the route, or else from the planner context.\<close>

definition route_counter :: "pydict \<Rightarrow> pydict \<Rightarrow> string \<Rightarrow> string \<Rightarrow> int" where
  "route_counter route repo_context key inner =
     (case dget route key (dget repo_context ''planner_context'' (PDict [])) of
        PDict d \<Rightarrow> int_or (dget d inner (PInt 0)) 0
      | v \<Rightarrow> int_or v 0)"

definition or_default_int :: "pydict \<Rightarrow> string \<Rightarrow> int \<Rightarrow> int result" where
  "or_default_int d key i = py_int (or_val (dget d key (PInt i)) (PInt i))"

definition record_model_route :: "pydict \<Rightarrow> string \<Rightarrow> string \<Rightarrow> string \<Rightarrow> pydict result" where
  "record_model_route state node_name task_class model_slot =
     (let slot = as_dict (dget (as_dict (dget state ''_models'' (PDict []))) model_slot (PDict []));
          routing = as_dict (dget state ''_model_routing_policy'' (PDict []));
          fallback_classes = filter (\<lambda>s. s \<noteq> [])
            (map (\<lambda>v. strip (py_str v)) (as_list (dget routing ''fallback_task_classes'' (PList []))));
          route = as_dict (dget state ''route'' (PDict []));
          budgets = as_dict (dget state ''budgets'' (PDict []));
          repo_context = as_dict (dget state ''repo_context'' (PDict []));
          lane_s = strip (gets route ''lane'' []);
          lane = (if lane_s = [] then None else Some lane_s);
          cache_affinity = strip (py_str (dget route ''cache_affinity''
                              (dget routing ''default_cache_affinity'' (PStr ''workspace''))));
          prefix_segment = strip (gets route ''prefix_segment'' ''stable_prefix'')
      in bind_r (py_int (dget budgets ''current_loop'' (PInt 0))) (\<lambda>current_loop.
         bind_r (or_default_int routing ''interactive_context_limit'' 1800) (\<lambda>interactive_limit.
         bind_r (or_default_int routing ''deep_planning_context_limit'' 3200) (\<lambda>deep_limit.
         bind_r (or_default_int routing ''recovery_retry_threshold'' 1) (\<lambda>threshold.
         bind_r (decide_model_route
           \<lparr> a_task_class = task_class,
             a_primary_provider = gets slot ''provider'' ''local'',
             a_primary_model = gets slot ''model'' ''deterministic'',
             a_local_provider = gets routing ''local_provider'' ''local'',
             a_fallback_task_classes = fallback_classes, a_lane = lane,
             a_context_tokens = route_counter route repo_context ''context_tokens'' ''token_estimate'',
             a_retry_count = max (current_loop - 1) 0,
             a_latency_sensitive = py_bool (dget route ''latency_sensitive''
                                      (PBool (lane \<noteq> Some ''deep_planning''))),
             a_cache_affinity = cache_affinity, a_prefix_segment = prefix_segment,
             a_interactive_context_limit = interactive_limit,
             a_deep_planning_context_limit = deep_limit, a_recovery_retry_threshold = threshold,
             a_compression_pressure =
               route_counter route repo_context ''compression_pressure'' ''compression_pressure'',
             a_fact_count = route_counter route repo_context ''fact_count'' ''fact_count'' \<rparr>)
           (\<lambda>decision.
             let telemetry = as_dict (dget state ''telemetry'' (PDict []));
                 routes = as_list (dget telemetry ''model_routing'' (PList []));
                 entry = dmerge [(''node'', PStr node_name)] (dump_model_routing decision)
             in Inr (dset state ''telemetry''
                  (PDict (dset telemetry ''model_routing'' (PList (routes @ [PDict entry])))))))))))"

text \<open>
  A completion of the inference client, as far as the telemetry reads it; a plain string or no
  response at all contributes nothing.
\<close>

record response_meta =
  rm_latency_ms :: pyval
  rm_provider :: string
  rm_model :: string
  rm_usage :: pyval
  rm_cache_metadata :: pyval
  rm_headers :: pyval

definition add_nonempty_dict :: "pydict \<Rightarrow> string \<Rightarrow> pyval \<Rightarrow> pydict" where
  "add_nonempty_dict d k v = (case v of PDict e \<Rightarrow> if e \<noteq> [] then dset d k v else d | _ \<Rightarrow> d)"

definition response_fields :: "bool \<Rightarrow> response_meta \<Rightarrow> pydict \<Rightarrow> pydict" where
  "response_fields capture_metadata r entry =
     (let e1 = dset entry ''latency_ms'' (PInt (int_or (rm_latency_ms r) 0));
          p = strip (rm_provider r); m = strip (rm_model r);
          e2 = (if p \<noteq> [] then dset e1 ''provider'' (PStr p) else e1);
          e3 = (if m \<noteq> [] then dset e2 ''model'' (PStr m) else e2);
          e4 = add_nonempty_dict e3 ''usage'' (rm_usage r);
          e5 = add_nonempty_dict e4 ''cache_metadata'' (rm_cache_metadata r)
      in if capture_metadata then add_nonempty_dict e5 ''headers'' (rm_headers r) else e5)"

definition record_inference_telemetry ::
  "pydict \<Rightarrow> string \<Rightarrow> string \<Rightarrow> string \<Rightarrow> response_meta option \<Rightarrow> pydict" where
  "record_inference_telemetry state node_name provider model response =
     (let telemetry = as_dict (dget state ''telemetry'' (PDict []));
          route = as_dict (dget state ''route'' (PDict []));
          latest = latest_model_route state node_name;
          context_tokens = strict_int_or (dget latest ''context_tokens'' (PInt 0)) 0;
          retry_count = strict_int_or (dget latest ''retry_count'' (PInt 0)) 0;
          pressure = strict_int_or (dget latest ''compression_pressure''
                                      (dget route ''compression_pressure'' (PInt 0))) 0;
          fact_count = strict_int_or (dget latest ''fact_count'' (dget route ''fact_count'' (PInt 0))) 0;
          capture = py_bool (dget state ''_trace_capture_model_metadata'' (PBool True));
          entry =
            [(''node'', PStr node_name), (''provider'', PStr provider), (''model'', PStr model),
             (''lane'', PStr (gets route ''lane'' ''interactive'')),
             (''provider_used'', PStr (py_str (dget latest ''provider_used''
                                   (dget route ''provider_used'' (PStr []))))),
             (''task_class'', PStr (py_str (dget route ''task_class''
                                   (dget latest ''task_class'' (PStr []))))),
             (''reason'', PStr (gets latest ''reason'' [])),
             (''rationale'', PStr (py_str (dget route ''rationale'' (dget latest ''reason'' (PStr []))))),
             (''context_scope'', PStr (gets route ''context_scope'' [])),
             (''fallback_applied'', PBool (py_bool (dget latest ''fallback_applied'' (PBool False)))),
             (''cache_affinity'', PStr (gets route ''cache_affinity'' [])),
             (''prefix_segment'', PStr (gets route ''prefix_segment'' ''stable_prefix'')),
             (''context_tokens'', PInt context_tokens),
             (''compression_pressure'', PInt pressure), (''fact_count'', PInt fact_count),
             (''retry_count'', PInt retry_count),
             (''latency_sensitive'', PBool (py_bool (dget latest ''latency_sensitive''
                                   (dget route ''latency_sensitive'' (PBool True))))),
             (''latency_ms'', PInt 0)];
          entry' = (case response of None \<Rightarrow> entry | Some r \<Rightarrow> response_fields capture r entry);
          inference = as_list (dget telemetry ''inference'' (PList []))
      in dset state ''telemetry''
           (PDict (dset telemetry ''inference'' (PList (inference @ [PDict entry'])))))"

definition tool_routing_metadata :: "pydict \<Rightarrow> string \<Rightarrow> pydict" where
  "tool_routing_metadata state stage =
     (let route = as_dict (dget state ''route'' (PDict []));
          telemetry = as_dict (dget state ''telemetry'' (PDict []));
          routes = as_list (dget telemetry ''model_routing'' (PList []));
          latest = (if routes = [] then [] else as_dict (last routes))
      in [(''stage'', PStr stage),
          (''lane'', PStr (py_str (dget route ''lane'' (dget latest ''lane'' (PStr ''interactive''))))),
          (''provider'', PStr (py_str (dget latest ''provider'' (dget route ''provider'' (PStr []))))),
          (''model'', PStr (py_str (dget latest ''model'' (dget route ''model'' (PStr []))))),
          (''task_class'', PStr (py_str (dget route ''task_class'' (dget latest ''task_class'' (PStr []))))),
          (''cache_affinity'', PStr (py_str (dget route ''cache_affinity''
                                  (dget latest ''cache_affinity'' (PStr []))))),
          (''prefix_segment'', PStr (py_str (dget route ''prefix_segment''
                                  (dget latest ''prefix_segment'' (PStr ''stable_prefix'')))))])"

section \<open>Latency windows and the fallback policy\<close>

text \<open>
  Latencies are only compared and sorted, so the model is generic in their linear order. The window
  is the deque with \<open>maxlen\<close>; the index of the 95th percentile is the integer part of
  \<open>len * 0.95\<close>, which is \<open>len * 95 div 100\<close> for every length a window can have.
\<close>

record 'l LatencyWindow =
  lw_model_id :: string
  lw_window_size :: nat
  lw_buf :: "'l list"

definition new_window :: "string \<Rightarrow> nat \<Rightarrow> 'l LatencyWindow" where
  "new_window model_id window_size = \<lparr> lw_model_id = model_id, lw_window_size = window_size, lw_buf = [] \<rparr>"

definition lw_record :: "'l LatencyWindow \<Rightarrow> 'l \<Rightarrow> 'l LatencyWindow" where
  "lw_record w latency =
     (let buf = lw_buf w @ [latency]
      in w\<lparr> lw_buf := lastn (lw_window_size w) buf \<rparr>)"

definition lw_p95 :: "'l::linorder LatencyWindow \<Rightarrow> 'l option" where
  "lw_p95 w =
     (let samples = lw_buf w in
      if length samples < 5 then None
      else let sorted_samples = sort samples;
               idx = min (length sorted_samples * 95 div 100) (length sorted_samples - 1)
           in Some (sorted_samples ! idx))"

record 'l SlaRoutingPolicy =
  sla_thresholds :: "string \<rightharpoonup> 'l"
  sla_fallbacks :: "string \<rightharpoonup> string"
  sla_windows :: "(string \<times> 'l LatencyWindow) list"

definition record_latency :: "'l SlaRoutingPolicy \<Rightarrow> string \<Rightarrow> 'l \<Rightarrow> 'l SlaRoutingPolicy" where
  "record_latency p model_id latency =
     (let w = (case map_of (sla_windows p) model_id of None \<Rightarrow> new_window model_id 200 | Some w \<Rightarrow> w)
      in p\<lparr> sla_windows := AList.update model_id (lw_record w latency) (sla_windows p) \<rparr>)"

definition sla_select_model :: "'l::linorder SlaRoutingPolicy \<Rightarrow> string \<Rightarrow> string" where
  "sla_select_model p requested =
     (case map_of (sla_windows p) requested of
        None \<Rightarrow> requested
      | Some w \<Rightarrow> (case lw_p95 w of
          None \<Rightarrow> requested
        | Some p95 \<Rightarrow> (case sla_thresholds p requested of
            None \<Rightarrow> requested
          | Some threshold \<Rightarrow>
              if threshold < p95
              then (case sla_fallbacks p requested of Some f \<Rightarrow> f | None \<Rightarrow> requested)
              else requested)))"

definition degraded_models :: "'l::linorder SlaRoutingPolicy \<Rightarrow> string list" where
  "degraded_models p = map fst (filter (\<lambda>(m, w). case lw_p95 w of
       None \<Rightarrow> False
     | Some p95 \<Rightarrow> (case sla_thresholds p m of None \<Rightarrow> False | Some t \<Rightarrow> t < p95)) (sla_windows p))"

record 'l SlaEntry =
  se_model_id :: string
  se_threshold_p95_s :: 'l
  se_fallback_model_id :: string

definition build_sla_policy :: "'l SlaEntry list \<Rightarrow> 'l SlaRoutingPolicy option" where
  "build_sla_policy entries =
     (if entries = [] then None
      else Some \<lparr> sla_thresholds = fold (\<lambda>e m. m(se_model_id e \<mapsto> se_threshold_p95_s e)) entries Map.empty,
                  sla_fallbacks = fold (\<lambda>e m. m(se_model_id e \<mapsto> se_fallback_model_id e)) entries Map.empty,
                  sla_windows = [] \<rparr>)"

section \<open>Round-robin policies and the reflection pool\<close>

text \<open>Temperatures are written in tenths.\<close>

definition temperature_schedule :: "nat list" where
  "temperature_schedule = [7, 3, 9, 5, 8, 4, 6, 10]"

record DiversityRoutingPolicy =
  dv_models :: "string list"
  dv_index :: nat
  dv_temp_index :: nat

definition new_diversity_policy :: "string list \<Rightarrow> DiversityRoutingPolicy result" where
  "new_diversity_policy models =
     (if models = [] then Inl (ValueError ''DiversityRoutingPolicy requires at least one model'')
      else Inr \<lparr> dv_models = models, dv_index = 0, dv_temp_index = 0 \<rparr>)"

definition diversity_select_model :: "DiversityRoutingPolicy \<Rightarrow> string \<times> DiversityRoutingPolicy" where
  "diversity_select_model p =
     (dv_models p ! (dv_index p mod length (dv_models p)), p\<lparr> dv_index := dv_index p + 1 \<rparr>)"

definition next_temperature :: "DiversityRoutingPolicy \<Rightarrow> nat \<times> DiversityRoutingPolicy" where
  "next_temperature p =
     (temperature_schedule ! (dv_temp_index p mod length temperature_schedule),
      p\<lparr> dv_temp_index := dv_temp_index p + 1 \<rparr>)"

definition diversity_reset :: "DiversityRoutingPolicy \<Rightarrow> DiversityRoutingPolicy" where
  "diversity_reset p = p\<lparr> dv_index := 0 \<rparr>"

definition reset_temperature :: "DiversityRoutingPolicy \<Rightarrow> DiversityRoutingPolicy" where
  "reset_temperature p = p\<lparr> dv_temp_index := 0 \<rparr>"

datatype 'l routing_policy = Sla "'l SlaRoutingPolicy" | Diversity DiversityRoutingPolicy

text \<open>The environment variable \<open>LG_MODEL_DIVERSITY\<close> is the argument \<open>env\<close> (None when unset).\<close>

definition get_routing_policy ::
  "string option \<Rightarrow> 'l SlaEntry list option \<Rightarrow> string list option \<Rightarrow> 'l routing_policy option result" where
  "get_routing_policy env sla_config diversity_models =
     (let enabled = (lower (case env of None \<Rightarrow> ''false'' | Some v \<Rightarrow> v) \<in> {''true'', ''1'', ''yes''});
          models = (case diversity_models of None \<Rightarrow> [] | Some ms \<Rightarrow> ms)
      in if enabled \<and> models \<noteq> []
         then bind_r (new_diversity_policy models) (\<lambda>p. Inr (Some (Diversity p)))
         else (case sla_config of
                 Some entries \<Rightarrow> Inr (map_option Sla (build_sla_policy entries))
               | None \<Rightarrow> Inr None))"

record FailureReflection =
  fr_loop_index :: int
  fr_model_used :: string
  fr_failure_class :: string
  fr_reflection :: string

record SharedReflectionPool =
  srp_reflections :: "FailureReflection list"
  srp_max :: int

definition add_reflection :: "SharedReflectionPool \<Rightarrow> FailureReflection \<Rightarrow> SharedReflectionPool" where
  "add_reflection p r =
     (let rs = srp_reflections p @ [r] in
      if srp_max p < int (length rs)
      then p\<lparr> srp_reflections := py_tail (srp_max p) rs \<rparr>
      else p\<lparr> srp_reflections := rs \<rparr>)"

text \<open>The dash between class and text is the source's em dash, written here in ASCII.\<close>

definition reflection_line :: "FailureReflection \<Rightarrow> string" where
  "reflection_line r = ''- Loop '' @ int_str (fr_loop_index r) @ '' ('' @ fr_model_used r @ ''): ''
     @ fr_failure_class r @ '' - '' @ fr_reflection r"

definition get_context :: "SharedReflectionPool \<Rightarrow> string" where
  "get_context p = (if srp_reflections p = [] then []
     else join [CHR 0x0A] (''Previous failure reflections:'' # map reflection_line (srp_reflections p)))"

definition clear_reflections :: "SharedReflectionPool \<Rightarrow> SharedReflectionPool" where
  "clear_reflections p = p\<lparr> srp_reflections := [] \<rparr>"

section \<open>Properties of the provider choice\<close>

lemma or_str_simps [simp]: "or_str [] t = t" "s \<noteq> [] \<Longrightarrow> or_str s t = s"
  by (simp_all add: or_str_def)

text \<open>
  The provider of a routing decision. A decision either uses the local provider, and then names
  the local provider, or uses the remote one, and then names the primary provider, which differs
  from the local one. Work goes local exactly when the primary provider is the local one, or outside
  the recovery lane when the task class is a fallback class or the request is interactive, latency
  sensitive and within the interactive context limit, in both cases only without compression
  pressure and without facts. Every recorded counter is non-negative.
\<close>

theorem decide_model_route_provider:
  assumes "decide_model_route a = Inr d"
  shows "(mr_provider_used d = ''local'' \<and> mr_provider d = norm_local a \<or>
          mr_provider_used d = ''remote'' \<and> mr_provider d = norm_primary a \<and>
            norm_primary a \<noteq> norm_local a) \<and>
         (mr_provider_used d = ''local'' \<longleftrightarrow>
          norm_primary a = norm_local a \<or>
          (norm_lane a \<noteq> ''recovery'' \<and> a_compression_pressure a \<le> 0 \<and> a_fact_count a \<le> 0 \<and>
           (strip (a_task_class a) \<in> strip ` set (a_fallback_task_classes a) - {[]} \<or>
            (norm_lane a = ''interactive'' \<and> a_latency_sensitive a \<and>
             a_context_tokens a \<le> max (a_interactive_context_limit a) 1)))) \<and>
         0 \<le> mr_context_tokens d \<and> 0 \<le> mr_compression_pressure d \<and> 0 \<le> mr_fact_count d \<and>
         0 \<le> mr_retry_count d"
proof -
  define c3 where "c3 \<longleftrightarrow> strip (a_task_class a) \<in> strip ` set (a_fallback_task_classes a) - {[]} \<and>
    a_compression_pressure a \<le> 0 \<and> a_fact_count a \<le> 0"
  define c4 where "c4 \<longleftrightarrow> norm_lane a = ''interactive'' \<and> a_latency_sensitive a \<and>
    a_context_tokens a \<le> max (a_interactive_context_limit a) 1 \<and>
    a_compression_pressure a \<le> 0 \<and> a_fact_count a \<le> 0"
  have fb: "set (map strip (filter (\<lambda>e. strip e \<noteq> []) (a_fallback_task_classes a)))
      = strip ` set (a_fallback_task_classes a) - {[]}"
    by auto
  have le: "max x 0 \<le> 0 \<longleftrightarrow> x \<le> 0" for x :: int by auto
  have d: "d = route_choice a"
    using assms by (simp add: decide_model_route_def check_model_routing_Inr)
  note choice = route_choice_def [of a, unfolded Let_def fb le, folded c3_def c4_def]
  have used: "(if norm_primary a = norm_local a \<or> norm_lane a \<noteq> ''recovery'' \<and> (c3 \<or> c4)
      then mr_provider_used d = ''local'' \<and> mr_provider d = norm_local a
      else mr_provider_used d = ''remote'' \<and> mr_provider d = norm_primary a)"
    unfolding d choice
    by (cases "norm_primary a = norm_local a"; cases "norm_lane a = ''recovery''"; cases c3; cases c4)
       (simp_all add: base_decision_def)
  have nn: "0 \<le> mr_context_tokens d \<and> 0 \<le> mr_compression_pressure d \<and> 0 \<le> mr_fact_count d \<and>
         0 \<le> mr_retry_count d"
    unfolding d choice by (simp add: base_decision_def)
  show ?thesis
    using used nn unfolding c3_def c4_def by (simp split: if_splits; argo)
qed

definition demo_route_args :: route_args where
  "demo_route_args = \<lparr> a_task_class = ''planning'', a_primary_provider = ''openai'', a_primary_model = ''m'',
     a_local_provider = ''local'', a_fallback_task_classes = [], a_lane = Some ''deep_planning'', a_context_tokens = 10,
     a_retry_count = 0, a_latency_sensitive = False, a_cache_affinity = [], a_prefix_segment = [],
     a_interactive_context_limit = 1800, a_deep_planning_context_limit = 3200, a_recovery_retry_threshold = 1,
     a_compression_pressure = 0, a_fact_count = 0 \<rparr>"

theorem decide_model_route_provider_witness:
  "\<exists>d. decide_model_route demo_route_args = Inr d \<and> mr_provider_used d = ''remote'' \<and> mr_provider d = ''openai''"
proof -
  have "(case decide_model_route demo_route_args of Inr d \<Rightarrow> mr_provider_used d = ''remote'' | Inl _ \<Rightarrow> False) = True" by code_simp
  then obtain d where d: "decide_model_route demo_route_args = Inr d" "mr_provider_used d = ''remote''"
    by (auto split: sum.splits)
  have "norm_primary demo_route_args = ''openai''" by code_simp
  then show ?thesis using decide_model_route_provider [OF d(1)] d by auto
qed

lemma check_base_decision:
  "lane \<in> set route_lanes \<Longrightarrow> used \<in> {''local'', ''remote''} \<Longrightarrow> \<exists>d. check_model_routing (base_decision a lane used p m r f) = Inr d"
  by (simp add: check_model_routing_def base_decision_def)

lemma check_if:
  "\<exists>d. check_model_routing x = Inr d \<Longrightarrow> \<exists>d. check_model_routing y = Inr d \<Longrightarrow> \<exists>d. check_model_routing (if b then x else y) = Inr d"
  by simp

lemma decide_model_route_total:
  assumes "norm_lane a \<in> insert [] (set route_lanes)"
  shows "\<exists>d. decide_model_route a = Inr d"
proof -
  have "or_str (norm_lane a) l \<in> set route_lanes" if "l \<in> set route_lanes" for l using assms that by (auto simp: or_str_def)
  moreover have "''interactive'' \<in> set route_lanes" "''deep_planning'' \<in> set route_lanes" "''recovery'' \<in> set route_lanes"
    by (simp_all add: route_lanes_def)
  ultimately show ?thesis unfolding decide_model_route_def route_choice_def Let_def
    by (intro check_if check_base_decision) simp_all
qed

section \<open>Properties of the recorded routes\<close>

lemma record_model_route_cases:
  assumes "record_model_route s node tc slot = Inr t"
  obtains d where
    "t = dset s ''telemetry'' (PDict (dset (as_dict (dget s ''telemetry'' (PDict []))) ''model_routing''
       (PList (as_list (dget (as_dict (dget s ''telemetry'' (PDict []))) ''model_routing'' (PList []))
          @ [PDict (dmerge [(''node'', PStr node)] (dump_model_routing d))]))))"
    and "\<exists>a. decide_model_route a = Inr d"
  using assms unfolding record_model_route_def Let_def by (auto simp: bind_r_eq_Inr)

lemma record_model_route_other:
  "record_model_route s node tc slot = Inr t \<Longrightarrow> k \<noteq> ''telemetry'' \<Longrightarrow> map_of t k = map_of s k"
  by (erule record_model_route_cases) simp

lemma record_inference_other:
  "k \<noteq> ''telemetry'' \<Longrightarrow> map_of (record_inference_telemetry s n p m r) k = map_of s k"
  by (simp add: record_inference_telemetry_def Let_def)

lemma dump_model_routing_no_node:
  "dget (dmerge [(''node'', PStr n)] (dump_model_routing d)) ''node'' v = PStr n"
  by (simp add: dump_model_routing_def dmerge_def)

text \<open>
  Round trip of the routing telemetry: after a node has recorded its route, the latest route of
  that node is the recorded entry, and it carries the name of the node.
\<close>

theorem latest_route_after_record:
  assumes "record_model_route s node tc slot = Inr t"
  shows "\<exists>a d. decide_model_route a = Inr d \<and>
           latest_model_route t node = dmerge [(''node'', PStr node)] (dump_model_routing d)"
  using assms
proof (rule record_model_route_cases)
  fix d
  assume t: "t = dset s ''telemetry'' (PDict (dset (as_dict (dget s ''telemetry'' (PDict [])))
       ''model_routing''
       (PList (as_list (dget (as_dict (dget s ''telemetry'' (PDict []))) ''model_routing'' (PList []))
          @ [PDict (dmerge [(''node'', PStr node)] (dump_model_routing d))]))))"
    and a: "\<exists>a. decide_model_route a = Inr d"
  have "latest_model_route t node = dmerge [(''node'', PStr node)] (dump_model_routing d)"
    by (simp add: t latest_model_route_def dump_model_routing_no_node)
  with a show ?thesis by blast
qed

theorem latest_route_after_record_witness:
  "\<exists>t a d. record_model_route [] ''router'' ''analysis'' ''router'' = Inr t \<and> decide_model_route a = Inr d \<and>
     latest_model_route t ''router'' = dmerge [(''node'', PStr ''router'')] (dump_model_routing d)"
proof -
  have "(case record_model_route [] ''router'' ''analysis'' ''router'' of Inr _ \<Rightarrow> True | Inl _ \<Rightarrow> False) = True" by code_simp
  then obtain t where t: "record_model_route [] ''router'' ''analysis'' ''router'' = Inr t" by (auto split: sum.splits)
  show ?thesis using latest_route_after_record [OF t] t by blast
qed

section \<open>Properties of the latency window\<close>

definition lw_records :: "'l LatencyWindow \<Rightarrow> 'l list \<Rightarrow> 'l LatencyWindow" where
  "lw_records w ls = fold (\<lambda>l w. lw_record w l) ls w"

lemma lw_records_buf:
  "length (lw_buf w) \<le> lw_window_size w \<Longrightarrow>
     lw_buf (lw_records w ls) = lastn (lw_window_size w) (lw_buf w @ ls)"
proof (induction ls arbitrary: w)
  case Nil
  then show ?case by (simp add: lw_records_def lastn_all)
next
  case (Cons l ls)
  have "lw_buf (lw_records (lw_record w l) ls)
      = lastn (lw_window_size w) (lastn (lw_window_size w) (lw_buf w @ [l]) @ ls)"
    using Cons.IH [of "lw_record w l"] by (simp add: lw_record_def)
  then show ?case by (simp add: lw_records_def lastn_lastn_append)
qed

lemma greater_than_nth_sorted:
  assumes "sorted xs" "i < length xs"
  shows "length (filter (\<lambda>x. xs ! i < x) xs) \<le> length xs - Suc i"
proof -
  have "filter (\<lambda>x. xs ! i < x) (take (Suc i) xs) = []"
    using assms by (auto simp: filter_empty_conv in_set_conv_nth sorted_iff_nth_mono not_less)
  then have "filter (\<lambda>x. xs ! i < x) xs = filter (\<lambda>x. xs ! i < x) (drop (Suc i) xs)"
    by (metis append_self_conv2 append_take_drop_id filter_append)
  then show ?thesis
    by (metis length_drop length_filter_le)
qed

text \<open>
  The percentile of a latency window is one of its samples, and at most one sample in twenty is
  larger; with fewer than five samples there is none.
\<close>

theorem lw_p95_rank:
  "(case lw_p95 w of
      None \<Rightarrow> length (lw_buf w) < 5
    | Some r \<Rightarrow> 5 \<le> length (lw_buf w) \<and> r \<in> set (lw_buf w) \<and>
               20 * length (filter (\<lambda>x. r < x) (lw_buf w)) \<le> length (lw_buf w))"
proof (cases "length (lw_buf w) < 5")
  case True
  then show ?thesis by (simp add: lw_p95_def)
next
  case False
  define xs where "xs = sort (lw_buf w)"
  define i where "i = min (length xs * 95 div 100) (length xs - 1)"
  have len: "length xs = length (lw_buf w)" by (simp add: xs_def)
  have i: "i < length xs" "length xs * 95 div 100 \<le> i + 1" and i': "20 * (length xs - Suc i) \<le> length xs"
    using False len by (auto simp: i_def min_def)
  have p: "lw_p95 w = Some (xs ! i)"
    using False by (simp add: lw_p95_def Let_def xs_def i_def)
  have "length (filter (\<lambda>x. xs ! i < x) xs) \<le> length xs - Suc i"
    by (rule greater_than_nth_sorted) (use i in \<open>auto simp: xs_def\<close>)
  moreover have "length (filter (\<lambda>x. xs ! i < x) xs) = length (filter (\<lambda>x. xs ! i < x) (lw_buf w))"
    unfolding xs_def by (metis filter_sort length_sort)
  moreover have "xs ! i \<in> set (lw_buf w)"
    using nth_mem [OF i(1)] unfolding xs_def set_sort .
  ultimately show ?thesis using False p i' len by simp
qed

text \<open>
  The fallback rule: a request is answered with another model exactly when the requested model
  is among the degraded ones and has a fallback other than itself; then it is that fallback.
\<close>

theorem sla_select_model_fallback:
  assumes "distinct (map fst (sla_windows p))"
  shows "sla_select_model p m =
     (if m \<in> set (degraded_models p)
      then (case sla_fallbacks p m of Some f \<Rightarrow> f | None \<Rightarrow> m) else m)"
proof -
  have deg: "(case lw_p95 w of None \<Rightarrow> False
       | Some p95 \<Rightarrow> (case sla_thresholds p n of None \<Rightarrow> False | Some t \<Rightarrow> t < p95))
     \<longleftrightarrow> (\<exists>r t. lw_p95 w = Some r \<and> sla_thresholds p n = Some t \<and> t < r)" for n w
    by (simp split: option.splits)
  have "m \<in> set (degraded_models p) \<longleftrightarrow>
     (\<exists>w. (m, w) \<in> set (sla_windows p) \<and> (\<exists>r t. lw_p95 w = Some r \<and>
        sla_thresholds p m = Some t \<and> t < r))"
    unfolding degraded_models_def deg by (simp add: image_iff Bex_def)
  then have "m \<in> set (degraded_models p) \<longleftrightarrow>
     (\<exists>w r t. map_of (sla_windows p) m = Some w \<and> lw_p95 w = Some r \<and>
        sla_thresholds p m = Some t \<and> t < r)"
    using map_of_eq_Some_iff [OF assms] by blast
  then show ?thesis
    by (auto simp: sla_select_model_def split: option.splits)
qed

theorem sla_select_model_fallback_witness:
  "sla_select_model \<lparr> sla_thresholds = [''a'' \<mapsto> 2 :: nat], sla_fallbacks = [''a'' \<mapsto> ''b''],
      sla_windows = [(''a'', lw_records (new_window ''a'' 200) [3, 3, 3, 3, 3])] \<rparr> ''a'' = ''b''"
proof -
  let ?p = "\<lparr> sla_thresholds = [''a'' \<mapsto> 2 :: nat], sla_fallbacks = [''a'' \<mapsto> ''b''],
      sla_windows = [(''a'', lw_records (new_window ''a'' 200) [3, 3, 3, 3, 3])] \<rparr>"
  have "''a'' \<in> set (degraded_models ?p)" by code_simp
  then show ?thesis using sla_select_model_fallback [of ?p "''a''"] by simp
qed

section \<open>Properties of the pools\<close>

fun select_many :: "nat \<Rightarrow> DiversityRoutingPolicy \<Rightarrow> string list \<times> DiversityRoutingPolicy" where
  "select_many 0 p = ([], p)"
| "select_many (Suc n) p = (case diversity_select_model p of (m, p') \<Rightarrow>
     (case select_many n p' of (ms, p'') \<Rightarrow> (m # ms, p'')))"

lemma select_many_eq:
  "select_many n p = (map (\<lambda>i. dv_models p ! ((dv_index p + i) mod length (dv_models p))) [0..<n],
                      p\<lparr> dv_index := dv_index p + n \<rparr>)"
proof (induction n arbitrary: p)
  case 0
  then show ?case by simp
next
  case (Suc n)
  have shift: "map f [0..<Suc n] = f 0 # map (\<lambda>i. f (Suc i)) [0..<n]" for f :: "nat \<Rightarrow> string"
    by (simp add: upt_conv_Cons map_Suc_upt flip: map_map [unfolded comp_def, of f Suc] del: upt_Suc)
  show ?case
    by (simp add: diversity_select_model_def Suc shift del: upt_Suc)
qed

text \<open>
  Fairness of the diversity policy: from a fresh policy, the i-th selection is the model at
  position i modulo the pool size, so a full round answers with the pool itself.
\<close>

theorem diversity_round_robin:
  assumes "new_diversity_policy models = Inr p"
  shows "fst (select_many n p) = map (\<lambda>i. models ! (i mod length models)) [0..<n] \<and>
         fst (select_many (length models) p) = models"
proof -
  have p: "dv_models p = models" "dv_index p = 0"
    using assms by (auto simp: new_diversity_policy_def split: if_splits)
  have "map (\<lambda>i. models ! (i mod length models)) [0..<length models] = models"
    by (rule nth_equalityI) auto
  then show ?thesis by (simp add: select_many_eq p)
qed

theorem diversity_round_robin_witness:
  "fst (select_many 2 \<lparr> dv_models = [''a'', ''b''], dv_index = 0, dv_temp_index = 0 \<rparr>) = [''a'', ''b'']"
  using diversity_round_robin [of "[''a'', ''b'']" "\<lparr> dv_models = [''a'', ''b''], dv_index = 0, dv_temp_index = 0 \<rparr>"]
  by (simp add: new_diversity_policy_def numeral_2_eq_2)

text \<open>The pool keeps its newest reflections and never more than its limit, when that is positive.\<close>

lemma add_reflection_bound:
  "0 < srp_max p \<Longrightarrow> int (length (srp_reflections (add_reflection p r))) \<le> srp_max p"
  by (auto simp: add_reflection_def py_tail_def Let_def)

end
