(* ===== verification/Graph.thy ===== *)
theory Graph
  imports Policy
begin

text \<open>
  The state graph of \<open>graph.py\<close>: its two routing functions, the static and conditional edges that
  \<open>build_graph\<close> installs, and the execution of the compiled graph, one node after the other from
  \<open>ingest\<close> to \<open>END\<close>. The executor of the graph belongs to LangGraph; its documented rule, that a
  node's update overwrites the keys of the declared state, enters as the argument \<open>upd\<close>
  (law \<open>channel_update\<close>).
\<close>

section \<open>Routing and edges\<close>

datatype gnode =
    Ingest | PolicyGate | ContextBuilder | Router | Planner | Coder | Executor | Verifier
  | Reporter | END

type_synonym node_fn = "pydict \<Rightarrow> pydict result"

text \<open>The tracing wrapper opens a span around the node and passes its result or exception through.\<close>

definition make_traced_node :: "node_fn \<Rightarrow> string \<Rightarrow> node_fn" where
  "make_traced_node node_fn node_name state =
     (case node_fn state of Inl exc \<Rightarrow> Inl exc | Inr out \<Rightarrow> Inr out)"

definition route_after_policy_gate :: "pydict \<Rightarrow> string" where
  "route_after_policy_gate state =
     (let halt_reason = strip (gets state ''halt_reason'' []) in
      if halt_reason \<in> {''max_loops_exhausted'', ''plan_max_iterations_exhausted''} then ''reporter''
      else if py_bool (dget state ''context_reset_requested'' (PBool False)) then ''context_builder''
      else let retry_target = dget state ''retry_target'' PNone in
        if retry_target = PStr ''router'' then ''router''
        else if retry_target = PStr ''planner'' then ''planner''
        else if retry_target = PStr ''coder'' then ''coder''
        else if retry_target = PStr ''context_builder'' then ''context_builder''
        else ''context_builder'')"

definition route_after_verifier :: "pydict \<Rightarrow> string" where
  "route_after_verifier state = (case dget state ''verification'' PNone of
       PDict d \<Rightarrow> if py_bool (dget d ''ok'' PNone) then ''reporter'' else ''policy_gate''
     | _ \<Rightarrow> ''policy_gate'')"

text \<open>
  The edges of \<open>build_graph\<close>: a fixed successor, or a routing function and the table that maps its
  answers to nodes (an answer that is not in the table is an error).
\<close>

datatype edge = To gnode | Cond "pydict \<Rightarrow> string" "(string \<times> gnode) list"

fun build_graph :: "gnode \<Rightarrow> edge" where
  "build_graph Ingest = To PolicyGate"
| "build_graph PolicyGate = Cond route_after_policy_gate
     [(''context_builder'', ContextBuilder), (''router'', Router), (''planner'', Planner),
      (''coder'', Coder), (''reporter'', Reporter)]"
| "build_graph ContextBuilder = To Router"
| "build_graph Router = To Planner"
| "build_graph Planner = To Coder"
| "build_graph Coder = To Executor"
| "build_graph Executor = To Verifier"
| "build_graph Verifier = Cond route_after_verifier
     [(''reporter'', Reporter), (''policy_gate'', PolicyGate)]"
| "build_graph Reporter = To END"
| "build_graph END = To END"

definition next_node :: "gnode \<Rightarrow> pydict \<Rightarrow> gnode result" where
  "next_node n s = (case build_graph n of
       To m \<Rightarrow> Inr m
     | Cond route table \<Rightarrow> (case map_of table (route s) of
           None \<Rightarrow> Inl (KeyError (route s)) | Some m \<Rightarrow> Inr m))"

definition export_edges :: "(string \<times> string) list" where
  "export_edges =
     [(''ingest'', ''policy_gate''), (''policy_gate'', ''context_builder''),
      (''policy_gate'', ''router''), (''policy_gate'', ''planner''), (''policy_gate'', ''coder''),
      (''policy_gate'', ''reporter''), (''context_builder'', ''router''), (''router'', ''planner''),
      (''planner'', ''coder''), (''coder'', ''executor''), (''executor'', ''verifier''),
      (''verifier'', ''reporter''), (''verifier'', ''policy_gate''), (''reporter'', ''END'')]"

section \<open>Execution\<close>

type_synonym config = "gnode \<times> pydict"

definition graph_step ::
  "(gnode \<Rightarrow> node_fn) \<Rightarrow> (pydict \<Rightarrow> pydict \<Rightarrow> pydict) \<Rightarrow> config \<Rightarrow> config result" where
  "graph_step impl upd c = (case c of (n, s) \<Rightarrow>
     bind_r (make_traced_node (impl n) [] s) (\<lambda>u.
       let s' = upd s u in bind_r (next_node n s') (\<lambda>m. Inr (m, s'))))"

fun graph_run ::
  "(gnode \<Rightarrow> node_fn) \<Rightarrow> (pydict \<Rightarrow> pydict \<Rightarrow> pydict) \<Rightarrow> nat \<Rightarrow> config
     \<Rightarrow> (pydict result) option" where
  "graph_run impl upd fuel (n, s) =
     (if n = END then Some (Inr s)
      else case fuel of
        0 \<Rightarrow> None
      | Suc f \<Rightarrow> (case graph_step impl upd (n, s) of
            Inl e \<Rightarrow> Some (Inl e) | Inr c \<Rightarrow> graph_run impl upd f c))"

text \<open>The nodes that are executed, in order.\<close>

fun graph_path ::
  "(gnode \<Rightarrow> node_fn) \<Rightarrow> (pydict \<Rightarrow> pydict \<Rightarrow> pydict) \<Rightarrow> nat \<Rightarrow> config \<Rightarrow> gnode list" where
  "graph_path impl upd fuel (n, s) =
     (if n = END then []
      else case fuel of
        0 \<Rightarrow> []
      | Suc f \<Rightarrow> n # (case graph_step impl upd (n, s) of
            Inl e \<Rightarrow> [] | Inr c \<Rightarrow> graph_path impl upd f c))"

declare graph_run.simps [simp del] graph_path.simps [simp del]

text \<open>The keys of \<open>OrchStateDict\<close> (state.py) that the routing functions, the gate and the properties read.\<close>

definition loop_channels :: "string list" where
  "loop_channels = [''budgets'', ''verification'', ''retry_target'', ''context_reset_requested'',
     ''halt_reason'', ''_budget_max_loops'', ''guards'', ''_config_policy'', ''plan'', ''tool_results'',
     ''final'']"

definition channel_update :: "(pydict \<Rightarrow> pydict \<Rightarrow> pydict) \<Rightarrow> bool" where
  "channel_update upd \<longleftrightarrow> (\<forall>s u k. k \<in> set loop_channels \<longrightarrow>
     map_of (upd s u) k = (case map_of u k of None \<Rightarrow> map_of s k | Some v \<Rightarrow> Some v))"

lemma channel_update_override: "channel_update (\<lambda>s u. u @ s)"
  by (auto simp: channel_update_def map_add_def split: option.splits)

section \<open>The loop budget as an interface between the gate and the other nodes\<close>

text \<open>
  The gate counts passes in \<open>budgets["current_loop"]\<close> and reads its limit from
  \<open>_budget_max_loops\<close>. Every other node promises to leave both as they are; that is all the
  termination argument needs of it.
\<close>

definition loop_view :: "pydict \<Rightarrow> pyval option \<times> pyval option" where
  "loop_view s = (map_of (as_dict (dget s ''budgets'' (PDict []))) ''current_loop'',
                  map_of s ''_budget_max_loops'')"

locale loop_keeper =
  fixes node :: node_fn
  assumes keeps_loop: "node s = Inr t \<Longrightarrow> loop_view t = loop_view s"
begin

lemma keeps_after_update:
  assumes upd: "channel_update upd" and run: "node s = Inr t"
  shows "loop_view (upd s t) = loop_view s"
proof -
  have v: "loop_view t = loop_view s" by (rule keeps_loop [OF run])
  have b: "map_of (upd s t) ''budgets''
      = (case map_of t ''budgets'' of None \<Rightarrow> map_of s ''budgets'' | Some x \<Rightarrow> Some x)"
    and m: "map_of (upd s t) ''_budget_max_loops''
      = (case map_of t ''_budget_max_loops'' of
           None \<Rightarrow> map_of s ''_budget_max_loops'' | Some x \<Rightarrow> Some x)"
    using upd by (auto simp: channel_update_def loop_channels_def)
  show ?thesis
    using v unfolding loop_view_def dget_def b m by (auto split: option.splits)
qed

end

definition loop_count :: "int_adapter \<Rightarrow> pydict \<Rightarrow> int" where
  "loop_count validate s =
     (case fst (loop_view s) of None \<Rightarrow> 0 | Some v \<Rightarrow> coerce_non_negative_int validate v 0)"

definition loop_limit :: "pydict \<Rightarrow> int" where
  "loop_limit s = max 1 (case snd (loop_view s) of None \<Rightarrow> 3 | Some v \<Rightarrow> int_default v 3)"

definition loops_left :: "int_adapter \<Rightarrow> pydict \<Rightarrow> nat" where
  "loops_left validate s = nat (loop_limit s - loop_count validate s)"

lemma loop_limit_alt: "loop_limit s = max 1 (int_default (dget s ''_budget_max_loops'' (PInt 3)) 3)"
  by (simp add: loop_limit_def loop_view_def dget_def int_default_def split: option.splits)

lemma loops_left_cong:
  "loop_view s = loop_view t \<Longrightarrow> loops_left validate s = loops_left validate t"
  by (simp add: loops_left_def loop_limit_def loop_count_def)

lemma loop_count_nonneg: "non_neg_adapter validate \<Longrightarrow> 0 \<le> loop_count validate s"
  by (auto simp: loop_count_def coerce_nonneg split: option.splits)

text \<open>One pass of the gate: either it uses one of the loops left, or it halts the run.\<close>

lemma gate_step:
  assumes ad: "non_neg_adapter validate" and upd: "channel_update upd"
    and run: "policy_gate validate now s = Inr t"
  defines "s' \<equiv> upd s t"
  shows "(route_after_policy_gate s' \<in> {''context_builder'', ''router'', ''planner'', ''coder''} \<and>
          loops_left validate s' < loops_left validate s) \<or>
         route_after_policy_gate s' = ''reporter''"
proof -
  from run obtain b where
    b: "py_dict (dget s ''budgets'' (PDict [])) = Inr b"
    and bt: "dget t ''budgets'' PNone = PDict (gate_budgets (gate_decision validate s b) s b)"
    and ht: "dget t ''halt_reason'' PNone = PStr (lb_halt_reason (gate_decision validate s b))"
    and same: "\<And>k v. k \<notin> {''_trace_events'', ''guards'', ''budgets'', ''halt_reason'', ''verification''} \<Longrightarrow>
       dget t k v = dget s k v"
    by (rule policy_gate_cases) blast
  define ld where "ld = gate_decision validate s b"
  have u: "map_of s' k = (case map_of t k of None \<Rightarrow> map_of s k | Some v \<Rightarrow> Some v)"
    if "k \<in> set loop_channels" for k
    using upd that unfolding channel_update_def s'_def by blast
  have b': "map_of s' ''budgets'' = Some (PDict (gate_budgets ld s b))"
    using bt u [of "''budgets''"] by (auto simp: loop_channels_def dget_def ld_def split: option.splits)
  have h': "map_of s' ''halt_reason'' = Some (PStr (lb_halt_reason ld))"
    using ht u [of "''halt_reason''"] by (auto simp: loop_channels_def dget_def ld_def split: option.splits)
  have m': "map_of s' ''_budget_max_loops'' = map_of s ''_budget_max_loops''"
    using same [of "''_budget_max_loops''" PNone] same [of "''_budget_max_loops''" "PInt 0"]
      u [of "''_budget_max_loops''"]
    by (auto simp: loop_channels_def dget_def split: option.splits)
  have cur: "map_of (gate_budgets ld s b) ''current_loop'' = Some (PInt (lb_current_loop ld))"
    by (simp add: gate_budgets_def Let_def)
  define c where "c = coerce_non_negative_int validate (dget b ''current_loop'' PNone) 0"
  have c0: "0 \<le> c" using coerce_nonneg [OF ad] by (simp add: c_def)
  have cc: "loop_count validate s \<le> c"
  proof (cases "dget s ''budgets'' (PDict [])")
    case (PDict d)
    then have "b = d" using b by simp
    then show ?thesis
      using PDict by (auto simp: c_def loop_count_def loop_view_def dget_def coerce_PNone [OF ad]
          split: option.splits)
  qed (use c0 in \<open>auto simp: loop_count_def loop_view_def\<close>)
  have lim: "lb_max_loops ld \<le> loop_limit s"
    using enforce_max_bounds(2) [OF ad]
    by (simp add: ld_def gate_decision_def loop_limit_alt Let_def)
  have allow: "lb_allow ld \<longleftrightarrow> c < lb_max_loops ld"
    and curr: "lb_current_loop ld = c + of_bool (lb_allow ld)"
    unfolding ld_def gate_decision_def Let_def c_def
    by (rule enforce_allow_iff, rule enforce_current)
  show ?thesis
  proof (cases "lb_allow ld")
    case True
    have "lb_halt_reason ld = []"
      using True enforce_halt(2) unfolding ld_def gate_decision_def Let_def by blast
    then have r: "route_after_policy_gate s' \<in> {''context_builder'', ''router'', ''planner'', ''coder''}"
      using h' by (auto simp: route_after_policy_gate_def dget_def Let_def)
    have "loop_count validate s' = c + 1"
      using b' cur curr True c0 coerce_PInt [OF ad]
      by (simp add: loop_count_def loop_view_def dget_def)
    moreover have "loop_limit s' = loop_limit s"
      using m' by (simp add: loop_limit_def loop_view_def)
    moreover have "c < loop_limit s" using True allow lim by simp
    ultimately have "loops_left validate s' < loops_left validate s"
      using cc by (simp add: loops_left_def)
    then show ?thesis using r by blast
  next
    case False
    then have "lb_halt_reason ld \<in> {''max_loops_exhausted'', ''plan_max_iterations_exhausted''}"
      using enforce_halt(1) unfolding ld_def gate_decision_def Let_def by blast
    moreover have "strip x = x"
      if "x \<in> {''max_loops_exhausted'', ''plan_max_iterations_exhausted''}" for x
      using that by (auto simp: strip_def lstrip_def rstrip_def is_space_def code_def Let_def)
    ultimately show ?thesis
      using h' by (auto simp: route_after_policy_gate_def dget_def Let_def)
  qed
qed

section \<open>Termination of a run and the number of executions\<close>

text \<open>The steps that remain until the gate is reached again.\<close>

fun to_gate :: "gnode \<Rightarrow> nat" where
  "to_gate ContextBuilder = 6"
| "to_gate Router = 5"
| "to_gate Planner = 4"
| "to_gate Coder = 3"
| "to_gate Executor = 2"
| "to_gate Verifier = 1"
| "to_gate _ = 0"

definition worker_nodes :: "gnode set" where
  "worker_nodes = {ContextBuilder, Router, Planner, Coder, Executor, Verifier}"

text \<open>
  The conditions under which a graph is executed: the adapter and the update rule behave as
  documented, the gate is the gate node, and the worker nodes keep the loop budget.
\<close>

definition graph_laws ::
  "int_adapter \<Rightarrow> clock \<Rightarrow> (pydict \<Rightarrow> pydict \<Rightarrow> pydict) \<Rightarrow> (gnode \<Rightarrow> node_fn) \<Rightarrow> bool" where
  "graph_laws validate now upd impl \<longleftrightarrow>
     non_neg_adapter validate \<and> channel_update upd \<and>
     impl PolicyGate = policy_gate validate now \<and> (\<forall>n\<in>worker_nodes. loop_keeper (impl n))"

text \<open>
  The potential of a configuration: seven steps for every loop that is left, the steps to the next
  pass of the gate, and the two steps that end the run.
\<close>

definition potential :: "int_adapter \<Rightarrow> config \<Rightarrow> nat" where
  "potential validate c = (case c of (n, s) \<Rightarrow>
     if n = END then 0 else if n = Reporter then 1
     else to_gate n + 7 * loops_left validate s + 2)"

lemma make_traced_node_id [simp]: "make_traced_node f name s = f s"
  by (simp add: make_traced_node_def split: sum.splits)

lemma graph_step_Inr:
  "graph_step impl upd (n, s) = Inr (m, s') \<longleftrightarrow>
     (\<exists>t. impl n s = Inr t \<and> s' = upd s t \<and> next_node n s' = Inr m)"
  by (auto simp: graph_step_def bind_r_eq_Inr Let_def)

lemma next_node_worker:
  "n \<in> worker_nodes \<Longrightarrow> next_node n s = Inr m \<Longrightarrow>
     (to_gate m < to_gate n \<and> (m \<in> worker_nodes \<or> m = PolicyGate)) \<or> m = Reporter"
  by (auto simp: worker_nodes_def next_node_def route_after_verifier_def split: pyval.splits if_splits)

lemma graph_step_decreases:
  assumes laws: "graph_laws validate now upd impl"
    and n: "n \<noteq> END" "n \<noteq> Ingest" and step: "graph_step impl upd (n, s) = Inr (m, s')"
  shows "potential validate (m, s') < potential validate (n, s) \<and> m \<noteq> Ingest"
proof -
  from step obtain t where t: "impl n s = Inr t" "s' = upd s t" and m: "next_node n s' = Inr m"
    by (auto simp: graph_step_Inr)
  have ad: "non_neg_adapter validate" and upd: "channel_update upd"
    and gate: "impl PolicyGate = policy_gate validate now"
    using laws by (auto simp: graph_laws_def)
  have workers: "loop_keeper (impl n)" if "n \<in> worker_nodes"
    using laws that by (auto simp: graph_laws_def)
  consider "n \<in> worker_nodes" | "n = PolicyGate" | "n = Reporter"
    using n by (cases n) (auto simp: worker_nodes_def)
  then show ?thesis
  proof cases
    case 1
    have "loop_view s' = loop_view s"
      using loop_keeper.keeps_after_update [OF workers [OF 1] upd t(1)] t(2) by simp
    then have "loops_left validate s' = loops_left validate s" by (rule loops_left_cong)
    with next_node_worker [OF 1 m] 1 show ?thesis
      by (auto simp: potential_def worker_nodes_def)
  next
    case 2
    then have run: "policy_gate validate now s = Inr t" using t(1) gate by simp
    from gate_step [OF ad upd run] m 2 show ?thesis
      by (auto simp: t(2) next_node_def potential_def)
  next
    case 3
    then show ?thesis using m by (simp add: next_node_def potential_def)
  qed
qed

lemma graph_run_terminates:
  assumes laws: "graph_laws validate now upd impl"
    and start: "n \<noteq> Ingest" "potential validate (n, s) \<le> fuel"
  shows "\<exists>r. graph_run impl upd fuel (n, s) = Some r"
  using start
proof (induction fuel arbitrary: n s)
  case 0
  then have "n = END" by (auto simp: potential_def split: if_splits)
  then show ?case by (simp add: graph_run.simps)
next
  case (Suc fuel)
  show ?case
  proof (cases "n = END")
    case True
    then show ?thesis by (simp add: graph_run.simps)
  next
    case False
    show ?thesis
    proof (cases "graph_step impl upd (n, s)")
      case (Inl e)
      then show ?thesis using False by (simp add: graph_run.simps)
    next
      case (Inr c)
      obtain m s' where c: "c = (m, s')" by (cases c)
      have "potential validate (m, s') < potential validate (n, s) \<and> m \<noteq> Ingest"
        using graph_step_decreases [OF laws False Suc.prems(1)] Inr c by blast
      then show ?thesis
        using Suc.IH [of m s'] Suc.prems False Inr c by (simp add: graph_run.simps)
    qed
  qed
qed

text \<open>The executions that are still possible from a configuration.\<close>

definition executions_left :: "int_adapter \<Rightarrow> config \<Rightarrow> nat" where
  "executions_left validate c = (case c of (n, s) \<Rightarrow>
     loops_left validate s + of_bool (2 \<le> to_gate n))"

lemma graph_step_executions:
  assumes laws: "graph_laws validate now upd impl"
    and n: "n \<noteq> END" "n \<noteq> Ingest" "n \<noteq> Reporter"
    and step: "graph_step impl upd (n, s) = Inr (m, s')" and m: "m \<noteq> Reporter"
  shows "executions_left validate (m, s') + of_bool (n = Executor) \<le> executions_left validate (n, s)"
proof -
  from step obtain t where t: "impl n s = Inr t" "s' = upd s t" and nm: "next_node n s' = Inr m"
    by (auto simp: graph_step_Inr)
  have ad: "non_neg_adapter validate" and upd: "channel_update upd"
    and gate: "impl PolicyGate = policy_gate validate now"
    using laws by (auto simp: graph_laws_def)
  have workers: "loop_keeper (impl n)" if "n \<in> worker_nodes"
    using laws that by (auto simp: graph_laws_def)
  consider "n \<in> worker_nodes" | "n = PolicyGate"
    using n by (cases n) (auto simp: worker_nodes_def)
  then show ?thesis
  proof cases
    case 1
    have "loop_view s' = loop_view s"
      using loop_keeper.keeps_after_update [OF workers [OF 1] upd t(1)] t(2) by simp
    then have "loops_left validate s' = loops_left validate s" by (rule loops_left_cong)
    with next_node_worker [OF 1 nm] 1 m show ?thesis
      by (auto simp: executions_left_def worker_nodes_def)
  next
    case 2
    then have run: "policy_gate validate now s = Inr t" using t(1) gate by simp
    from gate_step [OF ad upd run] nm 2 m show ?thesis
      by (auto simp: t(2) next_node_def executions_left_def)
  qed
qed

lemma graph_path_Reporter: "Executor \<notin> set (graph_path impl upd fuel (Reporter, s))"
proof (cases fuel)
  case (Suc f)
  have "graph_path impl upd f (END, s') = []" for s' by (simp add: graph_path.simps)
  then show ?thesis
    using Suc by (auto simp: graph_path.simps [of _ _ _ Reporter] graph_step_def next_node_def Let_def
        bind_r_def split: sum.splits)
qed (simp add: graph_path.simps)

lemma graph_path_executions:
  assumes laws: "graph_laws validate now upd impl"
    and start: "n \<noteq> Ingest" "n \<noteq> Reporter"
  shows "count_list (graph_path impl upd fuel (n, s)) Executor \<le> executions_left validate (n, s)"
  using start
proof (induction fuel arbitrary: n s)
  case 0
  then show ?case by (simp add: graph_path.simps)
next
  case (Suc fuel)
  show ?case
  proof (cases "n = END")
    case True
    then show ?thesis by (simp add: graph_path.simps)
  next
    case False
    show ?thesis
    proof (cases "graph_step impl upd (n, s)")
      case (Inl e)
      then show ?thesis
        using False by (auto simp: graph_path.simps [of _ _ _ n] executions_left_def)
    next
      case (Inr c)
      obtain m s' where c: "c = (m, s')" by (cases c)
      have path: "count_list (graph_path impl upd (Suc fuel) (n, s)) Executor
          = of_bool (n = Executor) + count_list (graph_path impl upd fuel (m, s')) Executor"
        using False Inr c by (simp add: graph_path.simps [of _ _ _ n])
      show ?thesis
      proof (cases "m = Reporter")
        case True
        then have "count_list (graph_path impl upd fuel (m, s')) Executor = 0"
          using graph_path_Reporter by (metis count_list_0_iff)
        then show ?thesis unfolding path by (auto simp: executions_left_def)
      next
        case m: False
        have "m \<noteq> Ingest"
          using graph_step_decreases [OF laws False Suc.prems(1)] Inr c by blast
        then show ?thesis
          using Suc.IH [OF _ m, of s'] path
            graph_step_executions [OF laws False Suc.prems _ m] Inr c
          by fastforce
      qed
    qed
  qed
qed

end
