(* ===== verification/Router_Node.thy ===== *)
theory Router_Node
  imports Model_Routing Graph Memory
begin

text \<open>
  \<open>nodes/router.py\<close>: the classification of a request into an intent, the choice of the
  orchestration lane from the state, and the router node itself. The call of a remote model is the
  argument \<open>remote\<close>: it answers with a decision (or none) and the metadata of the response, or raises.
\<close>

section \<open>Intent and lane\<close>

definition word_char :: "char \<Rightarrow> bool" where
  "word_char c = (97 \<le> code c \<and> code c \<le> 122 \<or> 48 \<le> code c \<and> code c \<le> 57 \<or> code c = 39)"

text \<open>The matches of \<open>[a-z0-9']+\<close>: the maximal runs of word characters.\<close>

fun word_runs :: "string \<Rightarrow> string \<Rightarrow> string list" where
  "word_runs cur [] = (if cur = [] then [] else [rev cur])"
| "word_runs cur (c # cs) =
     (if word_char c then word_runs (c # cur) cs
      else if cur = [] then word_runs [] cs else rev cur # word_runs [] cs)"

definition intersects :: "string list \<Rightarrow> string list \<Rightarrow> bool" where
  "intersects xs ys = list_ex (\<lambda>x. x \<in> set ys) xs"

definition classify_intent :: "string \<Rightarrow> string" where
  "classify_intent request =
     (let r = lower request; words = word_runs [] r in
      if intersects words [''implement'', ''add'', ''change'', ''fix'', ''refactor'', ''write'',
                           ''create'', ''build'', ''generate'', ''make'']
      then ''code_change''
      else if intersects words [''debug'', ''error'', ''panic'', ''exception''] \<or> sublist ''stack trace'' r
      then ''debug''
      else if intersects words [''research'', ''compare'', ''survey'', ''latest''] then ''research''
      else if ''why'' \<in> set words \<or> ''how'' \<in> set words \<or> ''explain'' \<in> set words then ''question''
      else ''analysis'')"

text \<open>The size estimates that the lane depends on.\<close>

record route_sizes =
  rs_token_estimate :: int
  rs_working_set_tokens :: int
  rs_compression_score :: int
  rs_fact_count :: int
  rs_semantic_memory_count :: int

definition route_sizes_of :: "pydict \<Rightarrow> route_sizes" where
  "route_sizes_of state =
     (let repo_context = as_dict (dget state ''repo_context'' (PDict []));
          planner_context = as_dict (dget repo_context ''planner_context'' (PDict []));
          t0 = int_or (dget planner_context ''token_estimate'' (PInt 0)) 0;
          token_estimate = (if t0 \<le> 0 then approx_token_count (gets repo_context ''repo_map'' []) else t0);
          working_set = as_dict (dget repo_context ''working_set'' (PDict []));
          working_set_tokens = int_or (dget planner_context ''working_set_token_estimate''
                                  (dget working_set ''token_estimate'' (PInt 0))) token_estimate;
          compression = as_dict (dget repo_context ''compression'' (PDict []));
          pressure = as_dict (dget compression ''pressure'' (PDict []));
          overall_pressure = as_dict (dget pressure ''overall'' (PDict []));
          compression_score = int_or (dget planner_context ''compression_pressure''
                                 (dget overall_pressure ''score'' (PInt 0))) 0;
          state_fact_count = int (length (as_list (dget state ''facts'' (PList []))));
          fact_count = int_or (dget planner_context ''fact_count'' (PInt state_fact_count)) state_fact_count;
          semantic_memories = dicts_of (as_list (dget repo_context ''semantic_memories'' (PList [])));
          n = int (length semantic_memories);
          semantic_memory_count = int_or (dget planner_context ''semantic_memory_count'' (PInt n)) n
      in \<lparr> rs_token_estimate = token_estimate, rs_working_set_tokens = working_set_tokens,
           rs_compression_score = compression_score, rs_fact_count = fact_count,
           rs_semantic_memory_count = semantic_memory_count \<rparr>)"

definition route_recovery :: "pydict \<Rightarrow> pydict" where
  "route_recovery state =
     (let verification = as_dict (dget state ''verification'' (PDict []));
          recovery = as_dict (dget verification ''recovery'' (PDict []));
          packet = as_dict (dget verification ''recovery_packet''
                      (dget state ''recovery_packet'' (PDict [])))
      in if packet \<noteq> [] then packet else recovery)"

definition default_decision :: "pydict \<Rightarrow> int \<Rightarrow> int \<Rightarrow> RouterDecision" where
  "default_decision state interactive_limit current_loop =
     (let intent = classify_intent (strip (gets state ''request'' []));
          verification = as_dict (dget state ''verification'' (PDict []));
          recovery = route_recovery state;
          routing = as_dict (dget state ''_model_routing_policy'' (PDict []));
          affinity = or_str (strip (gets routing ''default_cache_affinity'' ''workspace'')) ''workspace'';
          sz = route_sizes_of state;
          retry_target = strip (gets state ''retry_target'' []);
          failure_fingerprint = strip (gets verification ''failure_fingerprint'' []);
          tokens = max (rs_token_estimate sz) (rs_working_set_tokens sz);
          score = rs_compression_score sz; facts = rs_fact_count sz; mems = rs_semantic_memory_count sz
      in if retry_target = ''router'' \<or> recovery \<noteq> [] then
              (let failure_class = py_str (dget recovery ''failure_class''
                     (dget verification ''failure_class'' (PStr ''verification_failed'')));
                   context_scope = or_str (gets recovery ''context_scope'' ''working_set'') ''working_set''
               in \<lparr> rd_intent = intent, rd_task_class = or_str failure_class ''recovery'',
                    rd_lane = ''recovery'',
                    rd_rationale =
                      (if score \<le> 0 then ''verification requested a recovery route''
                       else ''verification requested recovery and compression pressure favors a stronger lane''),
                    rd_context_scope = context_scope, rd_latency_sensitive = False,
                    rd_cache_affinity = affinity @ '':recovery:''
                      @ or_str failure_fingerprint (int_str current_loop),
                    rd_prefix_segment =
                      (if context_scope \<noteq> ''stable_prefix'' then ''recovery_working_set'' else ''stable_prefix''),
                    rd_provider_used = ''local'', rd_provider = [], rd_model = [],
                    rd_context_tokens = tokens, rd_compression_pressure = score, rd_fact_count = facts \<rparr>)
            else if intent \<in> {''code_change'', ''refactor'', ''debug''}
                    \<or> interactive_limit < rs_token_estimate sz
                    \<or> interactive_limit < rs_working_set_tokens sz
                    \<or> 0 < score \<or> 3 \<le> facts \<or> 2 \<le> mems then
              \<lparr> rd_intent = intent, rd_task_class = ''deep_planning'', rd_lane = ''deep_planning'',
                rd_rationale =
                  (if 0 < score then ''context compression pressure requires deeper planning''
                   else if 3 \<le> facts then ''recovery memory indicates deeper planning is needed''
                   else if 2 \<le> mems then ''semantic memory recall indicates deeper planning is needed''
                   else ''request complexity or context size requires deeper planning''),
                rd_context_scope = ''stable_prefix'', rd_latency_sensitive = False,
                rd_cache_affinity = affinity @ '':planner:'' @ int_str current_loop @ '':c'' @ int_str score,
                rd_prefix_segment = ''stable_prefix'',
                rd_provider_used = ''local'', rd_provider = [], rd_model = [],
                rd_context_tokens = tokens, rd_compression_pressure = score,
                rd_fact_count = max facts mems \<rparr>
            else
              \<lparr> rd_intent = intent, rd_task_class = intent, rd_lane = ''interactive'',
                rd_rationale =
                  (if failure_fingerprint \<noteq> []
                   then ''interactive lane retained because failure signal did not require recovery''
                   else ''interactive lane selected for low-latency reasoning''),
                rd_context_scope = ''stable_prefix'', rd_latency_sensitive = True,
                rd_cache_affinity = affinity @ '':interactive'', rd_prefix_segment = ''stable_prefix'',
                rd_provider_used = ''local'', rd_provider = [], rd_model = [],
                rd_context_tokens = tokens, rd_compression_pressure = score,
                rd_fact_count = max facts mems \<rparr>)"

definition default_route :: "pydict \<Rightarrow> RouterDecision result" where
  "default_route state =
     bind_r (or_default_int (as_dict (dget state ''_model_routing_policy'' (PDict [])))
               ''interactive_context_limit'' 1800) (\<lambda>interactive_limit.
     bind_r (py_int (or_val (dget (as_dict (dget state ''budgets'' (PDict []))) ''current_loop'' (PInt 0))
               (PInt 0))) (\<lambda>current_loop.
     check_router_decision (default_decision state interactive_limit current_loop)))"

section \<open>The node\<close>

type_synonym remote_router =
  "pydict \<Rightarrow> RouterDecision \<Rightarrow> pydict \<Rightarrow> (RouterDecision option \<times> response_meta option) result"

definition router_model_output :: "remote_router \<Rightarrow> remote_router" where
  "router_model_output remote state def route_decision =
     (if strip (gets route_decision ''provider_used'' ''local'') = ''local'' then Inr (None, None)
      else remote state def route_decision)"

definition route_payload :: "RouterDecision \<Rightarrow> pydict \<Rightarrow> pydict" where
  "route_payload final_route route_decision =
     (let provider = strip (gets route_decision ''provider'' []);
          model = strip (gets route_decision ''model'' []);
          p0 = dump_router_decision final_route;
          p1 = (if provider \<noteq> [] then dset p0 ''provider'' (PStr provider) else p0);
          p2 = (if model \<noteq> [] then dset p1 ''model'' (PStr model) else p1)
      in dset p2 ''provider_used''
           (PStr (py_str (or_val (dget route_decision ''provider_used'' (PStr ''local'')) (PStr ''local'')))))"

definition with_route :: "pydict \<Rightarrow> pydict \<Rightarrow> pydict" where
  "with_route state payload =
     dset (dset (dset state ''route'' (PDict payload)) ''intent'' (dget payload ''intent'' PNone))
       ''retry_target'' PNone"

text \<open>The \<open>try\<close> block of the node: any exception of the remote path falls back to the default route.\<close>

definition router_out :: "remote_router \<Rightarrow> pydict \<Rightarrow> RouterDecision \<Rightarrow> pydict" where
  "router_out remote state def =
     (let route_decision = latest_model_route state ''router'';
          provider = strip (gets route_decision ''provider'' []);
          model = strip (gets route_decision ''model'' [])
      in case router_model_output remote state def route_decision of
           Inl exc \<Rightarrow> with_route state (route_payload def route_decision)
         | Inr rr \<Rightarrow>
             record_inference_telemetry
               (with_route state (route_payload (case fst rr of Some r \<Rightarrow> r | None \<Rightarrow> def) route_decision))
               ''router'' provider model (snd rr))"

definition router :: "remote_router \<Rightarrow> clock \<Rightarrow> pydict \<Rightarrow> pydict result" where
  "router remote now state0 =
     bind_r (default_route state0) (\<lambda>def.
     bind_r (record_model_route (dset state0 ''route'' (PDict (dump_router_decision def)))
               ''router'' (rd_task_class def) ''router'') (\<lambda>state1.
     bind_r (node_event now state1 ''router'' ''start'') (\<lambda>state.
       let out = router_out remote state def;
           telemetry = as_dict (dget out ''telemetry'' (PDict []));
           routes = as_list (dget telemetry ''routing'' (PList []));
           out' = dset out ''telemetry'' (PDict (dset telemetry ''routing''
                    (PList (routes @ [dget out ''route'' (PDict [])]))))
       in append_event now out' ''node''
            [(''name'', PStr ''router''), (''phase'', PStr ''end''),
             (''lane'', dget (as_dict (dget out' ''route'' (PDict []))) ''lane'' (PStr ''interactive''))])))"

section \<open>Properties\<close>

lemma classify_intent_legal: "classify_intent r \<in> set intents"
  by (simp add: classify_intent_def intents_def Let_def)

lemma append_event_map_of:
  "append_event now s kind data = Inr s' \<Longrightarrow> k \<noteq> ''_trace_events'' \<Longrightarrow> map_of s' k = map_of s k"
  by (auto simp: append_event_def bind_r_eq_Inr)

lemma router_out_keys:
  "k \<notin> {''route'', ''telemetry'', ''intent'', ''retry_target''} \<Longrightarrow>
     map_of (router_out remote s def) k = map_of s k"
  by (simp add: router_out_def with_route_def record_inference_other Let_def split: sum.splits)

lemma router_keys:
  assumes "router remote now s = Inr t"
    and "k \<notin> {''route'', ''telemetry'', ''intent'', ''retry_target'', ''_trace_events''}"
  shows "map_of t k = map_of s k"
  using assms
  by (auto simp: router_def bind_r_eq_Inr Let_def router_out_keys record_model_route_other
      append_event_map_of)

interpretation router_keeps: loop_keeper "router remote now"
proof
  fix s t
  assume "router remote now s = Inr t"
  note k = router_keys [OF this]
  show "loop_view t = loop_view s" by (simp add: loop_view_def dget_def k)
qed

text \<open>
  The lane of the default route is a function of three conditions: a pending retry at the router
  or a recovery record selects the recovery lane; otherwise the deep planning lane is chosen exactly
  for requests that change or debug code, for context above the interactive limit, under compression
  pressure, or with at least three facts or two recalled memories; everything else is interactive.
\<close>

theorem default_route_lane:
  assumes "default_route s = Inr d"
    and "or_default_int (as_dict (dget s ''_model_routing_policy'' (PDict []))) ''interactive_context_limit'' 1800
           = Inr limit"
  shows "rd_lane d =
     (if strip (gets s ''retry_target'' []) = ''router'' \<or> route_recovery s \<noteq> [] then ''recovery''
      else if classify_intent (strip (gets s ''request'' [])) \<in> {''code_change'', ''refactor'', ''debug''}
         \<or> limit < max (rs_token_estimate (route_sizes_of s)) (rs_working_set_tokens (route_sizes_of s))
         \<or> 0 < rs_compression_score (route_sizes_of s) \<or> 3 \<le> rs_fact_count (route_sizes_of s)
         \<or> 2 \<le> rs_semantic_memory_count (route_sizes_of s) then ''deep_planning''
      else ''interactive'') \<and>
     (rd_latency_sensitive d \<longleftrightarrow> rd_lane d = ''interactive'') \<and> rd_lane d \<in> set route_lanes \<and>
     rd_intent d \<in> set intents"
proof -
  let ?rec = "strip (gets s ''retry_target'' []) = ''router'' \<or> route_recovery s \<noteq> []"
  let ?deep = "classify_intent (strip (gets s ''request'' [])) \<in> {''code_change'', ''refactor'', ''debug''}
         \<or> limit < rs_token_estimate (route_sizes_of s) \<or> limit < rs_working_set_tokens (route_sizes_of s)
         \<or> 0 < rs_compression_score (route_sizes_of s) \<or> 3 \<le> rs_fact_count (route_sizes_of s)
         \<or> 2 \<le> rs_semantic_memory_count (route_sizes_of s)"
  have mx: "l < max a b \<or> c \<longleftrightarrow> l < a \<or> l < b \<or> c" for l a b :: int and c by auto
  obtain c where d: "d = default_decision s limit c" and ok: "rd_lane d \<in> set route_lanes" "rd_intent d \<in> set intents"
    using assms by (auto simp: default_route_def bind_r_eq_Inr check_router_decision_Inr)
  have "rd_lane d = (if ?rec then ''recovery'' else if ?deep then ''deep_planning'' else ''interactive'') \<and>
     rd_latency_sensitive d = (\<not> ?rec \<and> \<not> ?deep)"
    unfolding d default_decision_def Let_def
    by (cases ?rec; cases ?deep) (simp_all only: if_True if_False RouterDecision.simps simp_thms)
  then show ?thesis
    using ok unfolding mx by (simp split: if_splits)
qed

theorem default_route_lane_witness:
  "\<exists>d. default_route [(''request'', PStr ''fix the bug'')] = Inr d \<and> rd_lane d = ''deep_planning''"
proof -
  let ?s = "[(''request'', PStr ''fix the bug'')]"
  have "(case default_route ?s of Inr _ \<Rightarrow> True | Inl _ \<Rightarrow> False) = True" by code_simp
  then obtain d where d: "default_route ?s = Inr d" by (auto split: sum.splits)
  have l: "or_default_int (as_dict (dget ?s ''_model_routing_policy'' (PDict []))) ''interactive_context_limit'' 1800 = Inr 1800"
    by code_simp
  have "\<not> (strip (gets ?s ''retry_target'' []) = ''router'' \<or> route_recovery ?s \<noteq> [])"
    "classify_intent (strip (gets ?s ''request'' [])) \<in> {''code_change'', ''refactor'', ''debug''}" by code_simp+
  then show ?thesis using default_route_lane [OF d l] d by simp
qed

end
