(* ===== verification/Runner_Client.thy ===== *)
theory Runner_Client
  imports Py_Text
begin

text \<open>
  \<open>tools/runner_client.py\<close>: the client of the tool runner. The HTTP library is the argument \<open>post\<close>: what
  a request to a path with a JSON body gives on the \<open>k\<close>-th attempt. \<open>json_loads\<close> is the JSON parser of the
  standard library (\<open>None\<close> for a text that is no JSON). Metrics and trace headers are left out.
\<close>

section \<open>The client\<close>

record RunnerClient =
  rc_base_url :: string
  rc_api_key :: "string option"
  rc_request_id :: "string option"

definition client_headers :: "RunnerClient \<Rightarrow> (string \<times> string) list" where
  "client_headers c =
     (case rc_api_key c of Some k \<Rightarrow> if k \<noteq> [] then [(''authorization'', ''Bearer '' @ k)] else [] | None \<Rightarrow> [])
     @ (case rc_request_id c of
          Some r \<Rightarrow> if strip r \<noteq> [] then [(''x-request-id'', strip r)] else [] | None \<Rightarrow> [])"

text \<open>
  The outcomes of a request: a response whose body is JSON, a response of success with another body
  (the message of the parser), a response of error status (its code, the message of the exception and
  its body, if that is JSON), a failure of transport, which is retried, and any other HTTP error.
\<close>

datatype http_outcome =
    JsonBody pyval
  | NotJson string
  | HttpStatus int string "pyval option"
  | TransportError string
  | OtherHttpError string

type_synonym http_post = "RunnerClient \<Rightarrow> string \<Rightarrow> pyval \<Rightarrow> nat \<Rightarrow> http_outcome"

text \<open>\<open>stop_after_attempt(3)\<close>, retrying failures of transport only, with the last error re-raised.\<close>

fun with_retry :: "(nat \<Rightarrow> http_outcome) \<Rightarrow> nat \<Rightarrow> nat \<Rightarrow> http_outcome" where
  "with_retry send 0 k = send k"
| "with_retry send (Suc n) k =
     (case send k of TransportError m \<Rightarrow> with_retry send n (Suc k) | r \<Rightarrow> r)"

definition checkpoint_payload :: "pydict \<Rightarrow> pydict option" where
  "checkpoint_payload input =
     (case dget input ''_checkpoint'' PNone of
        PDict raw \<Rightarrow>
          (case dget raw ''thread_id'' PNone of
             PStr tid \<Rightarrow>
               if strip tid = [] then None
               else
                 let p1 = [(''thread_id'', PStr (strip tid)), (''checkpoint_ns'', PStr (gets raw ''checkpoint_ns'' []))];
                     p2 = (case or_val (dget raw ''latest_checkpoint_id'' PNone) (dget raw ''resume_checkpoint_id'' PNone) of
                             PStr c \<Rightarrow> if strip c \<noteq> [] then dset p1 ''checkpoint_id'' (PStr (strip c)) else p1
                           | _ \<Rightarrow> p1)
                 in Some (case dget raw ''run_id'' PNone of
                            PStr r \<Rightarrow> if strip r \<noteq> [] then dset p2 ''run_id'' (PStr (strip r)) else p2
                          | _ \<Rightarrow> p2)
           | _ \<Rightarrow> None)
      | _ \<Rightarrow> None)"

definition client_route_payload :: "pydict \<Rightarrow> pydict option" where
  "client_route_payload input = (case dget input ''_route'' PNone of PDict raw \<Rightarrow> Some raw | _ \<Rightarrow> None)"

text \<open>An optional entry of a dictionary.\<close>

definition opt_entry :: "string \<Rightarrow> pydict option \<Rightarrow> pydict" where
  "opt_entry k x = (case x of None \<Rightarrow> [] | Some d \<Rightarrow> [(k, PDict d)])"

definition request_call :: "string \<Rightarrow> pydict \<Rightarrow> pydict" where
  "request_call tool input =
     [(''tool'', PStr tool), (''input'', PDict input)]
     @ opt_entry ''checkpoint'' (checkpoint_payload input) @ opt_entry ''route'' (client_route_payload input)"

text \<open>The approval challenge of a response with status 428.\<close>

definition approval_challenge :: "int \<Rightarrow> pyval option \<Rightarrow> pydict option" where
  "approval_challenge status body =
     (if status = 428
      then (case body of Some (PDict b) \<Rightarrow>
              (case dget b ''approval'' PNone of PDict a \<Rightarrow> Some a | _ \<Rightarrow> None) | _ \<Rightarrow> None)
      else None)"

definition status_artifacts :: "int \<Rightarrow> pyval option \<Rightarrow> pydict" where
  "status_artifacts status body =
     (let approval = approval_challenge status body in
      [(''error'', PStr (if approval \<noteq> None then ''approval_required'' else ''runner_http_error'')),
       (''status'', PInt status)] @ opt_entry ''approval'' approval)"

definition error_envelope :: "string \<Rightarrow> string \<Rightarrow> pydict \<Rightarrow> pydict option \<Rightarrow> pydict" where
  "error_envelope tool stderr artifacts route =
     [(''tool'', PStr tool), (''ok'', PBool False), (''exit_code'', PInt 1), (''stdout'', PStr []),
      (''stderr'', PStr stderr), (''diagnostics'', PList []), (''timing_ms'', PInt 0),
      (''artifacts'', PDict artifacts)] @ opt_entry ''route'' route"

section \<open>Single calls\<close>

definition execute_tool :: "http_post \<Rightarrow> RunnerClient \<Rightarrow> string \<Rightarrow> pydict \<Rightarrow> pydict result" where
  "execute_tool post client tool input =
     (case with_retry (post client ''/v1/tools/execute'' (PDict (request_call tool input))) 2 0 of
        JsonBody v \<Rightarrow> py_dict v
      | NotJson m \<Rightarrow> Inl (ValueError m)
      | HttpStatus status m body \<Rightarrow>
          Inr (error_envelope tool (''http_status='' @ int_str status @ '' '' @ m)
                 (status_artifacts status body) (client_route_payload input))
      | TransportError m \<Rightarrow>
          Inr (error_envelope tool m [(''error'', PStr ''runner_unavailable'')] (client_route_payload input))
      | OtherHttpError m \<Rightarrow>
          Inr (error_envelope tool m [(''error'', PStr ''runner_unavailable'')] (client_route_payload input)))"

definition prefix_entry :: "string option \<Rightarrow> pydict" where
  "prefix_entry path_prefix = (case path_prefix of
       Some p \<Rightarrow> if strip p \<noteq> [] then [(''path_prefix'', PStr (strip p))] else [] | None \<Rightarrow> [])"

definition parsed_stdout :: "(string \<Rightarrow> pyval option) \<Rightarrow> pydict \<Rightarrow> pyval option" where
  "parsed_stdout json_loads env =
     (if \<not> py_bool (dget env ''ok'' (PBool False)) then None
      else case dget env ''stdout'' (PStr []) of
          PStr out \<Rightarrow> if strip out = [] then None else json_loads out
        | _ \<Rightarrow> None)"

definition get_ast_index_summary ::
  "http_post \<Rightarrow> (string \<Rightarrow> pyval option) \<Rightarrow> RunnerClient \<Rightarrow> int \<Rightarrow> string option \<Rightarrow> pydict result" where
  "get_ast_index_summary post json_loads client max_files path_prefix =
     bind_r (execute_tool post client ''ast_index_summary''
               ([(''max_files'', PInt (max 1 (min max_files 2000)))] @ prefix_entry path_prefix))
       (\<lambda>env. Inr (case parsed_stdout json_loads env of Some (PDict d) \<Rightarrow> d | _ \<Rightarrow> []))"

definition search_codebase ::
  "http_post \<Rightarrow> (string \<Rightarrow> pyval option) \<Rightarrow> RunnerClient \<Rightarrow> string \<Rightarrow> int \<Rightarrow> string option
     \<Rightarrow> pydict list result" where
  "search_codebase post json_loads client query limit path_prefix =
     (let q = strip query in
      if q = [] then Inr []
      else bind_r (execute_tool post client ''search_codebase''
               ([(''query'', PStr q), (''limit'', PInt (max 1 (min limit 50)))] @ prefix_entry path_prefix))
       (\<lambda>env. Inr (case parsed_stdout json_loads env of Some (PList xs) \<Rightarrow> dicts_of xs | _ \<Rightarrow> [])))"

section \<open>Batches\<close>

definition batch_call :: "pydict \<Rightarrow> pydict" where
  "batch_call c = request_call (gets c ''tool'' []) (as_dict (dget c ''input'' (PDict [])))"

definition batch_results :: "pyval \<Rightarrow> pydict list result" where
  "batch_results body = bind_r (py_dict body) (\<lambda>d.
     case dget d ''results'' PNone of
       PList xs \<Rightarrow> map_r py_dict xs
     | _ \<Rightarrow> Inl (RuntimeError ''invalid batch response''))"

text \<open>In the error handlers \<open>_route_payload(c.get("input", {}))\<close> raises when the input is no dictionary.\<close>

definition batch_errors :: "pydict list \<Rightarrow> string \<Rightarrow> pydict \<Rightarrow> pydict list result" where
  "batch_errors calls stderr artifacts =
     map_r (\<lambda>c. bind_r (dict_method (dget c ''input'' (PDict [])) ''get'') (\<lambda>input.
              Inr (error_envelope (gets c ''tool'' []) stderr artifacts (client_route_payload input)))) calls"

definition batch_execute_tools :: "http_post \<Rightarrow> RunnerClient \<Rightarrow> pydict list \<Rightarrow> pydict list result" where
  "batch_execute_tools post client calls =
     (case with_retry (post client ''/v1/tools/batch_execute''
                         (PDict [(''calls'', dict_list (map batch_call calls))])) 2 0 of
        JsonBody v \<Rightarrow> batch_results v
      | NotJson m \<Rightarrow> Inl (ValueError m)
      | HttpStatus status m body \<Rightarrow>
          batch_errors calls (''http_status='' @ int_str status @ '' '' @ m) (status_artifacts status body)
      | TransportError m \<Rightarrow> batch_errors calls m [(''error'', PStr ''runner_unavailable'')]
      | OtherHttpError m \<Rightarrow> batch_errors calls m [(''error'', PStr ''runner_unavailable'')])"

section \<open>Properties\<close>

text \<open>A call whose input is a dictionary, as the nodes build them.\<close>

definition call_ok :: "pydict \<Rightarrow> bool" where
  "call_ok c = is_dict (dget c ''input'' (PDict []))"

lemma with_retry_transport:
  "with_retry send n k = TransportError m \<Longrightarrow> \<forall>i\<le>n. \<exists>m'. send (k + i) = TransportError m'"
proof (induction n arbitrary: k)
  case (Suc n)
  obtain m' where first: "send k = TransportError m'" and rest: "with_retry send n (Suc k) = TransportError m"
    using Suc.prems by (cases "send k") auto
  have "\<exists>m'. send (k + i) = TransportError m'" if "i \<le> Suc n" for i
    using that first Suc.IH [OF rest] by (cases i) auto
  then show ?case by blast
qed auto

lemma batch_errors_ok:
  assumes "list_all call_ok calls"
  shows "\<exists>rs. batch_errors calls e a = Inr rs \<and> length rs = length calls \<and>
     (\<forall>i<length calls. dget (rs ! i) ''ok'' PNone = PBool False \<and>
        dget (rs ! i) ''tool'' PNone = PStr (gets (calls ! i) ''tool'' []) \<and>
        dget (rs ! i) ''artifacts'' PNone = PDict a \<and> dget (rs ! i) ''stderr'' PNone = PStr e)"
  using assms
proof (induction calls)
  case (Cons c calls)
  obtain d where "dget c ''input'' (PDict []) = PDict d"
    using Cons.prems by (auto simp: call_ok_def elim: is_dict.elims)
  with Cons show ?case
    by (auto simp: batch_errors_def dict_method_def error_envelope_def nth_Cons split: nat.splits)
qed (simp add: batch_errors_def)

lemma batch_errors_dicts:
  "batch_errors calls e a = Inr rs \<Longrightarrow> length rs = length calls"
  by (simp add: batch_errors_def map_r_length)

text \<open>
  When every attempt of a batch fails in transport, the client raises nothing: it answers with
  one failed result per call, in order, under the name of the call's tool and with the error
  \<open>runner_unavailable\<close>.
\<close>

theorem batch_execute_unavailable:
  assumes "list_all call_ok calls"
    and "\<forall>k\<le>2. \<exists>m. post client ''/v1/tools/batch_execute''
                        (PDict [(''calls'', dict_list (map batch_call calls))]) k = TransportError m"
  shows "\<exists>rs. batch_execute_tools post client calls = Inr rs \<and> length rs = length calls \<and>
     (\<forall>i<length calls. dget (rs ! i) ''ok'' PNone = PBool False \<and>
        dget (rs ! i) ''tool'' PNone = PStr (gets (calls ! i) ''tool'' []) \<and>
        dget (rs ! i) ''artifacts'' PNone = PDict [(''error'', PStr ''runner_unavailable'')])"
proof -
  obtain m0 m1 m2 where
    "post client ''/v1/tools/batch_execute'' (PDict [(''calls'', dict_list (map batch_call calls))]) 0 = TransportError m0"
    "post client ''/v1/tools/batch_execute'' (PDict [(''calls'', dict_list (map batch_call calls))]) 1 = TransportError m1"
    "post client ''/v1/tools/batch_execute'' (PDict [(''calls'', dict_list (map batch_call calls))]) 2 = TransportError m2"
    using assms(2) by (metis one_le_numeral order_refl zero_le)
  then have "batch_execute_tools post client calls = batch_errors calls m2 [(''error'', PStr ''runner_unavailable'')]"
    by (simp add: batch_execute_tools_def numeral_2_eq_2)
  then show ?thesis using batch_errors_ok [OF assms(1)] by metis
qed

definition demo_client :: RunnerClient where
  "demo_client = \<lparr> rc_base_url = ''http://r'', rc_api_key = None, rc_request_id = None \<rparr>"

theorem batch_execute_unavailable_witness:
  "\<exists>rs. batch_execute_tools (\<lambda>_ _ _ _. TransportError ''down'') demo_client
       [[(''tool'', PStr ''exec''), (''input'', PDict [])]] = Inr rs \<and> length rs = 1"
proof -
  have "list_all call_ok [[(''tool'', PStr ''exec''), (''input'', PDict [])]]" by code_simp
  from batch_execute_unavailable [OF this, of "\<lambda>_ _ _ _. TransportError ''down''" demo_client] show ?thesis by auto
qed

end
