(* ===== verification/Verifier_Node.thy ===== *)
theory Verifier_Node
  imports Memory_Props Router_Node Runner_Client Py_Regex
begin

text \<open>
  \<open>nodes/verifier.py\<close>: reading tool results and diagnostics, the classification of a failure into a
  recovery action, acceptance checks, the verification report, the recovery facts, and the verifier
  node. The tool runner is the argument \<open>runner\<close> (the results of a batch of calls, or the exception
  of the client); \<open>schema_ok\<close> says whether the report passes the JSON schema that the module loads.
\<close>

section \<open>URLs and diagnostics\<close>

definition validate_base_url :: "string \<Rightarrow> bool" where
  "validate_base_url url = (prefix ''http://'' url \<or> prefix ''https://'' url)"

definition extract_diagnostics :: "pydict \<Rightarrow> pydict list" where
  "extract_diagnostics result = (case dget result ''diagnostics'' (PList []) of
       PList direct \<Rightarrow> dicts_of direct
     | _ \<Rightarrow> (case dget result ''artifacts'' (PDict []) of
         PDict artifacts \<Rightarrow> dicts_of (as_list (dget artifacts ''diagnostics'' (PList [])))
       | _ \<Rightarrow> []))"

text \<open>The text of an integer field, \<open>None\<close> when it is no integer.\<close>

definition int_field_str :: "pyval \<Rightarrow> string option" where
  "int_field_str v = (case v of PInt i \<Rightarrow> Some (int_str i) | PBool b \<Rightarrow> Some (py_str (PBool b)) | _ \<Rightarrow> None)"

definition diagnostic_summary :: "pydict \<Rightarrow> string" where
  "diagnostic_summary d =
     (let file_s = strip (gets d ''file'' []); code_s = strip (gets d ''code'' []);
          message = strip (gets d ''message'' []);
          location = (if file_s = [] then [] else
             case int_field_str (dget d ''line'' PNone) of
               None \<Rightarrow> file_s
             | Some l \<Rightarrow> (case int_field_str (dget d ''column'' PNone) of
                   None \<Rightarrow> file_s @ '':'' @ l | Some c \<Rightarrow> file_s @ '':'' @ l @ '':'' @ c));
          code_prefix = (if code_s \<noteq> [] then ''['' @ code_s @ ''] '' else [])
      in if location \<noteq> [] \<and> message \<noteq> [] then strip (location @ '' '' @ code_prefix @ message)
         else if message \<noteq> [] then strip (code_prefix @ message)
         else [])"

definition failure_fingerprint :: "pydict \<Rightarrow> pydict list \<Rightarrow> string" where
  "failure_fingerprint result diagnostics =
     (let direct = (case diagnostics of d # _ \<Rightarrow> strip (gets d ''fingerprint'' []) | [] \<Rightarrow> []) in
      if direct \<noteq> [] then direct
      else let artifacts = as_dict (dget result ''artifacts'' (PDict []));
               seed = join ''|''
                 [strip (gets result ''tool'' []), strip (gets artifacts ''error'' []),
                  (case diagnostics of d # _ \<Rightarrow> diagnostic_summary d | [] \<Rightarrow> []),
                  first_nonempty_line (gets result ''stderr'' [])]
           in take 16 (sha256_hex seed))"

section \<open>Classification of failures\<close>

definition test_failure_hints :: "string list" where
  "test_failure_hints = [''assert'', ''assertion'', ''test_'', ''tests/'', ''test failed'', ''expected'',
     ''got'', ''does not match'', ''mismatch'', ''expected value'', ''pytest'', ''unittest'', ''FAILED'',
     ''test suite'']"

definition arch_mismatch_hints :: "string list" where
  "arch_mismatch_hints = [''no such file'', ''cannot find module'', ''module not found'',
     ''unresolved import'', ''could not find'', ''cannot find file'', ''file not found'',
     ''path escapes root'', ''read denied'']"

text \<open>\<open>re.search(r"\bw\b", s)\<close> for a word \<open>w\<close>; \<open>prev\<close> says whether a word character comes before \<open>s\<close>.\<close>

fun word_search :: "string \<Rightarrow> bool \<Rightarrow> string \<Rightarrow> bool" where
  "word_search w prev [] = False"
| "word_search w prev (c # s) =
     (\<not> prev \<and> prefix w (c # s) \<and>
        (case drop (length w) (c # s) of [] \<Rightarrow> True | x # _ \<Rightarrow> \<not> re_word_char x)
      \<or> word_search w (re_word_char c) s)"

definition is_architecture_mismatch :: "string \<Rightarrow> pydict list \<Rightarrow> string \<Rightarrow> pydict \<Rightarrow> bool" where
  "is_architecture_mismatch tool diagnostics stderr artifacts =
     (let err_tag = lower (strip (gets artifacts ''error'' []));
          messages = map (\<lambda>d. lower (diagnostic_summary d)) diagnostics
                     @ (if stderr \<noteq> [] then [lower stderr] else []);
          joined = join [CHR 0x0A] messages
      in lower (strip tool) = ''read_file''
         \<or> err_tag \<in> {''read_denied'', ''path escapes root''}
         \<or> list_ex (\<lambda>d. lower (strip (gets d ''code'' [])) \<in> {''e0432'', ''e0583'', ''f821''}) diagnostics
         \<or> list_ex (\<lambda>hint. sublist hint joined) arch_mismatch_hints
         \<or> word_search ''missing'' False joined
            \<and> (word_search ''module'' False joined \<or> word_search ''file'' False joined))"

definition patch_was_applied :: "pydict list \<Rightarrow> bool" where
  "patch_was_applied tool_results =
     list_ex (\<lambda>r. lower (strip (gets r ''tool'' [])) \<in> {''apply_patch'', ''write_file''}
                  \<and> py_bool (dget r ''ok'' (PBool False))) tool_results"

definition is_test_failure_post_change ::
  "string \<Rightarrow> pydict list \<Rightarrow> string \<Rightarrow> string \<Rightarrow> pydict list \<Rightarrow> bool" where
  "is_test_failure_post_change tool diagnostics stderr stdout tool_results =
     (let tool_lower = lower (strip tool);
          by_name = (tool_lower \<in> {''run_tests'', ''pytest'', ''cargo_test'', ''test_runner''}
                     \<or> sublist ''test'' tool_lower);
          all_text = lower (join '' '' (map diagnostic_summary diagnostics @ [stderr, stdout]));
          is_test_tool = (by_name \<or> list_ex (\<lambda>hint. sublist hint all_text) test_failure_hints)
      in is_test_tool \<and> patch_was_applied tool_results)"

definition recovery_dict :: "string \<Rightarrow> string \<Rightarrow> string \<Rightarrow> string \<Rightarrow> string \<Rightarrow> string \<Rightarrow> pydict" where
  "recovery_dict fc fp rationale rt cs pa =
     [(''failure_class'', PStr fc), (''failure_fingerprint'', PStr fp), (''rationale'', PStr rationale),
      (''retry_target'', PStr rt), (''context_scope'', PStr cs), (''plan_action'', PStr pa)]"

definition classify_failed_result :: "pydict list \<Rightarrow> int \<Rightarrow> pydict \<Rightarrow> pydict \<times> string" where
  "classify_failed_result tool_results current_loop result =
     (let tool = gets result ''tool'' []; stderr = gets result ''stderr'' [];
          artifacts = as_dict (dget result ''artifacts'' (PDict []));
          diagnostics = extract_diagnostics result;
          fingerprint = failure_fingerprint result diagnostics;
          error_tag = lower (strip (gets artifacts ''error'' []))
      in if is_architecture_mismatch tool diagnostics stderr artifacts then
           (recovery_dict ''architecture_mismatch'' fingerprint
              ''tool failure indicates repository/context shape mismatch''
              ''context_builder'' ''full_reset'' ''discard_reset'', ''architecture_mismatch_detected'')
         else if error_tag = ''formal_verification_failed'' then
           (recovery_dict ''formal_verification_failed'' fingerprint
              ''Symbolic proof checker rejected the implementation. The logic must be mathematically verified.''
              ''planner'' ''working_set'' ''amend'', ''formal_verification_failed'')
         else if error_tag \<in> {''tool_call_budget_exceeded'', ''patch_size_budget_exceeded''} then
           (recovery_dict ''budget_exceeded'' fingerprint
              ''the bounded execution budget blocked the current plan''
              ''planner'' ''working_set'' ''amend'', error_tag)
         else if is_test_failure_post_change tool diagnostics stderr (gets result ''stdout'' []) tool_results then
           (recovery_dict ''test_failure_post_change'' fingerprint
              ''test failed after a patch was applied; coder should attempt a localized repair before broader replanning''
              ''coder'' ''working_set'' ''amend'', ''test_failure_post_change'')
         else if patch_was_applied tool_results then
           (recovery_dict ''localized_verification_failure'' fingerprint
              ''verification failed after a bounded patch; coder should attempt a localized repair before broader replanning''
              ''coder'' ''working_set'' ''amend'', ''localized_verification_failure'')
         else if 2 \<le> current_loop then
           (recovery_dict ''repeated_verification_failure'' fingerprint
              ''repeated failures require recovery routing before replanning''
              ''router'' ''working_set'' ''amend'', ''repeated_verification_failure'')
         else
           (recovery_dict ''verification_failed'' fingerprint
              ''verification found a failing tool result''
              ''planner'' ''working_set'' ''keep'', ''verification_failed''))"

definition result_failed :: "pydict \<Rightarrow> bool" where
  "result_failed r \<longleftrightarrow> \<not> py_bool (dget r ''ok'' (PBool False))"

definition classify_retry :: "pydict list \<Rightarrow> int \<Rightarrow> pydict \<times> string" where
  "classify_retry tool_results current_loop =
     (case find result_failed (rev tool_results) of
        Some result \<Rightarrow> classify_failed_result tool_results current_loop result
      | None \<Rightarrow>
          (recovery_dict ''verification_failed'' ''verification_failed''
             ''verification reported a failure without a detailed tool result''
             ''planner'' ''working_set'' ''keep'', ''verification_failed''))"

definition recovery_action_payload :: "pydict \<Rightarrow> RecoveryAction result" where
  "recovery_action_payload recovery =
     mk_recovery_action (strip (gets recovery ''failure_class'' []))
       (strip (gets recovery ''failure_fingerprint'' [])) (strip (gets recovery ''rationale'' []))
       (or_str (strip (gets recovery ''retry_target'' ''planner'')) ''planner'')
       (or_str (strip (gets recovery ''context_scope'' ''working_set'')) ''working_set'')
       (or_str (strip (gets recovery ''plan_action'' ''keep'')) ''keep'')"

definition recovery_packet_payload ::
  "RecoveryAction \<Rightarrow> int \<Rightarrow> string \<Rightarrow> string \<Rightarrow> string \<Rightarrow> RecoveryPacket result" where
  "recovery_packet_payload recovery current_loop loop_summary last_check discard_reason =
     bind_r (recovery_action_payload (dump_recovery_action recovery)) (\<lambda>a.
       Inr (RecoveryAction.extend a
              \<lparr> rp_loop = max current_loop 0, rp_origin = ''verifier'', rp_summary = loop_summary,
                rp_last_check = last_check, rp_discard_reason = discard_reason \<rparr>))"


section \<open>Verification runs\<close>

type_synonym tool_runner = "RunnerClient \<Rightarrow> pydict list \<Rightarrow> pydict list result"

text \<open>The client that the nodes build from the state.\<close>

definition opt_stripped :: "pyval \<Rightarrow> string option" where
  "opt_stripped v = (if v = PNone then None else Some (strip (py_str v)))"

definition state_client :: "pydict \<Rightarrow> RunnerClient" where
  "state_client state =
     \<lparr> rc_base_url = gets state ''_runner_base_url'' ''http://127.0.0.1:8088'',
       rc_api_key = opt_stripped (dget state ''_runner_api_key'' PNone),
       rc_request_id = opt_stripped (dget state ''_request_id'' PNone) \<rparr>"

text \<open>\<open>path.endswith(extensions)\<close> for a tuple: an element that is no string raises when it is reached.\<close>

fun endswith_any :: "string \<Rightarrow> pyval list \<Rightarrow> bool result" where
  "endswith_any path [] = Inr False"
| "endswith_any path (PStr e # es) = (if suffix e path then Inr True else endswith_any path es)"
| "endswith_any path (v # es) =
     Inl (TypeError (''tuple for endswith must only contain str, not '' @ type_name v))"

fun add_changed_paths :: "pyval list \<Rightarrow> pyval list \<Rightarrow> string list \<Rightarrow> string list result" where
  "add_changed_paths exts [] files = Inr files"
| "add_changed_paths exts (PDict change # cs) files =
     (let path = gets change ''path'' [] in
      bind_r (endswith_any path exts) (\<lambda>hit.
        add_changed_paths exts cs (if hit \<and> path \<notin> set files then files @ [path] else files)))"
| "add_changed_paths exts (_ # cs) files = add_changed_paths exts cs files"

fun formal_files :: "pyval list \<Rightarrow> pydict list \<Rightarrow> string list \<Rightarrow> string list result" where
  "formal_files exts [] files = Inr files"
| "formal_files exts (r # rs) files =
     (if gets r ''tool'' [] = ''apply_patch'' \<and> py_bool (dget r ''ok'' PNone)
      then (case dget r ''input'' (PDict []) of
              PDict input \<Rightarrow>
                bind_r (py_iter (dget input ''changes'' (PList []))) (\<lambda>changes.
                bind_r (add_changed_paths exts changes files) (\<lambda>files'. formal_files exts rs files'))
            | _ \<Rightarrow> formal_files exts rs files)
      else formal_files exts rs files)"

definition requires_formal_verification :: "pydict \<Rightarrow> pydict list \<Rightarrow> string list result" where
  "requires_formal_verification state tool_results =
     (if \<not> py_bool (dget state ''_vericoding_enabled'' (PBool False)) then Inr []
      else bind_r (py_iter (dget state ''_vericoding_extensions'' (PList [PStr ''.rs'']))) (\<lambda>exts.
             formal_files exts tool_results []))"

definition formal_result :: "pyval \<Rightarrow> pyval \<Rightarrow> string \<Rightarrow> pyval \<Rightarrow> pydict \<Rightarrow> pydict \<Rightarrow> pydict" where
  "formal_result exit_code stdout stderr diagnostics artifacts route =
     [(''tool'', PStr ''formal_verification''), (''ok'', PBool False), (''exit_code'', exit_code),
      (''stdout'', stdout), (''stderr'', PStr stderr), (''diagnostics'', diagnostics),
      (''artifacts'', PDict artifacts), (''route'', PDict route)]"

definition formal_call :: "pydict \<Rightarrow> pydict" where
  "formal_call route =
     [(''tool'', PStr ''exec''),
      (''input'', PDict [(''cmd'', PStr ''cargo''),
         (''args'', str_list [''test'', ''--all'', ''--features'', ''verify'']),
         (''timeout_s'', PInt 120), (''_route'', PDict route)])]"

definition run_formal_verification ::
  "tool_runner \<Rightarrow> pydict \<Rightarrow> string list \<Rightarrow> pydict \<Rightarrow> pydict option" where
  "run_formal_verification runner state files route =
     (if files = [] then None
      else if \<not> validate_base_url (rc_base_url (state_client state)) then
        Some (formal_result (PInt 1) (PStr []) ''invalid runner base url for formal verification''
                (PList []) [(''error'', PStr ''invalid_base_url'')] route)
      else (case runner (state_client state) [formal_call route] of
          Inl e \<Rightarrow> Some (formal_result (PInt 1) (PStr [])
                     (''Failed to execute formal verification: '' @ exn_str e) (PList [])
                     [(''error'', PStr ''formal_verification_execution_error'')] route)
        | Inr [] \<Rightarrow> None
        | Inr (r # _) \<Rightarrow>
            if py_bool (dget r ''ok'' PNone) then None
            else Some (formal_result (dget r ''exit_code'' (PInt 1)) (dget r ''stdout'' (PStr []))
                   (''Formal Verification Failed:'' @ [CHR 0x0A] @ gets r ''stderr'' [])
                   (dget r ''diagnostics'' (PList []))
                   [(''error'', PStr ''formal_verification_failed''), (''files'', str_list files)] route)))"

definition verification_batch_failure :: "string \<Rightarrow> string \<Rightarrow> pydict \<Rightarrow> pydict" where
  "verification_batch_failure stderr err route =
     [(''tool'', PStr ''verification_batch''), (''ok'', PBool False), (''exit_code'', PInt 1),
      (''stdout'', PStr []), (''stderr'', PStr stderr), (''diagnostics'', PList []),
      (''timing_ms'', PInt 0), (''artifacts'', PDict [(''error'', PStr err)]), (''route'', PDict route)]"

text \<open>\<open>int(x or 0)\<close>.\<close>

definition int_or_zero :: "pyval \<Rightarrow> int result" where
  "int_or_zero v = py_int (or_val v (PInt 0))"

definition verification_call :: "pydict \<Rightarrow> pydict \<Rightarrow> pydict \<Rightarrow> pydict result" where
  "verification_call route checkpoint c =
     bind_r (py_dict (dget c ''input'' (PDict []))) (\<lambda>input.
       let i1 = dset input ''_route'' (PDict route);
           i2 = (if checkpoint \<noteq> [] then dset i1 ''_checkpoint'' (PDict checkpoint) else i1)
       in Inr [(''tool'', PStr (gets c ''tool'' [])), (''input'', PDict i2)])"

definition run_verification_calls ::
  "tool_runner \<Rightarrow> pydict \<Rightarrow> pydict list \<Rightarrow> (pydict list \<times> pydict) result" where
  "run_verification_calls runner state tool_results =
     (let budgets = as_dict (dget state ''budgets'' (PDict []));
          route = tool_routing_metadata state ''verifier'' in
      if \<not> py_bool (dget state ''_runner_enabled'' (PBool True)) then Inr (tool_results, budgets)
      else
        bind_r (py_iter (dget (as_dict (dget state ''plan'' (PDict []))) ''verification'' (PList []))) (\<lambda>raw.
        let calls0 = dicts_of raw in
        if calls0 = [] then Inr (tool_results, budgets)
        else if \<not> validate_base_url (rc_base_url (state_client state)) then
          Inr (tool_results @ [verification_batch_failure ''invalid runner base url'' ''invalid_base_url'' route],
               budgets)
        else
          bind_r (int_or_zero (dget state ''_budget_max_tool_calls_per_loop'' (PInt 0))) (\<lambda>limit.
          bind_r (int_or_zero (dget budgets ''tool_calls_used'' (PInt 0))) (\<lambda>used.
          if 0 < limit \<and> limit < used + int (length calls0) then
            Inr (tool_results @ [verification_batch_failure
                   (''tool-call budget exceeded during verification: used='' @ int_str used @ '' planned=''
                    @ nat_str (length calls0) @ '' limit='' @ int_str limit)
                   ''tool_call_budget_exceeded'' route], budgets)
          else
            bind_r (map_r (verification_call route (as_dict (dget state ''_checkpoint'' (PDict [])))) calls0) (\<lambda>calls.
            bind_r (runner (state_client state) calls) (\<lambda>batch_results.
              Inr (tool_results @ batch_results,
                   dset budgets ''tool_calls_used'' (PInt (used + int (length calls)))))))))) "

section \<open>Checks, acceptance and reports\<close>

definition failure_check :: "nat \<Rightarrow> pydict \<Rightarrow> VerificationCheck" where
  "failure_check idx result =
     (let diagnostics = extract_diagnostics result;
          s0 = (case diagnostics of d # _ \<Rightarrow> diagnostic_summary d | [] \<Rightarrow> [])
      in \<lparr> vc_name = ''tool_failure_'' @ nat_str (idx + 1), vc_ok = False,
           vc_tool = gets result ''tool'' ''unknown'',
           vc_exit_code = int_default (dget result ''exit_code'' (PInt 1)) 1,
           vc_summary = (if s0 = [] then first_nonempty_line (gets result ''stderr'' []) else s0) \<rparr>)"

definition build_checks :: "pydict list \<Rightarrow> VerificationCheck list" where
  "build_checks tool_results =
     map (\<lambda>(i, r). failure_check i r) (filter (\<lambda>(i, r). result_failed r) (enumerate 0 tool_results))"

definition glean_event_check :: "pyval \<Rightarrow> VerificationCheck list result" where
  "glean_event_check evt = (case evt of
       PDict e \<Rightarrow>
         if dget e ''kind'' PNone = PStr ''glean'' then
           (case dget e ''data'' (PDict []) of
              PDict glean_data \<Rightarrow>
                bind_r (int_or_zero (dget glean_data ''blocking_violations'' (PInt 0))) (\<lambda>n.
                  Inr (if 0 < n then
                    [\<lparr> vc_name = ''glean_blocking_violations'', vc_ok = False, vc_tool = ''glean_audit'',
                       vc_exit_code = 1,
                       vc_summary = ''GLEAN audit found '' @ int_str n @ '' blocking violation(s)'' \<rparr>]
                    else []))
            | _ \<Rightarrow> Inr [])
         else Inr []
     | _ \<Rightarrow> Inr [])"

definition glean_checks :: "pydict \<Rightarrow> VerificationCheck list result" where
  "glean_checks state =
     bind_r (map_r glean_event_check (as_list (dget state ''_trace_events'' (PList [])))) (\<lambda>cs. Inr (concat cs))"

definition has_repo_context :: "pydict \<Rightarrow> bool" where
  "has_repo_context repo_context =
     (py_bool (dget repo_context ''repo_map'' PNone)
      \<or> as_list (dget repo_context ''top_level'' (PList [])) \<noteq> []
      \<or> py_bool (dget repo_context ''structural_ast_map'' PNone)
      \<or> py_bool (dget repo_context ''semantic_hits'' PNone))"

definition acceptance_check :: "bool \<Rightarrow> bool \<Rightarrow> bool \<Rightarrow> bool \<Rightarrow> string \<Rightarrow> pydict" where
  "acceptance_check has_ctx has_steps some_ok passed criterion =
     (let l = lower criterion;
          (ok, detail) =
            (if sublist ''context'' l then
               (has_ctx, if has_ctx then ''repo_context_available'' else ''repo_context_missing'')
             else if sublist ''bounded'' l \<or> sublist ''next step'' l then
               (has_steps, if has_steps then ''bounded_plan_available'' else ''bounded_plan_missing'')
             else if sublist ''request'' l \<or> sublist ''answered'' l \<or> sublist ''executed'' l then
               (let ok = passed \<and> (some_ok \<or> has_steps)
                in (ok, if ok then ''request_path_available'' else ''request_path_incomplete''))
             else (passed, if passed then ''verification_passed'' else ''verification_failed''))
      in [(''criterion'', PStr criterion), (''ok'', PBool ok), (''detail'', PStr detail)])"

text \<open>Iterating over a plan's criteria that are null or a number raises.\<close>

definition evaluate_acceptance_checks ::
  "pydict \<Rightarrow> pydict list \<Rightarrow> VerificationCheck list \<Rightarrow> pydict list result" where
  "evaluate_acceptance_checks state tool_results checks =
     (let plan = as_dict (dget state ''plan'' (PDict [])) in
      bind_r (py_iter (dget plan ''acceptance_criteria'' (PList []))) (\<lambda>raw.
        let criteria = filter (\<lambda>c. c \<noteq> []) (strip_strs raw) in
        Inr (map (acceptance_check
                    (has_repo_context (as_dict (dget state ''repo_context'' (PDict []))))
                    (as_list (dget plan ''steps'' (PList [])) \<noteq> [])
                    (list_ex (\<lambda>r. \<not> result_failed r) tool_results) (checks = [])) criteria)))"

definition acceptance_failure :: "pydict list \<Rightarrow> pydict \<times> string \<times> string" where
  "acceptance_failure acceptance_checks =
     (let unmet = filter result_failed acceptance_checks in
      case unmet of
        [] \<Rightarrow> ([], [], [])
      | u # _ \<Rightarrow>
          (recovery_dict ''acceptance_criteria_unmet''
             (take 16 (sha256_hex (join ''|'' (map (\<lambda>e. strip (gets e ''criterion'' [])) unmet))))
             ''verification passed but acceptance criteria are not yet satisfied''
             ''planner'' ''working_set'' ''amend'',
           ''acceptance_criteria_unmet'',
           or_str (strip (gets u ''criterion'' ''acceptance criteria unmet'')) ''acceptance criteria unmet''))"


text \<open>The stripped non-empty texts of a list value.\<close>

definition stripped_items :: "pyval \<Rightarrow> string list" where
  "stripped_items v = filter (\<lambda>s. s \<noteq> []) (map (\<lambda>x. strip (py_str x)) (as_list v))"

definition handoff_scope :: "pydict \<Rightarrow> string list" where
  "handoff_scope state =
     (let active = as_dict (dget state ''active_handoff'' (PDict []));
          steps = dicts_of (as_list (dget (as_dict (dget state ''plan'' (PDict []))) ''steps'' (PList [])))
      in stripped_items (dget active ''file_scope'' (PList []))
         @ concat (map (\<lambda>step. stripped_items (dget step ''files_touched'' (PList []))) steps))"

definition dedup_first :: "string list \<Rightarrow> string list" where
  "dedup_first xs = fold (\<lambda>x acc. if x \<in> set acc then acc else acc @ [x]) xs []"

definition handoff_evidence :: "pydict \<Rightarrow> string \<Rightarrow> string \<Rightarrow> HandoffEvidence list" where
  "handoff_evidence state failure_class summary =
     (let request = strip (gets state ''request'' []);
          active = as_dict (dget state ''active_handoff'' (PDict []));
          prior = strip (gets active ''objective'' [])
      in (if request \<noteq> [] then [\<lparr> ev_kind = ''request'', ev_detail = request, ev_ref = ''user_request'' \<rparr>] else [])
         @ (if summary \<noteq> [] then [\<lparr> ev_kind = ''verification'', ev_detail = summary,
                                     ev_ref = or_str failure_class ''verification_failed'' \<rparr>] else [])
         @ (if prior \<noteq> [] then [\<lparr> ev_kind = ''prior_handoff'', ev_detail = prior,
                                   ev_ref = gets active ''consumer'' [] \<rparr>] else []))"

text \<open>Objective, constraints and acceptance checks for each consumer.\<close>

definition handoff_brief :: "string \<Rightarrow> string \<times> string list \<times> string list" where
  "handoff_brief consumer =
     (if consumer = ''coder'' then
        (''Prepare a localized repair using the current plan and the latest verifier evidence.'',
         [''Stay within the current file scope unless evidence proves a broader change is required.'',
          ''Prefer amending the existing bounded plan over broad replanning.''],
         [''The localized failure is addressed without broadening scope unnecessarily.''])
      else if consumer = ''context_builder'' then
        (''Rebuild repository context before the next bounded planning iteration.'',
         [''Discard stale working-set assumptions before replanning.''],
         [''The next context snapshot resolves the detected architecture mismatch.''])
      else if consumer = ''router'' then
        (''Re-route the task after repeated verification failures.'',
         [''Choose a stronger recovery topology before executing again.''],
         [''The next route accounts for repeated failure evidence.''])
      else
        (''Replan the next bounded iteration using the latest verifier evidence.'',
         [''Prefer a bounded next step.''], [''The next action addresses the verifier evidence.'']))"

definition next_handoff_payload ::
  "pydict \<Rightarrow> pydict \<Rightarrow> VerificationCheck list \<Rightarrow> int \<Rightarrow> AgentHandoff option" where
  "next_handoff_payload state report checks current_loop =
     (let consumer = strip (gets report ''retry_target'' []);
          failure_class = strip (gets report ''failure_class'' []);
          s0 = strip (gets report ''loop_summary'' []);
          summary = (case checks of c # _ \<Rightarrow> if s0 = [] then strip (vc_summary c) else s0 | [] \<Rightarrow> s0);
          (objective, constraints, acceptance) = handoff_brief consumer
      in if consumer \<notin> set retry_targets then None
         else Some \<lparr> ah_producer = ''verifier'', ah_consumer = consumer, ah_objective = objective,
                ah_file_scope = dedup_first (handoff_scope state),
                ah_evidence = handoff_evidence state failure_class summary,
                ah_constraints = constraints, ah_acceptance_checks = acceptance, ah_retry_budget = 1,
                ah_provenance = [''verifier:loop:'' @ int_str current_loop,
                                 ''failure_class:'' @ or_str failure_class ''verification_failed''] \<rparr>)"

definition loop_summary_entry :: "pydict \<Rightarrow> int \<Rightarrow> string list \<Rightarrow> pydict list \<Rightarrow> pydict" where
  "loop_summary_entry report current_loop criteria checks =
     (let recovery_packet = as_dict (dget report ''recovery_packet'' (PDict []));
          unmet = map (\<lambda>e. strip (gets e ''criterion'' [])) (filter result_failed checks)
      in [(''loop'', PInt current_loop), (''failure_class'', dget report ''failure_class'' (PStr [])),
          (''failure_fingerprint'', dget report ''failure_fingerprint'' (PStr [])),
          (''retry_target'', dget report ''retry_target'' PNone),
          (''plan_action'', dget report ''plan_action'' (PStr ''keep'')),
          (''context_scope'', dget recovery_packet ''context_scope'' (PStr [])),
          (''summary'', dget report ''loop_summary'' (PStr [])),
          (''last_check'', dget recovery_packet ''last_check'' (PStr [])),
          (''discard_reason'', dget recovery_packet ''discard_reason'' (PStr [])),
          (''recovery'', dget report ''recovery'' PNone),
          (''recovery_packet'', if recovery_packet = [] then PNone else PDict recovery_packet),
          (''acceptance_criteria'', str_list criteria), (''acceptance_unmet'', str_list unmet),
          (''acceptance_ok'', dget report ''acceptance_ok'' (PBool False))])"

section \<open>Recovery facts\<close>

definition next_fact :: "pydict \<Rightarrow> int \<Rightarrow> pydict" where
  "next_fact report current_loop =
     (let recovery_packet = as_dict (dget report ''recovery_packet'' (PDict []));
          plan_action = or_str (strip (gets report ''plan_action'' ''keep'')) ''keep'';
          salience = (if plan_action = ''discard_reset'' then 10
                      else if strip (gets report ''retry_target'' []) = ''router'' then 8 else 6)
      in [(''kind'', PStr ''recovery_fact''), (''loop'', PInt current_loop),
          (''failure_class'', PStr (strip (gets report ''failure_class'' []))),
          (''failure_fingerprint'', PStr (strip (gets report ''failure_fingerprint'' []))),
          (''summary'', PStr (strip (gets report ''loop_summary'' []))),
          (''last_check'', PStr (strip (gets recovery_packet ''last_check'' []))),
          (''context_scope'', PStr (strip (gets recovery_packet ''context_scope'' []))),
          (''retry_target'', dget report ''retry_target'' PNone),
          (''plan_action'', PStr plan_action), (''salience'', PInt salience)])"

definition fact_fingerprint :: "pydict \<Rightarrow> string" where
  "fact_fingerprint e = strip (gets e ''failure_fingerprint'' [])"

definition fact_rank :: "pydict \<Rightarrow> (int \<times> int) result" where
  "fact_rank e = bind_r (int_or_zero (dget e ''salience'' (PInt 0))) (\<lambda>s.
                 bind_r (int_or_zero (dget e ''loop'' (PInt 0))) (\<lambda>l. Inr (s, l)))"

text \<open>
  \<open>sort(key, reverse=True)\<close> computes the keys once, raising if one cannot be computed, and is stable:
  entries of equal keys keep their order.
\<close>

definition sort_desc_by :: "('a \<Rightarrow> (int \<times> int) result) \<Rightarrow> 'a list \<Rightarrow> 'a list result" where
  "sort_desc_by key xs =
     bind_r (map_r key xs) (\<lambda>ks.
       Inr (map snd (sort_key (\<lambda>((s, l), _). (- s, - l)) (zip ks xs))))"

definition updated_recovery_facts :: "pydict \<Rightarrow> pydict \<Rightarrow> int \<Rightarrow> pydict list result" where
  "updated_recovery_facts state report current_loop =
     (let facts = dicts_of (as_list (dget state ''facts'' (PList []))) in
      if as_dict (dget report ''recovery_packet'' (PDict [])) = [] then Inr facts
      else
        let nf = next_fact report current_loop;
            updated = filter (\<lambda>e. fact_fingerprint e \<noteq> fact_fingerprint nf) facts @ [nf]
        in bind_r (sort_desc_by fact_rank updated) (\<lambda>sorted. Inr (take 12 sorted)))"

definition diagnostics_entry :: "int \<Rightarrow> pydict \<Rightarrow> pydict \<Rightarrow> pydict" where
  "diagnostics_entry current_loop report result =
     (let diagnostics = extract_diagnostics result;
          artifacts = as_dict (dget result ''artifacts'' (PDict []));
          s0 = (case diagnostics of d # _ \<Rightarrow> diagnostic_summary d | [] \<Rightarrow> [])
      in [(''loop'', PInt current_loop), (''tool'', PStr (strip (gets result ''tool'' []))),
          (''failure_class'', PStr (strip (gets report ''failure_class'' []))),
          (''failure_fingerprint'', PStr (failure_fingerprint result diagnostics)),
          (''error'', PStr (strip (gets artifacts ''error'' []))),
          (''summary'', PStr (if s0 = [] then first_nonempty_line (gets result ''stderr'' []) else s0)),
          (''diagnostic_count'', PInt (int (length diagnostics)))])"

definition diagnostics_telemetry_entries :: "pydict list \<Rightarrow> int \<Rightarrow> pydict \<Rightarrow> pydict list" where
  "diagnostics_telemetry_entries tool_results current_loop report =
     map (diagnostics_entry current_loop report) (filter result_failed tool_results)"

section \<open>The verifier node\<close>

text \<open>The tool results after the verification batch and the formal check, with the new budgets.\<close>

definition verifier_results :: "tool_runner \<Rightarrow> pydict \<Rightarrow> pydict list \<Rightarrow> (pydict list \<times> pydict) result" where
  "verifier_results runner state tool_results0 =
     (let route = tool_routing_metadata state ''verifier'';
          (tool_results, budgets) =
            (case run_verification_calls runner state tool_results0 of
               Inr rb \<Rightarrow> rb
             | Inl exc \<Rightarrow> (tool_results0 @ [verification_batch_failure (exn_str exc)
                                             ''verifier_execution_failed'' route],
                           as_dict (dget state ''budgets'' (PDict []))))
      in bind_r (requires_formal_verification state tool_results) (\<lambda>files.
           Inr (if files \<noteq> [] \<and> py_bool (dget state ''_runner_enabled'' (PBool True))
                then (case run_formal_verification runner state files route of
                        Some failure \<Rightarrow> (tool_results @ [failure], budgets)
                      | None \<Rightarrow> (tool_results, budgets))
                else (tool_results, budgets))))"

definition failing_report ::
  "pydict \<Rightarrow> VerificationCheck list \<Rightarrow> pydict list \<Rightarrow> int \<Rightarrow> pydict \<Rightarrow> string \<Rightarrow> string \<Rightarrow> VerifierReport result" where
  "failing_report state checks acceptance_checks current_loop recovery discard_reason last_check =
     bind_r (recovery_action_payload recovery) (\<lambda>action.
       let loop_summary = ra_failure_class action @ '': '' @ last_check in
       bind_r (recovery_packet_payload action current_loop loop_summary last_check discard_reason) (\<lambda>packet.
         Inr \<lparr> vr_ok = False, vr_checks = checks, vr_acceptance_ok = False,
               vr_acceptance_checks = acceptance_checks, vr_retry_target = Some (ra_retry_target action),
               vr_plan_action = ra_plan_action action, vr_failure_class = ra_failure_class action,
               vr_failure_fingerprint = ra_failure_fingerprint action, vr_recovery = Some action,
               vr_recovery_packet = Some packet,
               vr_next_handoff = next_handoff_payload state
                  [(''retry_target'', PStr (ra_retry_target action)),
                   (''failure_class'', PStr (ra_failure_class action)),
                   (''loop_summary'', PStr loop_summary)] checks current_loop,
               vr_loop_summary = loop_summary \<rparr>))"

definition passing_report :: "pydict list \<Rightarrow> VerifierReport" where
  "passing_report acceptance_checks =
     \<lparr> vr_ok = True, vr_checks = [], vr_acceptance_ok = True, vr_acceptance_checks = acceptance_checks,
       vr_retry_target = None, vr_plan_action = ''keep'', vr_failure_class = [],
       vr_failure_fingerprint = [], vr_recovery = None, vr_recovery_packet = None,
       vr_next_handoff = None, vr_loop_summary = ''verification_passed'' \<rparr>"

definition fallback_report :: "string \<Rightarrow> string \<Rightarrow> pydict" where
  "fallback_report failure loop_summary =
     [(''ok'', PBool False), (''checks'', PList []), (''acceptance_ok'', PBool False),
      (''acceptance_checks'', PList []), (''retry_target'', PStr ''planner''),
      (''plan_action'', PStr ''keep''), (''failure_class'', PStr failure),
      (''failure_fingerprint'', PStr failure), (''recovery'', PNone), (''recovery_packet'', PNone),
      (''next_handoff'', PNone), (''loop_summary'', PStr loop_summary)]"

text \<open>
  The body of the \<open>try\<close> block: the report and the reason to discard the plan. A reason left behind by
  a classification that raised is never read, because the fallback report keeps the plan.
\<close>

definition classify_report ::
  "pydict \<Rightarrow> pydict list \<Rightarrow> VerificationCheck list \<Rightarrow> int \<Rightarrow> (VerifierReport \<times> string) result" where
  "classify_report state tool_results checks current_loop =
     bind_r (evaluate_acceptance_checks state tool_results checks) (\<lambda>acceptance_checks.
       case checks of
         c # _ \<Rightarrow>
           (let (recovery, reason) = classify_retry tool_results current_loop in
            bind_r (failing_report state checks acceptance_checks current_loop recovery reason (vc_summary c))
              (\<lambda>r. Inr (r, reason)))
       | [] \<Rightarrow>
           if list_ex result_failed acceptance_checks then
             (let (recovery, reason, last_check) = acceptance_failure acceptance_checks in
              bind_r (failing_report state [] acceptance_checks current_loop recovery reason last_check)
                (\<lambda>r. Inr (r, reason)))
           else Inr (passing_report acceptance_checks, []))"

definition strip_null_refs :: "pydict \<Rightarrow> pydict" where
  "strip_null_refs report =
     filter (\<lambda>(k, v). \<not> (k \<in> {''recovery'', ''recovery_packet'', ''next_handoff''} \<and> v = PNone)) report"

definition verifier_report ::
  "(pydict \<Rightarrow> bool) \<Rightarrow> pydict \<Rightarrow> pydict list \<Rightarrow> VerificationCheck list \<Rightarrow> int \<Rightarrow> pydict \<times> string" where
  "verifier_report schema_ok state tool_results checks current_loop =
     (let (report, reason) =
            (case classify_report state tool_results checks current_loop of
               Inr (r, reason) \<Rightarrow> (dump_report r, reason)
             | Inl exc \<Rightarrow> (fallback_report ''verifier_failure'' ''verifier failed to classify results'', []))
      in if schema_ok (strip_null_refs report) then (report, reason)
         else (fallback_report ''schema_validation_failed'' ''schema_validation_failed'', reason))"

text \<open>What a failing report changes in the summaries, the facts and the telemetry.\<close>

definition failure_updates ::
  "pydict \<Rightarrow> pydict list \<Rightarrow> pydict \<Rightarrow> int \<Rightarrow> (pyval list \<times> pyval \<times> pyval) result" where
  "failure_updates state tool_results report current_loop =
     (let criteria = stripped_items (dget (as_dict (dget state ''plan'' (PDict []))) ''acceptance_criteria'' (PList []));
          acceptance_checks = dicts_of (as_list (dget report ''acceptance_checks'' (PList [])));
          summaries = as_list (dget state ''loop_summaries'' (PList []))
            @ [PDict (loop_summary_entry report current_loop criteria acceptance_checks)];
          telemetry = as_dict (dget state ''telemetry'' (PDict []));
          diagnostics = as_list (dget telemetry ''diagnostics'' (PList []))
            @ map PDict (diagnostics_telemetry_entries tool_results current_loop report)
      in bind_r (updated_recovery_facts state report current_loop) (\<lambda>facts.
         bind_r (get_compression_summary state) (\<lambda>summary.
           Inr (py_tail 5 summaries, dict_list facts,
                PDict (dset (dset telemetry ''diagnostics'' (PList (py_tail 20 diagnostics)))
                         ''compression_summary'' (PDict summary))))))"

definition plan_flags :: "pydict \<Rightarrow> string \<Rightarrow> pydict \<Rightarrow> pydict" where
  "plan_flags report discard_reason out =
     (if py_bool (dget report ''ok'' (PBool False)) then
        dset (dset (dset (dset (dset out ''active_handoff'' PNone) ''recovery_packet'' PNone)
          ''context_reset_requested'' (PBool False)) ''plan_discarded'' (PBool False))
          ''plan_discard_reason'' (PStr [])
      else if dget report ''plan_action'' PNone = PStr ''discard_reset'' then
        dset (dset (dset (dset out ''plan'' PNone) ''context_reset_requested'' (PBool True))
          ''plan_discarded'' (PBool True))
          ''plan_discard_reason'' (PStr (or_str discard_reason ''architecture_mismatch_detected''))
      else out)"

definition verifier_out ::
  "pydict \<Rightarrow> pydict list \<Rightarrow> pydict \<Rightarrow> pydict \<Rightarrow> string \<Rightarrow> pyval list \<Rightarrow> pyval \<Rightarrow> pyval \<Rightarrow> pydict" where
  "verifier_out state tool_results budgets report discard_reason summaries facts telemetry =
     plan_flags report discard_reason
      (dmerge state
        [(''tool_results'', dict_list tool_results), (''verification'', PDict report),
         (''budgets'', PDict budgets), (''active_handoff'', dget report ''next_handoff'' PNone),
         (''retry_target'', dget report ''retry_target'' PNone), (''facts'', facts),
         (''recovery_packet'', case dget report ''recovery_packet'' (PDict []) of PDict d \<Rightarrow> PDict d | _ \<Rightarrow> PNone),
         (''loop_summaries'', PList summaries), (''telemetry'', telemetry)])"

definition verifier_finish ::
  "(pydict \<Rightarrow> bool) \<Rightarrow> clock \<Rightarrow> pydict \<Rightarrow> pydict list \<Rightarrow> pydict \<Rightarrow> VerificationCheck list \<Rightarrow> int
     \<Rightarrow> pydict result" where
  "verifier_finish schema_ok now state tool_results budgets checks current_loop =
     (let rr = verifier_report schema_ok state tool_results checks current_loop;
          report = fst rr; reason = snd rr;
          ok = py_bool (dget report ''ok'' (PBool False))
      in bind_r (if ok then Inr (as_list (dget state ''loop_summaries'' (PList [])),
                                 dget state ''facts'' (PList []), dget state ''telemetry'' (PDict []))
                 else failure_updates state tool_results report current_loop)
           (\<lambda>(summaries, facts, telemetry).
             append_event now
               (verifier_out state tool_results budgets report reason summaries facts telemetry)
               ''node''
               [(''name'', PStr ''verifier''), (''phase'', PStr ''end''), (''ok'', PBool ok),
                (''failure_class'', dget report ''failure_class'' (PStr []))]))"

definition verifier_body ::
  "tool_runner \<Rightarrow> (pydict \<Rightarrow> bool) \<Rightarrow> clock \<Rightarrow> pydict \<Rightarrow> pydict result" where
  "verifier_body runner schema_ok now state =
     bind_r (verifier_results runner state (dicts_of (as_list (dget state ''tool_results'' (PList []))))) (\<lambda>rb.
     bind_r (glean_checks state) (\<lambda>gchecks.
     bind_r (int_or_zero (dget (as_dict (dget state ''budgets'' (PDict []))) ''current_loop'' (PInt 0))) (\<lambda>current_loop.
       verifier_finish schema_ok now state (fst rb) (snd rb) (build_checks (fst rb) @ gchecks) current_loop)))"

definition verifier :: "tool_runner \<Rightarrow> (pydict \<Rightarrow> bool) \<Rightarrow> clock \<Rightarrow> pydict \<Rightarrow> pydict result" where
  "verifier runner schema_ok now state0 =
     bind_r (record_model_route (ensure_history_policy state0) ''verifier'' ''lint_reflection'' ''router'') (\<lambda>state1.
     bind_r (node_event now state1 ''verifier'' ''start'') (\<lambda>state.
     bind_r (verifier_body runner schema_ok now state) (\<lambda>out.
       Inr (prune_post_verification_history out))))"

end
