(* ===== verification/Executor_Node.thy ===== *)
theory Executor_Node
  imports Glean Approvals Verifier_Node
begin

text \<open>
  \<open>nodes/executor.py\<close>: the steps of the plan are executed one after the other, each as one batch of
  calls. Before a call joins the batch it passes the guards: approval of mutations, the write
  allowlist, the patch size and the GLEAN guidelines; before a batch is built the tool-call budget is
  checked. The runner is an argument indexed by the number of trace events at the time of the call, so
  that the same batch may be answered differently at different times; \<open>gen_token\<close> is the token generator
  of the process (\<open>approval_token_for_challenge\<close> with its secret, time and nonce).

  The record \<open>exec_state\<close> holds the variables of the loop over the steps; its field \<open>es_sent\<close> lists the
  batches handed to the client, which the safety properties speak about.
\<close>

section \<open>Helpers\<close>

definition exec_as_int :: "pyval \<Rightarrow> int \<Rightarrow> int" where
  "exec_as_int v d = (case v of
       PInt i \<Rightarrow> i
     | PStr s \<Rightarrow> (case py_int (PStr (strip s)) of Inr i \<Rightarrow> i | Inl _ \<Rightarrow> d)
     | _ \<Rightarrow> d)"

definition str_bytes :: "pyval \<Rightarrow> nat" where
  "str_bytes v = (case v of PStr s \<Rightarrow> utf8_len s | _ \<Rightarrow> 0)"

definition changes_bytes :: "pyval list \<Rightarrow> nat" where
  "changes_bytes changes =
     sum_list (map (\<lambda>c. str_bytes (dget c ''content'' PNone) + str_bytes (dget c ''patch'' PNone)) (dicts_of changes))"

definition estimate_patch_bytes :: "pydict \<Rightarrow> nat" where
  "estimate_patch_bytes input =
     (case dget input ''patch'' PNone of
        PStr p \<Rightarrow> utf8_len p
      | _ \<Rightarrow>
          let total = changes_bytes (as_list (dget input ''changes'' (PList [])))
          in if 0 < total then total else utf8_len (json_dumps False '', '' '': '' (PDict input)))"

definition budget_failure_result :: "string \<Rightarrow> string \<Rightarrow> string \<Rightarrow> pydict \<Rightarrow> pydict \<Rightarrow> pydict" where
  "budget_failure_result tool message error_tag route extra =
     [(''tool'', PStr tool), (''ok'', PBool False), (''exit_code'', PInt 1), (''stdout'', PStr []),
      (''stderr'', PStr message), (''diagnostics'', PList []), (''timing_ms'', PInt 0),
      (''artifacts'', PDict (dmerge [(''error'', PStr error_tag)] extra)), (''route'', PDict route)]"

definition normalize_rel_path :: "string \<Rightarrow> string" where
  "normalize_rel_path path = map (\<lambda>c. if c = CHR 0x5C then CHR ''/'' else c) (strip path)"

definition approval_for_tool :: "pydict \<Rightarrow> string \<Rightarrow> pydict \<Rightarrow> pydict option" where
  "approval_for_tool state tool_name input =
     (case coerce_approval_token (dget input ''approval'' PNone) of
        Some t \<Rightarrow> Some t
      | None \<Rightarrow>
          let direct = as_dict (dget state ''approvals'' (PDict []));
              approvals = (if direct = [] then as_dict (dget state ''_resume_approvals'' (PDict [])) else direct)
          in if approvals = [] then None
             else case coerce_approval_token (dget approvals tool_name PNone) of
                 Some t \<Rightarrow> Some t
               | None \<Rightarrow> (case dget approvals ''mutations'' PNone of
                     PDict m \<Rightarrow> coerce_approval_token (dget m tool_name PNone)
                   | _ \<Rightarrow> None))"

definition configured_write_allowlist :: "pydict \<Rightarrow> string list" where
  "configured_write_allowlist guards =
     concat (map (\<lambda>e. case e of PStr s \<Rightarrow> if strip s = [] then [] else [normalize_rel_path s] | _ \<Rightarrow> [])
       (as_list (dget guards ''allowed_write_paths'' (PList []))))"

definition change_path :: "pyval \<Rightarrow> string option" where
  "change_path c = (case c of
       PDict d \<Rightarrow> (case dget d ''path'' PNone of
           PStr p \<Rightarrow> if strip p = [] then None else Some (normalize_rel_path p) | _ \<Rightarrow> None)
     | _ \<Rightarrow> None)"

definition apply_patch_changed_paths :: "pydict \<Rightarrow> string list option" where
  "apply_patch_changed_paths input =
     (case dget input ''changes'' (PList []) of
        PList changes \<Rightarrow> if changes = [] \<or> list_ex (\<lambda>c. change_path c = None) changes then None
                        else Some (map (\<lambda>c. the (change_path c)) changes)
      | _ \<Rightarrow> None)"

definition path_matches_allowlist :: "string \<Rightarrow> string list \<Rightarrow> bool" where
  "path_matches_allowlist path allowed = list_ex (\<lambda>pattern. fnmatch (normalize_rel_path path) pattern) allowed"

section \<open>Guards of one call\<close>

record exec_config =
  ec_max_tool_calls :: int
  ec_max_patch_bytes :: int
  ec_require_approval :: bool
  ec_allowed_paths :: "string list"

text \<open>The outcome of a guard: the input that goes on, or the failing result that stops the execution.\<close>

datatype guard_outcome = Pass pydict | Deny pydict

definition approval_required_extra :: pydict where
  "approval_required_extra =
     [(''approval'', PDict [(''required'', PBool True), (''status'', PStr ''challenge_required''),
        (''operation_class'', PStr ''apply_patch''), (''challenge_id'', PStr ''approval:apply_patch''),
        (''reason'', PStr ''missing_approval_token'')])]"

definition approval_guard ::
  "exec_config \<Rightarrow> (string \<Rightarrow> string) \<Rightarrow> pydict \<Rightarrow> pydict \<Rightarrow> pydict \<Rightarrow> guard_outcome" where
  "approval_guard cfg gen_token state route input =
     (if ec_require_approval cfg then
        (case approval_for_tool state ''apply_patch'' input of
           None \<Rightarrow> Deny (budget_failure_result ''apply_patch''
                     ''mutation approval required before apply_patch execution'' ''approval_required''
                     route approval_required_extra)
         | Some approval \<Rightarrow> Pass (dset input ''approval'' (PDict approval)))
      else
        let challenge_id = ''approval:apply_patch'' in
        Pass (dset input ''approval''
                (PDict [(''challenge_id'', PStr challenge_id), (''token'', PStr (gen_token challenge_id))])))"

definition allowlist_guard :: "exec_config \<Rightarrow> pydict \<Rightarrow> pydict \<Rightarrow> guard_outcome" where
  "allowlist_guard cfg route input =
     (if ec_allowed_paths cfg = [] then Pass input
      else case apply_patch_changed_paths input of
          None \<Rightarrow> Deny (budget_failure_result ''apply_patch''
                     ''apply_patch requires explicit change paths for write allowlist enforcement''
                     ''write_path_not_allowed'' route
                     [(''allowed_write_paths'', str_list (ec_allowed_paths cfg))])
        | Some paths \<Rightarrow>
            (case find (\<lambda>p. \<not> path_matches_allowlist p (ec_allowed_paths cfg)) paths of
               Some p \<Rightarrow> Deny (budget_failure_result ''apply_patch''
                     (''write path denied by policy allowlist: path='' @ p) ''write_path_not_allowed'' route
                     [(''path'', PStr p), (''allowed_write_paths'', str_list (ec_allowed_paths cfg))])
             | None \<Rightarrow> Pass input))"

definition size_guard :: "exec_config \<Rightarrow> pydict \<Rightarrow> pydict \<Rightarrow> guard_outcome" where
  "size_guard cfg route input =
     (let n = int (estimate_patch_bytes input) in
      if 0 < ec_max_patch_bytes cfg \<and> ec_max_patch_bytes cfg < n
      then Deny (budget_failure_result ''apply_patch''
             (''patch-size budget exceeded: patch_bytes='' @ int_str n @ '' limit='' @ int_str (ec_max_patch_bytes cfg))
             ''patch_size_budget_exceeded'' route [])
      else Pass input)"

definition then_guard :: "guard_outcome \<Rightarrow> (pydict \<Rightarrow> guard_outcome) \<Rightarrow> guard_outcome" where
  "then_guard g f = (case g of Deny r \<Rightarrow> Deny r | Pass i \<Rightarrow> f i)"

definition call_guards ::
  "exec_config \<Rightarrow> (string \<Rightarrow> string) \<Rightarrow> pydict \<Rightarrow> pydict \<Rightarrow> string \<Rightarrow> pydict \<Rightarrow> guard_outcome" where
  "call_guards cfg gen_token state route tool_name input =
     (if tool_name = ''apply_patch''
      then then_guard (then_guard (approval_guard cfg gen_token state route input) (allowlist_guard cfg route))
             (size_guard cfg route)
      else Pass input)"

definition glean_pre ::
  "string \<Rightarrow> pydict \<Rightarrow> GleanAuditor option \<Rightarrow> GuidelineViolation list \<times> GleanAuditor option" where
  "glean_pre tool_name input auditor = (case auditor of
       None \<Rightarrow> ([], None)
     | Some a \<Rightarrow> (let (blocking, a') = check_pre_execution tool_name input a in (blocking, Some a')))"

definition glean_post :: "pydict list \<Rightarrow> GleanAuditor option \<Rightarrow> GleanAuditor option" where
  "glean_post results auditor =
     (case auditor of None \<Rightarrow> None
      | Some a \<Rightarrow> Some (fold (\<lambda>r a. snd (check_post_execution (gets r ''tool'' []) r a)) results a))"

section \<open>Building the batch of a step\<close>

text \<open>
  The loop over the calls of a step. It ends with the batch, with a stop (a guard denied a call and
  the batch is dropped), or with an exception. Results of calls that GLEAN blocked are appended as the
  loop goes.
\<close>

datatype batch_end = Batch "pydict list" | Stopped | Raised exn

definition outgoing_call :: "pydict \<Rightarrow> pydict \<Rightarrow> string \<Rightarrow> pydict \<Rightarrow> pydict" where
  "outgoing_call route checkpoint tool_name input =
     (let i1 = dset input ''_route'' (PDict route);
          i2 = (if checkpoint \<noteq> [] then dset i1 ''_checkpoint'' (PDict checkpoint) else i1)
      in [(''tool'', PStr tool_name), (''input'', PDict i2)])"

text \<open>\<open>input_payload = dict(tool_call.get("input", {}))\<close> and \<open>tool_name = str(tool_call.get("tool"))\<close>.\<close>

definition read_call :: "pyval \<Rightarrow> (string \<times> pydict) result" where
  "read_call tool_call =
     bind_r (dict_method tool_call ''get'') (\<lambda>tc.
     bind_r (py_dict (dget tc ''input'' (PDict []))) (\<lambda>input.
       Inr (py_str (dget tc ''tool'' PNone), input)))"

fun build_batch ::
  "exec_config \<Rightarrow> (string \<Rightarrow> string) \<Rightarrow> pydict \<Rightarrow> pydict \<Rightarrow> pydict \<Rightarrow> pyval list \<Rightarrow>
     pydict list \<Rightarrow> pyval list \<Rightarrow> GleanAuditor option \<Rightarrow> batch_end \<times> pyval list \<times> GleanAuditor option" where
  "build_batch cfg gen_token state route checkpoint [] calls results auditor = (Batch calls, results, auditor)"
| "build_batch cfg gen_token state route checkpoint (tc # tcs) calls results auditor =
     (case read_call tc of
        Inl e \<Rightarrow> (Raised e, results, auditor)
      | Inr (tool_name, input) \<Rightarrow>
          (case call_guards cfg gen_token state route tool_name input of
             Deny r \<Rightarrow> (Stopped, results @ [PDict r], auditor)
           | Pass input' \<Rightarrow>
               (case glean_pre tool_name input' auditor of
                  (blocking, auditor') \<Rightarrow>
                    if blocking \<noteq> [] then
                      build_batch cfg gen_token state route checkpoint tcs calls
                        (results @ [PDict (budget_failure_result tool_name
                           (''GLEAN blocked: '' @ join ''; '' (map gv_detail blocking)) ''glean_blocked'' route [])])
                        auditor'
                    else
                      build_batch cfg gen_token state route checkpoint tcs
                        (calls @ [outgoing_call route checkpoint tool_name input']) results auditor')))"

section \<open>Checkpoints\<close>

text \<open>\<open>if isinstance(v, str) and v.strip(): d[k] = v.strip()\<close>.\<close>

definition set_stripped :: "string \<Rightarrow> pyval \<Rightarrow> pydict \<Rightarrow> pydict" where
  "set_stripped k v d = (case v of PStr s \<Rightarrow> if strip s \<noteq> [] then dset d k (PStr (strip s)) else d | _ \<Rightarrow> d)"

definition snapshot_checkpoint :: "pydict \<Rightarrow> pydict \<Rightarrow> pydict" where
  "snapshot_checkpoint r cp =
     (case dget r ''snapshot'' PNone of
        PDict meta \<Rightarrow>
          let cp1 = (case dget meta ''checkpoint'' PNone of
                PDict c \<Rightarrow>
                  let a = set_stripped ''thread_id'' (dget c ''thread_id'' PNone) cp;
                      b = (case dget c ''checkpoint_ns'' PNone of PStr ns \<Rightarrow> dset a ''checkpoint_ns'' (PStr ns) | _ \<Rightarrow> a);
                      d = set_stripped ''latest_checkpoint_id'' (dget c ''checkpoint_id'' PNone) b
                  in set_stripped ''run_id'' (dget c ''run_id'' PNone) d
              | _ \<Rightarrow> cp)
          in set_stripped ''latest_snapshot_id'' (dget meta ''snapshot_id'' PNone) cp1
      | _ \<Rightarrow> cp)"

definition undo_checkpoint :: "pydict \<Rightarrow> pydict \<Rightarrow> pydict" where
  "undo_checkpoint r cp =
     (case dget r ''undo'' PNone of
        PDict meta \<Rightarrow>
          let cp1 = set_stripped ''latest_snapshot_id'' (dget meta ''restored_snapshot_id'' PNone) cp
          in (case dget meta ''checkpoint'' PNone of
                PDict c \<Rightarrow> set_stripped ''latest_checkpoint_id'' (dget c ''checkpoint_id'' PNone) cp1
              | _ \<Rightarrow> cp1)
      | _ \<Rightarrow> cp)"

definition update_checkpoint :: "pydict list \<Rightarrow> pydict \<Rightarrow> pydict" where
  "update_checkpoint results cp = fold (\<lambda>r c. undo_checkpoint r (snapshot_checkpoint r c)) results cp"

section \<open>Steps\<close>

record exec_state =
  es_state :: pydict
  es_results :: "pyval list"
  es_used :: int
  es_checkpoint :: pydict
  es_auditor :: "GleanAuditor option"
  es_stop :: bool
  es_sent :: "pydict list list"

definition trace_len :: "pydict \<Rightarrow> nat" where
  "trace_len s = length (as_list (dget s ''_trace_events'' (PList [])))"

definition patched :: "pydict list \<Rightarrow> bool" where
  "patched results = list_ex (\<lambda>r. dget r ''tool'' PNone = PStr ''apply_patch'' \<and> py_bool (dget r ''ok'' (PBool False))) results"

text \<open>Everything that follows a successful batch.\<close>

definition after_batch :: "clock \<Rightarrow> pydict \<Rightarrow> pydict list \<Rightarrow> pydict list \<Rightarrow> exec_state \<Rightarrow> exec_state result" where
  "after_batch now route calls results es =
     (let s1 = (if patched results then dset (es_state es) ''_scip_index_stale'' (PBool True) else es_state es)
      in bind_r (append_event now s1 ''tools''
            [(''count'', PInt (int (length calls))), (''tools'', str_list (map (\<lambda>c. py_str (dget c ''tool'' PNone)) calls)),
             (''lane'', dget route ''lane'' (PStr ''interactive''))]) (\<lambda>s2.
          Inr (es \<lparr> es_state := s2, es_results := es_results es @ map PDict results,
                    es_used := es_used es + int (length calls),
                    es_checkpoint := update_checkpoint results (es_checkpoint es),
                    es_auditor := glean_post results (es_auditor es) \<rparr>)))"

definition step_failed :: "exec_state \<Rightarrow> exn \<Rightarrow> exec_state" where
  "step_failed es exc =
     es \<lparr> es_results := es_results es @ [PDict
            [(''tool'', PStr ''batch_execute''), (''ok'', PBool False), (''exit_code'', PInt 1),
             (''stdout'', PStr []), (''stderr'', PStr (exn_str exc)), (''diagnostics'', PList []),
             (''timing_ms'', PInt 0), (''artifacts'', PDict [(''error'', PStr ''executor_failed'')]),
             (''route'', PDict (tool_routing_metadata (es_state es) ''executor''))]],
          es_stop := True \<rparr>"

definition send_batch ::
  "(nat \<Rightarrow> tool_runner) \<Rightarrow> RunnerClient \<Rightarrow> clock \<Rightarrow> pydict \<Rightarrow> pydict list \<Rightarrow> exec_state \<Rightarrow> exec_state" where
  "send_batch runner client now route calls es =
     (if calls = [] then es
      else
        let es1 = es \<lparr> es_sent := es_sent es @ [calls] \<rparr> in
        case bind_r (runner (trace_len (es_state es)) client calls)
                    (\<lambda>results. after_batch now route calls results es1) of
          Inr es2 \<Rightarrow> es2
        | Inl exc \<Rightarrow> step_failed es1 exc)"

definition run_tools ::
  "exec_config \<Rightarrow> (nat \<Rightarrow> tool_runner) \<Rightarrow> (string \<Rightarrow> string) \<Rightarrow> RunnerClient \<Rightarrow> clock \<Rightarrow> pyval list
     \<Rightarrow> exec_state \<Rightarrow> exec_state" where
  "run_tools cfg runner gen_token client now tools es =
     (let route = tool_routing_metadata (es_state es) ''executor'' in
      case build_batch cfg gen_token (es_state es) route (es_checkpoint es) tools [] (es_results es) (es_auditor es) of
        (fin, results, auditor) \<Rightarrow>
          let es1 = es \<lparr> es_results := results, es_auditor := auditor \<rparr> in
          (case fin of
             Raised exc \<Rightarrow> step_failed es1 exc
           | Stopped \<Rightarrow> es1 \<lparr> es_stop := True \<rparr>
           | Batch calls \<Rightarrow> send_batch runner client now route calls es1))"

text \<open>
  One step. A step that is no dictionary makes the handler of the failure raise as well, since it reads
  the step's id; that exception leaves the node.
\<close>

definition run_step ::
  "exec_config \<Rightarrow> (nat \<Rightarrow> tool_runner) \<Rightarrow> (string \<Rightarrow> string) \<Rightarrow> RunnerClient \<Rightarrow> clock \<Rightarrow> pyval
     \<Rightarrow> exec_state \<Rightarrow> exec_state result" where
  "run_step cfg runner gen_token client now step es =
     (if es_stop es then Inr es
      else bind_r (dict_method step ''get'') (\<lambda>st.
        let planned = dget st ''tools'' (PList []) in
        Inr (case (if 0 < ec_max_tool_calls cfg then py_len planned else Inr 0) of
               Inl exc \<Rightarrow> step_failed es exc
             | Inr n \<Rightarrow>
                 if 0 < ec_max_tool_calls cfg \<and> ec_max_tool_calls cfg < es_used es + int n then
                   es \<lparr> es_results := es_results es @ [PDict (budget_failure_result ''batch_execute''
                          (''tool-call budget exceeded: used='' @ int_str (es_used es) @ '' planned='' @ nat_str n
                           @ '' limit='' @ int_str (ec_max_tool_calls cfg))
                          ''tool_call_budget_exceeded'' (tool_routing_metadata (es_state es) ''executor'') [])],
                        es_stop := True \<rparr>
                 else (case py_iter planned of
                     Inl exc \<Rightarrow> step_failed es exc
                   | Inr tools \<Rightarrow> run_tools cfg runner gen_token client now tools es))))"

fun run_steps ::
  "exec_config \<Rightarrow> (nat \<Rightarrow> tool_runner) \<Rightarrow> (string \<Rightarrow> string) \<Rightarrow> RunnerClient \<Rightarrow> clock \<Rightarrow> pyval list
     \<Rightarrow> exec_state \<Rightarrow> exec_state result" where
  "run_steps cfg runner gen_token client now [] es = Inr es"
| "run_steps cfg runner gen_token client now (s # ss) es =
     bind_r (run_step cfg runner gen_token client now s es) (run_steps cfg runner gen_token client now ss)"

section \<open>The executor node\<close>

definition exec_config_of :: "pydict \<Rightarrow> exec_config" where
  "exec_config_of state =
     (let guards = as_dict (dget state ''guards'' (PDict [])) in
      \<lparr> ec_max_tool_calls = exec_as_int (dget state ''_budget_max_tool_calls_per_loop'' (PInt 0)) 0,
        ec_max_patch_bytes = exec_as_int (dget state ''_budget_max_patch_bytes'' (PInt 0)) 0,
        ec_require_approval = py_bool (dget guards ''require_approval_for_mutations'' (PBool False)),
        ec_allowed_paths = configured_write_allowlist guards \<rparr>)"

definition exec_start :: "GleanAuditor option \<Rightarrow> pydict \<Rightarrow> pyval list \<Rightarrow> exec_state" where
  "exec_start auditor state results =
     \<lparr> es_state = state, es_results = results,
       es_used = exec_as_int (dget (as_dict (dget state ''budgets'' (PDict []))) ''tool_calls_used'' (PInt 0)) 0,
       es_checkpoint = as_dict (dget state ''_checkpoint'' (PDict [])), es_auditor = auditor,
       es_stop = False, es_sent = [] \<rparr>"

definition exec_client :: "string \<Rightarrow> pydict \<Rightarrow> RunnerClient" where
  "exec_client default_url state =
     (state_client state) \<lparr> rc_base_url := gets state ''_runner_base_url'' default_url \<rparr>"

definition exec_out :: "pydict \<Rightarrow> exec_state \<Rightarrow> pydict" where
  "exec_out state0 es =
     (let cfg = exec_config_of state0;
          budgets = as_dict (dget state0 ''budgets'' (PDict []))
      in dset (dset (dset (es_state es) ''tool_results'' (PList (es_results es)))
                ''_checkpoint'' (PDict (es_checkpoint es)))
           ''budgets'' (PDict (dset (dset (dset budgets ''tool_calls_used'' (PInt (es_used es)))
             ''tool_calls_limit'' (PInt (ec_max_tool_calls cfg)))
             ''patch_bytes_limit'' (PInt (ec_max_patch_bytes cfg)))))"

text \<open>
  The node with the batches it sent. The audit logger that a state may carry is not part of the model;
  the summary of the auditor is appended to the trace.
\<close>

definition execute_plan ::
  "string option \<Rightarrow> string \<Rightarrow> (nat \<Rightarrow> tool_runner) \<Rightarrow> (string \<Rightarrow> string) \<Rightarrow> clock \<Rightarrow> pydict \<Rightarrow> pydict
     \<Rightarrow> (pydict \<times> pydict list list) result" where
  "execute_plan glean_flag default_url runner gen_token now state plan =
     bind_r (py_iter (dget state ''tool_results'' (PList []))) (\<lambda>results.
     bind_r (py_iter (dget plan ''steps'' (PList []))) (\<lambda>steps.
     bind_r (run_steps (exec_config_of state) runner gen_token (exec_client default_url state) now steps
               (exec_start (maybe_create_glean_auditor glean_flag) state results)) (\<lambda>es.
     bind_r (case es_auditor es of
               None \<Rightarrow> Inr (exec_out state es)
             | Some a \<Rightarrow> append_event now (exec_out state es) ''glean'' (glean_summary a)) (\<lambda>out.
     bind_r (node_event now out ''executor'' ''end'') (\<lambda>out'.
       Inr (prune_pre_verification_history out', es_sent es))))))"

definition executor_body ::
  "string option \<Rightarrow> string \<Rightarrow> (nat \<Rightarrow> tool_runner) \<Rightarrow> (string \<Rightarrow> string) \<Rightarrow> clock \<Rightarrow> pydict
     \<Rightarrow> (pydict \<times> pydict list list) result" where
  "executor_body glean_flag default_url runner gen_token now state =
     (case dget state ''plan'' PNone of
        PDict plan \<Rightarrow>
          if \<not> validate_base_url (rc_base_url (exec_client default_url state)) then
            bind_r (append_event now state ''node'' [(''name'', PStr ''executor''), (''phase'', PStr ''end''),
                      (''error'', PStr ''invalid_base_url'')]) (\<lambda>s. Inr (s, []))
          else execute_plan glean_flag default_url runner gen_token now state plan
      | _ \<Rightarrow> Inr (state, []))"

definition executor_run ::
  "string option \<Rightarrow> string \<Rightarrow> (nat \<Rightarrow> tool_runner) \<Rightarrow> (string \<Rightarrow> string) \<Rightarrow> clock \<Rightarrow> pydict
     \<Rightarrow> (pydict \<times> pydict list list) result" where
  "executor_run glean_flag default_url runner gen_token now state0 =
     (if \<not> py_bool (dget state0 ''_runner_enabled'' (PBool True)) then Inr (state0, [])
      else bind_r (node_event now (ensure_history_policy state0) ''executor'' ''start'')
             (executor_body glean_flag default_url runner gen_token now))"

definition executor ::
  "string option \<Rightarrow> string \<Rightarrow> (nat \<Rightarrow> tool_runner) \<Rightarrow> (string \<Rightarrow> string) \<Rightarrow> clock \<Rightarrow> pydict \<Rightarrow> pydict result" where
  "executor glean_flag default_url runner gen_token now state =
     bind_r (executor_run glean_flag default_url runner gen_token now state) (\<lambda>r. Inr (fst r))"

end
