(* ===== verification/Verifier_Props.thy ===== *)
theory Verifier_Props
  imports Verifier_Node
begin

text \<open>
  What the verifier node guarantees: the classification of failures, the meaning of a passing report,
  the bounds on what it accumulates, the recovery facts, and that it leaves the loop budget to the gate.
\<close>

section \<open>Frame of the node\<close>

lemma run_verification_budgets:
  "run_verification_calls runner s rs = Inr (rs', b) \<Longrightarrow>
     map_of b ''current_loop'' = map_of (as_dict (dget s ''budgets'' (PDict []))) ''current_loop'' \<and>
     prefix rs rs'"
  by (auto simp: run_verification_calls_def Let_def bind_r_eq_Inr split: if_splits)

lemma verifier_results_budgets:
  assumes "verifier_results runner s rs = Inr (rs', b)"
  shows "map_of b ''current_loop'' = map_of (as_dict (dget s ''budgets'' (PDict []))) ''current_loop'' \<and>
     prefix rs rs'"
proof -
  define rb where "rb = (case run_verification_calls runner s rs of
               Inr rb \<Rightarrow> rb
             | Inl exc \<Rightarrow> (rs @ [verification_batch_failure (exn_str exc)
                             ''verifier_execution_failed'' (tool_routing_metadata s ''verifier'')],
                           as_dict (dget s ''budgets'' (PDict []))))"
  have base: "map_of (snd rb) ''current_loop'' = map_of (as_dict (dget s ''budgets'' (PDict []))) ''current_loop'' \<and>
     prefix rs (fst rb)"
    using run_verification_budgets [of runner s rs]
    by (auto simp: rb_def split: sum.splits)
  obtain more where "rs' = fst rb @ more" "b = snd rb"
    using assms unfolding verifier_results_def Let_def rb_def [symmetric]
    by (auto simp: bind_r_eq_Inr split: prod.splits if_splits option.splits)
  then show ?thesis using base by (auto simp: prefix_def)
qed

lemma plan_flags_other:
  "k \<notin> {''active_handoff'', ''recovery_packet'', ''context_reset_requested'', ''plan_discarded'',
         ''plan_discard_reason'', ''plan''} \<Longrightarrow> map_of (plan_flags r d out) k = map_of out k"
  by (simp add: plan_flags_def)

lemma verifier_out_keys:
  "map_of (verifier_out s rs b r d ss f t) ''tool_results'' = Some (dict_list rs)"
  "map_of (verifier_out s rs b r d ss f t) ''verification'' = Some (PDict r)"
  "map_of (verifier_out s rs b r d ss f t) ''budgets'' = Some (PDict b)"
  "map_of (verifier_out s rs b r d ss f t) ''retry_target'' = Some (dget r ''retry_target'' PNone)"
  "map_of (verifier_out s rs b r d ss f t) ''facts'' = Some f"
  "map_of (verifier_out s rs b r d ss f t) ''loop_summaries'' = Some (PList ss)"
  "map_of (verifier_out s rs b r d ss f t) ''telemetry'' = Some t"
  "map_of (verifier_out s rs b r d ss f t) ''_budget_max_loops'' = map_of s ''_budget_max_loops''"
  by (simp_all add: verifier_out_def plan_flags_other dmerge_def)

lemma prune_post_other:
  "k \<notin> {''history_policy'', ''tool_results'', ''provenance''} \<Longrightarrow>
     map_of (prune_post_verification_history s) k = map_of s k"
  by (simp add: prune_post_verification_history_def Let_def ensure_history_policy_other split: pyval.splits)

lemma append_event_trace_mono:
  "append_event now s kind data = Inr s' \<Longrightarrow>
     set (as_list (dget s ''_trace_events'' (PList []))) \<subseteq> set (as_list (dget s' ''_trace_events'' (PList [])))"
  by (cases "dget s ''_trace_events'' (PList [])") (auto simp: append_event_def bind_r_eq_Inr or_val_def split: if_splits)

text \<open>The stages of a run of the node.\<close>

lemma verifier_cases:
  assumes "verifier runner schema_ok now s0 = Inr t"
  obtains s rs b gs loop report reason ss f tel out where
    "\<And>k. k \<notin> {''history_policy'', ''telemetry'', ''_trace_events''} \<Longrightarrow> map_of s k = map_of s0 k"
    "verifier_results runner s (dicts_of (as_list (dget s ''tool_results'' (PList [])))) = Inr (rs, b)"
    "glean_checks s = Inr gs"
    "verifier_report schema_ok s rs (build_checks rs @ gs) loop = (report, reason)"
    "if py_bool (dget report ''ok'' (PBool False))
     then ss = as_list (dget s ''loop_summaries'' (PList [])) \<and> f = dget s ''facts'' (PList [])
     else failure_updates s rs report loop = Inr (ss, f, tel)"
    "\<And>k. k \<noteq> ''_trace_events'' \<Longrightarrow> map_of out k = map_of (verifier_out s rs b report reason ss f tel) k"
    "t = prune_post_verification_history out"
    "set (as_list (dget s0 ''_trace_events'' (PList []))) \<subseteq> set (as_list (dget s ''_trace_events'' (PList [])))"
proof -
  from assms obtain s1 s out where
    s1: "record_model_route (ensure_history_policy s0) ''verifier'' ''lint_reflection'' ''router'' = Inr s1"
    and s: "node_event now s1 ''verifier'' ''start'' = Inr s"
    and out: "verifier_body runner schema_ok now s = Inr out"
    and t: "t = prune_post_verification_history out"
    unfolding verifier_def bind_r_eq_Inr by blast
  from out obtain rs b gs loop where
    rs: "verifier_results runner s (dicts_of (as_list (dget s ''tool_results'' (PList [])))) = Inr (rs, b)"
    and gs: "glean_checks s = Inr gs"
    and rest: "verifier_finish schema_ok now s rs b (build_checks rs @ gs) loop = Inr out"
    unfolding verifier_body_def bind_r_eq_Inr by auto
  obtain report reason where
    rep: "verifier_report schema_ok s rs (build_checks rs @ gs) loop = (report, reason)"
    by (cases "verifier_report schema_ok s rs (build_checks rs @ gs) loop")
  from rest obtain ss f tel where
    upd: "(if py_bool (dget report ''ok'' (PBool False))
               then Inr (as_list (dget s ''loop_summaries'' (PList [])),
                         dget s ''facts'' (PList []), dget s ''telemetry'' (PDict []))
               else failure_updates s rs report loop) = Inr (ss, f, tel)"
    and ev: "append_event now (verifier_out s rs b report reason ss f tel) ''node''
                [(''name'', PStr ''verifier''), (''phase'', PStr ''end''),
                 (''ok'', PBool (py_bool (dget report ''ok'' (PBool False)))),
                 (''failure_class'', dget report ''failure_class'' (PStr []))] = Inr out"
    unfolding verifier_finish_def rep Let_def fst_conv snd_conv bind_r_eq_Inr by auto
  have "map_of s1 ''_trace_events'' = map_of s0 ''_trace_events''"
    using record_model_route_other [OF s1] by (simp add: ensure_history_policy_other)
  then have trace: "set (as_list (dget s0 ''_trace_events'' (PList []))) \<subseteq> set (as_list (dget s ''_trace_events'' (PList [])))"
    using append_event_trace_mono [OF s] by (simp add: dget_def)
  show thesis
  proof (rule that)
    show "map_of s k = map_of s0 k" if "k \<notin> {''history_policy'', ''telemetry'', ''_trace_events''}" for k
      using that append_event_map_of [OF s] record_model_route_other [OF s1] by (simp add: ensure_history_policy_other)
    show "map_of out k = map_of (verifier_out s rs b report reason ss f tel) k" if "k \<noteq> ''_trace_events''" for k
      using append_event_map_of [OF ev that] .
    show "if py_bool (dget report ''ok'' (PBool False))
     then ss = as_list (dget s ''loop_summaries'' (PList [])) \<and> f = dget s ''facts'' (PList [])
     else failure_updates s rs report loop = Inr (ss, f, tel)"
      using upd by (auto split: if_splits)
  qed (rule rs gs rep t trace)+
qed

interpretation verifier_keeps: loop_keeper "verifier runner schema_ok now"
proof
  fix s0 t
  assume "verifier runner schema_ok now s0 = Inr t"
  then show "loop_view t = loop_view s0"
  proof (rule verifier_cases)
    fix s rs b gs loop report reason ss f tel out
    assume same: "\<And>k. k \<notin> {''history_policy'', ''telemetry'', ''_trace_events''} \<Longrightarrow> map_of s k = map_of s0 k"
      and rs: "verifier_results runner s (dicts_of (as_list (dget s ''tool_results'' (PList [])))) = Inr (rs, b)"
      and out: "\<And>k. k \<noteq> ''_trace_events'' \<Longrightarrow> map_of out k = map_of (verifier_out s rs b report reason ss f tel) k"
      and t: "t = prune_post_verification_history out"
    show ?thesis
      using verifier_results_budgets [OF rs]
      by (simp add: loop_view_def dget_def t prune_post_other out verifier_out_keys same)
  qed
qed


section \<open>Classification\<close>

text \<open>The values that a recovery dictionary of the classifier can take.\<close>

definition recovery_ok :: "pydict \<Rightarrow> bool" where
  "recovery_ok r \<longleftrightarrow> (\<exists>fc fp ra rt cs pa. r = recovery_dict fc fp ra rt cs pa \<and>
     rt \<in> set retry_targets \<and> cs \<in> set context_scopes \<and> pa \<in> set plan_actions)"

lemmas recovery_values = retry_targets_def context_scopes_def plan_actions_def

lemma strip_legal:
  "x \<in> set retry_targets \<union> set context_scopes \<union> set plan_actions \<Longrightarrow> strip x = x \<and> x \<noteq> []"
  by (auto simp: recovery_values strip_def lstrip_def rstrip_def is_space_def code_def)

lemma classify_failed_ok: "recovery_ok (fst (classify_failed_result rs loop r))"
  unfolding classify_failed_result_def Let_def recovery_ok_def
  by (simp add: recovery_values recovery_dict_def)

lemma classify_retry_ok: "recovery_ok (fst (classify_retry rs loop))"
  using classify_failed_ok
  by (auto simp: classify_retry_def recovery_ok_def recovery_values recovery_dict_def split: option.splits)

lemma recovery_action_payload_ok:
  assumes "recovery_ok r"
  shows "\<exists>a. recovery_action_payload r = Inr a \<and> dget r ''retry_target'' PNone = PStr (ra_retry_target a) \<and>
     dget r ''plan_action'' PNone = PStr (ra_plan_action a) \<and> ra_retry_target a \<in> set retry_targets \<and>
     ra_plan_action a \<in> set plan_actions \<and> ra_context_scope a \<in> set context_scopes"
proof -
  obtain fc fp ra rt cs pa where r: "r = recovery_dict fc fp ra rt cs pa"
    and l: "rt \<in> set retry_targets" "cs \<in> set context_scopes" "pa \<in> set plan_actions"
    using assms by (auto simp: recovery_ok_def)
  have st: "strip rt = rt" "rt \<noteq> []" "strip cs = cs" "cs \<noteq> []" "strip pa = pa" "pa \<noteq> []"
    using strip_legal l by auto
  show ?thesis
    by (simp add: r recovery_action_payload_def recovery_dict_def st or_str_def mk_recovery_action_def l)
qed

lemma failing_report_total:
  assumes "recovery_ok rc"
  shows "\<exists>r. failing_report s cs acc loop rc d lc = Inr r \<and> \<not> vr_ok r \<and>
     (\<exists>x\<in>set retry_targets. vr_retry_target r = Some x \<and> dget rc ''retry_target'' PNone = PStr x) \<and>
     dget rc ''plan_action'' PNone = PStr (vr_plan_action r)"
proof -
  obtain a where a: "recovery_action_payload rc = Inr a" "dget rc ''retry_target'' PNone = PStr (ra_retry_target a)"
     "dget rc ''plan_action'' PNone = PStr (ra_plan_action a)"
     "ra_retry_target a \<in> set retry_targets" "ra_plan_action a \<in> set plan_actions" "ra_context_scope a \<in> set context_scopes"
    using recovery_action_payload_ok [OF assms] by blast
  then have "recovery_ok (dump_recovery_action a)"
    by (auto simp: recovery_ok_def dump_recovery_action_def recovery_dict_def)
  then obtain a' where "recovery_action_payload (dump_recovery_action a) = Inr a'"
    using recovery_action_payload_ok by blast
  with a show ?thesis
    by (simp add: failing_report_def recovery_packet_payload_def Let_def)
qed

text \<open>
  The classification of a failed verification is decided by the last failing result: the plan is
  discarded, with a full reset of the context and a retry at the context builder, exactly when that
  result is an architecture mismatch; the coder is asked for a repair only if a patch was applied, and
  the router only if none was and at least two loops have run.
\<close>

theorem classify_retry_decision:
  "let r = fst (classify_retry rs loop);
       mismatch = (case find result_failed (rev rs) of None \<Rightarrow> False
         | Some f \<Rightarrow> is_architecture_mismatch (gets f ''tool'' []) (extract_diagnostics f)
                        (gets f ''stderr'' []) (as_dict (dget f ''artifacts'' (PDict []))))
   in (dget r ''plan_action'' PNone = PStr ''discard_reset'' \<longleftrightarrow> mismatch) \<and>
      (dget r ''retry_target'' PNone = PStr ''context_builder'' \<longleftrightarrow> mismatch) \<and>
      (dget r ''context_scope'' PNone = PStr ''full_reset'' \<longleftrightarrow> mismatch) \<and>
      (dget r ''retry_target'' PNone = PStr ''coder'' \<longrightarrow> patch_was_applied rs) \<and>
      (dget r ''retry_target'' PNone = PStr ''router'' \<longrightarrow> \<not> patch_was_applied rs \<and> 2 \<le> loop)"
proof (cases "find result_failed (rev rs)")
  case None
  then show ?thesis by (simp add: classify_retry_def recovery_dict_def)
next
  case (Some f)
  let ?m = "is_architecture_mismatch (gets f ''tool'' []) (extract_diagnostics f)
                        (gets f ''stderr'' []) (as_dict (dget f ''artifacts'' (PDict [])))"
  show ?thesis
    unfolding classify_retry_def Some option.case Let_def
    by (cases ?m; cases "patch_was_applied rs")
       (simp_all add: classify_failed_result_def is_test_failure_post_change_def Let_def recovery_dict_def)
qed

theorem classify_retry_decision_witness:
  "dget (fst (classify_retry [[(''tool'', PStr ''apply_patch''), (''ok'', PBool True)],
                              [(''tool'', PStr ''cargo''), (''ok'', PBool False),
      (''diagnostics'', dict_list [[(''fingerprint'', PStr ''f1'')]])]] 1)) ''retry_target'' PNone = PStr ''coder''
   \<and> patch_was_applied [[(''tool'', PStr ''apply_patch''), (''ok'', PBool True)],
                       [(''tool'', PStr ''cargo''), (''ok'', PBool False),
      (''diagnostics'', dict_list [[(''fingerprint'', PStr ''f1'')]])]]"
proof -
  let ?rs = "[[(''tool'', PStr ''apply_patch''), (''ok'', PBool True)],
              [(''tool'', PStr ''cargo''), (''ok'', PBool False),
      (''diagnostics'', dict_list [[(''fingerprint'', PStr ''f1'')]])]]"
  have c: "dget (fst (classify_retry ?rs 1)) ''retry_target'' PNone = PStr ''coder''"
    by code_simp
  show ?thesis using classify_retry_decision [of ?rs 1] c unfolding Let_def by simp
qed


section \<open>The report\<close>

lemma build_checks_Nil: "build_checks rs = [] \<longleftrightarrow> list_all (\<lambda>r. \<not> result_failed r) rs"
  using filter_enumerate_Nil [of result_failed 0 rs]
  by (simp add: build_checks_def filter_empty_conv list_all_iff)

lemma acceptance_failure_ok:
  "list_ex result_failed acc \<Longrightarrow> recovery_ok (fst (acceptance_failure acc))"
proof -
  assume "list_ex result_failed acc"
  then obtain u us where "filter result_failed acc = u # us"
    by (cases "filter result_failed acc") (auto simp: filter_empty_conv list_ex_iff)
  then show ?thesis
    by (simp add: acceptance_failure_def recovery_ok_def recovery_values recovery_dict_def)
qed

text \<open>The three outcomes of the classification; with readable criteria it never raises.\<close>

lemma classify_report_cases:
  assumes "evaluate_acceptance_checks s rs cs = Inr acc"
  shows "if cs = [] \<and> \<not> list_ex result_failed acc
         then classify_report s rs cs loop = Inr (passing_report acc, [])
         else \<exists>r reason x. classify_report s rs cs loop = Inr (r, reason) \<and> \<not> vr_ok r \<and>
                vr_retry_target r = Some x \<and> x \<in> set retry_targets"
proof (cases cs)
  case Nil
  show ?thesis
  proof (cases "list_ex result_failed acc")
    case True
    obtain rc reason lc where a: "acceptance_failure acc = (rc, reason, lc)" by (cases "acceptance_failure acc")
    then have "recovery_ok rc" using acceptance_failure_ok [OF True] by simp
    from failing_report_total [OF this, of s "[]" acc loop reason lc] obtain r x where
      "failing_report s [] acc loop rc reason lc = Inr r" "\<not> vr_ok r" "vr_retry_target r = Some x"
      "x \<in> set retry_targets" by blast
    then show ?thesis using True by (simp add: classify_report_def assms [unfolded Nil] Nil a)
  qed (simp add: classify_report_def assms [unfolded Nil] Nil)
next
  case (Cons c cs')
  obtain rc reason where a: "classify_retry rs loop = (rc, reason)" by (cases "classify_retry rs loop")
  then have "recovery_ok rc" using classify_retry_ok [of rs loop] by simp
  from failing_report_total [OF this, of s cs acc loop reason "vc_summary c"] obtain r x where
    "failing_report s cs acc loop rc reason (vc_summary c) = Inr r" "\<not> vr_ok r"
    "vr_retry_target r = Some x" "x \<in> set retry_targets" by blast
  then show ?thesis by (simp add: classify_report_def assms [unfolded Cons] Cons a)
qed

lemma fallback_not_ok [simp]:
  "dget (fallback_report f m) ''ok'' v = PBool False"
  "dget (fallback_report f m) ''retry_target'' v = PStr ''planner''"
  by (simp_all add: fallback_report_def)

lemma passing_ok [simp]: "vr_ok (passing_report acc)" "vr_retry_target (passing_report acc) = None"
  by (simp_all add: passing_report_def)

lemma verifier_report_ok:
  "py_bool (dget (fst (verifier_report schema_ok s rs cs loop)) ''ok'' v) \<longleftrightarrow>
     cs = [] \<and> (\<exists>acc. evaluate_acceptance_checks s rs cs = Inr acc \<and> \<not> list_ex result_failed acc \<and>
                    schema_ok (strip_null_refs (dump_report (passing_report acc))))"
proof (cases "evaluate_acceptance_checks s rs cs")
  case (Inl e)
  then show ?thesis by (simp add: verifier_report_def classify_report_def Let_def)
next
  case (Inr acc)
  show ?thesis
    using classify_report_cases [OF Inr, of loop] Inr
    by (auto simp: verifier_report_def Let_def split: if_splits)
qed

lemma verifier_report_retry:
  "dget (fst (verifier_report schema_ok s rs cs loop)) ''retry_target'' v =
     (if py_bool (dget (fst (verifier_report schema_ok s rs cs loop)) ''ok'' (PBool False)) then PNone
      else dget (fst (verifier_report schema_ok s rs cs loop)) ''retry_target'' PNone) \<and>
   (\<not> py_bool (dget (fst (verifier_report schema_ok s rs cs loop)) ''ok'' (PBool False)) \<longrightarrow>
      (\<exists>x\<in>set retry_targets. dget (fst (verifier_report schema_ok s rs cs loop)) ''retry_target'' PNone = PStr x))"
proof (cases "evaluate_acceptance_checks s rs cs")
  case (Inl e)
  then show ?thesis by (simp add: verifier_report_def classify_report_def Let_def retry_targets_def)
next
  case (Inr acc)
  have p: "''planner'' \<in> set retry_targets" by (simp add: retry_targets_def)
  show ?thesis
  proof (cases "cs = [] \<and> \<not> list_ex result_failed acc")
    case True
    then show ?thesis
      using classify_report_cases [OF Inr, of loop] p by (auto simp: verifier_report_def Let_def)
  next
    case False
    then obtain r reason x where "classify_report s rs cs loop = Inr (r, reason)" "\<not> vr_ok r"
      "vr_retry_target r = Some x" "x \<in> set retry_targets"
      using classify_report_cases [OF Inr, of loop] by (auto split: if_splits)
    then show ?thesis using p by (simp add: verifier_report_def Let_def)
  qed
qed

text \<open>
  C10. A report passes exactly when there is no failed check, the acceptance criteria of the plan can
  be read and all are met, and the report satisfies the schema. In particular the empty report of a
  run without criteria passes only if nothing failed.
\<close>

theorem verifier_report_ok_iff:
  "py_bool (dget (fst (verifier_report schema_ok s rs (build_checks rs @ gs) loop)) ''ok'' PNone) \<longleftrightarrow>
     list_all (\<lambda>r. py_bool (dget r ''ok'' (PBool False))) rs \<and> gs = [] \<and>
     (\<exists>acc. evaluate_acceptance_checks s rs [] = Inr acc \<and>
        list_all (\<lambda>c. py_bool (dget c ''ok'' (PBool False))) acc \<and>
        schema_ok (strip_null_refs (dump_report (passing_report acc))))"
proof -
  have e: "list_all (\<lambda>r. py_bool (dget r ''ok'' (PBool False))) xs \<longleftrightarrow> \<not> list_ex result_failed xs" for xs
    by (auto simp: list_all_iff list_ex_iff result_failed_def)
  have b: "build_checks rs = [] \<longleftrightarrow> \<not> list_ex result_failed rs"
    by (auto simp: build_checks_Nil list_all_iff list_ex_iff)
  show ?thesis unfolding verifier_report_ok e append_is_Nil_conv b
    by (metis b append_Nil)
qed

section \<open>The node\<close>

lemma glean_checks_Nil:
  assumes "glean_checks s = Inr []" and "PDict e \<in> set (as_list (dget s ''_trace_events'' (PList [])))"
    and "dget e ''kind'' PNone = PStr ''glean''" and "dget e ''data'' (PDict []) = PDict d"
    and "int_or_zero (dget d ''blocking_violations'' (PInt 0)) = Inr n"
  shows "n \<le> 0"
proof -
  let ?es = "as_list (dget s ''_trace_events'' (PList []))"
  obtain css where css: "map_r glean_event_check ?es = Inr css" "concat css = []"
    using assms(1) by (auto simp: glean_checks_def bind_r_eq_Inr)
  obtain i where i: "i < length ?es" "?es ! i = PDict e" using assms(2) by (auto simp: in_set_conv_nth)
  have "glean_event_check (PDict e) = Inr (css ! i)"
    using map_r_nth [OF css(1) i(1)] i(2) by simp
  moreover have "css ! i = []" using css i map_r_length [OF css(1)] by auto
  ultimately show ?thesis using assms by (auto simp: glean_event_check_def split: if_splits)
qed

lemma compact_result_ok: "result_failed (compact_result r) = result_failed r"
  by (simp add: compact_result_def result_failed_def Let_def)

lemma verifier_out_flags:
  assumes "py_bool (dget r ''ok'' (PBool False))"
  shows "dget (verifier_out s rs b r d ss f t) ''plan_discarded'' v = PBool False"
    "dget (verifier_out s rs b r d ss f t) ''context_reset_requested'' v = PBool False"
    "dget (verifier_out s rs b r d ss f t) ''recovery_packet'' v = PNone"
  using assms by (simp_all add: verifier_out_def plan_flags_def)

definition passed :: "pydict \<Rightarrow> bool" where
  "passed t = py_bool (dget (as_dict (dget t ''verification'' PNone)) ''ok'' (PBool False))"

text \<open>
  C9. Soundness of a pass: if the verifier node ends with a passing report, every tool result in the
  state it returns succeeded (those of the verification batch and of the formal check included), no
  GLEAN event of the trace reports a blocking violation, no retry is pending, the plan is not marked
  as discarded, and the graph proceeds to the reporter.
\<close>

theorem verifier_pass_sound:
  assumes run: "verifier runner schema_ok now s = Inr t" and ok: "passed t"
  shows "(\<forall>r\<in>set (tool_results_of t). py_bool (dget r ''ok'' (PBool False))) \<and>
     (\<forall>e d n. PDict e \<in> set (as_list (dget s ''_trace_events'' (PList []))) \<and>
        dget e ''kind'' PNone = PStr ''glean'' \<and> dget e ''data'' (PDict []) = PDict d \<and>
        int_or_zero (dget d ''blocking_violations'' (PInt 0)) = Inr n \<longrightarrow> n \<le> 0) \<and>
     dget t ''retry_target'' PNone = PNone \<and> dget t ''plan_discarded'' PNone = PBool False \<and>
     dget t ''context_reset_requested'' PNone = PBool False \<and> route_after_verifier t = ''reporter''"
  using run
proof (rule verifier_cases)
  fix s1 rs b gs loop report reason ss f tel out
  assume gs: "glean_checks s1 = Inr gs"
    and rep: "verifier_report schema_ok s1 rs (build_checks rs @ gs) loop = (report, reason)"
    and out: "\<And>k. k \<noteq> ''_trace_events'' \<Longrightarrow> map_of out k = map_of (verifier_out s1 rs b report reason ss f tel) k"
    and t: "t = prune_post_verification_history out"
    and tr: "set (as_list (dget s ''_trace_events'' (PList []))) \<subseteq> set (as_list (dget s1 ''_trace_events'' (PList [])))"
  have ver: "dget t ''verification'' v = PDict report" for v
    by (simp add: dget_def t prune_post_other out verifier_out_keys)
  note iff = verifier_report_ok [of schema_ok s1 rs "build_checks rs @ gs" loop, unfolded rep fst_conv]
  have "py_bool (dget report ''ok'' (PBool False))" using ok by (simp add: passed_def ver)
  then have okr: "py_bool (dget report ''ok'' v)" for v unfolding iff .
  have nil: "build_checks rs = []" "gs = []" using okr [unfolded iff] by auto
  have fail: "\<not> result_failed r" if "r \<in> set (tool_results_of t)" for r
  proof -
    have "tool_results_of out = rs" by (simp add: tool_results_of_def dget_def out verifier_out_keys)
    then show ?thesis using that nil(1) prune_post_results [of out]
      by (auto simp: t build_checks_Nil list_all_iff compact_result_ok split: if_splits)
  qed
  have retry: "dget t ''retry_target'' PNone = PNone"
    using verifier_report_retry [of schema_ok s1 rs "build_checks rs @ gs" loop PNone] rep okr
    by (simp add: dget_def [of t] dget_def [of "prune_post_verification_history out"] t prune_post_other out verifier_out_keys)
  have flags: "dget t k v = dget (verifier_out s1 rs b report reason ss f tel) k v"
    if "k \<notin> {''history_policy'', ''tool_results'', ''provenance'', ''_trace_events''}" for k v
    using that by (simp add: dget_def t prune_post_other out)
  show ?thesis
    using fail retry glean_checks_Nil [OF gs [unfolded nil]] tr okr
    by (auto simp: result_failed_def flags verifier_out_flags [OF okr] route_after_verifier_def ver)
qed

theorem verifier_pass_sound_witness:
  "\<exists>t. verifier (\<lambda>_ _. Inr []) (\<lambda>_. True) (\<lambda>_. 0)
         [(''tool_results'', dict_list [[(''tool'', PStr ''exec''), (''ok'', PBool True)]])] = Inr t \<and>
       passed t \<and> (\<forall>r\<in>set (tool_results_of t). py_bool (dget r ''ok'' (PBool False))) \<and>
       route_after_verifier t = ''reporter''"
proof -
  let ?s = "[(''tool_results'', dict_list [[(''tool'', PStr ''exec''), (''ok'', PBool True)]])]"
  let ?v = "verifier (\<lambda>_ _. Inr []) (\<lambda>_. True) (\<lambda>_. 0) ?s"
  have c: "(case ?v of Inr t \<Rightarrow> passed t | _ \<Rightarrow> False) = True" by code_simp
  then obtain t where t: "?v = Inr t" "passed t" by (cases ?v) auto
  show ?thesis using verifier_pass_sound [OF t] t by blast
qed

lemma failure_updates_bounds:
  assumes "failure_updates s rs report loop = Inr (ss, f, tel)"
  shows "length ss \<le> 5" and "length (as_list (dget (as_dict tel) ''diagnostics'' PNone)) \<le> 20"
    and "ss \<noteq> []" and "last ss = PDict (loop_summary_entry report loop
           (stripped_items (dget (as_dict (dget s ''plan'' (PDict []))) ''acceptance_criteria'' (PList [])))
           (dicts_of (as_list (dget report ''acceptance_checks'' (PList [])))))"
  using assms by (auto simp: failure_updates_def Let_def bind_r_eq_Inr py_tail_def lastn_def)

text \<open>
  C11. A verification that does not pass always sends the run back to the gate with a legal retry
  target; the summary of the loop is appended to a history that keeps the last five loops, and the
  telemetry keeps at most twenty diagnostics.
\<close>

theorem verifier_failure_bounded:
  assumes run: "verifier runner schema_ok now s = Inr t" and fails: "\<not> passed t"
  shows "(\<exists>x. x \<in> set retry_targets \<and> dget t ''retry_target'' PNone = PStr x \<and>
            dget (as_dict (last (as_list (dget t ''loop_summaries'' PNone)))) ''retry_target'' PNone = PStr x) \<and>
     route_after_verifier t = ''policy_gate'' \<and>
     length (as_list (dget t ''loop_summaries'' PNone)) \<in> {1..5} \<and>
     length (as_list (dget (as_dict (dget t ''telemetry'' PNone)) ''diagnostics'' PNone)) \<le> 20"
  using run
proof (rule verifier_cases)
  fix s1 rs b gs loop report reason ss f tel out
  assume rep: "verifier_report schema_ok s1 rs (build_checks rs @ gs) loop = (report, reason)"
    and upd: "if py_bool (dget report ''ok'' (PBool False))
     then ss = as_list (dget s1 ''loop_summaries'' (PList [])) \<and> f = dget s1 ''facts'' (PList [])
     else failure_updates s1 rs report loop = Inr (ss, f, tel)"
    and out: "\<And>k. k \<noteq> ''_trace_events'' \<Longrightarrow> map_of out k = map_of (verifier_out s1 rs b report reason ss f tel) k"
    and t: "t = prune_post_verification_history out"
  have ver: "dget t ''verification'' v = PDict report"
    and ls: "dget t ''loop_summaries'' v = PList ss" and tl: "dget t ''telemetry'' v = tel"
    and rt: "dget t ''retry_target'' v = dget report ''retry_target'' PNone" for v
    by (simp_all add: dget_def [of t] dget_def [of "prune_post_verification_history out"] t
        prune_post_other out verifier_out_keys)
  have nok: "\<not> py_bool (dget report ''ok'' (PBool False))" using fails by (simp add: passed_def ver)
  then have nok': "\<not> py_bool (dget report ''ok'' PNone)"
    using verifier_report_ok [of schema_ok s1 rs "build_checks rs @ gs" loop, unfolded rep fst_conv] by blast
  note b = failure_updates_bounds [of s1 rs report loop ss f tel]
  have "failure_updates s1 rs report loop = Inr (ss, f, tel)" using upd nok by simp
  note b = b [OF this]
  obtain x where "x \<in> set retry_targets" "dget report ''retry_target'' PNone = PStr x"
    using verifier_report_retry [of schema_ok s1 rs "build_checks rs @ gs" loop PNone] rep nok by auto
  moreover have "length ss \<in> {1..5}" using b(1,3) by (cases ss) auto
  ultimately show ?thesis
    using b nok' by (simp add: ver ls tl rt route_after_verifier_def loop_summary_entry_def Let_def)
qed

theorem verifier_failure_bounded_witness:
  "\<exists>t. verifier (\<lambda>_ _. Inr []) (\<lambda>_. False) (\<lambda>_. 0) [] = Inr t \<and> \<not> passed t \<and>
       route_after_verifier t = ''policy_gate''"
proof -
  let ?v = "verifier (\<lambda>_ _. Inr []) (\<lambda>_. False) (\<lambda>_. 0) []"
  have c: "(case ?v of Inr t \<Rightarrow> \<not> passed t | _ \<Rightarrow> False) = True" by code_simp
  then obtain t where t: "?v = Inr t" "\<not> passed t" by (cases ?v) auto
  show ?thesis using verifier_failure_bounded [OF t] t by blast
qed

section \<open>Recovery facts\<close>

lemma sort_desc_by_spec:
  assumes "sort_desc_by key xs = Inr ys"
  shows "mset ys = mset xs" and "\<exists>ks. map_r key ys = Inr ks \<and> sorted_wrt (\<ge>) ks"
proof -
  obtain ks where ks: "map_r key xs = Inr ks"
    and ys: "ys = map snd (sort_key (\<lambda>((s, l), _). (- s, - l)) (zip ks xs))"
    using assms by (auto simp: sort_desc_by_def bind_r_eq_Inr)
  have len: "length ks = length xs" using ks by (rule map_r_length)
  show "mset ys = mset xs"
    unfolding ys mset_map mset_sort by (simp add: len flip: mset_map)
  define zs where "zs = sort_key (\<lambda>((s, l), _). (- s, - l)) (zip ks xs)"
  have keys: "key x = Inr k" if "(k, x) \<in> set zs" for k x
    using that map_r_nth [OF ks] by (auto simp: zs_def set_zip len)
  have "map_r key (map snd zs') = Inr (map fst zs')" if "set zs' \<subseteq> set zs" for zs'
    using that keys by (induction zs') auto
  then have "map_r key ys = Inr (map fst zs)" by (simp add: ys zs_def [symmetric])
  moreover have "sorted_wrt (\<ge>) (map fst zs)"
  proof -
    have "sorted (map (\<lambda>((s, l), _). (- s, - l)) zs)" by (simp add: zs_def)
    then show ?thesis unfolding sorted_wrt_map
      by (rule sorted_wrt_mono_rel [rotated]) (auto simp: less_eq_prod_def split: prod.splits)
  qed
  ultimately show "\<exists>ks. map_r key ys = Inr ks \<and> sorted_wrt (\<ge>) ks" by blast
qed

lemma sorted_wrt_take_rest:
  assumes "sorted_wrt R xs" "x \<in> set xs" "x \<notin> set (take n xs)"
  shows "length (take n xs) = n \<and> (\<forall>y\<in>set (take n xs). R y x)"
proof -
  have x: "x \<in> set (drop n xs)" using assms(2,3) by (metis Un_iff append_take_drop_id set_append)
  then have "n \<le> length xs" by (metis drop_all empty_iff linear list.set(1))
  moreover have "R y x" if "y \<in> set (take n xs)" for y
    using assms(1) x that by (metis append_take_drop_id sorted_wrt_append)
  ultimately show ?thesis by simp
qed

text \<open>
  C35. The recovery facts after a failure with a recovery packet: the old facts without those of the new failure's
  fingerprint, with the new failure added, are ordered by salience and loop, the highest first, and the first twelve
  are kept. So the new failure is among them unless twelve facts rank at least as high, and distinct
  fingerprints stay distinct.
\<close>

theorem updated_recovery_facts_spec:
  assumes "updated_recovery_facts s report loop = Inr fs"
    and "as_dict (dget report ''recovery_packet'' (PDict [])) \<noteq> []"
  defines "facts \<equiv> dicts_of (as_list (dget s ''facts'' (PList [])))" and "nf \<equiv> next_fact report loop"
  shows "(\<exists>all ks. mset all = mset (filter (\<lambda>e. fact_fingerprint e \<noteq> fact_fingerprint nf) facts @ [nf]) \<and>
            map_r fact_rank all = Inr ks \<and> sorted_wrt (\<ge>) ks \<and> fs = take 12 all) \<and>
     (nf \<in> set fs \<or> length fs = 12 \<and> (\<forall>e\<in>set fs. \<exists>k l. fact_rank e = Inr k \<and> fact_rank nf = Inr l \<and> l \<le> k)) \<and>
     (distinct (map fact_fingerprint facts) \<longrightarrow> distinct (map fact_fingerprint fs))"
proof -
  let ?all = "filter (\<lambda>e. fact_fingerprint e \<noteq> fact_fingerprint nf) facts @ [nf]"
  obtain ys where ys: "sort_desc_by fact_rank ?all = Inr ys" and fs: "fs = take 12 ys"
    using assms by (auto simp: updated_recovery_facts_def Let_def bind_r_eq_Inr)
  note m = sort_desc_by_spec(1) [OF ys]
  obtain ks where ks: "map_r fact_rank ys = Inr ks" "sorted_wrt (\<ge>) ks"
    using sort_desc_by_spec(2) [OF ys] by blast
  have len: "length ks = length ys" using ks(1) by (rule map_r_length)
  have rank: "fact_rank (ys ! i) = Inr (ks ! i)" if "i < length ys" for i using map_r_nth [OF ks(1)] that by simp
  have "sorted_wrt (\<lambda>e x. \<exists>k l. fact_rank e = Inr k \<and> fact_rank x = Inr l \<and> l \<le> k) ys"
    using ks(2) by (simp add: sorted_wrt_iff_nth_less len rank del: split_paired_Ex)
  moreover have "nf \<in> set ys" using mset_eq_setD [OF m] by simp
  ultimately have "nf \<in> set fs \<or> length fs = 12 \<and> (\<forall>e\<in>set fs. \<exists>k l. fact_rank e = Inr k \<and> fact_rank nf = Inr l \<and> l \<le> k)"
    using sorted_wrt_take_rest [of _ ys nf 12] fs by blast
  moreover have "distinct (map fact_fingerprint fs)" if "distinct (map fact_fingerprint facts)"
  proof -
    have "distinct (map fact_fingerprint ?all)" using that by (auto simp: distinct_map_filter)
    moreover have "mset (map fact_fingerprint ys) = mset (map fact_fingerprint ?all)" using m by (simp only: mset_map)
    ultimately have "distinct (map fact_fingerprint ys)" by (metis mset_eq_imp_distinct_iff)
    then show ?thesis by (simp add: fs take_map [symmetric])
  qed
  ultimately show ?thesis using m ks fs by blast
qed

theorem updated_recovery_facts_spec_witness:
  "\<exists>fs. updated_recovery_facts [(''facts'', dict_list [[(''failure_fingerprint'', PStr ''a''), (''salience'', PInt 9)]])]
          [(''recovery_packet'', PDict [(''last_check'', PStr ''x'')]), (''failure_fingerprint'', PStr ''b'')] 2 = Inr fs \<and>
        length fs = 2 \<and> distinct (map fact_fingerprint fs)"
proof -
  let ?u = "updated_recovery_facts [(''facts'', dict_list [[(''failure_fingerprint'', PStr ''a''), (''salience'', PInt 9)]])]
          [(''recovery_packet'', PDict [(''last_check'', PStr ''x'')]), (''failure_fingerprint'', PStr ''b'')] 2"
  have c: "(case ?u of Inr fs \<Rightarrow> length fs = 2 | _ \<Rightarrow> False) = True" by code_simp
  then obtain fs where fs: "?u = Inr fs" "length fs = 2" by (cases ?u) auto
  show ?thesis using updated_recovery_facts_spec [OF fs(1)] fs by simp
qed

end
