(* ===== verification/Executor_Props.thy ===== *)
theory Executor_Props
  imports Executor_Node Verifier_Props
begin

text \<open>
  What the executor node guarantees about the calls it hands to the runner: approval, write allowlist,
  patch size and guidelines for every call of every batch, and the tool-call budget for all of them
  together; and that it leaves the loop budget to the gate.
\<close>

section \<open>Guards\<close>

lemma coerce_idem: "coerce_approval_token raw = Some t \<Longrightarrow> coerce_approval_token (PDict t) = Some t"
  by (auto simp: coerce_approval_token_def split: pyval.splits if_splits)

lemma approval_for_tool_coerced: "approval_for_tool s n i = Some t \<Longrightarrow> coerce_approval_token (PDict t) = Some t"
  by (auto simp: approval_for_tool_def Let_def coerce_idem split: option.splits if_splits pyval.splits)

lemma then_guard_Pass: "then_guard g f = Pass i \<longleftrightarrow> (\<exists>j. g = Pass j \<and> f j = Pass i)"
  by (auto simp: then_guard_def split: guard_outcome.splits)

lemma approval_guard_Pass:
  "approval_guard cfg gen s route i = Pass j \<Longrightarrow> \<exists>d. j = dset i ''approval'' (PDict d) \<and>
     (ec_require_approval cfg \<longrightarrow> coerce_approval_token (PDict d) = Some d)"
  by (auto simp: approval_guard_def Let_def dest: approval_for_tool_coerced split: if_splits option.splits)

lemma allowlist_guard_Pass:
  "allowlist_guard cfg route i = Pass j \<Longrightarrow> j = i \<and>
     (ec_allowed_paths cfg \<noteq> [] \<longrightarrow> (\<exists>ps. apply_patch_changed_paths i = Some ps \<and>
        (\<forall>p\<in>set ps. path_matches_allowlist p (ec_allowed_paths cfg))))"
  by (auto simp: allowlist_guard_def find_None_iff split: if_splits option.splits)

lemma size_guard_Pass:
  "size_guard cfg route i = Pass j \<Longrightarrow> j = i \<and>
     (0 < ec_max_patch_bytes cfg \<longrightarrow> int (estimate_patch_bytes i) \<le> ec_max_patch_bytes cfg)"
  by (auto simp: size_guard_def Let_def split: if_splits)

text \<open>What holds of the input of a patch call that passed the guards.\<close>

definition patch_safe :: "exec_config \<Rightarrow> pydict \<Rightarrow> bool" where
  "patch_safe cfg i \<longleftrightarrow>
     (\<exists>d. dget i ''approval'' PNone = PDict d \<and>
        (ec_require_approval cfg \<longrightarrow> coerce_approval_token (PDict d) = Some d)) \<and>
     (ec_allowed_paths cfg \<noteq> [] \<longrightarrow> (\<exists>ps. apply_patch_changed_paths i = Some ps \<and>
        (\<forall>p\<in>set ps. path_matches_allowlist p (ec_allowed_paths cfg)))) \<and>
     (0 < ec_max_patch_bytes cfg \<longrightarrow> int (str_bytes (dget i ''patch'' PNone)) \<le> ec_max_patch_bytes cfg \<and>
        ((\<nexists>p. dget i ''patch'' PNone = PStr p) \<longrightarrow>
           int (changes_bytes (as_list (dget i ''changes'' (PList [])))) \<le> ec_max_patch_bytes cfg))"

lemma estimate_bounds:
  "str_bytes (dget i ''patch'' PNone) \<le> estimate_patch_bytes i"
  "(\<nexists>p. dget i ''patch'' PNone = PStr p) \<Longrightarrow>
     changes_bytes (as_list (dget i ''changes'' (PList []))) \<le> estimate_patch_bytes i"
  by (auto simp: estimate_patch_bytes_def str_bytes_def Let_def split: pyval.splits)

lemma call_guards_patch_safe:
  assumes "call_guards cfg gen s route ''apply_patch'' i = Pass j"
  shows "patch_safe cfg j"
proof -
  obtain a where a: "approval_guard cfg gen s route i = Pass a" "allowlist_guard cfg route a = Pass j"
    "size_guard cfg route j = Pass j"
    using assms by (auto simp: call_guards_def then_guard_Pass dest: size_guard_Pass)
  obtain d where d: "a = dset i ''approval'' (PDict d)"
    "ec_require_approval cfg \<longrightarrow> coerce_approval_token (PDict d) = Some d"
    using approval_guard_Pass [OF a(1)] by blast
  show ?thesis
    unfolding patch_safe_def
    using d allowlist_guard_Pass [OF a(2)] size_guard_Pass [OF a(3)] estimate_bounds [of j]
    by (auto dest: order_trans [OF of_nat_mono])
qed

lemma patch_safe_routed:
  assumes "patch_safe cfg i"
  shows "patch_safe cfg (as_dict (dget (outgoing_call route cp tool i) ''input'' PNone))"
  using assms
  by (auto simp: patch_safe_def outgoing_call_def apply_patch_changed_paths_def Let_def)

section \<open>Batches\<close>

text \<open>A call that may be sent under a configuration.\<close>

definition sendable :: "exec_config \<Rightarrow> Guideline list option \<Rightarrow> pydict \<Rightarrow> bool" where
  "sendable cfg gs c \<longleftrightarrow> (\<exists>route cp tool i. c = outgoing_call route cp tool i \<and>
     (tool = ''apply_patch'' \<longrightarrow> patch_safe cfg i) \<and>
     (\<forall>g. gs = Some g \<longrightarrow> (\<forall>x\<in>set g. gl_check x = ''pre'' \<and> gl_severity x = ''block'' \<longrightarrow>
        \<not> re_search (gl_regex x) (py_str (PDict i)))))"

definition guidelines_of :: "GleanAuditor option \<Rightarrow> Guideline list option" where
  "guidelines_of a = map_option ga_guidelines a"

lemma glean_pre_guidelines: "glean_pre t i a = (b, a') \<Longrightarrow> guidelines_of a' = guidelines_of a"
  by (auto simp: glean_pre_def guidelines_of_def check_pre_execution_def Let_def split: option.splits)

lemma glean_pre_Nil:
  "glean_pre t i a = ([], a') \<Longrightarrow> guidelines_of a = Some g \<Longrightarrow> x \<in> set g \<Longrightarrow> gl_check x = ''pre'' \<Longrightarrow>
     gl_severity x = ''block'' \<Longrightarrow> \<not> re_search (gl_regex x) (py_str (PDict i))"
  by (auto simp: glean_pre_def guidelines_of_def check_pre_execution_def matching_def Let_def
      is_blocking_def pre_violation_def filter_empty_conv split: option.splits)

lemma build_batch_sendable:
  assumes "build_batch cfg gen s route cp tcs calls results a = (Batch calls', results', a')"
    and "list_all (sendable cfg (guidelines_of a)) calls"
  shows "list_all (sendable cfg (guidelines_of a)) calls' \<and> guidelines_of a' = guidelines_of a \<and>
     length calls' \<le> length calls + length tcs"
  using assms
proof (induction tcs arbitrary: calls results a)
  case (Cons tc tcs)
  obtain tool i where rc: "read_call tc = Inr (tool, i)"
    using Cons.prems(1) by (cases "read_call tc") (auto split: prod.splits)
  obtain j where j: "call_guards cfg gen s route tool i = Pass j"
    using Cons.prems(1) rc by (cases "call_guards cfg gen s route tool i") auto
  obtain b a1 where g: "glean_pre tool j a = (b, a1)" by (cases "glean_pre tool j a")
  note same = glean_pre_guidelines [OF g]
  show ?case
  proof (cases "b = []")
    case True
    have "sendable cfg (guidelines_of a) (outgoing_call route cp tool j)"
      unfolding sendable_def using j call_guards_patch_safe glean_pre_Nil [OF g [unfolded True]] by blast
    then have "list_all (sendable cfg (guidelines_of a1)) (calls @ [outgoing_call route cp tool j])"
      using Cons.prems(2) same by simp
    moreover have "build_batch cfg gen s route cp tcs (calls @ [outgoing_call route cp tool j]) results a1
        = (Batch calls', results', a')"
      using Cons.prems(1) rc j g True by simp
    ultimately show ?thesis using Cons.IH same by fastforce
  next
    case False
    then show ?thesis using Cons.prems rc j g Cons.IH [of calls _ a1] same by fastforce
  qed
qed auto

lemma build_batch_guidelines:
  "build_batch cfg gen s route cp tcs calls results a = (fin, results', a') \<Longrightarrow> guidelines_of a' = guidelines_of a"
proof (induction tcs arbitrary: calls results a)
  case (Cons tc tcs)
  then show ?case
    by (auto split: sum.splits prod.splits guard_outcome.splits if_splits dest: glean_pre_guidelines)
qed simp

section \<open>Steps\<close>

text \<open>The invariant of the loop over the steps; \<open>u0\<close> is the count at its start.\<close>

definition exec_inv :: "exec_config \<Rightarrow> Guideline list option \<Rightarrow> int \<Rightarrow> exec_state \<Rightarrow> bool" where
  "exec_inv cfg gs u0 es \<longleftrightarrow>
     guidelines_of (es_auditor es) = gs \<and> list_all (list_all (sendable cfg gs)) (es_sent es) \<and>
     (\<not> es_stop es \<longrightarrow> es_used es = u0 + int (sum_list (map length (es_sent es)))) \<and>
     (0 < ec_max_tool_calls cfg \<and> es_sent es \<noteq> [] \<longrightarrow>
        u0 + int (sum_list (map length (es_sent es))) \<le> ec_max_tool_calls cfg)"

text \<open>The part of the state that every step keeps.\<close>

definition same_budgets :: "pydict \<Rightarrow> pydict \<Rightarrow> bool" where
  "same_budgets s t \<longleftrightarrow> (\<forall>k. k \<notin> {''_trace_events'', ''_scip_index_stale''} \<longrightarrow> map_of t k = map_of s k)"

lemma guidelines_glean_post: "guidelines_of (glean_post rs a) = guidelines_of a"
proof (cases a)
  case (Some x)
  have "ga_guidelines (fold (\<lambda>r a. snd (check_post_execution (gets r ''tool'' []) r a)) rs x) = ga_guidelines x"
    by (induction rs arbitrary: x) (auto simp: check_post_execution_def Let_def)
  then show ?thesis by (simp add: glean_post_def guidelines_of_def Some)
qed (simp add: glean_post_def)

lemma after_batch_Inr:
  "after_batch now route calls rs es = Inr es' \<Longrightarrow> es_sent es' = es_sent es \<and> es_stop es' = es_stop es \<and>
     es_used es' = es_used es + int (length calls) \<and> guidelines_of (es_auditor es') = guidelines_of (es_auditor es) \<and>
     same_budgets (es_state es) (es_state es')"
  by (auto simp: after_batch_def Let_def bind_r_eq_Inr guidelines_glean_post same_budgets_def append_event_map_of)

lemma step_failed_simps [simp]:
  "es_sent (step_failed es e) = es_sent es" "es_stop (step_failed es e)" "es_used (step_failed es e) = es_used es"
  "es_auditor (step_failed es e) = es_auditor es" "es_state (step_failed es e) = es_state es"
  by (simp_all add: step_failed_def)

lemma same_budgets_refl [simp]: "same_budgets s s"
  by (simp add: same_budgets_def)

lemma send_batch_inv:
  assumes "exec_inv cfg gs u0 es" "\<not> es_stop es" and "list_all (sendable cfg gs) calls"
    and "0 < ec_max_tool_calls cfg \<longrightarrow> es_used es + int (length calls) \<le> ec_max_tool_calls cfg"
  shows "exec_inv cfg gs u0 (send_batch runner client now route calls es) \<and>
     same_budgets (es_state es) (es_state (send_batch runner client now route calls es))"
proof (cases "calls = []")
  case False
  let ?es1 = "es \<lparr> es_sent := es_sent es @ [calls] \<rparr>"
  have inv1: "guidelines_of (es_auditor ?es1) = gs" "list_all (list_all (sendable cfg gs)) (es_sent ?es1)"
    "0 < ec_max_tool_calls cfg \<longrightarrow> u0 + int (sum_list (map length (es_sent ?es1))) \<le> ec_max_tool_calls cfg"
    "es_used ?es1 + int (length calls) = u0 + int (sum_list (map length (es_sent ?es1)))"
    using assms by (auto simp: exec_inv_def)
  consider (fail) e where "send_batch runner client now route calls es = step_failed ?es1 e"
    | (ok) rs es2 where "after_batch now route calls rs ?es1 = Inr es2" "send_batch runner client now route calls es = es2"
  proof (cases "bind_r (runner (trace_len (es_state es)) client calls) (\<lambda>rs. after_batch now route calls rs ?es1)")
    case (Inl e)
    then show ?thesis using False fail by (simp add: send_batch_def Let_def)
  next
    case (Inr es2)
    then show ?thesis using False ok by (auto simp: send_batch_def Let_def bind_r_eq_Inr)
  qed
  then show ?thesis
  proof cases
    case fail
    then show ?thesis using inv1 by (simp add: exec_inv_def)
  next
    case ok
    note b = after_batch_Inr [OF ok(1)]
    then show ?thesis using inv1 ok(2) assms(2) by (auto simp: exec_inv_def)
  qed
qed (use assms in \<open>simp add: send_batch_def\<close>)


lemma py_len_iter: "py_len v = Inr n \<Longrightarrow> py_iter v = Inr xs \<Longrightarrow> length xs = n"
  by (auto simp: py_len_def py_iter_def split: pyval.splits)

lemma run_tools_inv:
  assumes inv: "exec_inv cfg gs u0 es" "\<not> es_stop es"
    and bound: "0 < ec_max_tool_calls cfg \<longrightarrow> es_used es + int (length tools) \<le> ec_max_tool_calls cfg"
  shows "exec_inv cfg gs u0 (run_tools cfg runner gen client now tools es) \<and>
     same_budgets (es_state es) (es_state (run_tools cfg runner gen client now tools es))"
proof -
  let ?route = "tool_routing_metadata (es_state es) ''executor''"
  obtain fin rs a where b: "build_batch cfg gen (es_state es) ?route (es_checkpoint es) tools []
      (es_results es) (es_auditor es) = (fin, rs, a)"
    by (cases "build_batch cfg gen (es_state es) ?route (es_checkpoint es) tools [] (es_results es) (es_auditor es)")
  let ?es1 = "es \<lparr> es_results := rs, es_auditor := a \<rparr>"
  have g: "guidelines_of a = gs"
    using build_batch_guidelines [OF b] inv by (simp add: exec_inv_def)
  then have inv1: "exec_inv cfg gs u0 ?es1" using inv by (simp add: exec_inv_def)
  show ?thesis
  proof (cases fin)
    case (Batch calls)
    have gs: "guidelines_of (es_auditor es) = gs" using inv by (simp add: exec_inv_def)
    have c: "list_all (sendable cfg gs) calls" "length calls \<le> length tools"
      using build_batch_sendable [OF b [unfolded Batch]] by (simp_all add: gs)
    have "0 < ec_max_tool_calls cfg \<longrightarrow> es_used ?es1 + int (length calls) \<le> ec_max_tool_calls cfg"
      using bound c(2) by auto
    from send_batch_inv [OF inv1 _ c(1) this] show ?thesis
      using inv(2) by (simp add: run_tools_def b Batch Let_def)
  next
    case Stopped
    then show ?thesis using inv1 by (simp add: run_tools_def b Let_def exec_inv_def)
  next
    case (Raised e)
    then show ?thesis using inv1 by (simp add: run_tools_def b Let_def exec_inv_def)
  qed
qed

lemma run_step_inv:
  assumes "run_step cfg runner gen client now st es = Inr es'" and inv: "exec_inv cfg gs u0 es"
  shows "exec_inv cfg gs u0 es' \<and> same_budgets (es_state es) (es_state es')"
proof (cases "es_stop es")
  case True
  then show ?thesis using assms by (simp add: run_step_def)
next
  case False
  obtain d where d: "dict_method st ''get'' = Inr d"
    using assms(1) False by (auto simp: run_step_def bind_r_eq_Inr)
  let ?p = "dget d ''tools'' (PList [])"
  have run: "es' = (case (if 0 < ec_max_tool_calls cfg then py_len ?p else Inr 0) of
               Inl exc \<Rightarrow> step_failed es exc
             | Inr n \<Rightarrow>
                 if 0 < ec_max_tool_calls cfg \<and> ec_max_tool_calls cfg < es_used es + int n then
                   es \<lparr> es_results := es_results es @ [PDict (budget_failure_result ''batch_execute''
                          (''tool-call budget exceeded: used='' @ int_str (es_used es) @ '' planned='' @ nat_str n
                           @ '' limit='' @ int_str (ec_max_tool_calls cfg))
                          ''tool_call_budget_exceeded'' (tool_routing_metadata (es_state es) ''executor'') [])],
                        es_stop := True \<rparr>
                 else (case py_iter ?p of
                     Inl exc \<Rightarrow> step_failed es exc
                   | Inr tools \<Rightarrow> run_tools cfg runner gen client now tools es))"
    using assms(1) False d by (simp add: run_step_def Let_def)
  have stopped: "exec_inv cfg gs u0 es2 \<and> same_budgets (es_state es) (es_state es2)"
    if "es_stop es2" "es_sent es2 = es_sent es" "es_auditor es2 = es_auditor es" "es_state es2 = es_state es" for es2
    using inv that by (simp add: exec_inv_def)
  show ?thesis
  proof (cases "if 0 < ec_max_tool_calls cfg then py_len ?p else Inr 0")
    case (Inl e)
    then show ?thesis unfolding run by (simp add: stopped)
  next
    case (Inr n)
    show ?thesis
    proof (cases "0 < ec_max_tool_calls cfg \<and> ec_max_tool_calls cfg < es_used es + int n")
      case True
      then show ?thesis unfolding run Inr by (simp add: stopped)
    next
      case fits: False
      show ?thesis
      proof (cases "py_iter ?p")
        case (Inl e)
        then show ?thesis unfolding run \<open>(if _ then _ else _) = _\<close> using fits by (simp add: stopped)
      next
        case tools: (Inr tools)
        have "es_used es + int (length tools) \<le> ec_max_tool_calls cfg" if "0 < ec_max_tool_calls cfg"
          using that fits Inr py_len_iter [OF _ tools] by auto
        then have "exec_inv cfg gs u0 (run_tools cfg runner gen client now tools es) \<and>
           same_budgets (es_state es) (es_state (run_tools cfg runner gen client now tools es))"
          using run_tools_inv [OF inv \<open>\<not> es_stop es\<close>] by blast
        moreover have "es' = run_tools cfg runner gen client now tools es"
          unfolding run Inr using fits tools by (simp only: sum.case if_False)
        ultimately show ?thesis by simp
      qed
    qed
  qed
qed

lemma same_budgets_trans: "same_budgets s t \<Longrightarrow> same_budgets t u \<Longrightarrow> same_budgets s u"
  by (simp add: same_budgets_def)

lemma run_steps_inv:
  "run_steps cfg runner gen client now ss es = Inr es' \<Longrightarrow> exec_inv cfg gs u0 es \<Longrightarrow>
     exec_inv cfg gs u0 es' \<and> same_budgets (es_state es) (es_state es')"
proof (induction ss arbitrary: es)
  case (Cons s ss)
  then show ?case by (auto simp: bind_r_eq_Inr dest: run_step_inv intro: same_budgets_trans)
qed auto


section \<open>The node\<close>

lemma exec_start_inv:
  "exec_inv cfg (guidelines_of a) (es_used (exec_start a s rs)) (exec_start a s rs)"
  by (simp add: exec_inv_def exec_start_def)

lemma prune_pre_other:
  "k \<notin> {''history_policy'', ''tool_results'', ''provenance''} \<Longrightarrow>
     map_of (prune_pre_verification_history s) k = map_of s k"
  by (simp add: prune_pre_verification_history_def Let_def ensure_history_policy_other split: pyval.splits)

text \<open>Either nothing is sent and the state is kept up to the trace and the history policy, or the steps are run.\<close>

lemma executor_run_cases:
  assumes "executor_run flag url runner gen now s0 = Inr (t, sent)"
  obtains (idle) "sent = []" "\<And>k. k \<notin> {''_trace_events'', ''history_policy''} \<Longrightarrow> map_of t k = map_of s0 k"
  | (ran) s rs steps es out where
    "\<And>k. k \<notin> {''_trace_events'', ''history_policy''} \<Longrightarrow> map_of s k = map_of s0 k"
    "run_steps (exec_config_of s) runner gen (exec_client url s) now steps
       (exec_start (maybe_create_glean_auditor flag) s rs) = Inr es"
    "sent = es_sent es"
    "\<And>k. k \<noteq> ''_trace_events'' \<Longrightarrow> map_of out k = map_of (exec_out s es) k"
    "t = prune_pre_verification_history out"
proof (cases "py_bool (dget s0 ''_runner_enabled'' (PBool True))")
  case False
  then show thesis using assms idle by (simp add: executor_run_def)
next
  case True
  from assms True obtain s where
    s: "node_event now (ensure_history_policy s0) ''executor'' ''start'' = Inr s"
    and rest: "executor_body flag url runner gen now s = Inr (t, sent)"
    by (auto simp: executor_run_def bind_r_eq_Inr)
  have same: "map_of s k = map_of s0 k" if "k \<notin> {''_trace_events'', ''history_policy''}" for k
    using that append_event_map_of [OF s] by (simp add: ensure_history_policy_other)
  show thesis
  proof (cases "\<exists>plan. dget s ''plan'' PNone = PDict plan \<and> validate_base_url (rc_base_url (exec_client url s))")
    case False
    have "sent = [] \<and> (\<forall>k. k \<noteq> ''_trace_events'' \<longrightarrow> map_of t k = map_of s k)"
      using rest False
      by (auto simp: executor_body_def bind_r_eq_Inr append_event_map_of split: pyval.splits if_splits)
    then show thesis using idle same by auto
  next
    case True
    then obtain plan where plan: "dget s ''plan'' PNone = PDict plan" and url: "validate_base_url (rc_base_url (exec_client url s))"
      by blast
    obtain rs steps es out out' where es: "run_steps (exec_config_of s) runner gen (exec_client url s) now steps
        (exec_start (maybe_create_glean_auditor flag) s rs) = Inr es"
      and out: "(case es_auditor es of None \<Rightarrow> Inr (exec_out s es)
            | Some a \<Rightarrow> append_event now (exec_out s es) ''glean'' (glean_summary a)) = Inr out"
      and out': "node_event now out ''executor'' ''end'' = Inr out'"
      and t: "t = prune_pre_verification_history out'" "sent = es_sent es"
      using rest by (auto simp: executor_body_def execute_plan_def plan url bind_r_eq_Inr)
    have "map_of out' k = map_of (exec_out s es) k" if "k \<noteq> ''_trace_events''" for k
      using out append_event_map_of [OF out' that] that by (auto simp: append_event_map_of split: option.splits)
    then show thesis using ran [OF same es t(2) _ t(1)] by blast
  qed
qed

lemma exec_out_budgets:
  "map_of (exec_out s es) ''budgets'' = Some (PDict (dset (dset (dset (as_dict (dget s ''budgets'' (PDict [])))
     ''tool_calls_used'' (PInt (es_used es))) ''tool_calls_limit'' (PInt (ec_max_tool_calls (exec_config_of s))))
     ''patch_bytes_limit'' (PInt (ec_max_patch_bytes (exec_config_of s)))))"
  by (simp add: exec_out_def Let_def)

lemma executor_run_loop_view:
  assumes "executor_run flag url runner gen now s0 = Inr (t, sent)"
  shows "loop_view t = loop_view s0"
  using assms
proof (cases rule: executor_run_cases)
  case idle
  then show ?thesis by (simp add: loop_view_def dget_def)
next
  case (ran s rs steps es out)
  have "same_budgets s (es_state es)"
    using run_steps_inv [OF ran(2) exec_start_inv] by (simp add: exec_start_def)
  then have "map_of (exec_out s es) ''_budget_max_loops'' = map_of s ''_budget_max_loops''"
    by (simp add: exec_out_def same_budgets_def Let_def)
  then show ?thesis
    using ran(1,4,5) by (simp add: loop_view_def dget_def prune_pre_other exec_out_budgets)
qed

interpretation executor_keeps: loop_keeper "executor flag url runner gen now"
  by unfold_locales (auto simp: executor_def bind_r_eq_Inr dest: executor_run_loop_view)

lemma exec_config_cong:
  assumes "\<And>k. k \<notin> {''_trace_events'', ''history_policy''} \<Longrightarrow> map_of s k = map_of s0 k"
  shows "exec_config_of s = exec_config_of s0"
    and "es_used (exec_start a s rs) = es_used (exec_start a s0 rs)"
  using assms by (simp_all add: exec_config_of_def exec_start_def dget_def)

lemma executor_sent_inv:
  assumes "executor_run flag url runner gen now s = Inr (t, sent)"
  shows "list_all (list_all (sendable (exec_config_of s) (guidelines_of (maybe_create_glean_auditor flag)))) sent \<and>
     (0 < ec_max_tool_calls (exec_config_of s) \<and> sent \<noteq> [] \<longrightarrow>
        es_used (exec_start None s []) + int (sum_list (map length sent)) \<le> ec_max_tool_calls (exec_config_of s))"
  using assms
proof (cases rule: executor_run_cases)
  case (ran s1 rs steps es out)
  have u: "es_used (exec_start (maybe_create_glean_auditor flag) s1 rs) = es_used (exec_start None s [])"
    using exec_config_cong(2) [OF ran(1)] by (simp add: exec_start_def)
  show ?thesis
    using run_steps_inv [OF ran(2) exec_start_inv] exec_config_cong(1) [OF ran(1)] ran(3)
    unfolding u by (simp add: exec_inv_def)
qed simp

text \<open>
  C6. Every patch that the executor hands to the runner carries an approval, one of the accepted shape
  if the policy requires approvals; every path it changes matches the write allowlist if there is one,
  and paths that cannot be read from the call are refused. With a size budget the text under \<open>patch\<close> is within
  the limit, and so are the changes of a call that has no such text. The changes of a call that has both are not
  bounded, although the runner applies them: \<open>size_guard_ignores_changes\<close>.
\<close>

theorem executor_patches_guarded:
  assumes run: "executor_run flag url runner gen now s = Inr (t, sent)"
    and c: "batch \<in> set sent" "call \<in> set batch" "dget call ''tool'' PNone = PStr ''apply_patch''"
  shows "patch_safe (exec_config_of s) (as_dict (dget call ''input'' PNone))"
proof -
  have "sendable (exec_config_of s) (guidelines_of (maybe_create_glean_auditor flag)) call"
    using executor_sent_inv [OF run] c(1,2) by (auto simp: list_all_iff)
  then obtain route cp tool i where o: "call = outgoing_call route cp tool i"
    and p: "tool = ''apply_patch'' \<longrightarrow> patch_safe (exec_config_of s) i"
    unfolding sendable_def by blast
  have "tool = ''apply_patch''" using c(3) by (simp add: o outgoing_call_def Let_def)
  then show ?thesis using p patch_safe_routed by (simp add: o)
qed

definition demo_state :: pydict where
  "demo_state =
     [(''_runner_base_url'', PStr ''http://r''), (''_budget_max_tool_calls_per_loop'', PInt 2),
      (''_budget_max_patch_bytes'', PInt 100),
      (''guards'', PDict [(''require_approval_for_mutations'', PBool True), (''allowed_write_paths'', str_list [''docs/*''])]),
      (''approvals'', PDict [(''apply_patch'', PDict [(''challenge_id'', PStr ''c''), (''token'', PStr ''approve:c'')])]),
      (''plan'', PDict [(''steps'', dict_list [[(''tools'', dict_list
          [[(''tool'', PStr ''apply_patch''),
            (''input'', PDict [(''changes'', dict_list [[(''path'', PStr ''docs/a''), (''content'', PStr ''x'')]])])]])]])])]"

abbreviation demo_run :: "(pydict \<times> pydict list list) result" where
  "demo_run \<equiv> executor_run None [] (\<lambda>_ _ _. Inr []) (\<lambda>c. c) (\<lambda>_. 0) demo_state"

lemma demo_run_sends:
  obtains t batch call where "demo_run = Inr (t, [batch])" "batch = [call]" "dget call ''tool'' PNone = PStr ''apply_patch''"
proof -
  have "(case demo_run of Inr (t, [[call]]) \<Rightarrow> dget call ''tool'' PNone = PStr ''apply_patch'' | _ \<Rightarrow> False) = True"
    by code_simp
  then show thesis using that by (auto split: sum.splits prod.splits list.splits)
qed

theorem executor_patches_guarded_witness:
  "\<exists>t batch call. demo_run = Inr (t, [batch]) \<and> call \<in> set batch \<and> dget call ''tool'' PNone = PStr ''apply_patch'' \<and>
     patch_safe (exec_config_of demo_state) (as_dict (dget call ''input'' PNone))"
proof (rule demo_run_sends)
  fix t batch call
  assume a: "demo_run = Inr (t, [batch])" "batch = [call]" "dget call ''tool'' PNone = PStr ''apply_patch''"
  have "patch_safe (exec_config_of demo_state) (as_dict (dget call ''input'' PNone))"
    by (rule executor_patches_guarded [OF a(1) _ _ a(3), of batch]) (simp_all add: a(2))
  then show ?thesis using a by auto
qed

text \<open>
  C7. With a tool-call budget, the calls of all batches that one run of the executor sends, together
  with the calls used before, stay within the budget.
\<close>

theorem executor_tool_budget:
  assumes "executor_run flag url runner gen now s = Inr (t, sent)" "sent \<noteq> []"
    and "exec_as_int (dget s ''_budget_max_tool_calls_per_loop'' (PInt 0)) 0 = limit" "0 < limit"
  shows "exec_as_int (dget (as_dict (dget s ''budgets'' (PDict []))) ''tool_calls_used'' (PInt 0)) 0
           + int (sum_list (map length sent)) \<le> limit"
  using executor_sent_inv [OF assms(1)] assms(2-) by (simp add: exec_config_of_def exec_start_def Let_def)

theorem executor_tool_budget_witness:
  "\<exists>t sent. demo_run = Inr (t, sent) \<and> sent \<noteq> [] \<and> int (sum_list (map length sent)) \<le> 2"
proof (rule demo_run_sends)
  fix t batch call
  assume a: "demo_run = Inr (t, [batch])" "batch = [call]"
  have l: "exec_as_int (dget demo_state ''_budget_max_tool_calls_per_loop'' (PInt 0)) 0 = 2"
    "exec_as_int (dget (as_dict (dget demo_state ''budgets'' (PDict []))) ''tool_calls_used'' (PInt 0)) 0 = 0"
    by code_simp+
  show ?thesis using executor_tool_budget [OF a(1) _ l(1)] a l by simp
qed

text \<open>
  C8. With GLEAN enabled, the arguments of every call that is sent, before the routing metadata is
  added, match none of the blocking default guidelines.
\<close>

theorem executor_respects_glean:
  assumes run: "executor_run flag url runner gen now s = Inr (t, sent)"
    and on: "maybe_create_glean_auditor flag \<noteq> None"
    and c: "batch \<in> set sent" "call \<in> set batch"
  shows "\<exists>route cp tool i. call = outgoing_call route cp tool i \<and>
     \<not> re_search (gl_regex no_force_push) (py_str (PDict i)) \<and>
     \<not> re_search (gl_regex no_rm_rf_root) (py_str (PDict i))"
proof -
  obtain a where a: "maybe_create_glean_auditor flag = Some a" using on by blast
  have "guidelines_of (maybe_create_glean_auditor flag) = Some DEFAULT_GUIDELINES"
    using default_auditor [OF a] a by (simp add: guidelines_of_def)
  then have "sendable (exec_config_of s) (Some DEFAULT_GUIDELINES) call"
    using executor_sent_inv [OF run] c by (auto simp: list_all_iff)
  then obtain route cp tool i where "call = outgoing_call route cp tool i"
    and g: "\<forall>x\<in>set DEFAULT_GUIDELINES. gl_check x = ''pre'' \<and> gl_severity x = ''block'' \<longrightarrow>
       \<not> re_search (gl_regex x) (py_str (PDict i))"
    unfolding sendable_def by blast
  moreover have "gl_check no_force_push = ''pre'' \<and> gl_severity no_force_push = ''block'' \<and>
      gl_check no_rm_rf_root = ''pre'' \<and> gl_severity no_rm_rf_root = ''block''"
    by (simp add: no_force_push_def no_rm_rf_root_def)
  ultimately show ?thesis by (auto simp: DEFAULT_GUIDELINES_def)
qed

theorem executor_respects_glean_witness:
  "\<exists>t call. executor_run (Some ''1'') ''http://r'' (\<lambda>_ _ _. Inr []) (\<lambda>c. c) (\<lambda>_. 0)
         [(''plan'', PDict [(''steps'', dict_list [[(''tools'', dict_list [[(''tool'', PStr ''ls'')]])]])])] = Inr (t, [[call]]) \<and>
     (\<exists>route cp tool i. call = outgoing_call route cp tool i \<and> \<not> re_search (gl_regex no_force_push) (py_str (PDict i)))"
proof -
  let ?r = "executor_run (Some ''1'') ''http://r'' (\<lambda>_ _ _. Inr []) (\<lambda>c. c) (\<lambda>_. 0)
         [(''plan'', PDict [(''steps'', dict_list [[(''tools'', dict_list [[(''tool'', PStr ''ls'')]])]])])]"
  have "(case ?r of Inr (t, [[call]]) \<Rightarrow> True | _ \<Rightarrow> False) = True" by code_simp
  then obtain t call where r: "?r = Inr (t, [[call]])"
    by (auto split: sum.splits prod.splits list.splits)
  have "maybe_create_glean_auditor (Some ''1'') \<noteq> None" by code_simp
  from executor_respects_glean [OF r this, of "[call]" call] show ?thesis using r by auto
qed

text \<open>
  The size budget does not see the changes of a call that also has a text under \<open>patch\<close>: with an
  empty one, changes of any size pass the guard.
\<close>

theorem size_guard_ignores_changes:
  "size_guard cfg route (dset input ''patch'' (PStr [])) = Pass (dset input ''patch'' (PStr []))"
  by (simp add: size_guard_def estimate_patch_bytes_def utf8_len_def Let_def)

end
