(* ===== verification/Answer_Nodes.thy ===== *)
theory Answer_Nodes
  imports Verifier_Node
begin

text \<open>
  \<open>nodes/coder.py\<close> and \<open>nodes/reporter.py\<close>: the hand-off from the planner or the verifier to the executor,
  and the final answer. Both may ask a language model: \<open>stream\<close> and \<open>chat\<close> stand for the streaming and the
  plain request of the inference client (the text of the response, or the exception), and \<open>getenv\<close> for
  the process environment. Both modules hold the same function \<open>_get_inference_config\<close>.
\<close>

section \<open>The configuration of the model\<close>

record llm_request =
  lr_model :: string
  lr_api_key :: string
  lr_base_url :: string
  lr_timeout_s :: int
  lr_system_prompt :: string
  lr_user_prompt :: string

type_synonym llm_chat = "llm_request \<Rightarrow> string result"
type_synonym llm_stream = "string \<Rightarrow> llm_request \<Rightarrow> string result"
type_synonym environment = "string \<Rightarrow> string option"

definition rstrip_slash :: "string \<Rightarrow> string" where
  "rstrip_slash s = rev (dropWhile (\<lambda>c. c = CHR ''/'') (rev s))"

definition env_or_empty :: "environment \<Rightarrow> string \<Rightarrow> string" where
  "env_or_empty getenv k = (case getenv k of None \<Rightarrow> [] | Some v \<Rightarrow> v)"

definition get_inference_config :: "environment \<Rightarrow> pydict \<Rightarrow> (string \<times> string \<times> string \<times> int) option" where
  "get_inference_config getenv state =
     (let models = as_dict (dget state ''_models'' (PDict []));
          slot = as_dict (dget models ''planner'' (PDict []));
          provider = lower (strip (gets slot ''provider'' ''local''));
          model = strip (gets slot ''model'' []);
          runtime = as_dict (dget state ''_model_provider_runtime'' (PDict []));
          openai = (provider = ''openai_compatible'');
          cfg = as_dict (dget runtime (if openai then ''openai_compatible'' else ''digitalocean'') (PDict []));
          k0 = strip (py_str (or_val (dget cfg ''api_key'' PNone) (PStr [])));
          k_env = (if openai then strip (env_or_empty getenv ''OPENAI_API_KEY'')
                   else strip (or_str (env_or_empty getenv ''MODEL_ACCESS_KEY'')
                                      (env_or_empty getenv ''DIGITAL_OCEAN_MODEL_ACCESS_KEY'')));
          api_key = (if k0 = [] then k_env else k0);
          base_url = rstrip_slash (strip (gets cfg ''base_url''
                       (if openai then ''https://api.openai.com/v1'' else ''https://inference.do-ai.run/v1'')));
          timeout = int_or (dget cfg ''timeout_s'' (PInt 60)) 60
      in if provider \<in> {[], ''local''} \<or> model = [] \<or> api_key = [] \<or> base_url = []
             \<or> \<not> (prefix ''http://'' base_url \<or> prefix ''https://'' base_url)
         then None
         else Some (model, api_key, base_url, if 0 < timeout then timeout else 60))"

text \<open>With a run id the response is streamed, and the plain request is the fallback.\<close>

definition ask_llm :: "llm_stream \<Rightarrow> llm_chat \<Rightarrow> pydict \<Rightarrow> llm_request \<Rightarrow> string result" where
  "ask_llm stream chat state req =
     (case dget state ''run_id'' PNone of
        PStr r \<Rightarrow> if strip r \<noteq> [] then (case stream (strip r) req of Inr t \<Rightarrow> Inr t | Inl _ \<Rightarrow> chat req) else chat req
      | _ \<Rightarrow> chat req)"

section \<open>The coder\<close>

definition stripped_strs :: "pyval \<Rightarrow> string list" where
  "stripped_strs v = filter (\<lambda>s. s \<noteq> []) (strip_strs (as_list v))"

text \<open>Iterating over a file scope that is no collection raises; other values than lists give no paths.\<close>

definition scope_of :: "pyval \<Rightarrow> string list result" where
  "scope_of raw = bind_r (py_iter raw) (\<lambda>_. Inr (stripped_items raw))"

definition coerce_handoff :: "pyval \<Rightarrow> pydict option result" where
  "coerce_handoff raw = (case raw of
       PDict d \<Rightarrow>
         (let producer = strip (gets d ''producer'' []); consumer = strip (gets d ''consumer'' []);
              objective = strip (gets d ''objective'' []);
              budget = (let b = dget d ''retry_budget'' (PInt 1) in
                        case b of PInt i \<Rightarrow> if 0 \<le> i then b else PInt 1 | PBool _ \<Rightarrow> b | _ \<Rightarrow> PInt 1)
          in if producer = [] \<or> consumer = [] \<or> objective = [] then Inr None
             else bind_r (scope_of (dget d ''file_scope'' (PList []))) (\<lambda>scope.
               Inr (Some
                 [(''producer'', PStr producer), (''consumer'', PStr consumer), (''objective'', PStr objective),
                  (''file_scope'', str_list scope),
                  (''evidence'', dict_list (dicts_of (as_list (dget d ''evidence'' (PList []))))),
                  (''constraints'', str_list (stripped_strs (dget d ''constraints'' (PList [])))),
                  (''acceptance_checks'', str_list (stripped_strs (dget d ''acceptance_checks'' (PList [])))),
                  (''retry_budget'', budget),
                  (''provenance'', str_list (stripped_strs (dget d ''provenance'' (PList []))))])))
     | _ \<Rightarrow> Inr None)"

definition first_step :: "pydict \<Rightarrow> pydict option" where
  "first_step plan = (case dicts_of (as_list (dget plan ''steps'' (PList []))) of [] \<Rightarrow> None | s # _ \<Rightarrow> Some s)"

definition dedupe :: "string list \<Rightarrow> string list" where
  "dedupe items = dedup_first (filter (\<lambda>s. s \<noteq> []) (map strip items))"

text \<open>\<open>str(x)\<close> of every element of a list value.\<close>

definition texts :: "pyval \<Rightarrow> string list" where
  "texts v = map py_str (as_list v)"

definition coder_prompt :: "pydict \<Rightarrow> string" where
  "coder_prompt handoff =
     (let objective = strip (gets handoff ''objective'' []);
          nl = [CHR 0x0A];
          scope = join '', '' (map py_str (filter py_bool (as_list (dget handoff ''file_scope'' (PList [])))));
          details = filter (\<lambda>s. s \<noteq> []) (map (\<lambda>e. strip (gets e ''detail'' [])) (dicts_of (as_list (dget handoff ''evidence'' (PList [])))));
          evidence = take 800 (join nl details);
          constraints = take 400 (join nl (concat (map (\<lambda>c. case c of PStr s \<Rightarrow> if strip s \<noteq> [] then [s] else [] | _ \<Rightarrow> [])
                          (as_list (dget handoff ''constraints'' (PList []))))))
      in ''Objective: '' @ objective @ nl @ nl
         @ ''File scope: '' @ or_str scope ''(not specified)'' @ nl @ nl
         @ ''Evidence:'' @ nl @ or_str evidence ''(none)'' @ nl @ nl
         @ ''Constraints:'' @ nl @ or_str constraints ''(none)'' @ nl @ nl
         @ ''Produce concise patch guidance.'')"

definition coder_system_prompt :: string where
  "coder_system_prompt = ''You are a coder for a repo-aware coding assistant. Given the handoff objective, file scope, evidence, and constraints, produce a concise patch description or implementation guidance. Be specific: name the exact files, functions, and minimal changes required. Prefer the smallest correct diff.''"

definition llm_code_synthesis ::
  "environment \<Rightarrow> llm_stream \<Rightarrow> llm_chat \<Rightarrow> pydict \<Rightarrow> pydict \<Rightarrow> string option result" where
  "llm_code_synthesis getenv stream chat state handoff =
     (case get_inference_config getenv state of
        None \<Rightarrow> Inr None
      | Some (model, api_key, base_url, timeout_s) \<Rightarrow>
          bind_r (ask_llm stream chat state
              \<lparr> lr_model = model, lr_api_key = api_key, lr_base_url = base_url, lr_timeout_s = timeout_s,
                lr_system_prompt = coder_system_prompt, lr_user_prompt = coder_prompt handoff \<rparr>)
            (\<lambda>t. Inr (Some t)))"

definition evidence_entry :: "string \<Rightarrow> string \<Rightarrow> string \<Rightarrow> pydict" where
  "evidence_entry kind ref detail = [(''kind'', PStr kind), (''ref'', PStr ref), (''detail'', PStr detail)]"

text \<open>The hand-off that the coder prepares from the source hand-off, the step and the guidance.\<close>

definition coder_handoff :: "pydict \<Rightarrow> pydict \<Rightarrow> string list \<Rightarrow> string \<Rightarrow> int \<Rightarrow> pydict" where
  "coder_handoff src step files guidance budget =
     (let step_id = or_str (strip (gets step ''id'' ''step'')) ''step'';
          description = strip (gets step ''description'' []);
          outcome = strip (gets step ''expected_outcome'' []);
          evidence = dicts_of (as_list (dget src ''evidence'' (PList [])))
            @ (if description \<noteq> [] then [evidence_entry ''plan_step'' step_id description] else [])
            @ (if outcome \<noteq> [] then [evidence_entry ''expected_outcome'' step_id outcome] else [])
            @ (if guidance \<noteq> [] then [evidence_entry ''llm_guidance'' step_id (take 600 guidance)] else []);
          constraints = texts (dget src ''constraints'' (PList [])) @ [''Execute only the current step'' @ [quote1] @ ''s planned tools.''];
          checks0 = texts (dget src ''acceptance_checks'' (PList []));
          checks = (if outcome \<noteq> [] \<and> outcome \<notin> set checks0 then checks0 @ [outcome] else checks0)
      in [(''producer'', PStr ''coder''), (''consumer'', PStr ''executor''),
          (''objective'', PStr ''Execute the bounded tool sequence prepared by the coder for the current step.''),
          (''file_scope'', str_list (dedupe (texts (dget src ''file_scope'' (PList [])) @ files))),
          (''evidence'', dict_list evidence), (''constraints'', str_list (dedupe constraints)),
          (''acceptance_checks'', str_list (dedupe checks)), (''retry_budget'', PInt budget),
          (''provenance'', str_list (dedupe (texts (dget src ''provenance'' (PList [])) @ [''coder:'' @ step_id])))])"

definition source_handoff :: "pydict \<Rightarrow> pydict \<Rightarrow> pydict option result" where
  "source_handoff state step =
     bind_r (coerce_handoff (dget state ''active_handoff'' PNone)) (\<lambda>active.
     bind_r (coerce_handoff (dget step ''handoff'' PNone)) (\<lambda>step_handoff.
       Inr (case active of
              Some a \<Rightarrow> if dget a ''consumer'' PNone = PStr ''coder'' then Some a else step_handoff
            | None \<Rightarrow> step_handoff)))"

definition coder_end :: "clock \<Rightarrow> pydict \<Rightarrow> string \<Rightarrow> pydict result" where
  "coder_end now state handoff =
     append_event now state ''node'' [(''name'', PStr ''coder''), (''phase'', PStr ''end''), (''handoff'', PStr handoff)]"

definition coder_prepare ::
  "environment \<Rightarrow> llm_stream \<Rightarrow> llm_chat \<Rightarrow> clock \<Rightarrow> pydict \<Rightarrow> pydict \<Rightarrow> pydict \<Rightarrow> pydict result" where
  "coder_prepare getenv stream chat now state step src =
     bind_r (scope_of (dget step ''files_touched'' (PList []))) (\<lambda>files.
     bind_r (int_or_zero (dget src ''retry_budget'' (PInt 1))) (\<lambda>budget.
       let guidance = (case llm_code_synthesis getenv stream chat state src of Inr (Some g) \<Rightarrow> g | _ \<Rightarrow> []);
           step_id = or_str (strip (gets step ''id'' ''step'')) ''step''
       in append_event now
            (dset (dset state ''active_handoff'' (PDict (coder_handoff src step files guidance budget)))
               ''retry_target'' PNone)
            ''node'' [(''name'', PStr ''coder''), (''phase'', PStr ''end''),
                      (''handoff_consumer'', PStr ''executor''), (''step_id'', PStr step_id)]))"

definition coder :: "environment \<Rightarrow> llm_stream \<Rightarrow> llm_chat \<Rightarrow> clock \<Rightarrow> pydict \<Rightarrow> pydict result" where
  "coder getenv stream chat now state0 =
     bind_r (node_event now state0 ''coder'' ''start'') (\<lambda>state.
       case first_step (as_dict (dget state ''plan'' (PDict []))) of
         None \<Rightarrow> coder_end now state ''none''
       | Some step \<Rightarrow>
           bind_r (source_handoff state step) (\<lambda>src.
             case src of
               None \<Rightarrow> coder_end now state ''pass_through''
             | Some h \<Rightarrow>
                 if dget h ''consumer'' PNone \<noteq> PStr ''coder'' then coder_end now state ''pass_through''
                 else coder_prepare getenv stream chat now state step h))"

section \<open>The reporter\<close>

definition summarize_tool_result :: "pydict \<Rightarrow> string" where
  "summarize_tool_result tr =
     (let nl = [CHR 0x0A]; out = take 500 (gets tr ''stdout'' []); err = take 200 (gets tr ''stderr'' [])
      in ''['' @ gets tr ''tool'' ''unknown'' @ ''] ok='' @ py_str (dget tr ''ok'' (PBool True))
         @ (if out \<noteq> [] then nl @ ''stdout: '' @ out else [])
         @ (if err \<noteq> [] then nl @ ''stderr: '' @ err else []))"

definition summarize_results :: "pyval list \<Rightarrow> string" where
  "summarize_results tool_results =
     take 2000 (join [CHR 0x0A, CHR 0x0A] (map summarize_tool_result (dicts_of tool_results)))"

definition unmet_criteria :: "pydict \<Rightarrow> string list" where
  "unmet_criteria verification =
     filter (\<lambda>s. s \<noteq> []) (map (\<lambda>e. strip (gets e ''criterion'' []))
       (filter result_failed (dicts_of (as_list (dget verification ''acceptance_checks'' (PList []))))))"

definition structured_summary :: "pydict \<Rightarrow> string result" where
  "structured_summary state =
     (let tool_results = dget state ''tool_results'' (PList []);
          verification = as_dict (dget state ''verification'' (PDict []));
          show_key = (\<lambda>k label. if k \<in> fst ` set verification then [label @ py_str (dget verification k PNone)] else []);
          unmet = unmet_criteria verification;
          halt_reason = strip (gets state ''halt_reason'' [])
      in bind_r (dict_method (dget state ''repo_context'' (PDict [])) ''get'') (\<lambda>repo_context.
         bind_r (if py_bool tool_results then bind_r (py_len tool_results) (\<lambda>n. Inr [''tool_calls: '' @ nat_str n])
                 else Inr []) (\<lambda>calls.
           Inr (join [CHR 0x0A]
             ([''intent: '' @ py_str (dget state ''intent'' PNone),
               ''repo_root: '' @ py_str (dget repo_context ''repo_root'' PNone),
               ''top_level: '' @ py_str (dget repo_context ''top_level'' PNone)]
              @ calls @ show_key ''ok'' ''verification_ok: '' @ show_key ''acceptance_ok'' ''acceptance_ok: ''
              @ (if unmet \<noteq> [] then [''acceptance_unmet: '' @ py_str (str_list unmet)] else [])
              @ (if halt_reason \<noteq> [] then [''halt_reason: '' @ halt_reason] else []))))))"

definition reporter_system_prompt :: string where
  "reporter_system_prompt = ''You are a reporter for a repo-aware coding assistant. Given the user'' @ [quote1] @ ''s request and the tool results gathered, produce a direct, complete, human-readable answer. Be specific: include file names, line numbers, function names, and code snippets where relevant. If the request was a code change, confirm what was changed and whether tests passed.''"

definition llm_synthesis :: "environment \<Rightarrow> llm_stream \<Rightarrow> llm_chat \<Rightarrow> pydict \<Rightarrow> string option result" where
  "llm_synthesis getenv stream chat state =
     (case get_inference_config getenv state of
        None \<Rightarrow> Inr None
      | Some (model, api_key, base_url, timeout_s) \<Rightarrow>
          let nl = [CHR 0x0A];
              prompt = ''Request: '' @ strip (gets state ''request'' []) @ nl @ nl @ ''Tool results:'' @ nl
                @ summarize_results (as_list (dget state ''tool_results'' (PList []))) @ nl @ nl
                @ ''Produce the final answer.''
          in bind_r (ask_llm stream chat state
              \<lparr> lr_model = model, lr_api_key = api_key, lr_base_url = base_url, lr_timeout_s = timeout_s,
                lr_system_prompt = reporter_system_prompt, lr_user_prompt = prompt \<rparr>)
            (\<lambda>t. Inr (Some t)))"

fun exn_type :: "exn \<Rightarrow> string" where
  "exn_type (ValueError m) = ''ValueError''"
| "exn_type (TypeError m) = ''TypeError''"
| "exn_type (AttributeError m) = ''AttributeError''"
| "exn_type (KeyError m) = ''KeyError''"
| "exn_type (RuntimeError m) = ''RuntimeError''"
| "exn_type (OSError m) = ''OSError''"
| "exn_type (OverflowError m) = ''OverflowError''"
| "exn_type (OtherError n m) = n"

definition final_answer :: "environment \<Rightarrow> llm_stream \<Rightarrow> llm_chat \<Rightarrow> pydict \<Rightarrow> string" where
  "final_answer getenv stream chat state =
     (let (answer, llm_error) = (case llm_synthesis getenv stream chat state of
              Inr (Some t) \<Rightarrow> (t, []) | Inr None \<Rightarrow> ([], [])
            | Inl e \<Rightarrow> ([], ''llm_error: '' @ exn_type e @ '': '' @ exn_str e))
      in if answer \<noteq> [] then answer
         else case structured_summary state of
             Inr summary \<Rightarrow> if llm_error \<noteq> [] then summary @ [CHR 0x0A] @ llm_error else summary
           | Inl e \<Rightarrow> ''error: reporter failed: '' @ exn_str e)"

definition reporter :: "environment \<Rightarrow> llm_stream \<Rightarrow> llm_chat \<Rightarrow> clock \<Rightarrow> pydict \<Rightarrow> pydict result" where
  "reporter getenv stream chat now state0 =
     bind_r (node_event now state0 ''reporter'' ''start'') (\<lambda>state.
       node_event now (dset state ''final'' (PStr (final_answer getenv stream chat state))) ''reporter'' ''end'')"

section \<open>Properties\<close>

lemma set_dedup_first: "set (dedup_first xs) = set xs" and distinct_dedup_first: "distinct (dedup_first xs)"
proof -
  have "set (fold (\<lambda>x acc. if x \<in> set acc then acc else acc @ [x]) xs acc) = set acc \<union> set xs \<and>
     (distinct acc \<longrightarrow> distinct (fold (\<lambda>x acc. if x \<in> set acc then acc else acc @ [x]) xs acc))" for acc
    by (induction xs arbitrary: acc) auto
  then show "set (dedup_first xs) = set xs" "distinct (dedup_first xs)"
    by (simp_all add: dedup_first_def)
qed

lemma coder_end_keys: "coder_end now s h = Inr t \<Longrightarrow> k \<noteq> ''_trace_events'' \<Longrightarrow> map_of t k = map_of s k"
  by (simp add: coder_end_def append_event_map_of)

lemma coder_prepare_keys:
  "coder_prepare getenv stream chat now s step src = Inr t \<Longrightarrow>
     k \<notin> {''_trace_events'', ''active_handoff'', ''retry_target''} \<Longrightarrow> map_of t k = map_of s k"
  by (auto simp: coder_prepare_def bind_r_eq_Inr Let_def append_event_map_of)

lemma coder_cases:
  assumes "coder getenv stream chat now s0 = Inr t"
  obtains (keeps) "\<And>k. k \<noteq> ''_trace_events'' \<Longrightarrow> map_of t k = map_of s0 k"
  | (prepares) s step src where "\<And>k. k \<noteq> ''_trace_events'' \<Longrightarrow> map_of s k = map_of s0 k"
      "coder_prepare getenv stream chat now s step src = Inr t" "dget src ''consumer'' PNone = PStr ''coder''"
      "first_step (as_dict (dget s0 ''plan'' (PDict []))) = Some step" "source_handoff s0 step = Inr (Some src)"
proof -
  obtain s where s: "node_event now s0 ''coder'' ''start'' = Inr s"
    using assms by (auto simp: coder_def bind_r_eq_Inr)
  have same: "map_of s k = map_of s0 k" if "k \<noteq> ''_trace_events''" for k
    using append_event_map_of [OF s that] .
  consider h where "coder_end now s h = Inr t"
    | step src where "coder_prepare getenv stream chat now s step src = Inr t" "dget src ''consumer'' PNone = PStr ''coder''"
      "first_step (as_dict (dget s ''plan'' (PDict []))) = Some step" "source_handoff s step = Inr (Some src)"
    using assms by (auto simp: coder_def s bind_r_eq_Inr split: option.splits if_splits)
  then show thesis
  proof cases
    case 1
    then show thesis using keeps coder_end_keys same by metis
  next
    case 2
    have "dget s ''plan'' (PDict []) = dget s0 ''plan'' (PDict [])"
      and "source_handoff s step = source_handoff s0 step"
      by (simp_all add: dget_def same source_handoff_def)
    then show thesis using prepares [OF same 2(1,2)] 2(3,4) by simp
  qed
qed

interpretation coder_keeps: loop_keeper "coder getenv stream chat now"
proof
  fix s t
  assume "coder getenv stream chat now s = Inr t"
  then show "loop_view t = loop_view s"
  proof (cases rule: coder_cases)
    case keeps
    then show ?thesis by (simp add: loop_view_def dget_def)
  next
    case (prepares s1 step src)
    then show ?thesis by (simp add: loop_view_def dget_def coder_prepare_keys)
  qed
qed

text \<open>
  The coder either leaves the state as it is, up to the trace, or clears the retry target and
  hands over to the executor: the hand-off keeps the whole file scope of its source, without
  repetitions and blanks, and contains the constraint to run only the planned tools.
\<close>

theorem coder_hands_over:
  assumes "coder getenv stream chat now s = Inr t"
    and "map_of t ''active_handoff'' \<noteq> map_of s ''active_handoff'' \<or> map_of t ''retry_target'' \<noteq> map_of s ''retry_target''"
  shows "\<exists>h src step. first_step (as_dict (dget s ''plan'' (PDict []))) = Some step \<and>
     source_handoff s step = Inr (Some src) \<and> dget t ''active_handoff'' PNone = PDict h \<and> dget h ''consumer'' PNone = PStr ''executor'' \<and>
     dget t ''retry_target'' PNone = PNone \<and> dget src ''consumer'' PNone = PStr ''coder'' \<and>
     distinct (texts (dget h ''file_scope'' PNone)) \<and>
     strip ` set (texts (dget src ''file_scope'' (PList []))) - {[]} \<subseteq> set (texts (dget h ''file_scope'' PNone)) \<and>
     ''Execute only the current step'' @ [quote1] @ ''s planned tools.'' \<in> set (texts (dget h ''constraints'' PNone))"
  using assms(1)
proof (cases rule: coder_cases)
  case keeps
  then show ?thesis using assms(2) by simp
next
  case (prepares s1 step src)
  from prepares(2) obtain files budget guidance where
    ev: "\<exists>d. append_event now (dset (dset s1 ''active_handoff'' (PDict (coder_handoff src step files guidance budget)))
            ''retry_target'' PNone) ''node'' d = Inr t"
    by (auto simp: coder_prepare_def bind_r_eq_Inr Let_def)
  let ?h = "coder_handoff src step files guidance budget"
  let ?c = "''Execute only the current step'' @ [quote1] @ ''s planned tools.''"
  have 1: "dget t ''active_handoff'' PNone = PDict ?h" "dget t ''retry_target'' PNone = PNone"
    using ev by (auto simp: append_event_other)
  have map_str: "map (py_str \<circ> PStr) xs = xs" for xs by (induction xs) auto
  have 2: "texts (dget ?h ''file_scope'' PNone) = dedupe (texts (dget src ''file_scope'' (PList [])) @ files)"
    "texts (dget ?h ''constraints'' PNone) = dedupe (texts (dget src ''constraints'' (PList [])) @ [?c])"
    by (simp_all add: coder_handoff_def texts_def Let_def map_str)
  have c: "strip ?c = ?c" by code_simp
  then have "?c \<in> set (dedupe (texts (dget src ''constraints'' (PList [])) @ [?c]))"
    by (simp add: dedupe_def set_dedup_first)
  moreover have "dget ?h ''consumer'' PNone = PStr ''executor''" by (simp add: coder_handoff_def Let_def)
  ultimately show ?thesis
    using 1 2 prepares(3-5) distinct_dedup_first
    by (auto simp: dedupe_def set_dedup_first intro!: exI [of _ ?h] exI [of _ src] exI [of _ step])
qed

theorem coder_hands_over_witness:
  "\<exists>t h. coder (\<lambda>_. None) (\<lambda>_ _. Inr []) (\<lambda>_. Inr []) (\<lambda>_. 0)
       [(''plan'', PDict [(''steps'', dict_list [[(''id'', PStr ''s1'')]])]),
        (''active_handoff'', PDict [(''producer'', PStr ''verifier''), (''consumer'', PStr ''coder''), (''objective'', PStr ''fix'')])] = Inr t \<and>
     dget t ''active_handoff'' PNone = PDict h \<and> dget h ''consumer'' PNone = PStr ''executor''"
proof -
  let ?s = "[(''plan'', PDict [(''steps'', dict_list [[(''id'', PStr ''s1'')]])]),
        (''active_handoff'', PDict [(''producer'', PStr ''verifier''), (''consumer'', PStr ''coder''), (''objective'', PStr ''fix'')])]"
  let ?c = "coder (\<lambda>_. None) (\<lambda>_ _. Inr []) (\<lambda>_. Inr []) (\<lambda>_. 0) ?s"
  have "(case ?c of Inr t \<Rightarrow> map_of t ''retry_target'' \<noteq> map_of ?s ''retry_target'' | _ \<Rightarrow> False) = True" by code_simp
  then obtain t where t: "?c = Inr t" "map_of t ''retry_target'' \<noteq> map_of ?s ''retry_target''" by (cases ?c) auto
  show ?thesis using coder_hands_over [OF t(1)] t by blast
qed

lemma join_neq_Nil: "x \<noteq> [] \<Longrightarrow> join sep (x # xs) \<noteq> []"
  by (cases xs) auto

lemma final_answer_neq_Nil: "final_answer getenv stream chat s \<noteq> []"
proof -
  have "structured_summary s = Inr t \<Longrightarrow> t \<noteq> []" for t
    by (auto simp: structured_summary_def bind_r_eq_Inr Let_def join_neq_Nil)
  then show ?thesis
    unfolding final_answer_def Let_def by (auto split: prod.splits sum.splits)
qed

text \<open>
  The reporter always answers: whatever the model does, on every state whose trace can be extended
  it returns, its answer is a text that is not empty, and it changes nothing else but the trace.
\<close>

theorem reporter_answers:
  assumes "trace_ok s"
  shows "\<exists>t f. reporter getenv stream chat now s = Inr t \<and> dget t ''final'' PNone = PStr f \<and> f \<noteq> [] \<and>
     (\<forall>k. k \<notin> {''final'', ''_trace_events''} \<longrightarrow> map_of t k = map_of s k)"
proof -
  obtain s1 where s1: "node_event now s ''reporter'' ''start'' = Inr s1" "trace_ok s1"
    using append_event_total [OF assms] by blast
  let ?s2 = "dset s1 ''final'' (PStr (final_answer getenv stream chat s1))"
  have "trace_ok ?s2" using s1(2) by simp
  then obtain t where t: "node_event now ?s2 ''reporter'' ''end'' = Inr t"
    using append_event_total by blast
  have "dget t ''final'' PNone = PStr (final_answer getenv stream chat s1)"
    using append_event_other [OF t] by simp
  moreover have "map_of t k = map_of s k" if "k \<notin> {''final'', ''_trace_events''}" for k
    using that append_event_map_of [OF t] append_event_map_of [OF s1(1)] by simp
  ultimately show ?thesis using s1(1) t final_answer_neq_Nil by (auto simp: reporter_def)
qed

theorem reporter_answers_witness:
  "\<exists>t f. reporter (\<lambda>_. None) (\<lambda>_ _. Inl (RuntimeError [])) (\<lambda>_. Inl (RuntimeError [])) (\<lambda>_. 0) [] = Inr t \<and>
     dget t ''final'' PNone = PStr f \<and> f \<noteq> []"
  using reporter_answers [of "[]" "\<lambda>_. None" "\<lambda>_ _. Inl (RuntimeError [])" "\<lambda>_. Inl (RuntimeError [])" "\<lambda>_. 0"]
  by (auto simp: trace_ok_def)

end
