(* ===== verification/Meta_Graph.thy ===== *)
theory Meta_Graph
  imports Py_Text
begin

text \<open>
  The dependency graph of \<open>meta_graph.py\<close>: tasks, the graph with its own copy of the edges, the cycle
  check by Kahn's algorithm, the mutations with their rollback, the queries, and patches. The check is
  proved to accept exactly the acyclic graphs. Time stamps and log messages are left out.

  A Python set has no order; where the source iterates over the set of task ids the model iterates in
  the order of the task list. What the check answers does not depend on that order.
\<close>

section \<open>Tasks and graphs\<close>

datatype task_status = Pending | Running | Success | Failed | Skipped

record SubAgentTask =
  task_id :: string
  description :: string
  depends_on :: "string list"
  input_state :: pydict
  status :: task_status
  task_result :: "pydict option"
  task_error :: "string option"

record DependencyPatch =
  add_edges :: "(string \<times> string) list"
  remove_edges :: "(string \<times> string) list"

record DependencyGraph =
  dg_ids :: "string list"
  dg_deps :: "(string \<times> string list) list"

definition deps_of :: "DependencyGraph \<Rightarrow> string \<Rightarrow> string list" where
  "deps_of g t = (case map_of (dg_deps g) t of None \<Rightarrow> [] | Some ds \<Rightarrow> ds)"

section \<open>The cycle check\<close>

definition unknown_dependency :: "DependencyGraph \<Rightarrow> (string \<times> string) option" where
  "unknown_dependency g =
     find (\<lambda>(t, d). d \<notin> set (dg_ids g)) (concat (map (\<lambda>(t, ds). map (Pair t) ds) (dg_deps g)))"

definition in_degree :: "(string \<times> string list) list \<Rightarrow> string \<Rightarrow> int" where
  "in_degree deps t = sum_list (map (\<lambda>(u, ds). if u = t then int (length ds) else 0) deps)"

text \<open>\<open>dependents[n]\<close>: the dependents of a node, once for every edge.\<close>

definition dependents :: "(string \<times> string list) list \<Rightarrow> string \<Rightarrow> string list" where
  "dependents deps n = concat (map (\<lambda>(t, ds). map (\<lambda>_. t) (filter (\<lambda>d. d = n) ds)) deps)"

fun relax :: "string list \<Rightarrow> (string \<Rightarrow> int) \<Rightarrow> string list \<Rightarrow> (string \<Rightarrow> int) \<times> string list" where
  "relax [] deg queue = (deg, queue)"
| "relax (t # ts) deg queue =
     (let deg' = deg(t := deg t - 1)
      in relax ts deg' (if deg' t = 0 then queue @ [t] else queue))"

lemma relax_measure:
  assumes "set ts \<subseteq> A" "finite A" "relax ts deg queue = (deg', queue')"
  shows "length queue' + card {t \<in> A. 0 < deg' t} \<le> length queue + card {t \<in> A. 0 < deg t}"
  using assms
proof (induction ts arbitrary: deg queue)
  case (Cons t ts)
  let ?d = "deg(t := deg t - 1)"
  let ?q = "if ?d t = 0 then queue @ [t] else queue"
  have r: "relax ts ?d ?q = (deg', queue')" using Cons.prems(3) by (simp add: Let_def)
  have "set ts \<subseteq> A" using Cons.prems(1) by simp
  then have "length queue' + card {t \<in> A. 0 < deg' t} \<le> length ?q + card {t \<in> A. 0 < ?d t}"
    using Cons.IH [OF _ Cons.prems(2) r] by blast
  also have "\<dots> \<le> length queue + card {t \<in> A. 0 < deg t}"
  proof (cases "deg t = 1")
    case True
    then have "{u \<in> A. 0 < deg u} = insert t {u \<in> A. 0 < ?d u}" using Cons.prems(1) by auto
    moreover have "t \<notin> {u \<in> A. 0 < ?d u}" using True by simp
    ultimately show ?thesis using True Cons.prems(2) by simp
  next
    case False
    have "card {u \<in> A. 0 < ?d u} \<le> card {u \<in> A. 0 < deg u}"
      using Cons.prems(2) by (intro card_mono) auto
    then show ?thesis using False by simp
  qed
  finally show ?case .
qed simp

lemma set_dependents: "set (dependents deps n) \<subseteq> fst ` set deps"
  by (force simp: dependents_def)

text \<open>The nodes in the order in which the loop takes them from the queue; \<open>processed\<close> counts them.\<close>

function kahn :: "(string \<times> string list) list \<Rightarrow> (string \<Rightarrow> int) \<Rightarrow> string list \<Rightarrow> string list" where
  "kahn deps deg [] = []"
| "kahn deps deg (n # queue) =
     n # (case relax (dependents deps n) deg queue of (deg', queue') \<Rightarrow> kahn deps deg' queue')"
  by pat_completeness auto
termination
proof (relation "measure (\<lambda>(deps, deg, queue). length queue + card {t \<in> fst ` set deps. 0 < deg t})")
  fix deps deg n queue deg' queue'
  assume a: "(deg', queue') = relax (dependents deps n) deg queue"
  then show "((deps, deg', queue'), (deps, deg, n # queue))
      \<in> measure (\<lambda>(deps, deg, queue). length queue + card {t \<in> fst ` set deps. 0 < deg t})"
    using relax_measure [OF set_dependents, of deps n deg queue deg' queue'] a [symmetric] by simp
qed simp

definition validate_no_cycles :: "DependencyGraph \<Rightarrow> unit result" where
  "validate_no_cycles g =
     (case unknown_dependency g of
        Some (t, d) \<Rightarrow> Inl (ValueError (''Task '' @ [quote1] @ t @ [quote1] @ '' declares unknown dependency ''
                              @ [quote1] @ d @ [quote1]))
      | None \<Rightarrow>
          let deg = in_degree (dg_deps g);
              processed = length (kahn (dg_deps g) deg (filter (\<lambda>t. deg t = 0) (dg_ids g)))
          in if processed \<noteq> length (dg_ids g)
             then Inl (ValueError ''Cycle detected in task dependency graph'') else Inr ())"

definition new_graph :: "SubAgentTask list \<Rightarrow> DependencyGraph result" where
  "new_graph tasks =
     (let ids = map task_id tasks;
          g = \<lparr> dg_ids = ids, dg_deps = map (\<lambda>t. (task_id t, depends_on t)) tasks \<rparr>
      in if \<not> distinct ids
         then Inl (ValueError (''Duplicate task_ids in task list: ''
                @ py_str (str_list (sort (remdups (filter (\<lambda>i. 1 < count_list ids i) ids))))))
         else bind_r (validate_no_cycles g) (\<lambda>_. Inr g))"

section \<open>Mutations\<close>

text \<open>
  \<open>add_edge\<close> changes the graph in place and takes the change back when the check fails: the model returns
  the graph after the call together with the outcome.
\<close>

definition set_deps :: "string \<Rightarrow> string list \<Rightarrow> DependencyGraph \<Rightarrow> DependencyGraph" where
  "set_deps t ds g = g \<lparr> dg_deps := AList.update t ds (dg_deps g) \<rparr>"

definition unknown_task :: "string \<Rightarrow> exn" where
  "unknown_task t = ValueError (''add_edge: unknown task_id '' @ [quote1] @ t @ [quote1])"

definition add_edge :: "string \<Rightarrow> string \<Rightarrow> DependencyGraph \<Rightarrow> DependencyGraph \<times> unit result" where
  "add_edge from_id to_id g =
     (if from_id \<notin> set (dg_ids g) then (g, Inl (unknown_task from_id))
      else if to_id \<notin> set (dg_ids g) then (g, Inl (unknown_task to_id))
      else if from_id \<in> set (deps_of g to_id) then (g, Inr ())
      else let g1 = set_deps to_id (deps_of g to_id @ [from_id]) g
           in case validate_no_cycles g1 of
                Inr _ \<Rightarrow> (g1, Inr ())
              | Inl e \<Rightarrow> (set_deps to_id (remove1 from_id (deps_of g1 to_id)) g1, Inl e))"

definition remove_edge :: "string \<Rightarrow> string \<Rightarrow> DependencyGraph \<Rightarrow> DependencyGraph" where
  "remove_edge from_id to_id g =
     (case map_of (dg_deps g) to_id of
        Some ds \<Rightarrow> if from_id \<in> set ds then set_deps to_id (remove1 from_id ds) g else g
      | None \<Rightarrow> g)"

definition clone_graph :: "DependencyGraph \<Rightarrow> DependencyGraph" where
  "clone_graph g = \<lparr> dg_ids = dg_ids g, dg_deps = map (\<lambda>(t, ds). (t, ds)) (dg_deps g) \<rparr>"

fun add_all :: "(string \<times> string) list \<Rightarrow> DependencyGraph \<Rightarrow> DependencyGraph result" where
  "add_all [] g = Inr g"
| "add_all ((f, t) # es) g = (case add_edge f t g of (g', Inr _) \<Rightarrow> add_all es g' | (_, Inl e) \<Rightarrow> Inl e)"

text \<open>A patch is applied to a clone, which replaces the live graph only if every addition succeeds.\<close>

definition apply_patch_to :: "DependencyPatch \<Rightarrow> DependencyGraph \<Rightarrow> DependencyGraph result" where
  "apply_patch_to p g = add_all (add_edges p) (fold (\<lambda>(f, t). remove_edge f t) (remove_edges p) (clone_graph g))"

definition maybe_apply_patch :: "bool \<Rightarrow> DependencyPatch option \<Rightarrow> DependencyGraph \<Rightarrow> DependencyGraph" where
  "maybe_apply_patch dynamic_rewiring patch g =
     (case patch of
        Some p \<Rightarrow> if dynamic_rewiring then (case apply_patch_to p g of Inr g' \<Rightarrow> g' | Inl _ \<Rightarrow> g) else g
      | None \<Rightarrow> g)"

section \<open>Queries\<close>

definition ready_tasks :: "DependencyGraph \<Rightarrow> (string \<Rightarrow> task_status) \<Rightarrow> string list \<Rightarrow> string list" where
  "ready_tasks g st completed =
     filter (\<lambda>t. st t = Pending \<and> list_all (\<lambda>d. d \<in> set completed) (deps_of g t)) (dg_ids g)"

definition all_done :: "DependencyGraph \<Rightarrow> (string \<Rightarrow> task_status) \<Rightarrow> string list \<Rightarrow> bool" where
  "all_done g st failed =
     list_all (\<lambda>t. st t \<noteq> Pending \<or> list_ex (\<lambda>d. d \<in> set failed) (deps_of g t)) (dg_ids g)"

section \<open>The cycle check accepts exactly the acyclic graphs\<close>

text \<open>The edges of a graph, and the shape that its data always has.\<close>

definition edges :: "DependencyGraph \<Rightarrow> (string \<times> string) set" where
  "edges g = {(d, t). d \<in> set (deps_of g t)}"

definition graph_wf :: "DependencyGraph \<Rightarrow> bool" where
  "graph_wf g \<longleftrightarrow> distinct (dg_ids g) \<and> map fst (dg_deps g) = dg_ids g"

definition graph_closed :: "DependencyGraph \<Rightarrow> bool" where
  "graph_closed g \<longleftrightarrow> (\<forall>t. set (deps_of g t) \<subseteq> set (dg_ids g))"

lemma deps_of_outside: "graph_wf g \<Longrightarrow> t \<notin> set (dg_ids g) \<Longrightarrow> deps_of g t = []"
  by (auto simp: deps_of_def graph_wf_def split: option.splits) (metis in_set_zipE map_of_SomeD zip_map_fst_snd)

lemma deps_of_inside: "graph_wf g \<Longrightarrow> d \<in> set (deps_of g t) \<Longrightarrow> t \<in> set (dg_ids g)"
  by (rule ccontr) (simp add: deps_of_outside)

lemma deps_of_mem: "graph_wf g \<Longrightarrow> (t, ds) \<in> set (dg_deps g) \<Longrightarrow> deps_of g t = ds"
  by (simp add: deps_of_def graph_wf_def)

lemma mem_deps_of: "graph_wf g \<Longrightarrow> t \<in> set (dg_ids g) \<Longrightarrow> (t, deps_of g t) \<in> set (dg_deps g)"
proof -
  assume g: "graph_wf g" "t \<in> set (dg_ids g)"
  then obtain ds where "(t, ds) \<in> set (dg_deps g)" unfolding graph_wf_def by (metis (no_types) fst_conv imageE list.set_map prod.collapse)
  then show ?thesis using deps_of_mem [OF g(1)] by simp
qed

lemma unknown_None: "graph_wf g \<Longrightarrow> unknown_dependency g = None \<longleftrightarrow> graph_closed g"
proof -
  assume g: "graph_wf g"
  have "unknown_dependency g = None \<longleftrightarrow> (\<forall>(t, ds)\<in>set (dg_deps g). set ds \<subseteq> set (dg_ids g))"
    by (fastforce simp: unknown_dependency_def find_None_iff)
  also have "\<dots> \<longleftrightarrow> graph_closed g"
    unfolding graph_closed_def using deps_of_mem [OF g] mem_deps_of [OF g] deps_of_outside [OF g]
    by (metis (mono_tags, lifting) case_prodI2 case_prod_conv empty_subsetI list.set(1))
  finally show ?thesis .
qed

lemma sum_list_single:
  fixes f :: "string list \<Rightarrow> int"
  shows "distinct (map fst xs) \<Longrightarrow> sum_list (map (\<lambda>(u, ds). if u = t then f ds else 0) xs)
     = (case map_of xs t of None \<Rightarrow> 0 | Some ds \<Rightarrow> f ds)"
proof (induction xs)
  case (Cons p xs)
  obtain u ds where p: "p = (u, ds)" by (cases p)
  show ?case
  proof (cases "u = t")
    case True
    then have "map_of xs t = None" using Cons.prems by (simp add: p map_of_eq_None_iff)
    then show ?thesis using Cons True by (simp add: p)
  qed (use Cons p in simp)
qed simp

lemma in_degree_eq: "graph_wf g \<Longrightarrow> in_degree (dg_deps g) t = int (length (deps_of g t))"
  using sum_list_single [of "dg_deps g" t "\<lambda>ds. int (length ds)"]
  by (simp add: in_degree_def deps_of_def graph_wf_def split: option.splits)

lemma count_dependents: "graph_wf g \<Longrightarrow> int (count_list (dependents (dg_deps g) n) t) = int (count_list (deps_of g t) n)"
proof -
  assume g: "graph_wf g"
  have c: "count_list (map (\<lambda>_. u) (filter (\<lambda>d. d = n) ds)) t = (if u = t then count_list ds n else 0)" for u ds
    by (induction ds) auto
  have "count_list (concat xss) t = sum_list (map (\<lambda>xs. count_list xs t) xss)" for xss :: "string list list"
    by (induction xss) auto
  then have "int (count_list (dependents deps n) t) = sum_list (map (\<lambda>(u, ds). if u = t then int (count_list ds n) else 0) deps)" for deps
    by (induction deps) (auto simp: dependents_def c)
  then show ?thesis
    using sum_list_single [of "dg_deps g" t "\<lambda>ds. int (count_list ds n)"] g
    by (simp add: deps_of_def graph_wf_def split: option.splits)
qed

text \<open>Relaxing a list of dependents: the degrees drop by the multiplicities, and exactly the nodes that reach zero are queued, once each.\<close>

lemma relax_spec:
  assumes "relax ts deg queue = (deg', queue')" "\<forall>t. int (count_list ts t) \<le> deg t \<or> t \<notin> set ts"
  shows "deg' = (\<lambda>t. deg t - int (count_list ts t)) \<and>
     (\<exists>new. queue' = queue @ new \<and> distinct new \<and> set new = {t \<in> set ts. deg t = int (count_list ts t)})"
  using assms
proof (induction ts arbitrary: deg queue)
  case (Cons t ts)
  let ?d = "deg(t := deg t - 1)"
  let ?q = "if ?d t = 0 then queue @ [t] else queue"
  have r: "relax ts ?d ?q = (deg', queue')" using Cons.prems(1) by (simp add: Let_def)
  have ge: "int (count_list ts t) \<le> deg t - 1" using Cons.prems(2) by (auto dest: spec [of _ t])
  have pre: "\<forall>u. int (count_list ts u) \<le> ?d u \<or> u \<notin> set ts"
    using Cons.prems(2) ge by (auto split: if_splits)
  obtain new where d': "deg' = (\<lambda>u. ?d u - int (count_list ts u))" and q': "queue' = ?q @ new"
    and new: "distinct new" "set new = {u \<in> set ts. ?d u = int (count_list ts u)}"
    using Cons.IH [OF r pre] by blast
  have c0: "count_list ts u = 0 \<longleftrightarrow> u \<notin> set ts" for u by (simp add: count_list_0_iff)
  show ?case
  proof (cases "deg t = 1")
    case True
    then have "t \<notin> set ts" using ge c0 [of t] by simp
    then have "u \<in> set (t # new) \<longleftrightarrow> u \<in> set (t # ts) \<and> deg u = int (count_list (t # ts) u)" for u
      using new(2) True c0 [of t] by (cases "u = t") auto
    then have "set (t # new) = {u \<in> set (t # ts). deg u = int (count_list (t # ts) u)}" by blast
    moreover have "t \<notin> set new" using new(2) \<open>t \<notin> set ts\<close> by simp
    moreover have "queue' = queue @ (t # new)" using q' True by simp
    moreover have "deg' = (\<lambda>u. deg u - int (count_list (t # ts) u))" using d' by auto
    ultimately show ?thesis using new(1) by (intro conjI exI [of _ "t # new"]) auto
  next
    case False
    have "u \<in> set new \<longleftrightarrow> u \<in> set (t # ts) \<and> deg u = int (count_list (t # ts) u)" for u
      using False new(2) c0 [of t] by (cases "u = t"; cases "t \<in> set ts") auto
    then have "set new = {u \<in> set (t # ts). deg u = int (count_list (t # ts) u)}" by blast
    moreover have "queue' = queue @ new" using q' False by simp
    moreover have "deg' = (\<lambda>u. deg u - int (count_list (t # ts) u))" using d' by auto
    ultimately show ?thesis using new(1) by (intro conjI exI [of _ new]) auto
  qed
qed simp


text \<open>
  The invariant of the main loop, with \<open>P\<close> the nodes taken so far: the degree of a node counts its
  dependencies that are not in \<open>P\<close>, and a node is in \<open>P\<close> or in the queue exactly when that is zero.
\<close>

definition open_deps :: "DependencyGraph \<Rightarrow> string set \<Rightarrow> string \<Rightarrow> string list" where
  "open_deps g P t = filter (\<lambda>d. d \<notin> P) (deps_of g t)"

definition kahn_inv :: "DependencyGraph \<Rightarrow> string list \<Rightarrow> (string \<Rightarrow> int) \<Rightarrow> string list \<Rightarrow> bool" where
  "kahn_inv g P deg queue \<longleftrightarrow>
     distinct (P @ queue) \<and> set (P @ queue) = {t \<in> set (dg_ids g). open_deps g (set P) t = []} \<and>
     (\<forall>t. deg t = int (length (open_deps g (set P) t))) \<and>
     (\<forall>i<length P. set (deps_of g (P ! i)) \<subseteq> set (take i P))"

lemma length_open_insert:
  "n \<notin> P \<Longrightarrow> int (length (open_deps g (insert n P) t)) = int (length (open_deps g P t)) - int (count_list (deps_of g t) n)"
proof -
  assume "n \<notin> P"
  then have "length (filter (\<lambda>d. d \<notin> P) ds) = length (filter (\<lambda>d. d \<notin> insert n P) ds) + count_list ds n" for ds
    by (induction ds) auto
  then show ?thesis by (simp add: open_deps_def)
qed

lemma kahn_step_inv:
  assumes g: "graph_wf g" and inv: "kahn_inv g P deg (n # queue)"
    and r: "relax (dependents (dg_deps g) n) deg queue = (deg', queue')"
  shows "kahn_inv g (P @ [n]) deg' queue'"
proof -
  let ?L = "dependents (dg_deps g) n"
  have nP: "n \<notin> set P" "n \<notin> set queue" and dist: "distinct (P @ queue)"
    and mem: "set (P @ n # queue) = {t \<in> set (dg_ids g). open_deps g (set P) t = []}"
    and deg: "deg t = int (length (open_deps g (set P) t))"
    and topo: "\<forall>i<length P. set (deps_of g (P ! i)) \<subseteq> set (take i P)" for t
    using inv by (auto simp: kahn_inv_def)
  have cnt: "int (count_list ?L t) = int (count_list (deps_of g t) n)" for t by (rule count_dependents [OF g])
  have deg_new: "int (length (open_deps g (insert n (set P)) t)) = deg t - int (count_list ?L t)" for t
    using length_open_insert [OF nP(1)] by (simp add: deg cnt)
  then have "int (count_list ?L t) \<le> deg t" for t by (metis diff_ge_0_iff_ge of_nat_0_le_iff)
  then obtain new where d': "deg' = (\<lambda>t. deg t - int (count_list ?L t))" and q': "queue' = queue @ new"
    and new: "distinct new" "set new = {t \<in> set ?L. deg t = int (count_list ?L t)}"
    using relax_spec [OF r] by blast
  have L: "t \<in> set ?L \<longleftrightarrow> n \<in> set (deps_of g t)" for t
    using cnt [of t] by (metis count_list_0_iff of_nat_eq_0_iff)
  have in_new: "t \<in> set new \<longleftrightarrow> n \<in> set (deps_of g t) \<and> open_deps g (insert n (set P)) t = []" for t
    using new(2) L deg_new [of t] by auto
  have old: "open_deps g (set P) t \<noteq> []" if "n \<in> set (deps_of g t)" for t
    using that nP(1) by (auto simp: open_deps_def filter_empty_conv)
  have "t \<in> set (P @ [n] @ queue') \<longleftrightarrow> t \<in> set (dg_ids g) \<and> open_deps g (insert n (set P)) t = []" for t
  proof (cases "n \<in> set (deps_of g t)")
    case True
    then have "t \<notin> set (P @ n # queue)" using mem old by blast
    moreover have "t \<in> set (dg_ids g)" using deps_of_inside [OF g True] .
    ultimately show ?thesis using in_new [of t] True q' by auto
  next
    case False
    then have "open_deps g (insert n (set P)) t = open_deps g (set P) t"
      by (auto simp: open_deps_def intro!: filter_cong)
    then show ?thesis using mem in_new [of t] False q' by (auto simp: set_eq_iff)
  qed
  moreover have "distinct (P @ [n] @ queue')"
    using dist nP new(1) in_new old mem q' by (auto simp: set_eq_iff)
  moreover have "set (deps_of g n) \<subseteq> set P"
    using mem by (auto simp: open_deps_def filter_empty_conv)
  then have "\<forall>i<length (P @ [n]). set (deps_of g ((P @ [n]) ! i)) \<subseteq> set (take i (P @ [n]))"
    using topo by (auto simp: nth_append less_Suc_eq)
  ultimately show ?thesis
    unfolding kahn_inv_def using d' deg_new by auto
qed

lemma kahn_result_inv:
  assumes g: "graph_wf g" and "kahn_inv g P deg queue"
  shows "\<exists>deg'. kahn_inv g (P @ kahn (dg_deps g) deg queue) deg' []"
  using assms(2)
proof (induction "dg_deps g" deg queue arbitrary: P rule: kahn.induct)
  case (1 deg)
  then show ?case by auto
next
  case (2 deg n queue)
  obtain deg' queue' where r: "relax (dependents (dg_deps g) n) deg queue = (deg', queue')"
    by (cases "relax (dependents (dg_deps g) n) deg queue")
  from 2(1) [OF r [symmetric] kahn_step_inv [OF g 2(2) r]] show ?case by (simp add: r)
qed

lemma kahn_final:
  assumes "graph_wf g"
  defines "P \<equiv> kahn (dg_deps g) (in_degree (dg_deps g)) (filter (\<lambda>t. in_degree (dg_deps g) t = 0) (dg_ids g))"
  obtains deg where "kahn_inv g P deg []"
proof -
  have "kahn_inv g [] (in_degree (dg_deps g)) (filter (\<lambda>t. in_degree (dg_deps g) t = 0) (dg_ids g))"
    using assms(1) by (auto simp: kahn_inv_def in_degree_eq open_deps_def graph_wf_def)
  from kahn_result_inv [OF assms(1) this] show thesis using that by (auto simp: P_def)
qed

lemma topo_acyclic:
  assumes "\<forall>i<length P. set (deps_of g (P ! i)) \<subseteq> set (take i P)" "distinct P" "\<forall>t. t \<notin> set P \<longrightarrow> deps_of g t = []"
  shows "acyclic (edges g)"
proof -
  define pos where "pos t = (THE i. i < length P \<and> P ! i = t)" for t
  have pos: "pos (P ! i) = i" if "i < length P" for i
    unfolding pos_def using that assms(2) by (auto simp: nth_eq_iff_index_eq)
  have "edges g \<subseteq> measure pos"
  proof
    fix e assume "e \<in> edges g"
    then obtain d t where e: "e = (d, t)" "d \<in> set (deps_of g t)" by (auto simp: edges_def)
    then have "t \<in> set P" using assms(3) by auto
    then obtain i where i: "i < length P" "P ! i = t" by (auto simp: in_set_conv_nth)
    then have "d \<in> set (take i P)" using assms(1) e(2) by blast
    then obtain j where "j < i" "P ! j = d" using i by (auto simp: in_set_conv_nth)
    then show "e \<in> measure pos" using e(1) i pos by auto
  qed
  then show ?thesis using wf_acyclic wf_subset [OF wf_measure] by blast
qed

lemma kahn_complete:
  assumes g: "graph_wf g" "graph_closed g" and inv: "kahn_inv g P deg []" and ac: "acyclic (edges g)"
  shows "set P = set (dg_ids g)"
proof -
  have "edges g \<subseteq> set (dg_ids g) \<times> set (dg_ids g)"
    using g(2) deps_of_inside [OF g(1)] by (auto simp: edges_def graph_closed_def)
  then have wf: "wf (edges g)" using finite_acyclic_wf ac finite_subset by blast
  have "t \<in> set (dg_ids g) \<longrightarrow> t \<in> set P" for t
  proof (induction t rule: wf_induct_rule [OF wf])
    case (1 t)
    have "d \<in> set P" if "d \<in> set (deps_of g t)" for d
      using that 1 g(2) by (auto simp: edges_def graph_closed_def)
    then have "open_deps g (set P) t = []" by (auto simp: open_deps_def filter_empty_conv)
    then show ?case using inv by (auto simp: kahn_inv_def)
  qed
  moreover have "set P \<subseteq> set (dg_ids g)" using inv by (auto simp: kahn_inv_def)
  ultimately show ?thesis by blast
qed

lemma validate_no_cycles_iff:
  assumes g: "graph_wf g"
  shows "validate_no_cycles g = Inr () \<longleftrightarrow> graph_closed g \<and> acyclic (edges g)"
proof (cases "graph_closed g")
  case True
  define P where "P = kahn (dg_deps g) (in_degree (dg_deps g)) (filter (\<lambda>t. in_degree (dg_deps g) t = 0) (dg_ids g))"
  obtain deg where inv: "kahn_inv g P deg []" using kahn_final [OF g] by (auto simp: P_def)
  have v: "validate_no_cycles g = Inr () \<longleftrightarrow> length P = length (dg_ids g)"
    using True unknown_None [OF g] by (simp add: validate_no_cycles_def P_def Let_def)
  have P: "distinct P" "set P \<subseteq> set (dg_ids g)" using inv by (auto simp: kahn_inv_def)
  have dl: "distinct (dg_ids g)" using g by (simp add: graph_wf_def)
  have len: "length P = length (dg_ids g) \<longleftrightarrow> set P = set (dg_ids g)"
    using P dl by (metis List.finite_set card_subset_eq distinct_card)
  have "acyclic (edges g)" if "set P = set (dg_ids g)"
    by (rule topo_acyclic) (use inv that deps_of_outside [OF g] in \<open>auto simp: kahn_inv_def\<close>)
  then show ?thesis using v len True kahn_complete [OF g True inv] by blast
next
  case False
  then show ?thesis using unknown_None [OF g] by (auto simp: validate_no_cycles_def split: option.splits)
qed


section \<open>Properties of the operations\<close>

text \<open>The graphs that the scheduler works on.\<close>

definition dag :: "DependencyGraph \<Rightarrow> bool" where
  "dag g \<longleftrightarrow> graph_wf g \<and> graph_closed g \<and> acyclic (edges g)"

lemma map_of_tasks: "distinct (map task_id tasks) \<Longrightarrow> t \<in> set tasks \<Longrightarrow>
    map_of (map (\<lambda>t. (task_id t, depends_on t)) tasks) (task_id t) = Some (depends_on t)"
  by (rule map_of_is_SomeI) (auto simp: comp_def)

lemma new_graph_shape:
  assumes "distinct (map task_id tasks)"
  defines "g \<equiv> \<lparr> dg_ids = map task_id tasks, dg_deps = map (\<lambda>t. (task_id t, depends_on t)) tasks \<rparr>"
  shows "graph_wf g" and "edges g = {(d, task_id t) | d t. t \<in> set tasks \<and> d \<in> set (depends_on t)}"
proof -
  show w: "graph_wf g" using assms(1) by (simp add: g_def graph_wf_def comp_def)
  have "deps_of g (task_id t) = depends_on t" if "t \<in> set tasks" for t
    using map_of_tasks [OF assms(1) that] by (simp add: g_def deps_of_def)
  moreover have "\<exists>t'\<in>set tasks. t = task_id t'" if "d \<in> set (deps_of g t)" for d t
    using deps_of_inside [OF w that] by (auto simp: g_def)
  ultimately show "edges g = {(d, task_id t) | d t. t \<in> set tasks \<and> d \<in> set (depends_on t)}"
    by (fastforce simp: edges_def)
qed

text \<open>
  C22. Building the graph of a task list succeeds exactly when no two tasks share an id, every
  dependency names a task, and the dependency relation has no cycle (a task that depends on itself
  included); repeated dependencies do no harm.
\<close>

theorem new_graph_accepts_iff:
  "(\<exists>g. new_graph tasks = Inr g) \<longleftrightarrow>
     distinct (map task_id tasks) \<and> (\<forall>t\<in>set tasks. set (depends_on t) \<subseteq> task_id ` set tasks) \<and>
     acyclic {(d, task_id t) | d t. t \<in> set tasks \<and> d \<in> set (depends_on t)}"
proof (cases "distinct (map task_id tasks)")
  case True
  let ?g = "\<lparr> dg_ids = map task_id tasks, dg_deps = map (\<lambda>t. (task_id t, depends_on t)) tasks \<rparr>"
  note sh = new_graph_shape [OF True]
  have "(\<exists>g. new_graph tasks = Inr g) \<longleftrightarrow> validate_no_cycles ?g = Inr ()"
    using True by (auto simp: new_graph_def Let_def bind_r_def split: sum.splits)
  moreover have "graph_closed ?g \<longleftrightarrow> (\<forall>t\<in>set tasks. set (depends_on t) \<subseteq> task_id ` set tasks)"
  proof -
    have "graph_closed ?g \<longleftrightarrow> (\<forall>(d, t)\<in>edges ?g. d \<in> set (dg_ids ?g))"
      by (auto simp: graph_closed_def edges_def)
    then show ?thesis unfolding sh(2) by fastforce
  qed
  ultimately show ?thesis using validate_no_cycles_iff [OF sh(1)] sh(2) True by simp
next
  case False
  then show ?thesis by (simp add: new_graph_def Let_def)
qed

lemma new_graph_dag: "new_graph tasks = Inr g \<Longrightarrow> dag g \<and> dg_ids g = map task_id tasks"
  using new_graph_shape [of tasks] validate_no_cycles_iff
  by (auto simp: new_graph_def Let_def bind_r_eq_Inr dag_def split: if_splits)

lemma new_graph_edges:
  "new_graph tasks = Inr g \<Longrightarrow> edges g = {(d, task_id t) | d t. t \<in> set tasks \<and> d \<in> set (depends_on t)}"
  using new_graph_shape [of tasks] by (auto simp: new_graph_def Let_def bind_r_eq_Inr split: if_splits)

lemma deps_of_set_deps: "deps_of (set_deps t ds g) u = (if u = t then ds else deps_of g u)"
  by (simp add: deps_of_def set_deps_def)

lemma set_deps_wf: "graph_wf g \<Longrightarrow> t \<in> set (dg_ids g) \<Longrightarrow> graph_wf (set_deps t ds g)"
  by (simp add: graph_wf_def set_deps_def update_keys)

lemma set_deps_back: "graph_wf g \<Longrightarrow> t \<in> set (dg_ids g) \<Longrightarrow> set_deps t (deps_of g t) (set_deps t ds g) = g"
proof -
  assume a: "graph_wf g" "t \<in> set (dg_ids g)"
  have "map_of (dg_deps g) t = Some (deps_of g t)"
    using mem_deps_of [OF a] a(1) by (simp add: graph_wf_def)
  then show ?thesis by (simp add: set_deps_def update_triv)
qed

lemma add_edge_cases:
  assumes g: "dag g" and a: "add_edge f t g = (g', r)"
  shows "dag g' \<and> dg_ids g' = dg_ids g \<and>
     (r = Inr () \<longleftrightarrow> f \<in> set (dg_ids g) \<and> t \<in> set (dg_ids g) \<and> acyclic (insert (f, t) (edges g))) \<and>
     (r = Inr () \<longrightarrow> edges g' = insert (f, t) (edges g)) \<and> (r \<noteq> Inr () \<longrightarrow> g' = g)"
proof -
  have w: "graph_wf g" "graph_closed g" "acyclic (edges g)" using g by (auto simp: dag_def)
  consider "f \<notin> set (dg_ids g) \<or> t \<notin> set (dg_ids g)"
    | "f \<in> set (dg_ids g)" "t \<in> set (dg_ids g)" "f \<in> set (deps_of g t)"
    | "f \<in> set (dg_ids g)" "t \<in> set (dg_ids g)" "f \<notin> set (deps_of g t)" by blast
  then show ?thesis
  proof cases
    case 1
    then show ?thesis using a g by (auto simp: add_edge_def split: if_splits)
  next
    case 2
    then have "insert (f, t) (edges g) = edges g" by (auto simp: edges_def)
    then show ?thesis using a g w 2 by (simp add: add_edge_def)
  next
    case 3
    let ?g1 = "set_deps t (deps_of g t @ [f]) g"
    have w1: "graph_wf ?g1" by (rule set_deps_wf [OF w(1) 3(2)])
    have e1: "edges ?g1 = insert (f, t) (edges g)" by (auto simp: edges_def deps_of_set_deps split: if_splits)
    have ids: "dg_ids ?g1 = dg_ids g" by (simp add: set_deps_def)
    have c1: "graph_closed ?g1" using w(2) 3(1) by (auto simp: graph_closed_def deps_of_set_deps ids)
    have roll: "set_deps t (remove1 f (deps_of ?g1 t)) ?g1 = g"
      using set_deps_back [OF w(1) 3(2)] 3(3) by (simp add: deps_of_set_deps remove1_append)
    show ?thesis
    proof (cases "validate_no_cycles ?g1")
      case (Inl e)
      then have "\<not> acyclic (insert (f, t) (edges g))"
        using validate_no_cycles_iff [OF w1] c1 e1 by auto
      then show ?thesis using a g 3 Inl roll by (auto simp: add_edge_def Let_def)
    next
      case (Inr u)
      then have "acyclic (insert (f, t) (edges g))" using validate_no_cycles_iff [OF w1] e1 by simp
      then show ?thesis using a 3 Inr w1 c1 e1 ids by (auto simp: add_edge_def Let_def dag_def)
    qed
  qed
qed

text \<open>
  Adding an edge to an acyclic graph is atomic: it succeeds exactly when both tasks exist and the
  graph with the edge has no cycle, and then the edge is added and nothing else changes; otherwise the
  graph is left exactly as it was. In both cases the graph stays acyclic.
\<close>

theorem add_edge_atomic:
  assumes "dag g"
  shows "case add_edge f t g of (g', r) \<Rightarrow> dag g' \<and>
     (r = Inr () \<longleftrightarrow> f \<in> set (dg_ids g) \<and> t \<in> set (dg_ids g) \<and> acyclic (insert (f, t) (edges g))) \<and>
     (r = Inr () \<longrightarrow> edges g' = insert (f, t) (edges g)) \<and> (r \<noteq> Inr () \<longrightarrow> g' = g)"
  using add_edge_cases [OF assms] by (auto split: prod.splits)

lemma remove_edge_dag:
  assumes "dag g"
  shows "dag (remove_edge f t g) \<and> dg_ids (remove_edge f t g) = dg_ids g \<and> edges (remove_edge f t g) \<subseteq> edges g"
proof (cases "\<exists>ds. map_of (dg_deps g) t = Some ds \<and> f \<in> set ds")
  case True
  then obtain ds where ds: "map_of (dg_deps g) t = Some ds" "f \<in> set ds" by blast
  then have d: "deps_of g t = ds" by (simp add: deps_of_def)
  have w: "graph_wf g" "graph_closed g" "acyclic (edges g)" using assms by (auto simp: dag_def)
  have r: "remove_edge f t g = set_deps t (remove1 f ds) g" using ds by (simp add: remove_edge_def)
  have t: "t \<in> set (dg_ids g)" using deps_of_inside [OF w(1)] ds(2) d by blast
  have ids: "dg_ids (set_deps t (remove1 f ds) g) = dg_ids g" by (simp add: set_deps_def)
  have sub: "edges (remove_edge f t g) \<subseteq> edges g"
    using d by (auto simp: r edges_def deps_of_set_deps dest: notin_set_remove1 split: if_splits)
  have "graph_closed (remove_edge f t g)"
    using w(2) d set_remove1_subset [of f ds] ids by (auto simp: r graph_closed_def deps_of_set_deps)
  then show ?thesis
    using sub set_deps_wf [OF w(1) t] acyclic_subset [OF w(3) sub] r by (auto simp: dag_def set_deps_def)
next
  case False
  then have "remove_edge f t g = g" by (auto simp: remove_edge_def split: option.splits)
  then show ?thesis using assms by simp
qed

lemma clone_graph_same: "clone_graph g = g"
  by (simp add: clone_graph_def)

lemma fold_remove_dag:
  "dag g \<Longrightarrow> dag (fold (\<lambda>(f, t). remove_edge f t) es g) \<and> dg_ids (fold (\<lambda>(f, t). remove_edge f t) es g) = dg_ids g"
  by (induction es arbitrary: g) (auto simp: remove_edge_dag)

lemma add_all_dag:
  "add_all es g = Inr g' \<Longrightarrow> dag g \<Longrightarrow> dag g' \<and> dg_ids g' = dg_ids g \<and> edges g' = set es \<union> edges g"
proof (induction es arbitrary: g)
  case (Cons e es)
  obtain f t where e: "e = (f, t)" by (cases e)
  obtain g1 where g1: "add_edge f t g = (g1, Inr ())" "add_all es g1 = Inr g'"
    using Cons.prems(1) by (auto simp: e split: prod.splits sum.splits)
  then have "dag g1" "dg_ids g1 = dg_ids g" "edges g1 = insert (f, t) (edges g)"
    using add_edge_cases [OF Cons.prems(2) g1(1)] by auto
  then show ?case using Cons.IH [OF g1(2)] by (simp add: e)
qed simp

lemma maybe_apply_patch_dag:
  assumes "dag g"
  shows "dag (maybe_apply_patch b p g) \<and> dg_ids (maybe_apply_patch b p g) = dg_ids g"
proof -
  have "dag g' \<and> dg_ids g' = dg_ids g" if "apply_patch_to q g = Inr g'" for q g'
    using add_all_dag [of "add_edges q" _ g'] fold_remove_dag [OF assms, of "remove_edges q"] that
    by (auto simp: apply_patch_to_def clone_graph_same)
  then show ?thesis using assms by (auto simp: maybe_apply_patch_def split: option.splits sum.splits)
qed

text \<open>
  C23. A dependency patch is all or nothing: afterwards the graph is acyclic over the same tasks, and
  either it is unchanged or it contains every added edge.
\<close>

theorem patch_atomic:
  assumes "dag g"
  shows "dag (maybe_apply_patch rewiring (Some p) g) \<and> dg_ids (maybe_apply_patch rewiring (Some p) g) = dg_ids g \<and>
     (maybe_apply_patch rewiring (Some p) g = g \<or>
      rewiring \<and> edges (maybe_apply_patch rewiring (Some p) g)
        = set (add_edges p) \<union> edges (fold (\<lambda>(f, t). remove_edge f t) (remove_edges p) g))"
proof -
  have "edges g' = set (add_edges p) \<union> edges (fold (\<lambda>(f, t). remove_edge f t) (remove_edges p) g)"
    if "apply_patch_to p g = Inr g'" for g'
    using add_all_dag [of "add_edges p" _ g'] fold_remove_dag [OF assms, of "remove_edges p"] that
    by (auto simp: apply_patch_to_def clone_graph_same)
  then show ?thesis using maybe_apply_patch_dag [OF assms, of rewiring "Some p"]
    by (auto simp: maybe_apply_patch_def split: sum.splits)
qed

text \<open>Two tasks, the second depending on the first, as a concrete graph.\<close>

definition demo_graph :: DependencyGraph where
  "demo_graph = \<lparr> dg_ids = [''a'', ''b''], dg_deps = [(''a'', []), (''b'', [''a''])] \<rparr>"

lemma dag_demo: "dag demo_graph"
proof -
  have w: "graph_wf demo_graph" by (simp add: graph_wf_def demo_graph_def)
  have "validate_no_cycles demo_graph = Inr ()" by code_simp
  then show ?thesis using validate_no_cycles_iff [OF w] w by (simp add: dag_def)
qed

theorem add_edge_atomic_witness:
  "fst (add_edge ''b'' ''a'' demo_graph) = demo_graph \<and> dag (fst (add_edge ''b'' ''a'' demo_graph))"
proof -
  have "snd (add_edge ''b'' ''a'' demo_graph) \<noteq> Inr ()" by code_simp
  then show ?thesis using add_edge_atomic [OF dag_demo, of "''b''" "''a''"] by (auto split: prod.splits)
qed

theorem patch_atomic_witness:
  "dag (maybe_apply_patch True (Some \<lparr> add_edges = [(''b'', ''a'')], remove_edges = [(''a'', ''b'')] \<rparr>) demo_graph)"
  using patch_atomic [OF dag_demo, of True "\<lparr> add_edges = [(''b'', ''a'')], remove_edges = [(''a'', ''b'')] \<rparr>"]
  by blast

theorem new_graph_accepts_witness:
  "\<exists>g. new_graph [\<lparr> task_id = ''a'', description = [], depends_on = [], input_state = [], status = Pending,
     task_result = None, task_error = None \<rparr>] = Inr g"
  unfolding new_graph_accepts_iff by (simp add: acyclic_def)

end
