(* ===== verification/Meta_Scheduler.thy ===== *)
theory Meta_Scheduler
  imports Meta_Graph
begin

text \<open>
  The scheduler of \<open>meta_graph.py\<close> as a step relation. The event loop interleaves the scheduler with the
  tasks it has launched; code without an \<open>await\<close> in between is one step. The scheduler launches the ready
  tasks, waits for completions, collects them, and aborts or goes on; a launched task waits for the
  semaphore, runs, and ends with a result (which may carry a dependency patch), with an exception, or
  without having set its status (a failed merge of its worktree). What the sub-agents compute is open:
  every outcome is a step. Time stamps are left out.
\<close>

section \<open>Configuration and state\<close>

record sched_config =
  max_parallel :: nat
  fail_fast :: bool
  dynamic_rewiring :: bool

datatype sched_pc = Launching | Waiting | Aborting | Finished

record sched =
  sc_tasks :: "string list"
  sc_status :: "string \<Rightarrow> task_status"
  sc_dag :: DependencyGraph
  sc_completed :: "string list"
  sc_failed :: "string list"
  sc_started :: "string list"
  sc_running :: "string list"
  sc_done :: "string list"
  sc_pc :: sched_pc

definition make_config :: "int \<Rightarrow> bool \<Rightarrow> bool \<Rightarrow> sched_config" where
  "make_config n ff rw = \<lparr> max_parallel = nat (max 1 n), fail_fast = ff, dynamic_rewiring = rw \<rparr>"

definition sched_init :: "SubAgentTask list \<Rightarrow> sched result" where
  "sched_init tasks = bind_r (new_graph tasks) (\<lambda>g.
     Inr \<lparr> sc_tasks = map task_id tasks,
           sc_status = (\<lambda>i. case map_of (map (\<lambda>t. (task_id t, status t)) tasks) i of None \<Rightarrow> Pending | Some st \<Rightarrow> st),
           sc_dag = g, sc_completed = [], sc_failed = [], sc_started = [], sc_running = [], sc_done = [],
           sc_pc = Launching \<rparr>)"

section \<open>Steps\<close>

text \<open>\<open>for t in tasks: if t.status == old: t.status = new\<close>.\<close>

definition remark :: "task_status \<Rightarrow> task_status \<Rightarrow> sched \<Rightarrow> sched" where
  "remark old new s = s \<lparr> sc_status := (\<lambda>t. if t \<in> set (sc_tasks s) \<and> sc_status s t = old then new else sc_status s t) \<rparr>"

text \<open>Launch every ready task that was not launched before; with nothing in flight the run is over.\<close>

definition launch :: "sched \<Rightarrow> sched" where
  "launch s =
     (let new = filter (\<lambda>t. t \<notin> set (sc_started s)) (ready_tasks (sc_dag s) (sc_status s) (sc_completed s));
          s1 = s \<lparr> sc_started := sc_started s @ new, sc_running := sc_running s @ new \<rparr>
      in if sc_running s1 = [] then (remark Pending Skipped s1) \<lparr> sc_pc := Finished \<rparr>
         else s1 \<lparr> sc_pc := Waiting \<rparr>)"

text \<open>The tasks that hold the semaphore.\<close>

definition executing :: "sched \<Rightarrow> string list" where
  "executing s = filter (\<lambda>t. sc_status s t = Running \<and> t \<notin> set (sc_done s)) (sc_running s)"

definition set_status :: "string \<Rightarrow> task_status \<Rightarrow> sched \<Rightarrow> sched" where
  "set_status t st s = s \<lparr> sc_status := (sc_status s)(t := st) \<rparr>"

definition finish_success :: "sched_config \<Rightarrow> string \<Rightarrow> DependencyPatch option \<Rightarrow> sched \<Rightarrow> sched" where
  "finish_success cfg t patch s =
     (set_status t Success s) \<lparr> sc_done := sc_done s @ [t],
        sc_dag := maybe_apply_patch (dynamic_rewiring cfg) patch (sc_dag s) \<rparr>"

definition finish_failed :: "string \<Rightarrow> sched \<Rightarrow> sched" where
  "finish_failed t s = (set_status t Failed s) \<lparr> sc_done := sc_done s @ [t] \<rparr>"

definition finish_silent :: "string \<Rightarrow> sched \<Rightarrow> sched" where
  "finish_silent t s = s \<lparr> sc_done := sc_done s @ [t] \<rparr>"

text \<open>Collect the completions; with \<open>fail_fast\<close> a failure skips what is pending and cancels the rest.\<close>

definition collect :: "sched_config \<Rightarrow> sched \<Rightarrow> sched" where
  "collect cfg s =
     (let d = filter (\<lambda>t. t \<in> set (sc_done s)) (sc_running s);
          st = (\<lambda>t. if t \<in> set d \<and> sc_status s t = Running then Failed else sc_status s t);
          failures = filter (\<lambda>t. st t \<noteq> Success) d;
          s1 = s \<lparr> sc_status := st, sc_running := filter (\<lambda>t. t \<notin> set d) (sc_running s),
                   sc_completed := sc_completed s @ filter (\<lambda>t. st t = Success) d,
                   sc_failed := sc_failed s @ failures \<rparr>
      in if fail_fast cfg \<and> failures \<noteq> [] then (remark Pending Skipped s1) \<lparr> sc_pc := Aborting \<rparr>
         else s1 \<lparr> sc_pc := Launching \<rparr>)"

definition end_abort :: "sched \<Rightarrow> sched" where
  "end_abort s = (remark Running Skipped s) \<lparr> sc_running := [], sc_pc := Finished \<rparr>"

inductive sched_step :: "sched_config \<Rightarrow> sched \<Rightarrow> sched \<Rightarrow> bool" for cfg where
  st_launch: "sc_pc s = Launching \<Longrightarrow> sched_step cfg s (launch s)"
| st_begin: "sc_pc s = Waiting \<Longrightarrow> t \<in> set (sc_running s) \<Longrightarrow> sc_status s t = Pending \<Longrightarrow>
     length (executing s) < max_parallel cfg \<Longrightarrow> sched_step cfg s (set_status t Running s)"
| st_success: "sc_pc s \<in> {Waiting, Aborting} \<Longrightarrow> t \<in> set (executing s) \<Longrightarrow>
     sched_step cfg s (finish_success cfg t patch s)"
| st_failed: "sc_pc s \<in> {Waiting, Aborting} \<Longrightarrow> t \<in> set (executing s) \<Longrightarrow> sched_step cfg s (finish_failed t s)"
| st_silent: "sc_pc s \<in> {Waiting, Aborting} \<Longrightarrow> t \<in> set (executing s) \<Longrightarrow> sched_step cfg s (finish_silent t s)"
| st_collect: "sc_pc s = Waiting \<Longrightarrow> set (sc_done s) \<inter> set (sc_running s) \<noteq> {} \<Longrightarrow> sched_step cfg s (collect cfg s)"
| st_end_abort: "sc_pc s = Aborting \<Longrightarrow> sched_step cfg s (end_abort s)"

inductive_cases sched_stepE: "sched_step cfg s s'"

inductive reachable :: "sched_config \<Rightarrow> SubAgentTask list \<Rightarrow> sched \<Rightarrow> bool" for cfg tasks where
  r_init: "sched_init tasks = Inr s \<Longrightarrow> list_all (\<lambda>t. status t = Pending) tasks \<Longrightarrow> reachable cfg tasks s"
| r_step: "reachable cfg tasks s \<Longrightarrow> sched_step cfg s s' \<Longrightarrow> reachable cfg tasks s'"

section \<open>The result\<close>

record MetaRunResult =
  mr_succeeded :: nat
  mr_failed :: nat
  mr_skipped :: nat

definition count_status :: "task_status \<Rightarrow> sched \<Rightarrow> nat" where
  "count_status st s = length (filter (\<lambda>t. sc_status s t = st) (sc_tasks s))"

definition run_result :: "sched \<Rightarrow> MetaRunResult" where
  "run_result s = \<lparr> mr_succeeded = count_status Success s, mr_failed = count_status Failed s,
                    mr_skipped = count_status Skipped s \<rparr>"

definition all_succeeded :: "MetaRunResult \<Rightarrow> bool" where
  "all_succeeded r = (mr_failed r = 0 \<and> mr_skipped r = 0)"

section \<open>The invariant\<close>

definition sched_inv :: "sched_config \<Rightarrow> sched \<Rightarrow> bool" where
  "sched_inv cfg s \<longleftrightarrow>
     dag (sc_dag s) \<and> dg_ids (sc_dag s) = sc_tasks s \<and> distinct (sc_tasks s) \<and>
     distinct (sc_started s) \<and> set (sc_started s) \<subseteq> set (sc_tasks s) \<and>
     distinct (sc_running s) \<and> set (sc_running s) \<subseteq> set (sc_started s) \<and>
     (\<forall>t. sc_status s t \<in> {Running, Success, Failed} \<longrightarrow> t \<in> set (sc_started s)) \<and>
     (\<forall>t. sc_status s t = Skipped \<longrightarrow> sc_pc s \<in> {Aborting, Finished}) \<and>
     length (executing s) \<le> max_parallel cfg \<and>
     (\<forall>t\<in>set (sc_completed s). sc_status s t = Success) \<and>
     (\<forall>t\<in>set (sc_done s). sc_status s t \<noteq> Pending) \<and>
     set (sc_completed s) \<union> set (sc_failed s) \<subseteq> set (sc_started s) - set (sc_running s) \<and>
     (sc_pc s \<in> {Launching, Waiting} \<longrightarrow>
        (\<forall>t\<in>set (sc_started s) - set (sc_running s).
           sc_status s t = Success \<and> t \<in> set (sc_completed s) \<or> sc_status s t = Failed \<and> t \<in> set (sc_failed s))) \<and>
     (sc_pc s = Waiting \<longrightarrow> sc_running s \<noteq> []) \<and>
     (sc_pc s \<in> {Aborting, Finished} \<longrightarrow> (\<forall>t\<in>set (sc_tasks s). sc_status s t \<noteq> Pending)) \<and>
     (sc_pc s = Finished \<longrightarrow> (\<forall>t\<in>set (sc_tasks s). sc_status s t \<noteq> Running))"

text \<open>The parts of the invariant, one fact each.\<close>

lemma sched_invD:
  assumes "sched_inv cfg s"
  shows inv_dag: "dag (sc_dag s)" "dg_ids (sc_dag s) = sc_tasks s" "distinct (sc_tasks s)"
    and inv_started: "distinct (sc_started s)" "set (sc_started s) \<subseteq> set (sc_tasks s)"
    and inv_running: "distinct (sc_running s)" "set (sc_running s) \<subseteq> set (sc_started s)"
    and inv_status: "sc_status s t \<in> {Running, Success, Failed} \<Longrightarrow> t \<in> set (sc_started s)"
    and inv_skipped: "sc_status s t = Skipped \<Longrightarrow> sc_pc s \<in> {Aborting, Finished}"
    and inv_parallel: "length (executing s) \<le> max_parallel cfg"
    and inv_completed: "t \<in> set (sc_completed s) \<Longrightarrow> sc_status s t = Success"
    and inv_done: "t \<in> set (sc_done s) \<Longrightarrow> sc_status s t \<noteq> Pending"
    and inv_collected: "set (sc_completed s) \<union> set (sc_failed s) \<subseteq> set (sc_started s) - set (sc_running s)"
    and inv_open: "sc_pc s \<in> {Launching, Waiting} \<Longrightarrow> t \<in> set (sc_started s) - set (sc_running s) \<Longrightarrow>
        sc_status s t = Success \<and> t \<in> set (sc_completed s) \<or> sc_status s t = Failed \<and> t \<in> set (sc_failed s)"
    and inv_waiting: "sc_pc s = Waiting \<Longrightarrow> sc_running s \<noteq> []"
    and inv_no_pending: "sc_pc s \<in> {Aborting, Finished} \<Longrightarrow> t \<in> set (sc_tasks s) \<Longrightarrow> sc_status s t \<noteq> Pending"
    and inv_no_running: "sc_pc s = Finished \<Longrightarrow> t \<in> set (sc_tasks s) \<Longrightarrow> sc_status s t \<noteq> Running"
  using assms unfolding sched_inv_def by simp_all blast+

lemma sched_init_inv:
  assumes "sched_init tasks = Inr s" "list_all (\<lambda>t. status t = Pending) tasks"
  shows "sched_inv cfg s"
proof -
  obtain g where g: "new_graph tasks = Inr g" and s: "s = \<lparr> sc_tasks = map task_id tasks,
           sc_status = (\<lambda>i. case map_of (map (\<lambda>t. (task_id t, status t)) tasks) i of None \<Rightarrow> Pending | Some st \<Rightarrow> st),
           sc_dag = g, sc_completed = [], sc_failed = [], sc_started = [], sc_running = [], sc_done = [],
           sc_pc = Launching \<rparr>"
    using assms(1) by (auto simp: sched_init_def bind_r_eq_Inr)
  have p: "sc_status s i = Pending" for i
    using assms(2) by (auto simp: s list_all_iff split: option.splits dest!: map_of_SomeD)
  have "dag g" "dg_ids g = map task_id tasks" using new_graph_dag [OF g] by auto
  moreover from this have "distinct (map task_id tasks)" by (simp add: dag_def graph_wf_def)
  ultimately show ?thesis
    using p by (simp add: sched_inv_def s executing_def)
qed


lemma launch_inv:
  assumes inv: "sched_inv cfg s" and pc: "sc_pc s = Launching"
  shows "sched_inv cfg (launch s)"
proof -
  note I = sched_invD [OF inv]
  define new where "new = filter (\<lambda>t. t \<notin> set (sc_started s)) (ready_tasks (sc_dag s) (sc_status s) (sc_completed s))"
  define s1 where "s1 = s \<lparr> sc_started := sc_started s @ new, sc_running := sc_running s @ new \<rparr>"
  have new: "set new \<subseteq> set (sc_tasks s)" "distinct new" "set new \<inter> set (sc_started s) = {}"
    "\<forall>t\<in>set new. sc_status s t = Pending"
    using I(2,3) by (auto simp: new_def ready_tasks_def)
  have ex: "executing (s1\<lparr>sc_pc := x\<rparr>) = executing s" for x
    using new(4) by (simp add: executing_def s1_def filter_empty_conv)
  show ?thesis
  proof (cases "sc_running s1 = []")
    case False
    have l: "launch s = s1 \<lparr> sc_pc := Waiting \<rparr>" using False unfolding launch_def Let_def new_def [symmetric] s1_def [symmetric] by simp
    show ?thesis
      unfolding sched_inv_def l ex
      using I pc new False
      by (simp add: s1_def) blast
  next
    case True
    have e: "new = []" "sc_running s = []" using True by (auto simp: s1_def)
    have l: "launch s = (remark Pending Skipped s) \<lparr> sc_pc := Finished \<rparr>"
      using e [unfolded new_def] by (cases s) (simp add: launch_def Let_def remark_def fun_eq_iff)
    have op: "sc_status s t = Success \<and> t \<in> set (sc_completed s) \<or> sc_status s t = Failed \<and> t \<in> set (sc_failed s)"
      if "t \<in> set (sc_started s)" for t using I(14) [of t] that pc e by simp
    have nr: "sc_status s t \<noteq> Running" for t using I(8) [of t] op [of t] by auto
    show ?thesis
      unfolding sched_inv_def l
      using I pc op e nr by (auto simp: remark_def executing_def)
  qed
qed


lemma length_filter_fun_upd:
  assumes "distinct xs"
  shows "length (filter (\<lambda>x. (f(t := a)) x = a \<and> P x) xs) \<le> Suc (length (filter (\<lambda>x. f x = a \<and> P x) xs))"
  using assms
proof (induction xs)
  case (Cons x xs)
  show ?case
  proof (cases "x = t")
    case True
    then have "filter (\<lambda>x. (f(t := a)) x = a \<and> P x) xs = filter (\<lambda>x. f x = a \<and> P x) xs"
      using Cons.prems by (intro filter_cong) auto
    then show ?thesis using True by simp
  qed (use Cons in auto)
qed simp

lemma begin_inv:
  assumes inv: "sched_inv cfg s" and pc: "sc_pc s = Waiting" and t: "t \<in> set (sc_running s)" "sc_status s t = Pending"
    and free: "length (executing s) < max_parallel cfg"
  shows "sched_inv cfg (set_status t Running s)"
proof -
  note I = sched_invD [OF inv]
  have "length (executing (set_status t Running s)) \<le> Suc (length (executing s))"
    using length_filter_fun_upd [OF I(6), of "sc_status s" t Running] by (simp add: executing_def set_status_def)
  then have par: "length (executing (set_status t Running s)) \<le> max_parallel cfg" using free by simp
  have nd: "t \<notin> set (sc_done s)" "t \<notin> set (sc_completed s)" "t \<notin> set (sc_failed s)" "t \<in> set (sc_started s)"
    using I(7,12,13) t by auto
  show ?thesis
    unfolding sched_inv_def using I pc t nd par
    by (auto simp: set_status_def)
qed

text \<open>The three ways in which a task ends share a frame.\<close>

lemma finish_inv:
  assumes inv: "sched_inv cfg s" and pc: "sc_pc s \<in> {Waiting, Aborting}" and t: "t \<in> set (executing s)"
    and st: "st \<in> {Running, Success, Failed}" and g: "dag g" "dg_ids g = sc_tasks s"
    and s': "s' = (set_status t st s) \<lparr> sc_done := sc_done s @ [t], sc_dag := g \<rparr>"
  shows "sched_inv cfg s'"
proof -
  note I = sched_invD [OF inv]
  have tr: "t \<in> set (sc_running s)" "sc_status s t = Running" "t \<in> set (sc_started s)" "t \<notin> set (sc_completed s)"
    "t \<notin> set (sc_failed s)" using t I(7,13) by (auto simp: executing_def)
  have "length (executing s') \<le> length (executing s)"
  proof -
    have "executing s' = filter (\<lambda>u. u \<noteq> t) (executing s)"
      by (auto simp: executing_def s' set_status_def intro!: filter_cong)
    then show ?thesis by simp
  qed
  then have par: "length (executing s') \<le> max_parallel cfg" using I(10) by simp
  show ?thesis
    unfolding sched_inv_def using I pc tr st g par
    by (auto simp: s' set_status_def)
qed

lemma abort_inv:
  assumes inv: "sched_inv cfg s"
  shows "sched_inv cfg ((remark Pending Skipped s) \<lparr> sc_pc := Aborting \<rparr>)"
proof -
  note I = sched_invD [OF inv]
  have ex: "executing ((remark Pending Skipped s) \<lparr> sc_pc := Aborting \<rparr>) = executing s"
    by (auto simp: executing_def remark_def intro!: filter_cong)
  show ?thesis
    unfolding sched_inv_def ex using I by (auto simp: remark_def)
qed

lemma collect_inv:
  assumes inv: "sched_inv cfg s" and pc: "sc_pc s = Waiting"
  shows "sched_inv cfg (collect cfg s)"
proof -
  note I = sched_invD [OF inv]
  define d where "d = filter (\<lambda>t. t \<in> set (sc_done s)) (sc_running s)"
  define st where "st = (\<lambda>t. if t \<in> set d \<and> sc_status s t = Running then Failed else sc_status s t)"
  define s1 where "s1 = s \<lparr> sc_status := st, sc_running := filter (\<lambda>t. t \<notin> set d) (sc_running s),
                   sc_completed := sc_completed s @ filter (\<lambda>t. st t = Success) d,
                   sc_failed := sc_failed s @ filter (\<lambda>t. st t \<noteq> Success) d \<rparr>"
  have c: "collect cfg s = (if fail_fast cfg \<and> filter (\<lambda>t. st t \<noteq> Success) d \<noteq> []
      then (remark Pending Skipped s1) \<lparr> sc_pc := Aborting \<rparr> else s1 \<lparr> sc_pc := Launching \<rparr>)"
    unfolding collect_def Let_def s1_def st_def d_def by (rule refl)
  have d: "set d \<subseteq> set (sc_running s)" "\<forall>t\<in>set d. st t \<in> {Success, Failed}"
  proof -
    have "sc_status s t \<noteq> Pending \<and> sc_status s t \<noteq> Skipped" if "t \<in> set d" for t
      using that I(9,12) pc by (auto simp: d_def)
    then have "st t \<in> {Success, Failed}" if "t \<in> set d" for t
      using that by (cases "sc_status s t") (auto simp: st_def)
    then show "\<forall>t\<in>set d. st t \<in> {Success, Failed}" by blast
  qed (auto simp: d_def)
  have same: "st t = sc_status s t" if "t \<notin> set d" for t using that by (simp add: st_def)
  have stS: "st t = Success \<longleftrightarrow> sc_status s t = Success" for t by (simp add: st_def)
  have ex: "length (executing s1) \<le> max_parallel cfg"
  proof -
    have "executing s1 = filter (\<lambda>t. t \<notin> set d) (executing s)"
      by (auto simp: executing_def s1_def st_def intro!: filter_cong)
    then show ?thesis using I(10) by (metis length_filter_le order_trans)
  qed
  have pcx: "executing (x\<lparr>sc_pc := y\<rparr>) = executing x" for x y by (simp add: executing_def)
  have op: "st t = Success \<and> t \<in> set (sc_completed s1) \<or> st t = Failed \<and> t \<in> set (sc_failed s1)"
    if "t \<in> set (sc_started s)" "t \<notin> set (sc_running s1)" for t
  proof (cases "t \<in> set d")
    case True
    then show ?thesis using d(2) by (auto simp: s1_def)
  next
    case False
    then have "t \<notin> set (sc_running s)" using that(2) by (simp add: s1_def)
    then show ?thesis using I(14) [of t] that(1) pc same [OF False] by (auto simp: s1_def)
  qed
  have stat: "t \<in> set (sc_started s)" if "st t \<in> {Running, Success, Failed}" for t
    using that I(8) [of t] d(1) I(7) by (auto simp: st_def split: if_splits)
  have basic: "dag (sc_dag s1)" "dg_ids (sc_dag s1) = sc_tasks s1" "distinct (sc_tasks s1)" "distinct (sc_started s1)"
    "set (sc_started s1) \<subseteq> set (sc_tasks s1)" "distinct (sc_running s1)" "set (sc_running s1) \<subseteq> set (sc_started s1)"
    "sc_status s1 = st" "sc_tasks s1 = sc_tasks s" "sc_started s1 = sc_started s" "sc_done s1 = sc_done s"
    "sc_completed s1 = sc_completed s @ filter (\<lambda>t. st t = Success) d"
    "set (sc_completed s1) \<union> set (sc_failed s1) \<subseteq> set (sc_started s1) - set (sc_running s1)"
    using I d(1) by (auto simp: s1_def)
  have comp: "st t = Success" if "t \<in> set (sc_completed s1)" for t
    using that I(11) stS basic(12) by auto
  have dn: "st t \<noteq> Pending" if "t \<in> set (sc_done s)" for t using that I(12) by (auto simp: st_def)
  have nsk: "st t \<noteq> Skipped" for t using I(9) [of t] pc by (auto simp: st_def)
  have going: "sched_inv cfg (s1 \<lparr> sc_pc := Launching \<rparr>)"
  proof -
    let ?l = "s1 \<lparr> sc_pc := Launching \<rparr>"
    have f: "sc_status ?l = st" "sc_started ?l = sc_started s" "sc_done ?l = sc_done s" "sc_running ?l = sc_running s1"
      "sc_completed ?l = sc_completed s1" "sc_failed ?l = sc_failed s1" "sc_tasks ?l = sc_tasks s" "sc_dag ?l = sc_dag s1"
      "sc_pc ?l = Launching" "sc_started s1 = sc_started s" "sc_tasks s1 = sc_tasks s"
      using basic(8-11) by simp_all
    have pcs: "Launching \<notin> {Aborting, Finished}" "Launching \<noteq> Waiting" "Launching \<noteq> Finished" by simp_all
    show ?thesis
      unfolding sched_inv_def pcx f
      using basic(1-7,13) [unfolded f(10,11)] ex stat nsk comp dn op pcs by blast
  qed
  show ?thesis
  proof (cases "fail_fast cfg \<and> filter (\<lambda>t. st t \<noteq> Success) d \<noteq> []")
    case True
    then have "collect cfg s = (remark Pending Skipped (s1 \<lparr> sc_pc := Launching \<rparr>)) \<lparr> sc_pc := Aborting \<rparr>"
      unfolding c by (simp add: remark_def cong: if_cong)
    then show ?thesis using abort_inv [OF going] by simp
  next
    case False
    then show ?thesis unfolding c using going by auto
  qed
qed

lemma end_abort_inv:
  assumes inv: "sched_inv cfg s" and pc: "sc_pc s = Aborting"
  shows "sched_inv cfg (end_abort s)"
  unfolding sched_inv_def using sched_invD [OF inv] pc
  by (auto simp: end_abort_def remark_def executing_def)

lemma sched_step_inv: "sched_step cfg s s' \<Longrightarrow> sched_inv cfg s \<Longrightarrow> sched_inv cfg s'"
proof (induction rule: sched_step.induct)
  case (st_success s t patch)
  have "dag (maybe_apply_patch (dynamic_rewiring cfg) patch (sc_dag s))"
    "dg_ids (maybe_apply_patch (dynamic_rewiring cfg) patch (sc_dag s)) = sc_tasks s"
    using maybe_apply_patch_dag inv_dag(1,2) [OF st_success(3)] by simp_all
  then show ?case
    by (intro finish_inv [OF st_success(3,1,2), of Success]) (auto simp: finish_success_def set_status_def)
next
  case (st_failed s t)
  then show ?case
    by (intro finish_inv [OF st_failed(3,1,2), of Failed "sc_dag s"])
       (auto simp: finish_failed_def set_status_def inv_dag)
next
  case (st_silent s t)
  then have "sc_status s t = Running" by (simp add: executing_def)
  then show ?case
    by (intro finish_inv [OF st_silent(3,1,2), of Running "sc_dag s"])
       (auto simp: finish_silent_def set_status_def inv_dag [OF st_silent(3)] fun_upd_idem)
qed (auto intro: launch_inv begin_inv collect_inv end_abort_inv)

lemma reachable_inv: "reachable cfg tasks s \<Longrightarrow> sched_inv cfg s"
  by (induction rule: reachable.induct) (auto intro: sched_init_inv sched_step_inv)


section \<open>A concrete run\<close>

text \<open>Two tasks, the second of which depends on the first, up to the moment in which the second runs, and to the end.\<close>

definition demo_task :: "string \<Rightarrow> string list \<Rightarrow> SubAgentTask" where
  "demo_task i ds = \<lparr> task_id = i, description = [], depends_on = ds, input_state = [], status = Pending,
     task_result = None, task_error = None \<rparr>"

definition demo_tasks :: "SubAgentTask list" where
  "demo_tasks = [demo_task ''a'' [], demo_task ''b'' [''a'']]"

definition demo_config :: sched_config where
  "demo_config = make_config 1 False False"

definition demo_start :: sched where
  "demo_start = \<lparr> sc_tasks = [''a'', ''b''], sc_status = (\<lambda>_. Pending),
     sc_dag = (case new_graph demo_tasks of Inr g \<Rightarrow> g | Inl _ \<Rightarrow> \<lparr> dg_ids = [], dg_deps = [] \<rparr>),
     sc_completed = [], sc_failed = [], sc_started = [], sc_running = [], sc_done = [], sc_pc = Launching \<rparr>"

definition demo_mid :: sched where
  "demo_mid = set_status ''b'' Running (launch (collect demo_config (finish_success demo_config ''a'' None
     (set_status ''a'' Running (launch demo_start)))))"

definition demo_end :: sched where
  "demo_end = launch (collect demo_config (finish_failed ''b'' demo_mid))"

lemma demo_init: "sched_init demo_tasks = Inr demo_start" "list_all (\<lambda>t. status t = Pending) demo_tasks"
proof -
  have "(case new_graph demo_tasks of Inr _ \<Rightarrow> True | Inl _ \<Rightarrow> False) = True" by code_simp
  then show "sched_init demo_tasks = Inr demo_start"
    by (auto simp: sched_init_def demo_start_def demo_tasks_def demo_task_def fun_eq_iff split: sum.splits)
qed (simp add: demo_tasks_def demo_task_def)

lemma demo_mid_reachable: "reachable demo_config demo_tasks demo_mid"
proof -
  note r = r_step [where cfg = demo_config and tasks = demo_tasks]
  have 0: "reachable demo_config demo_tasks demo_start" by (rule r_init [OF demo_init])
  have 1: "reachable demo_config demo_tasks (launch demo_start)" by (rule r [OF 0 st_launch]) code_simp
  let ?s2 = "set_status ''a'' Running (launch demo_start)"
  have 2: "reachable demo_config demo_tasks ?s2" by (rule r [OF 1 st_begin]; code_simp)
  let ?s3 = "finish_success demo_config ''a'' None ?s2"
  have 3: "reachable demo_config demo_tasks ?s3" by (rule r [OF 2 st_success]; code_simp)
  have 4: "reachable demo_config demo_tasks (collect demo_config ?s3)" by (rule r [OF 3 st_collect]; code_simp)
  have 5: "reachable demo_config demo_tasks (launch (collect demo_config ?s3))" by (rule r [OF 4 st_launch]) code_simp
  show ?thesis unfolding demo_mid_def by (rule r [OF 5 st_begin]; code_simp)
qed

definition demo_skip :: sched where
  "demo_skip = launch (collect demo_config (finish_failed ''a'' (set_status ''a'' Running (launch demo_start))))"

lemma demo_skip_reachable: "reachable demo_config demo_tasks demo_skip"
proof -
  note r = r_step [where cfg = demo_config and tasks = demo_tasks]
  have 0: "reachable demo_config demo_tasks demo_start" by (rule r_init [OF demo_init])
  have 1: "reachable demo_config demo_tasks (launch demo_start)" by (rule r [OF 0 st_launch]) code_simp
  let ?s2 = "set_status ''a'' Running (launch demo_start)"
  have 2: "reachable demo_config demo_tasks ?s2" by (rule r [OF 1 st_begin]; code_simp)
  have 3: "reachable demo_config demo_tasks (finish_failed ''a'' ?s2)" by (rule r [OF 2 st_failed]; code_simp)
  have 4: "reachable demo_config demo_tasks (collect demo_config (finish_failed ''a'' ?s2))"
    by (rule r [OF 3 st_collect]; code_simp)
  show ?thesis unfolding demo_skip_def by (rule r [OF 4 st_launch]) code_simp
qed

lemma demo_end_reachable: "reachable demo_config demo_tasks demo_end"
proof -
  note r = r_step [where cfg = demo_config and tasks = demo_tasks]
  have 1: "reachable demo_config demo_tasks (finish_failed ''b'' demo_mid)"
    by (rule r [OF demo_mid_reachable st_failed]; code_simp)
  have 2: "reachable demo_config demo_tasks (collect demo_config (finish_failed ''b'' demo_mid))"
    by (rule r [OF 1 st_collect]; code_simp)
  show ?thesis unfolding demo_end_def by (rule r [OF 2 st_launch]) code_simp
qed

section \<open>Dependency order\<close>

text \<open>Without rewiring the graph never changes and a launched task has all its dependencies completed.\<close>

definition order_inv :: "DependencyGraph \<Rightarrow> sched \<Rightarrow> bool" where
  "order_inv g s \<longleftrightarrow> sc_dag s = g \<and>
     (\<forall>t\<in>set (sc_started s). set (deps_of g t) \<subseteq> set (sc_completed s))"

lemma maybe_apply_patch_off: "maybe_apply_patch False p g = g"
  by (simp add: maybe_apply_patch_def split: option.splits)

lemma launch_fields:
  "sc_dag (launch s) = sc_dag s" "sc_completed (launch s) = sc_completed s" "sc_tasks (launch s) = sc_tasks s"
  "sc_failed (launch s) = sc_failed s" "sc_done (launch s) = sc_done s"
  "sc_started (launch s) = sc_started s @
     filter (\<lambda>t. t \<notin> set (sc_started s)) (ready_tasks (sc_dag s) (sc_status s) (sc_completed s))"
  by (simp_all add: launch_def remark_def Let_def)

lemma collect_fields:
  "sc_dag (collect cfg s) = sc_dag s" "sc_started (collect cfg s) = sc_started s" "sc_tasks (collect cfg s) = sc_tasks s"
  "sc_done (collect cfg s) = sc_done s" "set (sc_completed s) \<subseteq> set (sc_completed (collect cfg s))"
  by (auto simp: collect_def remark_def Let_def)

lemma order_step:
  assumes "sched_step cfg s s'" "\<not> dynamic_rewiring cfg" "order_inv g s"
  shows "order_inv g s'"
  using assms
proof (induction rule: sched_step.induct)
  case (st_launch s)
  then show ?case
    by (auto simp: order_inv_def launch_fields ready_tasks_def list_all_iff)
next
  case (st_collect s)
  then show ?case
    using collect_fields(5) [of s cfg] unfolding order_inv_def collect_fields by blast
qed (auto simp: order_inv_def set_status_def finish_success_def finish_failed_def finish_silent_def
      end_abort_def remark_def maybe_apply_patch_off)

lemma order_reachable:
  "reachable cfg tasks s \<Longrightarrow> \<not> dynamic_rewiring cfg \<Longrightarrow> new_graph tasks = Inr g \<Longrightarrow> order_inv g s"
proof (induction rule: reachable.induct)
  case (r_init s)
  then show ?case by (auto simp: sched_init_def bind_r_eq_Inr order_inv_def)
next
  case (r_step s s')
  then show ?case using order_step by blast
qed

lemma deps_of_new_graph:
  assumes "new_graph tasks = Inr g" "t \<in> set tasks"
  shows "set (deps_of g (task_id t)) = set (depends_on t)"
proof -
  have d: "distinct (map task_id tasks)"
    using assms(1) by (auto simp: new_graph_def Let_def split: if_splits)
  then have "map_of (dg_deps g) (task_id t) = Some (depends_on t)"
    using assms(1) map_of_tasks [OF d assms(2)] by (auto simp: new_graph_def Let_def bind_r_eq_Inr)
  then show ?thesis by (simp add: deps_of_def)
qed

text \<open>
  C16. Dependency order: at every moment of a run without rewiring, a task that is running or has
  finished had all its dependencies finished successfully before.
\<close>

theorem scheduler_dependency_order:
  assumes run: "reachable cfg tasks s" and off: "\<not> dynamic_rewiring cfg" and t: "t \<in> set tasks"
    and st: "sc_status s (task_id t) \<in> {Running, Success, Failed}" and d: "d \<in> set (depends_on t)"
  shows "sc_status s d = Success"
proof -
  have inv: "sched_inv cfg s" by (rule reachable_inv [OF run])
  obtain g where g: "new_graph tasks = Inr g"
    using run by (induction rule: reachable.induct) (auto simp: sched_init_def bind_r_eq_Inr)
  have "task_id t \<in> set (sc_started s)" using inv_status [OF inv st] .
  then have "d \<in> set (sc_completed s)"
    using order_reachable [OF run off g] deps_of_new_graph [OF g t] d by (auto simp: order_inv_def)
  then show ?thesis using inv_completed [OF inv] by blast
qed

theorem scheduler_dependency_order_witness: "sc_status demo_mid ''b'' = Running \<and> sc_status demo_mid ''a'' = Success"
proof -
  have b: "demo_task ''b'' [''a''] \<in> set demo_tasks" by (simp add: demo_tasks_def)
  have r: "sc_status demo_mid ''b'' = Running" by code_simp
  have "sc_status demo_mid ''a'' = Success"
    by (rule scheduler_dependency_order [OF demo_mid_reachable _ b]) (simp_all add: demo_config_def make_config_def demo_task_def r)
  then show ?thesis using r by simp
qed

text \<open>
  C17. Bounded parallelism: at every moment at most \<open>max_parallel\<close> tasks hold the semaphore, every
  running task was launched exactly once, and the graph is acyclic, rewired or not.
\<close>

theorem scheduler_bounded_parallelism:
  assumes "reachable cfg tasks s"
  shows "length (executing s) \<le> max_parallel cfg \<and> distinct (sc_started s) \<and> set (executing s) \<subseteq> set (sc_started s) \<and>
     acyclic (edges (sc_dag s))"
  using sched_invD [OF reachable_inv [OF assms]] by (auto simp: executing_def dag_def)

theorem scheduler_bounded_parallelism_witness: "executing demo_mid = [''b''] \<and> length (executing demo_mid) \<le> 1"
proof -
  have "executing demo_mid = [''b'']" by code_simp
  then show ?thesis using scheduler_bounded_parallelism [OF demo_mid_reachable] by (simp add: demo_config_def make_config_def)
qed

lemma filter_partition3:
  assumes "\<forall>x\<in>set xs. f x \<in> {a, b, c}" "a \<noteq> b" "a \<noteq> c" "b \<noteq> c"
  shows "length (filter (\<lambda>x. f x = a) xs) + length (filter (\<lambda>x. f x = b) xs) + length (filter (\<lambda>x. f x = c) xs) = length xs"
  using assms by (induction xs) auto

lemma reachable_tasks: "reachable cfg tasks s \<Longrightarrow> sc_tasks s = map task_id tasks"
proof (induction rule: reachable.induct)
  case (r_step s s')
  from r_step(2,3) show ?case
    by (induction rule: sched_step.induct)
       (auto simp: launch_fields collect_fields set_status_def finish_success_def finish_failed_def
         finish_silent_def end_abort_def remark_def)
qed (auto simp: sched_init_def bind_r_eq_Inr)

text \<open>
  C21. The result of a finished run accounts for every task: the numbers of succeeded, failed and
  skipped tasks add up to the number of tasks, and all succeeded means just that.
\<close>

theorem scheduler_result_complete:
  assumes run: "reachable cfg tasks s" and fin: "sc_pc s = Finished"
  shows "mr_succeeded (run_result s) + mr_failed (run_result s) + mr_skipped (run_result s) = length tasks \<and>
     (all_succeeded (run_result s) \<longleftrightarrow> (\<forall>t\<in>set tasks. sc_status s (task_id t) = Success))"
proof -
  note inv = reachable_inv [OF run]
  have st: "\<forall>t\<in>set (sc_tasks s). sc_status s t \<in> {Success, Failed, Skipped}"
  proof
    fix t assume "t \<in> set (sc_tasks s)"
    then show "sc_status s t \<in> {Success, Failed, Skipped}"
      using inv_no_pending [OF inv, of t] inv_no_running [OF inv fin, of t] fin by (cases "sc_status s t") auto
  qed
  have "all_succeeded (run_result s) \<longleftrightarrow> (\<forall>t\<in>set (sc_tasks s). sc_status s t = Success)"
    using st by (auto simp: all_succeeded_def run_result_def count_status_def filter_empty_conv)
  then show ?thesis
    using filter_partition3 [OF st] reachable_tasks [OF run] by (simp add: run_result_def count_status_def)
qed


theorem scheduler_result_complete_witness:
  "mr_succeeded (run_result demo_end) + mr_failed (run_result demo_end) + mr_skipped (run_result demo_end) = 2 \<and>
   \<not> all_succeeded (run_result demo_end)"
proof -
  have f: "sc_pc demo_end = Finished" and b: "sc_status demo_end ''b'' = Failed" by code_simp+
  show ?thesis using scheduler_result_complete [OF demo_end_reachable f] b by (simp add: demo_tasks_def demo_task_def)
qed

section \<open>Skipped tasks\<close>

definition skip_inv :: "DependencyGraph \<Rightarrow> sched \<Rightarrow> bool" where
  "skip_inv g s \<longleftrightarrow> sc_pc s \<noteq> Aborting \<and>
     (sc_pc s = Finished \<longrightarrow> (\<forall>t\<in>set (sc_tasks s). sc_status s t = Skipped \<longrightarrow>
        (\<exists>d\<in>set (deps_of g t). d \<in> set (sc_tasks s) \<and> sc_status s d \<in> {Failed, Skipped})))"

lemma launch_skip:
  assumes inv: "sched_inv cfg s" and pc: "sc_pc s = Launching" and g: "sc_dag s = g"
  shows "skip_inv g (launch s)"
proof -
  note I = sched_invD [OF inv]
  let ?new = "filter (\<lambda>t. t \<notin> set (sc_started s)) (ready_tasks (sc_dag s) (sc_status s) (sc_completed s))"
  have "\<exists>d\<in>set (deps_of g t). d \<in> set (sc_tasks s) \<and> sc_status (launch s) d \<in> {Failed, Skipped}"
    if none: "sc_running s = []" "?new = []" and t: "t \<in> set (sc_tasks s)" "sc_status (launch s) t = Skipped" for t
  proof -
    have st: "sc_status (launch s) u = (if u \<in> set (sc_tasks s) \<and> sc_status s u = Pending then Skipped else sc_status s u)" for u
      using none by (simp add: launch_def remark_def Let_def)
    have op: "sc_status s u = Success \<and> u \<in> set (sc_completed s) \<or> sc_status s u = Failed"
      if "u \<in> set (sc_started s)" for u using I(14) [of u] that none pc by auto
    have "sc_status s t = Pending" using t I(9) [of t] pc by (auto simp: st split: if_splits)
    moreover from this have "t \<notin> set (sc_started s)" using op [of t] by auto
    ultimately obtain d where d: "d \<in> set (deps_of g t)" "d \<notin> set (sc_completed s)"
      using none(2) t(1) I(2) g by (auto simp: filter_empty_conv ready_tasks_def list_all_iff)
    have dt: "d \<in> set (sc_tasks s)" using I(1,2) g d(1) by (auto simp: dag_def graph_closed_def)
    have "sc_status s d \<in> {Failed, Pending}"
      using I(8) [of d] I(9) [of d] op [of d] d(2) pc by (cases "sc_status s d") auto
    then show ?thesis using d(1) dt by (auto simp: st)
  qed
  then show ?thesis using launch_fields(3) [of s] by (auto simp: skip_inv_def launch_def Let_def remark_def)
qed

lemma skip_reachable:
  assumes "reachable cfg tasks s" and off: "\<not> dynamic_rewiring cfg" "\<not> fail_fast cfg" and g: "new_graph tasks = Inr g"
  shows "skip_inv g s"
  using assms(1)
proof (induction rule: reachable.induct)
  case (r_init s)
  then show ?case by (auto simp: sched_init_def bind_r_eq_Inr skip_inv_def)
next
  case (r_step s s')
  have dg: "sc_dag s = g" using order_reachable [OF r_step(1) off(1) g] by (simp add: order_inv_def)
  note inv = reachable_inv [OF r_step(1)]
  from r_step(2) show ?case
  proof (cases rule: sched_step.cases)
    case st_launch
    then show ?thesis using launch_skip [OF inv _ dg] by simp
  next
    case st_collect
    then show ?thesis using off(2) by (simp add: skip_inv_def collect_def Let_def)
  next
    case st_end_abort
    then show ?thesis using r_step(3) by (simp add: skip_inv_def)
  qed (use r_step(3) in \<open>auto simp: skip_inv_def set_status_def finish_success_def finish_failed_def finish_silent_def\<close>)
qed

text \<open>
  C20. A finished run without \<open>fail_fast\<close> and without rewiring skips a task only if one of its direct or
  indirect dependencies failed.
\<close>

theorem scheduler_skips_only_blocked:
  assumes run: "reachable cfg tasks s" and off: "\<not> dynamic_rewiring cfg" "\<not> fail_fast cfg" and fin: "sc_pc s = Finished"
    and t: "t \<in> set tasks" "sc_status s (task_id t) = Skipped"
  shows "\<exists>d. (d, task_id t) \<in> {(d, task_id t) | d t. t \<in> set tasks \<and> d \<in> set (depends_on t)}\<^sup>+ \<and> sc_status s d = Failed"
proof -
  obtain g where g: "new_graph tasks = Inr g"
    using run by (induction rule: reachable.induct) (auto simp: sched_init_def bind_r_eq_Inr)
  have dg: "dag g" using new_graph_dag [OF g] by simp
  have sub: "edges g \<subseteq> set (dg_ids g) \<times> set (dg_ids g)"
    using dg deps_of_inside by (auto simp: dag_def edges_def graph_closed_def)
  have wf: "wf (edges g)" using finite_acyclic_wf finite_subset [OF sub] dg by (auto simp: dag_def)
  have sk: "skip_inv g s" by (rule skip_reachable [OF run off g])
  have "u \<in> set (sc_tasks s) \<longrightarrow> sc_status s u = Skipped \<longrightarrow> (\<exists>d. (d, u) \<in> (edges g)\<^sup>+ \<and> sc_status s d = Failed)" for u
  proof (induction u rule: wf_induct_rule [OF wf])
    case (1 u)
    show ?case
    proof (intro impI)
      assume "u \<in> set (sc_tasks s)" "sc_status s u = Skipped"
      then obtain d where d: "(d, u) \<in> edges g" "d \<in> set (sc_tasks s)" "sc_status s d \<in> {Failed, Skipped}"
        using sk fin by (auto simp: skip_inv_def edges_def)
      then show "\<exists>d. (d, u) \<in> (edges g)\<^sup>+ \<and> sc_status s d = Failed"
        using 1 by (auto intro: trancl_into_trancl)
    qed
  qed
  then show ?thesis using t reachable_tasks [OF run] new_graph_edges [OF g] by auto
qed

theorem scheduler_skips_only_blocked_witness: "sc_status demo_skip ''b'' = Skipped \<and> (\<exists>d. sc_status demo_skip d = Failed)"
proof -
  have b: "demo_task ''b'' [''a''] \<in> set demo_tasks" by (simp add: demo_tasks_def)
  have f: "sc_pc demo_skip = Finished" and k: "sc_status demo_skip ''b'' = Skipped" by code_simp+
  have "\<exists>d. (d, task_id (demo_task ''b'' [''a''])) \<in> {(d, task_id t) | d t. t \<in> set demo_tasks \<and> d \<in> set (depends_on t)}\<^sup>+ \<and>
      sc_status demo_skip d = Failed"
    by (rule scheduler_skips_only_blocked [OF demo_skip_reachable _ _ f b]) (simp_all add: demo_config_def make_config_def demo_task_def k)
  then show ?thesis using k by blast
qed

section \<open>Termination and progress\<close>

fun pc_weight :: "sched_pc \<Rightarrow> nat" where
  "pc_weight Launching = 2"
| "pc_weight Waiting = 1"
| "pc_weight Aborting = 1"
| "pc_weight Finished = 0"

definition sched_potential :: "sched \<Rightarrow> nat" where
  "sched_potential s = count_status Pending s + length (filter (\<lambda>t. t \<notin> set (sc_done s)) (sc_tasks s))
     + 3 * length (filter (\<lambda>t. t \<notin> set (sc_completed s) \<and> t \<notin> set (sc_failed s)) (sc_tasks s)) + pc_weight (sc_pc s)"

lemma filter_le: "(\<And>x. x \<in> set xs \<Longrightarrow> P x \<Longrightarrow> Q x) \<Longrightarrow> length (filter P xs) \<le> length (filter Q xs)"
  by (induction xs) (auto simp: le_SucI)

lemma filter_less:
  "(\<And>x. x \<in> set xs \<Longrightarrow> P x \<Longrightarrow> Q x) \<Longrightarrow> y \<in> set xs \<Longrightarrow> Q y \<Longrightarrow> \<not> P y \<Longrightarrow> length (filter P xs) < length (filter Q xs)"
proof (induction xs)
  case (Cons x xs)
  have le: "length (filter P xs) \<le> length (filter Q xs)" using Cons.prems(1) by (intro filter_le) auto
  show ?case
  proof (cases "x = y")
    case True
    then show ?thesis using le Cons.prems by simp
  next
    case False
    then show ?thesis using Cons by force
  qed
qed simp

lemma finish_potential:
  assumes inv: "sched_inv cfg s" and t: "t \<in> set (executing s)" and st: "st \<noteq> Pending"
    and s': "sc_tasks s' = sc_tasks s" "sc_status s' = (sc_status s)(t := st)" "sc_done s' = sc_done s @ [t]"
      "sc_completed s' = sc_completed s" "sc_failed s' = sc_failed s" "sc_pc s' = sc_pc s"
  shows "sched_potential s' < sched_potential s"
proof -
  note I = sched_invD [OF inv]
  have tt: "t \<in> set (sc_tasks s)" "t \<notin> set (sc_done s)" using t I(5,7) by (auto simp: executing_def)
  have "length (filter (\<lambda>u. u \<notin> set (sc_done s')) (sc_tasks s)) < length (filter (\<lambda>u. u \<notin> set (sc_done s)) (sc_tasks s))"
    by (rule filter_less [of _ _ _ t]) (use tt s' in auto)
  moreover have "count_status Pending s' \<le> count_status Pending s"
    unfolding count_status_def s'(1) by (rule filter_le) (use s'(2) st in \<open>auto split: if_splits\<close>)
  ultimately show ?thesis by (simp add: sched_potential_def s')
qed

lemma sched_step_potential:
  assumes "sched_step cfg s s'" "sched_inv cfg s"
  shows "sched_potential s' < sched_potential s"
  using assms
proof (induction rule: sched_step.induct)
  case (st_launch s)
  have "count_status Pending (launch s) \<le> count_status Pending s"
    unfolding count_status_def launch_fields(3)
    by (rule filter_le) (auto simp: launch_def Let_def remark_def split: if_splits)
  moreover have "pc_weight (sc_pc (launch s)) < pc_weight (sc_pc s)"
    using st_launch(1) by (simp add: launch_def Let_def)
  ultimately show ?case by (simp add: sched_potential_def launch_fields)
next
  case (st_begin s t)
  have "t \<in> set (sc_tasks s)" using sched_invD(5,7) [OF st_begin(5)] st_begin(2) by blast
  then have "count_status Pending (set_status t Running s) < count_status Pending s"
    unfolding count_status_def set_status_def
    by (simp, intro filter_less [of _ _ _ t]) (use st_begin(3) in \<open>auto split: if_splits\<close>)
  then show ?case by (simp add: sched_potential_def set_status_def)
next
  case (st_success s t patch)
  then show ?case by (intro finish_potential [of cfg s t Success]) (auto simp: finish_success_def set_status_def)
next
  case (st_failed s t)
  then show ?case by (intro finish_potential [of cfg s t Failed]) (auto simp: finish_failed_def set_status_def)
next
  case (st_silent s t)
  then show ?case
    by (intro finish_potential [of cfg s t Running]) (auto simp: finish_silent_def executing_def fun_upd_idem)
next
  case (st_collect s)
  note I = sched_invD [OF st_collect(3)]
  obtain u where u: "u \<in> set (sc_done s)" "u \<in> set (sc_running s)" using st_collect(2) by blast
  let ?open = "\<lambda>x t. t \<notin> set (sc_completed x) \<and> t \<notin> set (sc_failed x)"
  have un: "?open s u" "u \<in> set (sc_tasks s)" using u I(5,7,13) by auto
  have cf: "set (sc_completed (collect cfg s)) \<union> set (sc_failed (collect cfg s))
      = set (sc_completed s) \<union> set (sc_failed s) \<union> (set (sc_done s) \<inter> set (sc_running s))"
    by (auto simp: collect_def Let_def remark_def)
  have "length (filter (?open (collect cfg s)) (sc_tasks s)) < length (filter (?open s) (sc_tasks s))"
    by (rule filter_less [of _ _ _ u]) (use cf un u in blast)+
  moreover have "count_status Pending (collect cfg s) \<le> count_status Pending s"
    unfolding count_status_def collect_fields(3)
    by (rule filter_le) (auto simp: collect_def Let_def remark_def split: if_splits)
  moreover have "pc_weight (sc_pc (collect cfg s)) \<le> 2"
    by (cases "sc_pc (collect cfg s)") auto
  ultimately show ?case using st_collect(1) by (simp add: sched_potential_def collect_fields)
next
  case (st_end_abort s)
  have "count_status Pending (end_abort s) \<le> count_status Pending s"
    unfolding count_status_def end_abort_def remark_def
    by (simp, intro filter_le) (auto split: if_splits)
  then show ?case using st_end_abort(1) by (simp add: sched_potential_def end_abort_def remark_def)
qed

text \<open>A status of success or failure is recorded together with the completion.\<close>

definition done_inv :: "sched \<Rightarrow> bool" where
  "done_inv s \<longleftrightarrow> (\<forall>t. sc_status s t \<in> {Success, Failed} \<longrightarrow> t \<in> set (sc_done s))"

lemma done_step: "sched_step cfg s s' \<Longrightarrow> done_inv s \<Longrightarrow> done_inv s'"
proof (induction rule: sched_step.induct)
  case (st_launch s)
  then show ?case by (simp add: done_inv_def launch_def Let_def remark_def)
next
  case (st_collect s)
  have "sc_status (collect cfg s) t \<in> {Success, Failed} \<Longrightarrow> sc_status s t \<in> {Success, Failed} \<or> t \<in> set (sc_done s)" for t
    by (auto simp: collect_def Let_def remark_def split: if_splits)
  then show ?case using st_collect(3) unfolding done_inv_def collect_fields(4) by blast
qed (auto simp: done_inv_def set_status_def finish_success_def finish_failed_def finish_silent_def
      end_abort_def remark_def split: if_splits)

lemma reachable_done: "reachable cfg tasks s \<Longrightarrow> done_inv s"
proof (induction rule: reachable.induct)
  case (r_init s)
  then have "sc_status s t = Pending" for t
    by (auto simp: sched_init_def bind_r_eq_Inr list_all_iff split: option.splits dest!: map_of_SomeD)
  then show ?case by (simp add: done_inv_def)
next
  case (r_step s s')
  then show ?case using done_step by blast
qed

lemma waiting_progress:
  assumes inv: "sched_inv cfg s" "done_inv s" and par: "1 \<le> max_parallel cfg" and pc: "sc_pc s = Waiting"
    and idle: "executing s = []" and nd: "set (sc_done s) \<inter> set (sc_running s) = {}"
  shows "\<exists>s'. sched_step cfg s s'"
proof -
  obtain t where t: "t \<in> set (sc_running s)" using inv_waiting [OF inv(1) pc] by (cases "sc_running s") auto
  have d: "t \<notin> set (sc_done s)" using nd t by blast
  have "sc_status s t \<noteq> Running" using idle t d by (auto simp: executing_def filter_empty_conv)
  moreover have "sc_status s t \<noteq> Skipped" using inv_skipped [OF inv(1), of t] pc by auto
  moreover have "sc_status s t \<noteq> Success \<and> sc_status s t \<noteq> Failed" using inv(2) d unfolding done_inv_def by auto
  ultimately have "sc_status s t = Pending" by (cases "sc_status s t") auto
  then show ?thesis using st_begin [OF pc t, of cfg] idle par by auto
qed

lemma sched_progress:
  assumes inv: "sched_inv cfg s" "done_inv s" and par: "1 \<le> max_parallel cfg" and pc: "sc_pc s \<noteq> Finished"
  shows "\<exists>s'. sched_step cfg s s'"
proof (cases "sc_pc s")
  case Waiting
  show ?thesis
  proof (cases "set (sc_done s) \<inter> set (sc_running s) = {} \<and> executing s = []")
    case True
    then show ?thesis using waiting_progress [OF inv par Waiting] by blast
  next
    case False
    then consider "set (sc_done s) \<inter> set (sc_running s) \<noteq> {}" | t where "t \<in> set (executing s)"
      by (cases "executing s") auto
    then show ?thesis using st_collect [OF Waiting] st_failed [of s _ cfg] Waiting by cases blast+
  qed
qed (use st_launch st_end_abort pc in blast)+

lemma potential_init:
  assumes "sched_init tasks = Inr s" "list_all (\<lambda>t. status t = Pending) tasks"
  shows "sched_potential s = 5 * length tasks + 2"
proof -
  have f: "sc_tasks s = map task_id tasks" "sc_done s = []" "sc_completed s = []" "sc_failed s = []" "sc_pc s = Launching"
    using assms(1) by (auto simp: sched_init_def bind_r_eq_Inr)
  have "sc_status s t = Pending" for t
    using assms by (auto simp: sched_init_def bind_r_eq_Inr list_all_iff split: option.splits dest!: map_of_SomeD)
  then show ?thesis by (simp add: sched_potential_def count_status_def f)
qed

text \<open>
  C18. Every run of the scheduler ends: from the initial state of \<open>n\<close> pending tasks no run has more than
  \<open>5 n + 2\<close> steps, whatever the tasks return, fail with or rewire.
\<close>

theorem scheduler_terminates:
  assumes "sched_init tasks = Inr s" "list_all (\<lambda>t. status t = Pending) tasks" "(sched_step cfg ^^ k) s s'"
  shows "k \<le> 5 * length tasks + 2"
proof -
  have "sched_inv cfg s' \<and> sched_potential s' + k \<le> sched_potential s" using assms(3)
  proof (induction k arbitrary: s')
    case 0
    then show ?case using sched_init_inv [OF assms(1,2)] by simp
  next
    case (Suc k)
    then obtain u where u: "(sched_step cfg ^^ k) s u" "sched_step cfg u s'" by auto
    then show ?case using Suc.IH [OF u(1)] sched_step_potential [OF u(2)] sched_step_inv [OF u(2)] by auto
  qed
  then show ?thesis using potential_init [OF assms(1,2)] by simp
qed

theorem scheduler_terminates_witness: "(sched_step demo_config ^^ 1) demo_start (launch demo_start) \<and> (1 :: nat) \<le> 5 * length demo_tasks + 2"
proof -
  have "sc_pc demo_start = Launching" by code_simp
  then have "(sched_step demo_config ^^ 1) demo_start (launch demo_start)" by (auto simp: st_launch)
  then show ?thesis using scheduler_terminates [OF demo_init, of 1] by blast
qed

text \<open>
  C19. The scheduler never gets stuck: in every reachable state that is not final a step is possible,
  whatever \<open>max_parallel\<close> the caller asks for.
\<close>

theorem scheduler_never_stuck:
  assumes "reachable (make_config n ff rw) tasks s" "sc_pc s \<noteq> Finished"
  shows "\<exists>s'. sched_step (make_config n ff rw) s s'"
  using sched_progress [OF reachable_inv [OF assms(1)] reachable_done [OF assms(1)] _ assms(2)]
  by (simp add: make_config_def)

theorem scheduler_never_stuck_witness: "\<exists>s'. sched_step (make_config 1 False False) demo_mid s'"
proof -
  have "sc_pc demo_mid \<noteq> Finished" by code_simp
  then show ?thesis using scheduler_never_stuck [OF demo_mid_reachable [unfolded demo_config_def]] by blast
qed

end
