(* ===== verification/Audit_Trail.thy ===== *)
theory Audit_Trail
  imports Py_Text
begin

text \<open>
  The audit trail of \<open>audit.py\<close>: events, their JSON lines, the log file, and the sinks that upload batches of
  events. The file is the text written to it; the clock, the availability of the cloud library and the
  random names of the uploaded objects are outside the model (a sink returns the batches it hands to the
  cloud client). Locks make each operation one step.
\<close>

section \<open>Events and lines\<close>

record AuditEvent =
  ae_ts :: string
  ae_subject :: string
  ae_roles :: "string list"
  ae_action :: string
  ae_resource_id :: "string option"
  ae_outcome :: string
  ae_detail :: "string option"

definition opt_str :: "string option \<Rightarrow> pyval" where
  "opt_str v = (case v of None \<Rightarrow> PNone | Some s \<Rightarrow> PStr s)"

definition to_jsonl :: "AuditEvent \<Rightarrow> string" where
  "to_jsonl e = json_dumps False '','' '':''
     (PDict [(''ts'', PStr (ae_ts e)), (''subject'', PStr (ae_subject e)), (''roles'', str_list (ae_roles e)),
             (''action'', PStr (ae_action e)), (''resource_id'', opt_str (ae_resource_id e)),
             (''outcome'', PStr (ae_outcome e)), (''detail'', opt_str (ae_detail e))])"

section \<open>Sinks\<close>

text \<open>The two sinks differ in their target only: a batch, the time of the last flush, and the two limits.\<close>

datatype sink_target = S3AuditSink string string string | GCSAuditSink string string

record AuditSink =
  sk_target :: sink_target
  sk_batch :: "AuditEvent list"
  sk_last_flush :: rat

definition sk_max_batch :: nat where "sk_max_batch = 100"

definition sk_flush_interval :: rat where "sk_flush_interval = 5"

definition rstrip_slashes :: "string \<Rightarrow> string" where
  "rstrip_slashes s = rev (dropWhile (\<lambda>c. c = CHR ''/'') (rev s))"

definition new_sink :: "sink_target \<Rightarrow> AuditSink" where
  "new_sink t = \<lparr> sk_target = (case t of S3AuditSink b p r \<Rightarrow> S3AuditSink b (rstrip_slashes p) r
                                 | GCSAuditSink b p \<Rightarrow> GCSAuditSink b (rstrip_slashes p)),
                  sk_batch = [], sk_last_flush = 0 \<rparr>"

text \<open>\<open>export\<close>: the batches handed to the cloud client (none or one), and the sink afterwards.\<close>

definition export :: "bool \<Rightarrow> rat \<Rightarrow> AuditEvent \<Rightarrow> AuditSink \<Rightarrow> AuditEvent list list \<times> AuditSink" where
  "export library_installed now event s =
     (if \<not> library_installed then ([], s)
      else let batch = sk_batch s @ [event]
           in if sk_max_batch \<le> length batch \<or> sk_flush_interval \<le> now - sk_last_flush s
              then ([batch], s \<lparr> sk_batch := [], sk_last_flush := now \<rparr>)
              else ([], s \<lparr> sk_batch := batch \<rparr>))"

definition upload_body :: "AuditEvent list \<Rightarrow> string" where
  "upload_body batch = join [CHR 0x0A] (map to_jsonl batch)"

record AuditConfig =
  ac_log_path :: string
  ac_sink_type :: "string option"
  ac_s3_bucket :: "string option"
  ac_s3_prefix :: string
  ac_s3_region :: string
  ac_gcs_bucket :: "string option"
  ac_gcs_prefix :: string

definition build_sink :: "AuditConfig \<Rightarrow> AuditSink option" where
  "build_sink c =
     (case ac_sink_type c of
        None \<Rightarrow> None
      | Some t \<Rightarrow>
          if t = ''s3'' then (case ac_s3_bucket c of
             Some b \<Rightarrow> if b = [] then None else Some (new_sink (S3AuditSink b (ac_s3_prefix c) (ac_s3_region c))) | None \<Rightarrow> None)
          else if t = ''gcs'' then (case ac_gcs_bucket c of
             Some b \<Rightarrow> if b = [] then None else Some (new_sink (GCSAuditSink b (ac_gcs_prefix c))) | None \<Rightarrow> None)
          else None)"

section \<open>The logger\<close>

text \<open>The text of the file, and the exports that were scheduled in the background.\<close>

record AuditLogger =
  al_file :: string
  al_has_sink :: bool
  al_scheduled :: "AuditEvent list"

definition log_event :: "AuditEvent \<Rightarrow> AuditLogger \<Rightarrow> AuditLogger" where
  "log_event e l = l \<lparr> al_file := al_file l @ to_jsonl e @ [CHR 0x0A],
                      al_scheduled := (if al_has_sink l then al_scheduled l @ [e] else al_scheduled l) \<rparr>"

section \<open>The lines of the log\<close>

text \<open>Reading one character of a JSON string.\<close>

definition hex_val :: "char \<Rightarrow> nat" where
  "hex_val c = (if code c < 58 then code c - 48 else code c - 87)"

definition unescape_char :: "char \<Rightarrow> char" where
  "unescape_char k = (if k = CHR ''n'' then CHR 0x0A else if k = CHR ''r'' then CHR 0x0D else if k = CHR ''t'' then CHR 0x09
     else if k = CHR ''b'' then CHR 0x08 else if k = CHR ''f'' then CHR 0x0C else k)"

fun json_uncons :: "string \<Rightarrow> (char \<times> string) option" where
  "json_uncons [] = None"
| "json_uncons (c # s) =
     (if c \<noteq> char_of (92 :: nat) then Some (c, s)
      else case s of
        [] \<Rightarrow> None
      | k # r \<Rightarrow> if k = CHR ''u''
                 then (case r of z1 # z2 # h1 # h2 # r' \<Rightarrow> Some (char_of (hex_val h1 * 16 + hex_val h2), r') | _ \<Rightarrow> None)
                 else Some (unescape_char k, r))"

lemma json_uncons_append: "json_uncons s = Some (c, r) \<Longrightarrow> json_uncons (s @ x) = Some (c, r @ x)"
  by (cases s) (auto split: list.splits if_splits)

text \<open>The facts about the encoding of a character: the control characters are checked one by one.\<close>

lemma char_of_code [simp]: "char_of (code c) = c"
  by (simp add: code_def)

definition json_char_ok :: "char \<Rightarrow> bool" where
  "json_char_ok c = (json_uncons (json_char c) = Some (c, []) \<and> json_char c \<noteq> [] \<and> hd (json_char c) \<noteq> quote2 \<and>
     CHR 0x0A \<notin> set (json_char c))"

lemma json_control_ok: "\<forall>n\<in>{0, 1, 2, 3, 4, 5, 6, 7, 8, 9, 10, 11, 12, 13, 14, 15, 16, 17, 18, 19, 20, 21, 22, 23, 24, 25, 26, 27, 28, 29, 30, 31 :: nat}. json_char_ok (char_of n)"
  by (simp add: json_char_ok_def json_char_def code_def hex2_def hex_char_def hex_val_def unescape_char_def quote2_def Let_def, code_simp)

lemma char_of_escapes: "(char_of (34 :: nat) :: char) = CHR 0x22" "(char_of (92 :: nat) :: char) = CHR 0x5C"
  by code_simp+

lemma json_escaped_ok: "json_char_ok (char_of (34 :: nat))" "json_char_ok (char_of (92 :: nat))"
  by (simp_all add: json_char_ok_def json_char_def code_def unescape_char_def quote2_def Let_def char_of_escapes)

lemma json_char_facts:
  "json_uncons (json_char c) = Some (c, []) \<and> json_char c \<noteq> [] \<and> hd (json_char c) \<noteq> quote2 \<and> CHR 0x0A \<notin> set (json_char c)"
proof -
  consider "code c < 32" | "c = char_of (34 :: nat) \<or> c = char_of (92 :: nat)" | "32 \<le> code c" "code c \<noteq> 34" "code c \<noteq> 92"
    by (metis char_of_code not_less)
  then have "json_char_ok c"
  proof cases
    case 1
    then have "code c \<in> {0, 1, 2, 3, 4, 5, 6, 7, 8, 9, 10, 11, 12, 13, 14, 15, 16, 17, 18, 19, 20, 21, 22, 23, 24, 25, 26, 27, 28, 29, 30, 31}" unfolding insert_iff empty_iff by presburger
    then have "json_char_ok (char_of (code c))" using json_control_ok by blast
    then show ?thesis by simp
  next
    case 2
    then show ?thesis using json_escaped_ok by blast
  next
    case 3
    then have j: "json_char c = [c]" by (simp add: json_char_def Let_def)
    have "c \<noteq> char_of (92 :: nat)" "c \<noteq> quote2" "c \<noteq> CHR 0x0A"
      using 3 by (auto simp: code_def quote2_def)
    then show ?thesis by (simp add: json_char_ok_def j)
  qed
  then show ?thesis by (simp add: json_char_ok_def)
qed

lemmas json_char_props = json_char_facts [THEN conjunct2, THEN conjunct1] json_char_facts [THEN conjunct2, THEN conjunct2, THEN conjunct1]
  json_char_facts [THEN conjunct2, THEN conjunct2, THEN conjunct2]

lemma json_uncons_char: "json_uncons (json_char c @ x) = Some (c, x)"
  using json_uncons_append [of "json_char c" c "[]" x] json_char_facts by simp

lemma json_char_head: "json_char c @ x \<noteq> quote2 # y"
  using json_char_props(1,2) [of c] by (cases "json_char c") auto

lemma json_str_prefix_free: "json_str s @ x = json_str t @ y \<Longrightarrow> s = t \<and> x = y"
proof -
  have "concat (map json_char s) @ quote2 # x = concat (map json_char t) @ quote2 # y \<Longrightarrow> s = t \<and> x = y"
  proof (induction s arbitrary: t)
    case Nil
    then show ?case by (cases t) (auto simp: json_char_head [symmetric])
  next
    case (Cons c s)
    show ?case
    proof (cases t)
      case Nil
      then show ?thesis using Cons.prems by (simp add: json_char_head)
    next
      case t: (Cons d t')
      have "json_char c @ (concat (map json_char s) @ quote2 # x) = json_char d @ (concat (map json_char t') @ quote2 # y)"
        using Cons.prems t by simp
      then have "Some (c, concat (map json_char s) @ quote2 # x) = Some (d, concat (map json_char t') @ quote2 # y)"
        using json_uncons_char by metis
      then show ?thesis using Cons.IH [of t'] t by simp
    qed
  qed
  then show "json_str s @ x = json_str t @ y \<Longrightarrow> s = t \<and> x = y" by (simp add: json_str_def)
qed

text \<open>The line of an event, spelled out.\<close>

definition json_list :: "string list \<Rightarrow> string" where
  "json_list ss = ''['' @ join '','' (map json_str ss) @ '']''"

definition json_opt :: "string option \<Rightarrow> string" where
  "json_opt v = (case v of None \<Rightarrow> ''null'' | Some s \<Rightarrow> json_str s)"

lemma to_jsonl_eq:
  "to_jsonl e = ''{'' @ json_str ''ts'' @ '':'' @ json_str (ae_ts e) @ '','' @ json_str ''subject'' @ '':'' @ json_str (ae_subject e)
     @ '','' @ json_str ''roles'' @ '':'' @ json_list (ae_roles e) @ '','' @ json_str ''action'' @ '':'' @ json_str (ae_action e)
     @ '','' @ json_str ''resource_id'' @ '':'' @ json_opt (ae_resource_id e) @ '','' @ json_str ''outcome'' @ '':'' @ json_str (ae_outcome e)
     @ '','' @ json_str ''detail'' @ '':'' @ json_opt (ae_detail e) @ ''}''"
proof -
  have o: "json_dumps b x y (opt_str v) = json_opt v" for b x y v by (simp add: opt_str_def json_opt_def split: option.splits)
  show ?thesis unfolding to_jsonl_def by (simp add: key_order_def o json_list_def comp_def)
qed

lemma json_list_prefix_free: "json_list ss @ x = json_list ts @ y \<Longrightarrow> ss = ts \<and> x = y"
proof -
  have q: "quote2 \<noteq> CHR '']''" by (simp add: quote2_def char_of_escapes)
  have j: "join '','' (map json_str (s # ss)) @ r = json_str s @ (if ss = [] then r else '','' @ join '','' (map json_str ss) @ r)" for s ss r
    by (cases ss) auto
  have ne: "join '','' (map json_str (s # ss)) @ r \<noteq> CHR '']'' # z" "CHR '']'' # z \<noteq> join '','' (map json_str (s # ss)) @ r" for s ss r z
    unfolding j using q by (simp_all add: json_str_def)
  have "join '','' (map json_str ss) @ CHR '']'' # x = join '','' (map json_str ts) @ CHR '']'' # y \<Longrightarrow> ss = ts \<and> x = y"
  proof (induction ss arbitrary: ts)
    case Nil
    then show ?case using ne by (cases ts) auto
  next
    case (Cons s ss)
    show ?case
    proof (cases ts)
      case Nil
      then show ?thesis using Cons.prems ne(1) [of s ss "CHR '']'' # x" y] by simp
    next
      case t: (Cons t ts')
      have "json_str s @ (if ss = [] then CHR '']'' # x else '','' @ join '','' (map json_str ss) @ CHR '']'' # x)
          = json_str t @ (if ts' = [] then CHR '']'' # y else '','' @ join '','' (map json_str ts') @ CHR '']'' # y)"
        using Cons.prems unfolding t j .
      from json_str_prefix_free [OF this] show ?thesis using Cons.IH [of ts'] t by (auto split: if_splits)
    qed
  qed
  then show "json_list ss @ x = json_list ts @ y \<Longrightarrow> ss = ts \<and> x = y" by (simp add: json_list_def)
qed

lemma json_opt_prefix_free: "json_opt v @ x = json_opt w @ y \<Longrightarrow> v = w \<and> x = y"
proof -
  have "quote2 \<noteq> CHR ''n''" by (simp add: quote2_def char_of_escapes)
  then have n: "json_str s @ r \<noteq> ''null'' @ z" "''null'' @ z \<noteq> json_str s @ r" for s r z by (simp_all add: json_str_def)
  assume a: "json_opt v @ x = json_opt w @ y"
  show "v = w \<and> x = y"
  proof (cases v)
    case None
    then show ?thesis using a n(2) by (cases w) (simp_all add: json_opt_def)
  next
    case (Some s)
    then obtain t where "w = Some t" using a n(1) [of s x y] by (cases w) (simp_all add: json_opt_def)
    then show ?thesis using a Some json_str_prefix_free [of s x t y] by (simp add: json_opt_def)
  qed
qed

lemma to_jsonl_inj: "to_jsonl e = to_jsonl f \<Longrightarrow> e = f"
proof -
  assume a: "to_jsonl e = to_jsonl f"
  note 1 = a [unfolded to_jsonl_eq append_assoc same_append_eq]
  note 2 = json_str_prefix_free [OF 1, THEN conjunct2, unfolded same_append_eq]
  note 3 = json_str_prefix_free [OF 2, THEN conjunct2, unfolded same_append_eq]
  note 4 = json_list_prefix_free [OF 3, THEN conjunct2, unfolded same_append_eq]
  note 5 = json_str_prefix_free [OF 4, THEN conjunct2, unfolded same_append_eq]
  note 6 = json_opt_prefix_free [OF 5, THEN conjunct2, unfolded same_append_eq]
  note 7 = json_str_prefix_free [OF 6, THEN conjunct2, unfolded same_append_eq]
  show "e = f"
    using json_str_prefix_free [OF 1] json_str_prefix_free [OF 2] json_list_prefix_free [OF 3] json_str_prefix_free [OF 4]
      json_opt_prefix_free [OF 5] json_str_prefix_free [OF 6] json_opt_prefix_free [OF 7]
    by (cases e, cases f) simp
qed

lemma newline_json_str: "CHR 0x0A \<notin> set (json_str s)"
proof -
  have "quote2 \<noteq> CHR 0x0A" by (simp add: quote2_def char_of_escapes)
  then show ?thesis using json_char_props(3) by (auto simp: json_str_def)
qed

lemma newline_json_list: "CHR 0x0A \<notin> set (json_list ss)"
proof -
  have "CHR 0x0A \<notin> set (join '','' (map json_str ss))"
    by (induction ss rule: induct_list012) (auto simp: newline_json_str)
  then show ?thesis by (simp add: json_list_def)
qed

lemma newline_to_jsonl: "CHR 0x0A \<notin> set (to_jsonl e)"
proof -
  have "CHR 0x0A \<notin> set (json_opt v)" for v by (simp add: json_opt_def newline_json_str split: option.splits)
  then show ?thesis unfolding to_jsonl_eq by (simp add: newline_json_str newline_json_list)
qed

section \<open>The log file\<close>

definition log_all :: "AuditEvent list \<Rightarrow> AuditLogger \<Rightarrow> AuditLogger" where
  "log_all es l = fold log_event es l"

lemma log_all_file: "al_file (log_all es l) = al_file l @ concat (map (\<lambda>e. to_jsonl e @ [CHR 0x0A]) es)"
  unfolding log_all_def by (induction es arbitrary: l) (simp_all add: log_event_def)

lemma split_on_line: "c \<notin> set s \<Longrightarrow> split_on c (s @ c # r) = s # split_on c r"
  by (induction s) auto

lemma split_log: "split_on (CHR 0x0A) (concat (map (\<lambda>e. to_jsonl e @ [CHR 0x0A]) es)) = map to_jsonl es @ [[]]"
  by (induction es) (simp_all add: split_on_line newline_to_jsonl)

text \<open>
  C39. The audit log cannot be forged from within an event: whatever text the fields hold, the file of a
  fresh logger has exactly one line per event, in the order of logging, and the file determines the events.
\<close>

theorem audit_log_faithful:
  assumes "al_file l = []" "al_file l' = []"
  shows "split_on (CHR 0x0A) (al_file (log_all es l)) = map to_jsonl es @ [[]] \<and>
     (al_file (log_all es l) = al_file (log_all es' l') \<longleftrightarrow> es = es')"
proof -
  have "es = es'" if "al_file (log_all es l) = al_file (log_all es' l')"
  proof -
    have "map to_jsonl es = map to_jsonl es'"
      using arg_cong [OF that, of "split_on (CHR 0x0A)"] by (simp add: log_all_file assms split_log)
    then show ?thesis by (rule map_injective) (simp add: inj_def to_jsonl_inj)
  qed
  moreover have "al_file (log_all es' l') = al_file (log_all es' l)" by (simp add: log_all_file assms)
  ultimately show ?thesis by (auto simp: log_all_file assms split_log)
qed

definition demo_event :: "string \<Rightarrow> AuditEvent" where
  "demo_event d = \<lparr> ae_ts = ''t'', ae_subject = ''s'', ae_roles = [''admin''], ae_action = ''run.read'', ae_resource_id = None,
     ae_outcome = ''ok'', ae_detail = Some d \<rparr>"

definition demo_logger :: AuditLogger where
  "demo_logger = \<lparr> al_file = [], al_has_sink = False, al_scheduled = [] \<rparr>"

theorem audit_log_faithful_witness:
  "length (split_on (CHR 0x0A) (al_file (log_all [demo_event [CHR 0x0A]] demo_logger))) = 2 \<and>
   al_file (log_all [demo_event [CHR 0x0A]] demo_logger) \<noteq> al_file (log_all [demo_event []] demo_logger)"
  using audit_log_faithful [of demo_logger demo_logger "[demo_event [CHR 0x0A]]" "[demo_event []]"]
  by (simp add: demo_logger_def demo_event_def)

section \<open>Batches\<close>

fun export_all :: "(rat \<times> AuditEvent) list \<Rightarrow> AuditSink \<Rightarrow> AuditEvent list list \<times> AuditSink" where
  "export_all [] s = ([], s)"
| "export_all ((now, e) # xs) s = (let (us, s1) = export True now e s; (us2, s2) = export_all xs s1 in (us @ us2, s2))"

lemma export_cases:
  assumes "export True now e s = (us, s')"
  shows "concat us @ sk_batch s' = sk_batch s @ [e] \<and> length (sk_batch s') < sk_max_batch \<and>
     list_all (\<lambda>u. u \<noteq> [] \<and> length u \<le> length (sk_batch s) + 1) us"
  using assms by (auto simp: export_def Let_def sk_max_batch_def split: if_splits)

lemma export_all_batches:
  assumes "length (sk_batch s) < sk_max_batch" "export_all xs s = (us, s')"
  shows "concat us @ sk_batch s' = sk_batch s @ map snd xs \<and> length (sk_batch s') < sk_max_batch \<and>
     list_all (\<lambda>u. u \<noteq> [] \<and> length u \<le> sk_max_batch) us"
  using assms
proof (induction xs arbitrary: s us)
  case (Cons x xs)
  obtain now e where x: "x = (now, e)" by (cases x)
  obtain u1 s1 where 1: "export True now e s = (u1, s1)" by (cases "export True now e s")
  obtain u2 where 2: "export_all xs s1 = (u2, s')" "us = u1 @ u2" using Cons.prems(2) x 1 by (auto split: prod.splits)
  note e = export_cases [OF 1]
  have "length (sk_batch s1) < sk_max_batch" using e by simp
  note IH = Cons.IH [OF this 2(1)]
  have "list_all (\<lambda>u. u \<noteq> [] \<and> length u \<le> sk_max_batch) u1" using e Cons.prems(1) by (auto simp: list_all_iff)
  then show ?case using e IH x 2(2) by (simp del: append_assoc add: append_assoc [symmetric]) (metis append_assoc append_Cons append_Nil)
qed simp

text \<open>
  C40. A sink neither loses, repeats nor reorders events: the uploaded batches followed by the batch that is
  still open are the exported events in order; no upload is empty or larger than the limit.
\<close>

theorem sink_batches_exact:
  assumes "export_all xs (new_sink t) = (uploads, s)"
  shows "concat uploads @ sk_batch s = map snd xs \<and> length (sk_batch s) < 100 \<and>
     list_all (\<lambda>u. u \<noteq> [] \<and> length u \<le> 100) uploads"
  using export_all_batches [OF _ assms] by (simp add: new_sink_def sk_max_batch_def)

theorem sink_batches_exact_witness:
  "\<exists>uploads s. export_all [(1, demo_event []), (6, demo_event ''x'')] (new_sink (GCSAuditSink ''b'' ''audit/'')) = (uploads, s) \<and>
     concat uploads @ sk_batch s = [demo_event [], demo_event ''x'']"
proof -
  obtain uploads s where u: "export_all [(1, demo_event []), (6, demo_event ''x'')] (new_sink (GCSAuditSink ''b'' ''audit/'')) = (uploads, s)"
    by (cases "export_all [(1, demo_event []), (6, demo_event ''x'')] (new_sink (GCSAuditSink ''b'' ''audit/''))")
  then show ?thesis using sink_batches_exact [OF u] by simp
qed

end
