(* ===== verification/Py_Json.thy ===== *)
theory Py_Json
  imports Py_Text
begin

text \<open>
  The parser \<open>json.loads\<close> of the standard library, on texts whose escapes stay within the model's characters
  and whose numbers are finite; \<open>None\<close> stands for the exception. Fuel bounds the number of nested calls; a text
  needs at most its length. The parser inverts the printer \<open>json_dumps\<close> of \<open>Py_Text\<close>.
\<close>

section \<open>The parser\<close>

definition json_space :: "char \<Rightarrow> bool" where
  "json_space c \<longleftrightarrow> code c \<in> {32, 9, 10, 13}"

definition skip_ws :: "string \<Rightarrow> string" where
  "skip_ws = dropWhile json_space"

definition hex_digit_val :: "char \<Rightarrow> nat option" where
  "hex_digit_val c = (let n = code c in
     if 48 \<le> n \<and> n \<le> 57 then Some (n - 48)
     else if 97 \<le> n \<and> n \<le> 102 then Some (n - 87)
     else if 65 \<le> n \<and> n \<le> 70 then Some (n - 55) else None)"

definition simple_escape :: "char \<Rightarrow> char option" where
  "simple_escape k = map_of [(CHR 0x22, CHR 0x22), (CHR 0x5C, CHR 0x5C), (CHR ''/'', CHR ''/''), (CHR ''b'', CHR 0x08),
     (CHR ''f'', CHR 0x0C), (CHR ''n'', CHR 0x0A), (CHR ''r'', CHR 0x0D), (CHR ''t'', CHR 0x09)] k"

text \<open>One character of a string literal and the text after it.\<close>

fun json_getc :: "string \<Rightarrow> (char \<times> string) option" where
  "json_getc [] = None"
| "json_getc (c # s) =
     (if code c < 32 then None
      else if c \<noteq> CHR 0x5C then Some (c, s)
      else case s of
          k # r \<Rightarrow>
            if k = CHR ''u''
            then (case r of
                    a # b # h # l # r' \<Rightarrow>
                      (case (hex_digit_val a, hex_digit_val b, hex_digit_val h, hex_digit_val l) of
                         (Some 0, Some 0, Some x, Some y) \<Rightarrow> Some (char_of (x * 16 + y), r')
                       | _ \<Rightarrow> None)
                  | _ \<Rightarrow> None)
            else map_option (\<lambda>d. (d, r)) (simple_escape k)
        | [] \<Rightarrow> None)"

fun json_string :: "nat \<Rightarrow> string \<Rightarrow> (string \<times> string) option" where
  "json_string 0 s = None"
| "json_string (Suc n) s =
     (case s of
        [] \<Rightarrow> None
      | c # r \<Rightarrow> if c = quote2 then Some ([], r)
                else case json_getc s of
                    None \<Rightarrow> None
                  | Some (d, r') \<Rightarrow> map_option (\<lambda>(t, q). (d # t, q)) (json_string n r'))"

definition json_digit :: "char \<Rightarrow> bool" where
  "json_digit c \<longleftrightarrow> 48 \<le> code c \<and> code c \<le> 57"

definition digits_val :: "string \<Rightarrow> int" where
  "digits_val ds = foldl (\<lambda>a c. a * 10 + int (code c - 48)) 0 ds"

text \<open>The number pattern: no leading zeros, then an optional fraction and exponent, each only if complete.\<close>

definition json_frac :: "string \<Rightarrow> string \<times> string" where
  "json_frac s = (case s of
     c # r \<Rightarrow> if c = CHR ''.'' \<and> takeWhile json_digit r \<noteq> [] then (takeWhile json_digit r, dropWhile json_digit r) else ([], s)
   | [] \<Rightarrow> ([], []))"

definition json_exp :: "string \<Rightarrow> int option \<times> string" where
  "json_exp s = (case s of
     c # r \<Rightarrow>
       if c = CHR ''e'' \<or> c = CHR ''E''
       then (let (neg, r') = (case r of d # q \<Rightarrow> if d = CHR ''-'' then (True, q) else if d = CHR ''+'' then (False, q) else (False, r) | [] \<Rightarrow> (False, []));
                 ds = takeWhile json_digit r'
             in if ds = [] then (None, s)
                else (Some (if neg then - digits_val ds else digits_val ds), dropWhile json_digit r'))
       else (None, s)
   | [] \<Rightarrow> (None, []))"

definition json_int_part :: "string \<Rightarrow> (string \<times> string) option" where
  "json_int_part s = (case s of
     c # r \<Rightarrow> if c = CHR ''0'' then Some (''0'', r)
             else if json_digit c then Some (takeWhile json_digit s, dropWhile json_digit s) else None
   | [] \<Rightarrow> None)"

text \<open>A decimal with its shortest mantissa, as floats of the model are held.\<close>

function norm_dec :: "int \<Rightarrow> int \<Rightarrow> int \<times> int" where
  "norm_dec m e = (if m = 0 then (0, 0) else if m mod 10 = 0 then norm_dec (m div 10) (e + 1) else (m, e))"
  by auto
termination
proof (relation "measure (\<lambda>(m, e). nat \<bar>m\<bar>)")
  fix m e :: int
  assume "m \<noteq> 0" "m mod 10 = 0"
  then have "m = 10 * (m div 10)" "m div 10 \<noteq> 0" by (auto simp: div_mult_mod_eq)
  then have "\<bar>m div 10\<bar> < \<bar>m\<bar>" by linarith
  then show "((m div 10, e + 1), m, e) \<in> measure (\<lambda>(m, e). nat \<bar>m\<bar>)" by simp
qed simp

declare norm_dec.simps [simp del]

definition json_number :: "string \<Rightarrow> (pyval \<times> string) option" where
  "json_number s =
     (let (neg, s1) = (case s of c # r \<Rightarrow> if c = CHR ''-'' then (True, r) else (False, s) | [] \<Rightarrow> (False, []))
      in case json_int_part s1 of
           None \<Rightarrow> None
         | Some (ds, s2) \<Rightarrow>
             (let (fs, s3) = json_frac s2; (ex, s4) = json_exp s3; sg = (if neg then - 1 else 1)
              in Some (if fs = [] \<and> ex = None then PInt (sg * digits_val ds)
                       else (case norm_dec (sg * digits_val (ds @ fs)) ((case ex of Some x \<Rightarrow> x | None \<Rightarrow> 0) - int (length fs)) of
                              (m, e) \<Rightarrow> PFloat m e), s4)))"

definition json_literal :: "string \<Rightarrow> pyval \<Rightarrow> string \<Rightarrow> (pyval \<times> string) option" where
  "json_literal word v s = (if prefix word s then Some (v, drop (length word) s) else None)"

fun json_value :: "nat \<Rightarrow> string \<Rightarrow> (pyval \<times> string) option"
and json_items :: "nat \<Rightarrow> string \<Rightarrow> (pyval list \<times> string) option"
and json_members :: "nat \<Rightarrow> string \<Rightarrow> pydict \<Rightarrow> (pydict \<times> string) option" where
  "json_value 0 s = None"
| "json_value (Suc n) s =
     (case s of
        [] \<Rightarrow> None
      | c # r \<Rightarrow>
          if c = quote2 then map_option (\<lambda>(t, q). (PStr t, q)) (json_string (Suc n) r)
          else if c = CHR ''{'' then
            (case skip_ws r of
               [] \<Rightarrow> None
             | d # q \<Rightarrow> if d = CHR ''}'' then Some (PDict [], q)
                       else map_option (\<lambda>(t, q). (PDict t, q)) (json_members n (skip_ws r) []))
          else if c = CHR ''['' then
            (case skip_ws r of
               [] \<Rightarrow> None
             | d # q \<Rightarrow> if d = CHR '']'' then Some (PList [], q)
                       else map_option (\<lambda>(t, q). (PList t, q)) (json_items n (skip_ws r)))
          else if c = CHR ''n'' then json_literal ''null'' PNone s
          else if c = CHR ''t'' then json_literal ''true'' (PBool True) s
          else if c = CHR ''f'' then json_literal ''false'' (PBool False) s
          else json_number s)"
| "json_items 0 s = None"
| "json_items (Suc n) s =
     (case json_value n s of
        None \<Rightarrow> None
      | Some (v, r) \<Rightarrow>
          (case skip_ws r of
             [] \<Rightarrow> None
           | c # q \<Rightarrow> if c = CHR '']'' then Some ([v], q)
                     else if c = CHR '','' then map_option (\<lambda>(vs, q'). (v # vs, q')) (json_items n (skip_ws q))
                     else None))"
| "json_members 0 s d = None"
| "json_members (Suc n) s d =
     (case s of
        [] \<Rightarrow> None
      | c # r \<Rightarrow>
          if c \<noteq> quote2 then None
          else case json_string n r of
              None \<Rightarrow> None
            | Some (k, r1) \<Rightarrow>
                (case skip_ws r1 of
                   [] \<Rightarrow> None
                 | c1 # r2 \<Rightarrow>
                     if c1 \<noteq> CHR '':'' then None
                     else case json_value n (skip_ws r2) of
                         None \<Rightarrow> None
                       | Some (v, r3) \<Rightarrow>
                           (case skip_ws r3 of
                              [] \<Rightarrow> None
                            | c2 # r4 \<Rightarrow>
                                if c2 = CHR ''}'' then Some (dset d k v, r4)
                                else if c2 = CHR '','' then json_members n (skip_ws r4) (dset d k v)
                                else None)))"

definition json_loads :: "string \<Rightarrow> pyval option" where
  "json_loads s =
     (case json_value (Suc (length s)) (skip_ws s) of
        Some (v, r) \<Rightarrow> if skip_ws r = [] then Some v else None
      | None \<Rightarrow> None)"

section \<open>Printing and parsing\<close>

lemma char_code_inv: "char_of (code c) = c"
  by (simp add: code_def)

lemma char_eq_code: "c = d \<longleftrightarrow> code c = code d"
  by (metis char_code_inv)

lemma hex_digit_val_char: "n < 16 \<Longrightarrow> hex_digit_val (hex_char n) = Some n"
  by (simp add: hex_digit_val_def hex_char_def code_def of_char_of Let_def)

lemma hex_digit_val_zero: "hex_digit_val (CHR ''0'') = Some 0"
  by code_simp

lemma json_getc_append: "json_getc s = Some (c, r) \<Longrightarrow> json_getc (s @ x) = Some (c, r @ x)"
  by (cases s) (auto split: list.splits if_splits option.splits nat.splits)

lemma json_char_cases:
  "json_getc (json_char c) = Some (c, []) \<and> hd (json_char c) \<noteq> quote2 \<and> json_char c \<noteq> []"
proof -
  consider "code c < 32" | "code c = 34 \<or> code c = 92" | "32 \<le> code c" "code c \<noteq> 34" "code c \<noteq> 92" by linarith
  then show ?thesis
  proof cases
    case 1
    have bs: "char_of (92 :: nat) = CHR 0x5C" "code (CHR 0x5C) = 92" "CHR 0x5C \<noteq> quote2" by code_simp+
    show ?thesis
    proof (cases "code c \<in> {8, 9, 10, 12, 13}")
      case True
      then have "c \<in> {CHR 0x08, CHR 0x09, CHR 0x0A, CHR 0x0C, CHR 0x0D}" by (auto simp: char_eq_code) (auto simp: code_def)
      then show ?thesis by (elim insertE emptyE) (simp, code_simp)+
    next
      case False
      then have j: "json_char c = CHR 0x5C # ''u00'' @ hex2 (code c)" using 1 by (simp add: json_char_def Let_def bs)
      have "code c div 16 < 16" "code c mod 16 < 16" using 1 by auto
      then have "json_getc (json_char c) = Some (char_of (code c div 16 * 16 + code c mod 16), [])"
        by (simp add: j bs hex2_def hex_digit_val_char hex_digit_val_zero)
      then show ?thesis using j bs by (simp add: char_code_inv)
    qed
  next
    case 2
    then have "c = CHR 0x22 \<or> c = CHR 0x5C" by (simp add: char_eq_code) (simp add: code_def)
    then show ?thesis by (elim disjE) (simp, code_simp)+
  next
    case 3
    then have "json_char c = [c]" by (simp add: json_char_def Let_def)
    moreover have "c \<noteq> CHR 0x5C" "c \<noteq> quote2" using 3 by (auto simp: code_def quote2_def)
    ultimately show ?thesis using 3 by simp
  qed
qed

lemma json_string_dumps:
  "length (concat (map json_char s)) < n \<Longrightarrow> json_string n (concat (map json_char s) @ quote2 # x) = Some (s, x)"
proof (induction s arbitrary: n)
  case Nil
  then show ?case by (cases n) auto
next
  case (Cons c s)
  obtain m where n: "n = Suc m" using Cons.prems by (cases n) auto
  obtain d t where j: "json_char c = d # t" "d \<noteq> quote2" using json_char_cases [of c] by (cases "json_char c") auto
  let ?rest = "concat (map json_char s) @ quote2 # x"
  have g: "json_getc (json_char c @ ?rest) = Some (c, ?rest)"
    using json_getc_append [of "json_char c" c "[]"] json_char_cases [of c] by simp
  have "json_string m ?rest = Some (s, x)" using Cons.IH [of m] Cons.prems n j by simp
  then show ?case using g j by (simp add: n del: json_getc.simps)
qed

definition json_stop :: "string \<Rightarrow> bool" where
  "json_stop r \<longleftrightarrow> r = [] \<or> hd r \<in> {CHR '','', CHR '']'', CHR ''}''}"

lemma json_digit_digit: "n < 10 \<Longrightarrow> json_digit (digit_char n)"
  by (simp add: json_digit_def code_digit_char)

lemma nat_str_json_digits: "c \<in> set (nat_str n) \<Longrightarrow> json_digit c"
proof (induction n rule: nat_str.induct)
  case (1 n)
  then show ?case
    by (cases "n < 10") (auto simp: nat_str.simps [of n] json_digit_digit)
qed

lemma nat_str_hd: "hd (nat_str n) = CHR ''0'' \<Longrightarrow> n = 0"
proof (induction n rule: nat_str.induct)
  case (1 n)
  show ?case
  proof (cases "n < 10")
    case True
    then have "code (digit_char n) = code (CHR ''0'')" using 1(2) by (simp add: nat_str.simps [of n])
    then show ?thesis using True by (simp add: code_digit_char) (simp add: code_def)
  next
    case False
    then have "hd (nat_str (n div 10)) = CHR ''0''" using 1(2) by (simp add: nat_str.simps [of n])
    then show ?thesis using 1(1) [OF False] False by simp
  qed
qed

lemma digits_val_nat_str: "digits_val (nat_str n) = int n"
proof (induction n rule: nat_str.induct)
  case (1 n)
  show ?case
  proof (cases "n < 10")
    case True
    then show ?thesis by (simp add: nat_str.simps [of n] digits_val_def code_digit_char)
  next
    case False
    have "digits_val (nat_str n) = digits_val (nat_str (n div 10)) * 10 + int (n mod 10)"
      using False by (simp add: nat_str.simps [of n] digits_val_def code_digit_char)
    also have "\<dots> = int n" using 1 [OF False] by (simp add: zmod_int zdiv_int)
    finally show ?thesis .
  qed
qed

lemma json_stop_digit: "json_stop r \<Longrightarrow> r \<noteq> [] \<Longrightarrow> \<not> json_digit (hd r) \<and> hd r \<noteq> CHR ''.'' \<and> hd r \<noteq> CHR ''e'' \<and> hd r \<noteq> CHR ''E''"
  by (auto simp: json_stop_def json_digit_def code_def)

lemma json_int_part_nat_str:
  assumes "json_stop r"
  shows "json_int_part (nat_str n @ r) = Some (nat_str n, r)"
proof -
  obtain c cs where s: "nat_str n = c # cs" by (cases "nat_str n") auto
  have d: "\<forall>x\<in>set (nat_str n). json_digit x" using nat_str_json_digits by blast
  have r: "takeWhile json_digit r = [] \<and> dropWhile json_digit r = r"
    using json_stop_digit [OF assms] by (cases r) auto
  show ?thesis
  proof (cases "c = CHR ''0''")
    case True
    then have "n = 0" using nat_str_hd [of n] s by simp
    then show ?thesis using True s by (simp add: json_int_part_def nat_str.simps [of 0])
  next
    case False
    then show ?thesis using s d r by (simp add: json_int_part_def takeWhile_append dropWhile_append)
  qed
qed

lemma json_number_int:
  assumes "json_stop r"
  shows "json_number (int_str i @ r) = Some (PInt i, r)"
proof -
  have fe: "json_frac r = ([], r)" "json_exp r = (None, r)"
    using json_stop_digit [OF assms] by (cases r; simp add: json_frac_def json_exp_def)+
  have hd: "hd (nat_str n) \<noteq> CHR ''-''" for n
  proof -
    have "json_digit (hd (nat_str n))" using nat_str_json_digits [of "hd (nat_str n)" n] by simp
    then show ?thesis by (auto simp: json_digit_def code_def)
  qed
  show ?thesis
  proof (cases "i < 0")
    case True
    then show ?thesis
      using json_int_part_nat_str [OF assms, of "nat (- i)"]
      by (simp add: json_number_def int_str_def fe digits_val_nat_str)
  next
    case False
    obtain c cs where s: "nat_str (nat i) = c # cs" by (cases "nat_str (nat i)") auto
    have "c \<noteq> CHR ''-''" "digits_val (c # cs) = i" "json_int_part (c # cs @ r) = Some (c # cs, r)"
      using hd [of "nat i"] digits_val_nat_str [of "nat i"] json_int_part_nat_str [OF assms, of "nat i"] False by (simp_all add: s)
    then show ?thesis using False by (simp add: json_number_def int_str_def fe s)
  qed
qed

text \<open>Values that JSON represents exactly: no floats, and dictionaries without a repeated key.\<close>

fun json_plain :: "pyval \<Rightarrow> bool" where
  "json_plain (PFloat m e) \<longleftrightarrow> False"
| "json_plain (PList xs) \<longleftrightarrow> (\<forall>x\<in>set xs. json_plain x)"
| "json_plain (PDict d) \<longleftrightarrow> distinct (map fst d) \<and> (\<forall>kv\<in>set d. json_plain (snd kv))"
| "json_plain _ \<longleftrightarrow> True"

definition json_seps :: "string \<Rightarrow> string \<Rightarrow> bool" where
  "json_seps sep ksep \<longleftrightarrow> (\<exists>u w. sep = CHR '','' # u \<and> ksep = CHR '':'' # w \<and> list_all json_space u \<and> list_all json_space w)"

abbreviation dumps :: "string \<Rightarrow> string \<Rightarrow> pyval \<Rightarrow> string" where
  "dumps \<equiv> json_dumps False"

lemma quote2_eq: "quote2 = CHR 0x22"
  by code_simp

text \<open>How the text of a value begins.\<close>

definition json_head :: "char \<Rightarrow> bool" where
  "json_head c \<longleftrightarrow> \<not> json_space c \<and> c \<noteq> CHR '']'' \<and> c \<noteq> CHR ''}''"

lemma quote2_head: "json_head quote2"
  by code_simp

lemma json_digit_head: "json_digit c \<Longrightarrow> json_head c \<and> c \<notin> {quote2, CHR ''{'', CHR ''['', CHR ''n'', CHR ''t'', CHR ''f''}"
  by (auto simp: json_digit_def json_head_def json_space_def quote2_eq code_def)

lemma int_str_head: "\<exists>c s. int_str i = c # s \<and> json_head c \<and> c \<notin> {quote2, CHR ''{'', CHR ''['', CHR ''n'', CHR ''t'', CHR ''f''}"
proof (cases "i < 0")
  case True
  then show ?thesis by (auto simp: int_str_def json_head_def json_space_def code_def quote2_eq)
next
  case False
  obtain c s where "nat_str (nat i) = c # s" by (cases "nat_str (nat i)") auto
  then show ?thesis using False nat_str_json_digits [of c "nat i"] json_digit_head [of c] by (simp add: int_str_def)
qed

lemma dumps_head: "json_plain v \<Longrightarrow> \<exists>c s. dumps sep ksep v = c # s \<and> json_head c"
proof (cases v)
  case (PInt i)
  then show ?thesis using int_str_head [of i] by auto
qed (auto simp: json_head_def json_space_def code_def json_str_def quote2_eq)

lemma skip_ws_head: "json_head c \<Longrightarrow> skip_ws (c # s) = c # s"
  by (simp add: skip_ws_def json_head_def)

lemma skip_ws_blank: "list_all json_space u \<Longrightarrow> skip_ws (u @ s) = skip_ws s"
  by (induction u) (auto simp: skip_ws_def)

lemma skip_ws_dumps: "json_plain v \<Longrightarrow> skip_ws (dumps sep ksep v @ x) = dumps sep ksep v @ x"
  using dumps_head [of v sep ksep] by (auto simp: skip_ws_head)

lemma skip_ws_punct: "c \<in> {CHR '','', CHR '']'', CHR ''}'', CHR '':''} \<Longrightarrow> skip_ws (c # s) = c # s"
  by (auto simp: skip_ws_def json_space_def code_def)

lemma update_new: "k \<notin> fst ` set d \<Longrightarrow> AList.update k v d = d @ [(k, v)]"
  by (induction d) auto

definition parses :: "string \<Rightarrow> string \<Rightarrow> pyval \<Rightarrow> bool" where
  "parses sep ksep v \<longleftrightarrow> (\<forall>n x. length (dumps sep ksep v) \<le> n \<longrightarrow> json_stop x \<longrightarrow>
     json_value n (dumps sep ksep v @ x) = Some (v, x))"

lemma parsesD: "parses sep ksep v \<Longrightarrow> length (dumps sep ksep v) \<le> n \<Longrightarrow> json_stop x \<Longrightarrow>
    json_value n (dumps sep ksep v @ x) = Some (v, x)"
  by (simp add: parses_def)

lemma json_stop_punct: "c \<in> {CHR '','', CHR '']'', CHR ''}''} \<Longrightarrow> json_stop (c # s)"
  by (simp add: json_stop_def)

lemma json_items_dumps:
  assumes "xs \<noteq> []" "\<forall>x\<in>set xs. json_plain x \<and> parses (CHR '','' # u) ksep x" "list_all json_space u"
    "length (join (CHR '','' # u) (map (dumps (CHR '','' # u) ksep) xs)) < n"
  shows "json_items n (join (CHR '','' # u) (map (dumps (CHR '','' # u) ksep) xs) @ CHR '']'' # x) = Some (xs, x)"
  using assms
proof (induction xs arbitrary: n)
  case (Cons v xs)
  let ?D = "dumps (CHR '','' # u) ksep"
  obtain m where n: "n = Suc m" using Cons.prems(4) by (cases n) auto
  show ?case
  proof (cases xs)
    case Nil
    then have "json_value m (?D v @ CHR '']'' # x) = Some (v, CHR '']'' # x)"
      using Cons.prems n by (intro parsesD) (auto simp: json_stop_punct)
    then show ?thesis using Nil n by (simp add: skip_ws_punct)
  next
    case (Cons y ys)
    let ?J = "join (CHR '','' # u) (map ?D xs)"
    have eq: "join (CHR '','' # u) (map ?D (v # xs)) @ CHR '']'' # x = ?D v @ CHR '','' # u @ ?J @ CHR '']'' # x" using Cons by simp
    have l: "length (?D v) \<le> m" "length ?J < m" using Cons.prems(4) n Cons by auto
    have "json_value m (?D v @ CHR '','' # u @ ?J @ CHR '']'' # x) = Some (v, CHR '','' # u @ ?J @ CHR '']'' # x)"
      using Cons.prems(2) l(1) by (intro parsesD) (auto simp: json_stop_punct)
    moreover have "skip_ws (u @ ?J @ CHR '']'' # x) = ?J @ CHR '']'' # x"
    proof -
      have "?J @ CHR '']'' # x = ?D y @ (if ys = [] then [] else CHR '','' # u @ join (CHR '','' # u) (map ?D ys)) @ CHR '']'' # x"
        using Cons by (cases ys) auto
      then show ?thesis using Cons.prems(2,3) Cons by (simp add: skip_ws_blank skip_ws_dumps)
    qed
    ultimately show ?thesis
      using Cons.IH [OF _ _ Cons.prems(3) l(2)] Cons.prems(2) Cons unfolding eq n by (simp add: skip_ws_punct)
  qed
qed simp

lemma json_string_str: "length (json_str k) \<le> Suc n \<Longrightarrow> json_string n (tl (json_str k) @ x) = Some (k, x)"
  using json_string_dumps [of k n x] by (simp add: json_str_def)

lemma json_str_Cons: "json_str k = quote2 # tl (json_str k)"
  by (simp add: json_str_def)

lemma json_members_dumps:
  fixes u w :: string
  defines "D \<equiv> dumps (CHR '','' # u) (CHR '':'' # w)"
  defines "M \<equiv> (\<lambda>kv. json_str (fst kv) @ (CHR '':'' # w) @ D (snd kv))"
  assumes "d \<noteq> []" "\<forall>kv\<in>set d. json_plain (snd kv) \<and> parses (CHR '','' # u) (CHR '':'' # w) (snd kv)"
    "list_all json_space u" "list_all json_space w" "distinct (map fst acc @ map fst d)"
    "length (join (CHR '','' # u) (map M d)) < n"
  shows "json_members n (join (CHR '','' # u) (map M d) @ CHR ''}'' # x) acc = Some (acc @ d, x)"
  using assms(3-)
proof (induction d arbitrary: n acc)
  case (Cons kv d)
  obtain k v where kv: "kv = (k, v)" by (cases kv)
  obtain m where n: "n = Suc m" using Cons.prems(6) by (cases n) auto
  let ?J = "join (CHR '','' # u) (map M d)"
  define r where "r = (if d = [] then CHR ''}'' # x else CHR '','' # u @ ?J @ CHR ''}'' # x)"
  have eq: "join (CHR '','' # u) (map M (kv # d)) @ CHR ''}'' # x = quote2 # tl (json_str k) @ CHR '':'' # w @ D v @ r"
    by (cases d) (simp_all add: M_def r_def kv flip: json_str_Cons)
  have len: "length (json_str k) + length (D v) + (if d = [] then 0 else Suc (length ?J)) \<le> m"
    using Cons.prems(6) n by (cases d) (simp_all add: M_def kv)
  have st: "json_string m (tl (json_str k) @ CHR '':'' # w @ D v @ r) = Some (k, CHR '':'' # w @ D v @ r)"
    using len by (intro json_string_str) simp
  have va: "json_value m (D v @ r) = Some (v, r)"
    using Cons.prems(2) len unfolding D_def by (intro parsesD) (auto simp: kv r_def json_stop_punct)
  have ws: "skip_ws (CHR '':'' # w @ D v @ r) = CHR '':'' # w @ D v @ r" "skip_ws (w @ D v @ r) = D v @ r" "skip_ws r = r"
    using Cons.prems(2,4) by (auto simp: skip_ws_punct skip_ws_blank skip_ws_dumps D_def kv r_def)
  have ac: "AList.update k v acc = acc @ [(k, v)]" using Cons.prems(5) by (intro update_new) (auto simp: kv)
  show ?case
  proof (cases d)
    case Nil
    then show ?thesis unfolding eq n using st va ws ac by (simp add: r_def kv)
  next
    case (Cons kv2 d2)
    have "skip_ws (u @ ?J @ CHR ''}'' # x) = ?J @ CHR ''}'' # x"
    proof -
      have "\<exists>t. ?J = quote2 # t" using Cons by (cases d2) (simp_all add: M_def json_str_def)
      then show ?thesis using Cons.prems(3) by (auto simp: skip_ws_blank skip_ws_head quote2_head)
    qed
    moreover have "json_members m (?J @ CHR ''}'' # x) (acc @ [(k, v)]) = Some ((acc @ [(k, v)]) @ d, x)"
      using Cons.prems len Cons by (intro Cons.IH) (auto simp: kv)
    ultimately show ?thesis unfolding eq n using st va ws ac Cons by (simp add: r_def kv)
  qed
qed simp

lemma json_value_words:
  assumes "Suc k \<le> n"
  shows "json_value n (CHR ''n'' # CHR ''u'' # CHR ''l'' # CHR ''l'' # x) = Some (PNone, x)"
    and "json_value n (CHR ''t'' # CHR ''r'' # CHR ''u'' # CHR ''e'' # x) = Some (PBool True, x)"
    and "json_value n (CHR ''f'' # CHR ''a'' # CHR ''l'' # CHR ''s'' # CHR ''e'' # x) = Some (PBool False, x)"
  using assms by (cases n; simp add: json_literal_def quote2_eq)+

lemma parses_int: "parses sep ksep (PInt i)"
proof -
  obtain c t where c: "int_str i = c # t" "c \<notin> {quote2, CHR ''{'', CHR ''['', CHR ''n'', CHR ''t'', CHR ''f''}"
    using int_str_head [of i] by (elim exE conjE) (rule that)
  show ?thesis unfolding parses_def
  proof (intro allI impI)
    fix n x
    assume l: "length (dumps sep ksep (PInt i)) \<le> n" "json_stop x"
    obtain m where n: "n = Suc m" using l c(1) by (cases n) auto
    have "json_number (c # t @ x) = Some (PInt i, x)" using json_number_int [OF l(2), of i] by (simp add: c(1))
    then show "json_value n (dumps sep ksep (PInt i) @ x) = Some (PInt i, x)" using c by (simp add: n)
  qed
qed

lemma parses_str: "parses sep ksep (PStr s)"
  unfolding parses_def
proof (intro allI impI)
  fix n x
  assume l: "length (dumps sep ksep (PStr s)) \<le> n" "json_stop x"
  obtain m where n: "n = Suc m" using l by (cases n) (auto simp: json_str_def)
  have "json_string (Suc m) (tl (json_str s) @ x) = Some (s, x)" using l n by (intro json_string_str) simp
  then show "json_value n (dumps sep ksep (PStr s) @ x) = Some (PStr s, x)"
    by (subst json_dumps.simps, subst json_str_Cons) (simp add: n)
qed

lemma dumps_parses:
  assumes "json_seps sep ksep" "json_plain v"
  shows "parses sep ksep v"
  using assms(2)
proof (induction v rule: json_plain.induct)
  case (2 xs)
  obtain u w where s: "sep = CHR '','' # u" "ksep = CHR '':'' # w" "list_all json_space u" "list_all json_space w"
    using assms(1) by (auto simp: json_seps_def)
  show ?case unfolding parses_def
  proof (intro allI impI)
    fix n x
    assume l: "length (dumps sep ksep (PList xs)) \<le> n" "json_stop x"
    obtain m where n: "n = Suc m" using l by (cases n) auto
    let ?J = "join sep (map (dumps sep ksep) xs)"
    show "json_value n (dumps sep ksep (PList xs) @ x) = Some (PList xs, x)"
    proof (cases xs)
      case (Cons v vs)
      have "json_items m (?J @ CHR '']'' # x) = Some (xs, x)"
        using 2 l n s Cons unfolding s(1) by (intro json_items_dumps) auto
      moreover obtain c t where h: "?J = c # t" "json_head c"
        using dumps_head [of v sep ksep] 2(2) Cons by (cases vs) auto
      ultimately show ?thesis by (simp add: n skip_ws_head json_head_def quote2_eq)
    qed (simp add: n skip_ws_punct quote2_eq)
  qed
next
  case (3 d)
  obtain u w where s: "sep = CHR '','' # u" "ksep = CHR '':'' # w" "list_all json_space u" "list_all json_space w"
    using assms(1) by (auto simp: json_seps_def)
  let ?M = "\<lambda>kv. json_str (fst kv) @ ksep @ dumps sep ksep (snd kv)"
  have D: "dumps sep ksep (PDict d) = CHR ''{'' # join sep (map ?M d) @ ''}''"
    by (simp add: key_order_def comp_def)
  show ?case unfolding parses_def
  proof (intro allI impI)
    fix n x
    assume l: "length (dumps sep ksep (PDict d)) \<le> n" "json_stop x"
    obtain m where n: "n = Suc m" using l by (cases n) auto
    let ?J = "join sep (map ?M d)"
    show "json_value n (dumps sep ksep (PDict d) @ x) = Some (PDict d, x)"
    proof (cases d)
      case (Cons kv d2)
      have "length ?J < m" using l(1) n unfolding D by simp
      then have "json_members m (?J @ CHR ''}'' # x) [] = Some ([] @ d, x)"
        using 3 s Cons unfolding s(1,2) by (intro json_members_dumps) auto
      moreover obtain t where h: "?J = quote2 # t" using Cons by (cases d2) (simp_all add: json_str_def)
      ultimately show ?thesis unfolding D by (simp add: n skip_ws_head json_head_def json_space_def code_def quote2_eq)
    qed (simp add: n skip_ws_punct quote2_eq key_order_def)
  qed
qed (auto simp: parses_int parses_str, auto simp: parses_def json_value_words)

lemma json_loads_dumps:
  assumes "json_seps sep ksep" "json_plain v"
  shows "json_loads (dumps sep ksep v) = Some v"
proof -
  let ?s = "dumps sep ksep v"
  have "json_value (Suc (length ?s)) (?s @ []) = Some (v, [])"
    by (intro parsesD dumps_parses assms) (simp_all add: json_stop_def)
  then show ?thesis using skip_ws_dumps [OF assms(2), of sep ksep "[]"] by (simp add: json_loads_def skip_ws_def)
qed

text \<open>
  Parsing inverts printing: whatever blanks the separators contain, the text printed for a value without
  floats and repeated keys parses to that value. What is stored as JSON is read back unchanged.
\<close>

theorem json_round_trip:
  assumes "json_seps sep ksep" "json_plain v"
  shows "json_loads (json_dumps False sep ksep v) = Some v"
  by (rule json_loads_dumps [OF assms])

definition demo_json :: pyval where
  "demo_json = PDict [(''a'', PList [PInt (- 12), PStr [CHR 0x22, CHR 0x0A], PNone]), (''b'', PDict [(''c'', PBool True)])]"

theorem json_round_trip_witness: "json_loads (json_dumps False '', '' '': '' demo_json) = Some demo_json"
proof -
  have "json_seps '', '' '': ''"
    unfolding json_seps_def by (rule exI [of _ "'' ''"], rule exI [of _ "'' ''"]) (simp add: json_space_def code_def)
  moreover have "json_plain demo_json" by code_simp
  ultimately show ?thesis by (rule json_round_trip)
qed

text \<open>With sorted keys the text is that of the value with its dictionaries sorted.\<close>

fun sort_keys :: "pyval \<Rightarrow> pyval" where
  "sort_keys (PList xs) = PList (map sort_keys xs)"
| "sort_keys (PDict d) = PDict (sort_key fst (map (\<lambda>kv. (fst kv, sort_keys (snd kv))) d))"
| "sort_keys v = v"

lemma insort_key_map_snd: "insort_key fst (k, g v) (map (\<lambda>kv. (fst kv, g (snd kv))) xs) = map (\<lambda>kv. (fst kv, g (snd kv))) (insort_key fst (k, v) xs)"
  by (induction xs) auto

lemma sort_key_map_snd: "sort_key fst (map (\<lambda>kv. (fst kv, g (snd kv))) xs) = map (\<lambda>kv. (fst kv, g (snd kv))) (sort_key fst xs)"
proof (induction xs)
  case (Cons x xs)
  then show ?case by (cases x) (simp add: insort_key_map_snd)
qed simp

lemma json_dumps_sorted: "json_dumps True sep ksep v = dumps sep ksep (sort_keys v)"
proof (induction v rule: sort_keys.induct)
  case (2 d)
  have "map (\<lambda>kv. (fst kv, json_dumps True sep ksep (snd kv))) d = map (\<lambda>kv. (fst kv, dumps sep ksep (sort_keys (snd kv)))) d"
    using 2 by (auto intro: map_cong)
  note eq = this
  show ?case
    unfolding json_dumps.simps sort_keys.simps key_order_def eq
    using sort_key_map_snd [of "\<lambda>v. dumps sep ksep (sort_keys v)" d] sort_key_map_snd [of sort_keys d]
    by (simp add: comp_def)
qed (auto intro: arg_cong [where f = "join sep"])

lemma distinct_map_sort_fst: "distinct (map fst d) \<Longrightarrow> distinct (map fst (sort_key fst d))"
  by (simp add: distinct_map inj_on_def)

lemma json_plain_sort_keys: "json_plain v \<Longrightarrow> json_plain (sort_keys v)"
proof (induction v rule: sort_keys.induct)
  case (2 d)
  have "distinct (map fst (sort_key fst (map (\<lambda>kv. (fst kv, sort_keys (snd kv))) d)))"
    using 2(2) by (intro distinct_map_sort_fst) (simp add: comp_def)
  then show ?case using 2 by auto
qed auto

corollary json_round_trip_sorted:
  assumes "json_seps sep ksep" "json_plain v"
  shows "json_loads (json_dumps True sep ksep v) = Some (sort_keys v)"
  unfolding json_dumps_sorted by (intro json_loads_dumps json_plain_sort_keys assms)

end
