(* ===== verification/App_Config.thy ===== *)
theory App_Config
  imports Audit_Trail Py_Json
begin

text \<open>
  The configuration of \<open>config.py\<close>: the coercions of single values, the sections of the TOML file, and
  \<open>load_config\<close> with the environment variables that overlay them. The parsed file is a dictionary (the
  parser is the library's; dates, infinities and NaN as TOML values are not modelled), the process environment a
  partial function, and the three settings objects of \<open>pydantic_settings\<close> are arguments. A \<open>ConfigError\<close>
  is a \<open>ValueError\<close>, its base class.
\<close>

section \<open>Floating point numbers from text\<close>

text \<open>\<open>Fin m e\<close> is the float nearest to \<open>m * 10 ^ e\<close>; rounding is left out, overflow is not.\<close>

datatype pyfloat = Fin int int | PosInf | NegInf | NaN

definition float_overflows :: "int \<Rightarrow> int \<Rightarrow> bool" where
  "float_overflows m e =
     (let b = 2 ^ 1024 - 2 ^ 970
      in if 0 \<le> e then b \<le> \<bar>m\<bar> * 10 ^ nat e else b * 10 ^ nat (- e) \<le> \<bar>m\<bar>)"

definition float_of_dec :: "int \<Rightarrow> int \<Rightarrow> pyfloat" where
  "float_of_dec m e = (if float_overflows m e then (if 0 < m then PosInf else NegInf) else Fin m e)"

definition is_dec :: "char \<Rightarrow> bool" where
  "is_dec c \<longleftrightarrow> 48 \<le> code c \<and> code c \<le> 57"

text \<open>A run of digits, with single underscores between digits.\<close>

definition digit_run :: "string \<Rightarrow> string \<times> string" where
  "digit_run s = (takeWhile (\<lambda>c. is_dec c \<or> c = CHR ''_'') s, dropWhile (\<lambda>c. is_dec c \<or> c = CHR ''_'') s)"

definition float_of_str :: "string \<Rightarrow> pyfloat option" where
  "float_of_str raw =
     (let s = strip raw;
          (neg, body) = (case s of c # r \<Rightarrow> if c = CHR ''-'' then (True, r) else if c = CHR ''+'' then (False, r) else (False, s)
                                 | [] \<Rightarrow> (False, []));
          (ip, r1) = digit_run body;
          (fp, r2) = (case r1 of c # r \<Rightarrow> if c = CHR ''.'' then digit_run r else ([], r1) | [] \<Rightarrow> ([], []));
          (ex, rest) = (case r2 of c # r \<Rightarrow>
                           if c = CHR ''e'' \<or> c = CHR ''E''
                           then (let (sg, r') = (case r of d # q \<Rightarrow> if d = CHR ''-'' \<or> d = CHR ''+'' then ([d], q) else ([], r) | [] \<Rightarrow> ([], []));
                                     (ds, q) = digit_run r'
                                 in (map_option (\<lambda>i. if sg = ''-'' then - i else i) (parse_digits 0 False ds), q))
                           else (Some 0, r2)
                         | [] \<Rightarrow> (Some 0, []));
          run_ok = (\<lambda>ds. ds = [] \<or> parse_digits 0 False ds \<noteq> None)
      in if lower body \<in> {''inf'', ''infinity''} then Some (if neg then NegInf else PosInf)
         else if lower body = ''nan'' then Some NaN
         else if ip = [] \<and> fp = [] \<or> \<not> run_ok ip \<or> \<not> run_ok fp \<or> rest \<noteq> [] then None
         else case ex of
             None \<Rightarrow> None
           | Some x \<Rightarrow>
               (case parse_digits 0 False (ip @ fp) of
                  None \<Rightarrow> None
                | Some m \<Rightarrow> Some (float_of_dec (if neg then - m else m)
                    (x - int (length (filter is_dec fp))))))"

definition float_neg :: "pyfloat \<Rightarrow> bool" where
  "float_neg f = (case f of Fin m e \<Rightarrow> m < 0 | PosInf \<Rightarrow> False | NegInf \<Rightarrow> True | NaN \<Rightarrow> False)"

definition parse_float :: "pyval \<Rightarrow> pyfloat \<Rightarrow> pyfloat result" where
  "parse_float v d =
     (case v of
        PInt i \<Rightarrow> if float_overflows i 0 then Inl (OverflowError ''int too large to convert to float'') else Inr (Fin i 0)
      | PFloat m e \<Rightarrow> Inr (Fin m e)
      | PStr s \<Rightarrow> Inr (case float_of_str s of Some f \<Rightarrow> f | None \<Rightarrow> d)
      | _ \<Rightarrow> Inr d)"

section \<open>Coercions\<close>

type_synonym environ = "string \<Rightarrow> string option"

abbreviation config_error :: "string \<Rightarrow> 'a result" where
  "config_error m \<equiv> Inl (ValueError m)"

abbreviation invalid :: "string \<Rightarrow> 'a result" where
  "invalid key \<equiv> config_error (''missing/invalid '' @ key)"

definition ensure :: "bool \<Rightarrow> string \<Rightarrow> unit result" where
  "ensure b m = (if b then Inr () else config_error m)"

lemma ensure_Inr [simp]: "ensure b m = Inr u \<longleftrightarrow> b"
  by (simp add: ensure_def)

definition or_none :: "string \<Rightarrow> string option" where
  "or_none s = (if s = [] then None else Some s)"

definition is_valid_sha256_hex :: "string \<Rightarrow> bool" where
  "is_valid_sha256_hex v \<longleftrightarrow> length v = 64 \<and> list_all (\<lambda>c. is_dec c \<or> 97 \<le> code c \<and> code c \<le> 102) v"

definition valid_namespace :: "string \<Rightarrow> bool" where
  "valid_namespace v \<longleftrightarrow> 1 \<le> length v \<and> length v \<le> 64 \<and>
     list_all (\<lambda>c. is_dec c \<or> 65 \<le> code c \<and> code c \<le> 90 \<or> 97 \<le> code c \<and> code c \<le> 122 \<or> c = CHR ''_'' \<or> c = CHR ''-'') v"

definition require_str :: "pydict \<Rightarrow> string \<Rightarrow> string result" where
  "require_str tbl key = (case dget tbl key PNone of PStr v \<Rightarrow> if strip v = [] then invalid key else Inr v | _ \<Rightarrow> invalid key)"

text \<open>\<open>int(v)\<close> for a number, \<open>int(v.strip())\<close> for a text, with every failure turned into one error.\<close>

definition coerce_int :: "string \<Rightarrow> pyval \<Rightarrow> int result" where
  "coerce_int msg v =
     (let conv = (\<lambda>w. case py_int w of Inl _ \<Rightarrow> config_error msg | Inr i \<Rightarrow> Inr i)
      in case v of PInt i \<Rightarrow> Inr i | PFloat m e \<Rightarrow> conv v | PStr s \<Rightarrow> conv (PStr (strip s)) | _ \<Rightarrow> config_error msg)"

definition require_int :: "pydict \<Rightarrow> string \<Rightarrow> int result" where
  "require_int tbl key = coerce_int (''missing/invalid '' @ key) (dget tbl key PNone)"

definition require_bool :: "pydict \<Rightarrow> string \<Rightarrow> bool result" where
  "require_bool tbl key = (case dget tbl key PNone of PBool b \<Rightarrow> Inr b | _ \<Rightarrow> invalid key)"

definition get_int :: "pydict \<Rightarrow> string \<Rightarrow> int \<Rightarrow> int result" where
  "get_int tbl key d = (if map_of tbl key = None then Inr d else require_int tbl key)"

definition get_bool :: "pydict \<Rightarrow> string \<Rightarrow> bool \<Rightarrow> bool result" where
  "get_bool tbl key d = (if map_of tbl key = None then Inr d else require_bool tbl key)"

definition quoted :: "string \<Rightarrow> string" where
  "quoted key = [quote1] @ key @ [quote1]"

definition require :: "pydict \<Rightarrow> string \<Rightarrow> string \<Rightarrow> pyval result" where
  "require raw key section =
     (case dget raw key PNone of PNone \<Rightarrow> config_error (''['' @ section @ ''] missing required key '' @ quoted key) | v \<Rightarrow> Inr v)"

definition require_section_str :: "pydict \<Rightarrow> string \<Rightarrow> string \<Rightarrow> string result" where
  "require_section_str raw key section = bind_r (require raw key section) (\<lambda>v.
     let err = config_error (''['' @ section @ ''] '' @ quoted key @ '' must be a non-empty string'')
     in case v of PStr s \<Rightarrow> if strip s = [] then err else Inr (strip s) | _ \<Rightarrow> err)"

definition require_section_int :: "pydict \<Rightarrow> string \<Rightarrow> string \<Rightarrow> int result" where
  "require_section_int raw key section = bind_r (require raw key section)
     (coerce_int (''['' @ section @ ''] '' @ quoted key @ '' must be an integer''))"

definition opt_str_default :: "pydict \<Rightarrow> string \<Rightarrow> string \<Rightarrow> string result" where
  "opt_str_default raw key d = (case dget raw key PNone of
     PNone \<Rightarrow> Inr d | PStr s \<Rightarrow> Inr (strip s) | _ \<Rightarrow> config_error (quoted key @ '' must be a string''))"

definition opt_int :: "pydict \<Rightarrow> string \<Rightarrow> int \<Rightarrow> int result" where
  "opt_int raw key d = (case dget raw key PNone of
     PNone \<Rightarrow> Inr d | v \<Rightarrow> coerce_int (quoted key @ '' must be an integer'') v)"

definition opt_bool :: "pydict \<Rightarrow> string \<Rightarrow> bool \<Rightarrow> bool result" where
  "opt_bool raw key d = (case dget raw key PNone of
     PNone \<Rightarrow> Inr d | PBool b \<Rightarrow> Inr b | _ \<Rightarrow> config_error (quoted key @ '' must be a boolean''))"

definition opt_str_or_env :: "environ \<Rightarrow> pydict \<Rightarrow> string \<Rightarrow> string \<Rightarrow> string option result" where
  "opt_str_or_env env raw key var = (case dget raw key PNone of
     PNone \<Rightarrow> Inr (case env var of Some s \<Rightarrow> or_none (strip s) | None \<Rightarrow> None)
   | PStr s \<Rightarrow> Inr (or_none (strip s))
   | _ \<Rightarrow> invalid key)"

definition opt_int_or_env :: "environ \<Rightarrow> pydict \<Rightarrow> string \<Rightarrow> string \<Rightarrow> int \<Rightarrow> int result" where
  "opt_int_or_env env raw key var d = (case dget raw key PNone of
     PNone \<Rightarrow> (case env var of
         Some s \<Rightarrow> (case py_int (PStr (strip s)) of Inl _ \<Rightarrow> invalid var | Inr i \<Rightarrow> Inr i)
       | None \<Rightarrow> Inr d)
   | PInt i \<Rightarrow> Inr i
   | _ \<Rightarrow> invalid key)"

definition env_bool :: "environ \<Rightarrow> string \<Rightarrow> bool \<Rightarrow> bool result" where
  "env_bool env name d = (case env name of
     None \<Rightarrow> Inr d
   | Some raw \<Rightarrow>
       let v = lower (strip raw)
       in if v \<in> {''1'', ''true'', ''yes'', ''on''} then Inr True
          else if v \<in> {''0'', ''false'', ''no'', ''off''} then Inr False
          else invalid (''env '' @ name))"

definition optional_str_tuple :: "pydict \<Rightarrow> string \<Rightarrow> string list result" where
  "optional_str_tuple tbl key = (case dget tbl key (PList []) of
     PNone \<Rightarrow> Inr []
   | PList es \<Rightarrow> map_r (\<lambda>e. case e of PStr s \<Rightarrow> if strip s = [] then invalid key else Inr (strip s) | _ \<Rightarrow> invalid key) es
   | _ \<Rightarrow> invalid key)"

section \<open>The configuration\<close>

record Budgets =
  bg_max_loops :: int
  bg_max_tool_calls_per_loop :: int
  bg_max_patch_bytes :: int
  bg_tool_timeout_s :: int
  bg_stable_prefix_tokens :: int
  bg_working_set_tokens :: int
  bg_tool_result_summary_chars :: int

record PolicyConfig =
  pc_network_default :: string
  pc_require_approval_for_mutations :: bool
  pc_allowed_write_paths :: "string list"

record RunnerConfig =
  rn_base_url :: string
  rn_root_dir :: string
  rn_api_key :: "string option"

record MCPServerConfig =
  ms_command :: string
  ms_args :: "string list"
  ms_cwd :: "string option"
  ms_env :: "(string \<times> string) list"
  ms_timeout_s :: int
  ms_schema_hash :: "string option"

record MCPConfig =
  mc_enabled :: bool
  mc_servers :: "(string \<times> MCPServerConfig) list"

record TraceConfig =
  tr_enabled :: bool
  tr_output_dir :: string
  tr_capture_model_metadata :: bool

record RemoteAPIConfig =
  ra_auth_mode :: string
  ra_bearer_token :: "string option"
  ra_allow_unauthenticated_healthz :: bool
  ra_trust_forwarded_headers :: bool
  ra_access_log_enabled :: bool
  ra_run_store_path :: "string option"
  ra_rate_limit_rps :: int
  ra_procedure_cache_path :: "string option"
  ra_default_namespace :: string
  ra_jwt_secret :: "string option"
  ra_jwks_url :: "string option"

record Checkpoint =
  cp_enabled :: bool
  cp_db_path :: string
  cp_namespace :: string
  cp_thread_prefix :: string
  cp_backend :: string
  cp_redis_url :: string
  cp_postgres_dsn :: string
  cp_redis_ttl_seconds :: int

record ModelEndpoint =
  me_provider :: string
  me_model :: string
  me_temperature :: pyfloat

record ModelRoutingConfig =
  mr_local_provider :: string
  mr_fallback_task_classes :: "string list"
  mr_interactive_context_limit :: int
  mr_deep_planning_context_limit :: int
  mr_recovery_retry_threshold :: int
  mr_default_cache_affinity :: string

record Serverless =
  sv_base_url :: string
  sv_api_key :: "string option"
  sv_timeout_s :: int

record Models =
  md_router :: ModelEndpoint
  md_planner :: ModelEndpoint
  md_routing :: ModelRoutingConfig
  md_digitalocean :: Serverless
  md_openai_compatible :: Serverless

record VericodingConfig =
  vc_enabled :: bool
  vc_extensions :: "string list"

record ConfigSlaEntry =
  cse_model_id :: string
  cse_threshold_p95_s :: pyfloat
  cse_fallback_model_id :: string

record AppConfig =
  cfg_profile :: string
  cfg_models :: Models
  cfg_budgets :: Budgets
  cfg_policy :: PolicyConfig
  cfg_runner :: RunnerConfig
  cfg_mcp :: MCPConfig
  cfg_trace :: TraceConfig
  cfg_remote_api :: RemoteAPIConfig
  cfg_checkpoint :: Checkpoint
  cfg_vericoding :: VericodingConfig
  cfg_audit :: AuditConfig
  cfg_sla :: "ConfigSlaEntry list"

section \<open>The sections of the file\<close>

definition section_of :: "pydict \<Rightarrow> string \<Rightarrow> pyval \<Rightarrow> pydict result" where
  "section_of raw key d = (case dget raw key d of PDict t \<Rightarrow> Inr t | _ \<Rightarrow> invalid key)"

definition parse_budgets :: "pydict \<Rightarrow> Budgets result" where
  "parse_budgets raw =
     bind_r (require_int raw ''max_loops'') (\<lambda>loops.
     bind_r (require_int raw ''max_tool_calls_per_loop'') (\<lambda>calls.
     bind_r (require_int raw ''max_patch_bytes'') (\<lambda>bytes.
     bind_r (require_int raw ''tool_timeout_s'') (\<lambda>timeout.
     bind_r (get_int raw ''stable_prefix_tokens'' 1600) (\<lambda>prefix_tokens.
     bind_r (get_int raw ''working_set_tokens'' 1600) (\<lambda>working.
     bind_r (get_int raw ''tool_result_summary_chars'' 480) (\<lambda>chars.
     bind_r (ensure (1 \<le> loops) ''budgets.max_loops must be >= 1'') (\<lambda>_.
     bind_r (ensure (0 \<le> calls) ''budgets.max_tool_calls_per_loop must be >= 0'') (\<lambda>_.
     bind_r (ensure (1 \<le> bytes) ''budgets.max_patch_bytes must be >= 1'') (\<lambda>_.
     bind_r (ensure (1 \<le> timeout) ''budgets.tool_timeout_s must be >= 1'') (\<lambda>_.
     bind_r (ensure (1 \<le> prefix_tokens) ''budgets.stable_prefix_tokens must be >= 1'') (\<lambda>_.
     bind_r (ensure (1 \<le> working) ''budgets.working_set_tokens must be >= 1'') (\<lambda>_.
     bind_r (ensure (80 \<le> chars) ''budgets.tool_result_summary_chars must be >= 80'') (\<lambda>_.
     Inr \<lparr> bg_max_loops = loops, bg_max_tool_calls_per_loop = calls, bg_max_patch_bytes = bytes,
           bg_tool_timeout_s = timeout, bg_stable_prefix_tokens = prefix_tokens,
           bg_working_set_tokens = working, bg_tool_result_summary_chars = chars \<rparr>))))))))))))))"

text \<open>The text of a value, stripped, with a default for other values and for blank text.\<close>

definition text_or :: "pyval \<Rightarrow> string \<Rightarrow> string" where
  "text_or v d = (case v of PStr s \<Rightarrow> or_str (strip s) d | _ \<Rightarrow> d)"

definition env_text :: "environ \<Rightarrow> string \<Rightarrow> string" where
  "env_text env var = strip (case env var of Some s \<Rightarrow> s | None \<Rightarrow> [])"

definition upper_ascii :: "string \<Rightarrow> string" where
  "upper_ascii = map (\<lambda>c. if 97 \<le> code c \<and> code c \<le> 122 then char_of (code c - 32) else c)"

definition parse_model_endpoint :: "environ \<Rightarrow> pydict \<Rightarrow> string \<Rightarrow> ModelEndpoint result" where
  "parse_model_endpoint env models_raw key = (case dget models_raw key PNone of
     PDict section \<Rightarrow>
       bind_r (parse_float (dget section ''temperature'' (PFloat 0 0)) (Fin 0 0)) (\<lambda>temperature.
       let var = ''LG_'' @ upper_ascii key
       in Inr \<lparr> me_provider = or_str (env_text env (var @ ''_PROVIDER'')) (text_or (dget section ''provider'' (PStr ''local'')) ''local''),
                me_model = or_str (env_text env (var @ ''_MODEL'')) (text_or (dget section ''model'' (PStr ''deterministic'')) ''deterministic''),
                me_temperature = temperature \<rparr>)
   | _ \<Rightarrow> Inr \<lparr> me_provider = ''local'', me_model = ''deterministic'', me_temperature = Fin 0 0 \<rparr>)"

definition default_fallback_classes :: "string list" where
  "default_fallback_classes = [''summarization'', ''lint_reflection'', ''context_condensation'']"

definition nonblank_texts :: "pyval list \<Rightarrow> string list" where
  "nonblank_texts es = concat (map (\<lambda>e. case e of PStr s \<Rightarrow> if strip s = [] then [] else [strip s] | _ \<Rightarrow> []) es)"

definition parse_model_routing :: "pydict \<Rightarrow> ModelRoutingConfig result" where
  "parse_model_routing models_raw = (case dget models_raw ''routing'' PNone of
     PDict routing \<Rightarrow>
       (let classes = nonblank_texts (as_list (dget routing ''fallback_task_classes'' (PList []))) in
        bind_r (get_int routing ''interactive_context_limit'' 1800) (\<lambda>inter.
        bind_r (get_int routing ''deep_planning_context_limit'' 3200) (\<lambda>deep.
        bind_r (get_int routing ''recovery_retry_threshold'' 1) (\<lambda>thr.
        bind_r (ensure (1 \<le> inter) ''models.routing.interactive_context_limit must be >= 1'') (\<lambda>_.
        bind_r (ensure (inter \<le> deep) ''models.routing.deep_planning_context_limit must be >= models.routing.interactive_context_limit'') (\<lambda>_.
        bind_r (ensure (0 \<le> thr) ''models.routing.recovery_retry_threshold must be >= 0'') (\<lambda>_.
        Inr \<lparr> mr_local_provider = text_or (dget routing ''local_provider'' (PStr ''local'')) ''local'',
              mr_fallback_task_classes = (if classes = [] then default_fallback_classes else classes),
              mr_interactive_context_limit = inter, mr_deep_planning_context_limit = deep,
              mr_recovery_retry_threshold = thr,
              mr_default_cache_affinity = text_or (dget routing ''default_cache_affinity'' (PStr ''workspace'')) ''workspace'' \<rparr>)))))))
   | _ \<Rightarrow> Inr \<lparr> mr_local_provider = ''local'', mr_fallback_task_classes = default_fallback_classes,
               mr_interactive_context_limit = 1800, mr_deep_planning_context_limit = 3200,
               mr_recovery_retry_threshold = 1, mr_default_cache_affinity = ''workspace'' \<rparr>)"

definition http_url :: "string \<Rightarrow> bool" where
  "http_url s \<longleftrightarrow> prefix ''http://'' s \<or> prefix ''https://'' s"

text \<open>\<open>os.environ.get(a) or os.environ.get(b)\<close>, stripped, blank counting as absent.\<close>

definition env_key :: "environ \<Rightarrow> string \<Rightarrow> string \<Rightarrow> string option" where
  "env_key env a b =
     (let v = (case env a of Some s \<Rightarrow> if s = [] then env b else Some s | None \<Rightarrow> env b)
      in case v of Some s \<Rightarrow> or_none (strip s) | None \<Rightarrow> None)"

definition strict_timeout :: "pyval \<Rightarrow> string \<Rightarrow> int result" where
  "strict_timeout v name = (case v of
     PInt i \<Rightarrow> if i < 1 then config_error (name @ '' must be >= 1'') else Inr i | _ \<Rightarrow> invalid name)"

text \<open>The two sections of hosted models differ in name, default address and environment variables.\<close>

definition parse_serverless :: "environ \<Rightarrow> pydict \<Rightarrow> string \<Rightarrow> string \<Rightarrow> string \<Rightarrow> string \<Rightarrow> Serverless result" where
  "parse_serverless env models_raw name url var1 var2 =
     (let section = as_dict (dget models_raw name PNone); full = ''models.'' @ name in
      bind_r (case dget section ''base_url'' (PStr url) of
          PStr s \<Rightarrow> if strip s = [] then invalid (full @ ''.base_url'') else Inr (rstrip_slashes (strip s))
        | _ \<Rightarrow> invalid (full @ ''.base_url'')) (\<lambda>base_url.
      bind_r (ensure (http_url base_url) (full @ ''.base_url must start with http:// or https://'')) (\<lambda>_.
      bind_r (case dget section ''api_key'' PNone of
          PNone \<Rightarrow> Inr (env_key env var1 var2) | PStr s \<Rightarrow> Inr (or_none (strip s)) | _ \<Rightarrow> invalid (full @ ''.api_key'')) (\<lambda>api_key.
      bind_r (strict_timeout (dget section ''timeout_s'' (PInt 60)) (full @ ''.timeout_s'')) (\<lambda>timeout.
      Inr \<lparr> sv_base_url = base_url, sv_api_key = api_key, sv_timeout_s = timeout \<rparr>)))))"

definition parse_digitalocean_serverless :: "environ \<Rightarrow> pydict \<Rightarrow> Serverless result" where
  "parse_digitalocean_serverless env models_raw =
     parse_serverless env models_raw ''digitalocean'' ''https://inference.do-ai.run/v1''
       ''MODEL_ACCESS_KEY'' ''DIGITAL_OCEAN_MODEL_ACCESS_KEY''"

definition parse_openai_compatible_serverless :: "environ \<Rightarrow> pydict \<Rightarrow> Serverless result" where
  "parse_openai_compatible_serverless env models_raw =
     parse_serverless env models_raw ''openai_compatible'' ''https://api.openai.com/v1''
       ''OPENAI_COMPATIBLE_API_KEY'' ''MODEL_ACCESS_KEY''"

definition parse_models :: "environ \<Rightarrow> pydict \<Rightarrow> Models result" where
  "parse_models env models_raw =
     bind_r (parse_model_endpoint env models_raw ''router'') (\<lambda>rt.
     bind_r (parse_model_endpoint env models_raw ''planner'') (\<lambda>pl.
     bind_r (parse_model_routing models_raw) (\<lambda>mr.
     bind_r (parse_digitalocean_serverless env models_raw) (\<lambda>d.
     bind_r (parse_openai_compatible_serverless env models_raw) (\<lambda>oc.
     Inr \<lparr> md_router = rt, md_planner = pl, md_routing = mr, md_digitalocean = d, md_openai_compatible = oc \<rparr>)))))"

definition parse_policy :: "pydict \<Rightarrow> PolicyConfig result" where
  "parse_policy raw =
     bind_r (require_str raw ''network_default'') (\<lambda>net.
     bind_r (require_bool raw ''require_approval_for_mutations'') (\<lambda>appr.
     bind_r (optional_str_tuple raw ''allowed_write_paths'') (\<lambda>paths.
     bind_r (ensure (net \<in> {''allow'', ''deny''}) ''policy.network_default must be one of: allow, deny'') (\<lambda>_.
     Inr \<lparr> pc_network_default = net, pc_require_approval_for_mutations = appr, pc_allowed_write_paths = paths \<rparr>))))"

definition parse_runner :: "environ \<Rightarrow> pydict \<Rightarrow> RunnerConfig result" where
  "parse_runner env raw =
     bind_r (case dget raw ''api_key'' PNone of
         PNone \<Rightarrow> Inr (case env ''LG_RUNNER_API_KEY'' of Some s \<Rightarrow> or_none (strip s) | None \<Rightarrow> None)
       | PStr s \<Rightarrow> Inr (or_none (strip s))
       | _ \<Rightarrow> invalid ''runner.api_key'') (\<lambda>api_key.
     bind_r (let v = env_text env ''LG_RUNNER_BASE_URL'' in if v = [] then require_str raw ''base_url'' else Inr v) (\<lambda>url.
     bind_r (require_str raw ''root_dir'') (\<lambda>root.
     bind_r (ensure (http_url url) ''runner.base_url must start with http:// or https://'') (\<lambda>_.
     Inr \<lparr> rn_base_url = url, rn_root_dir = root, rn_api_key = api_key \<rparr>))))"

text \<open>The MCP servers: each entry is checked in the order of the source.\<close>

definition opt_stripped :: "pyval \<Rightarrow> string \<Rightarrow> string option result" where
  "opt_stripped v name = (case v of PNone \<Rightarrow> Inr None | PStr s \<Rightarrow> Inr (or_none (strip s)) | _ \<Rightarrow> invalid name)"

definition schema_hash_of :: "pyval \<Rightarrow> string \<Rightarrow> string option result" where
  "schema_hash_of v name = (case v of
     PNone \<Rightarrow> Inr None
   | PStr s \<Rightarrow>
       let h = lower (strip s)
       in if h \<noteq> [] \<and> \<not> is_valid_sha256_hex h
          then config_error (name @ '' must be a 64-char lowercase hex SHA-256 or absent'') else Inr (or_none h)
   | _ \<Rightarrow> invalid name)"

definition parse_server :: "string \<Rightarrow> pydict \<Rightarrow> MCPServerConfig result" where
  "parse_server server_name d =
     (let name = ''mcp.servers.'' @ server_name in
      bind_r (case dget d ''command'' PNone of PStr s \<Rightarrow> if strip s = [] then invalid (name @ ''.command'') else Inr (strip s)
                | _ \<Rightarrow> invalid (name @ ''.command'')) (\<lambda>command.
      bind_r (case dget d ''args'' (PList []) of
          PList es \<Rightarrow> map_r (\<lambda>e. case e of PStr s \<Rightarrow> Inr s | _ \<Rightarrow> invalid (name @ ''.args entry'')) es
        | _ \<Rightarrow> invalid (name @ ''.args'')) (\<lambda>args.
      bind_r (opt_stripped (dget d ''cwd'' PNone) (name @ ''.cwd'')) (\<lambda>cwd.
      bind_r (case dget d ''env'' (PDict []) of
          PDict kvs \<Rightarrow> map_r (\<lambda>(k, v). case v of PStr s \<Rightarrow> Inr (k, s) | _ \<Rightarrow> invalid (name @ ''.env entry'')) kvs
        | _ \<Rightarrow> invalid (name @ ''.env'')) (\<lambda>env.
      bind_r (strict_timeout (dget d ''timeout_s'' (PInt 20)) (name @ ''.timeout_s'')) (\<lambda>timeout.
      bind_r (schema_hash_of (dget d ''schema_hash'' PNone) (name @ ''.schema_hash'')) (\<lambda>hash.
      Inr \<lparr> ms_command = command, ms_args = args, ms_cwd = cwd, ms_env = env, ms_timeout_s = timeout,
            ms_schema_hash = hash \<rparr>)))))))"

fun parse_servers :: "pydict \<Rightarrow> (string \<times> MCPServerConfig) list \<Rightarrow> (string \<times> MCPServerConfig) list result" where
  "parse_servers [] acc = Inr acc"
| "parse_servers ((k, v) # rest) acc =
     (if strip k = [] then invalid ''mcp.servers key''
      else case v of
          PDict d \<Rightarrow> bind_r (parse_server k d) (\<lambda>srv. parse_servers rest (AList.update (strip k) srv acc))
        | _ \<Rightarrow> invalid (''mcp.servers.'' @ k))"

definition parse_mcp :: "pydict \<Rightarrow> MCPConfig result" where
  "parse_mcp raw =
     bind_r (case dget raw ''enabled'' (PBool False) of PBool b \<Rightarrow> Inr b | _ \<Rightarrow> invalid ''mcp.enabled'') (\<lambda>on.
     bind_r (case dget raw ''servers'' (PDict []) of PDict d \<Rightarrow> Inr d | _ \<Rightarrow> invalid ''mcp.servers'') (\<lambda>ss.
     bind_r (parse_servers ss []) (\<lambda>servers.
     Inr \<lparr> mc_enabled = on, mc_servers = servers \<rparr>)))"

definition parse_trace :: "pydict \<Rightarrow> TraceConfig" where
  "parse_trace raw = \<lparr> tr_enabled = py_bool (dget raw ''enabled'' (PBool False)),
     tr_output_dir = py_str (dget raw ''output_dir'' (PStr ''artifacts/runs'')),
     tr_capture_model_metadata = py_bool (dget raw ''capture_model_metadata'' (PBool True)) \<rparr>"

definition parse_auth_mode :: "environ \<Rightarrow> pydict \<Rightarrow> string result" where
  "parse_auth_mode env raw =
     (case dget raw ''auth_mode'' (PStr (case env ''LG_REMOTE_API_AUTH_MODE'' of Some s \<Rightarrow> s | None \<Rightarrow> ''off'')) of
        PStr s \<Rightarrow>
          let mode = or_str (lower (strip s)) ''off''
          in if mode \<in> {''off'', ''bearer''} then Inr mode else config_error ''remote_api.auth_mode must be one of: off, bearer''
      | _ \<Rightarrow> invalid ''remote_api.auth_mode'')"

definition parse_namespace :: "environ \<Rightarrow> pydict \<Rightarrow> string result" where
  "parse_namespace env raw =
     bind_r (case dget raw ''default_namespace'' PNone of
         PNone \<Rightarrow> Inr (env_text env ''LG_REMOTE_API_DEFAULT_NAMESPACE'')
       | PStr s \<Rightarrow> Inr (strip s)
       | _ \<Rightarrow> invalid ''remote_api.default_namespace'') (\<lambda>ns.
     bind_r (ensure (ns = [] \<or> valid_namespace ns) ''remote_api.default_namespace must match [A-Za-z0-9_-]{1,64} or be empty'') (\<lambda>_.
     Inr ns))"

text \<open>\<open>_get_bool\<close> with a default from the environment, which is read first.\<close>

definition flag_or_env :: "environ \<Rightarrow> pydict \<Rightarrow> string \<Rightarrow> string \<Rightarrow> bool \<Rightarrow> bool result" where
  "flag_or_env env raw key var d = bind_r (env_bool env var d) (get_bool raw key)"

definition parse_remote_api :: "environ \<Rightarrow> pydict \<Rightarrow> RemoteAPIConfig result" where
  "parse_remote_api env raw =
     bind_r (parse_auth_mode env raw) (\<lambda>mode.
     bind_r (opt_str_or_env env raw ''bearer_token'' ''LG_REMOTE_API_BEARER_TOKEN'') (\<lambda>token.
     bind_r (ensure (mode \<noteq> ''bearer'' \<or> token \<noteq> None) ''remote_api.bearer_token is required when remote_api.auth_mode=bearer'') (\<lambda>_.
     bind_r (opt_str_or_env env raw ''run_store_path'' ''LG_REMOTE_API_RUN_STORE_PATH'') (\<lambda>store.
     bind_r (opt_int_or_env env raw ''rate_limit_rps'' ''LG_REMOTE_API_RATE_LIMIT_RPS'' 0) (\<lambda>rps.
     bind_r (ensure (rps = 0 \<or> 1 \<le> rps) ''remote_api.rate_limit_rps must be 0 (disabled) or >= 1'') (\<lambda>_.
     bind_r (opt_str_or_env env raw ''procedure_cache_path'' ''LG_REMOTE_API_PROCEDURE_CACHE_PATH'') (\<lambda>cache.
     bind_r (parse_namespace env raw) (\<lambda>ns.
     bind_r (opt_str_or_env env raw ''jwt_secret'' ''JWT_SECRET'') (\<lambda>secret.
     bind_r (opt_str_or_env env raw ''jwks_url'' ''JWKS_URL'') (\<lambda>jwks.
     bind_r (flag_or_env env raw ''allow_unauthenticated_healthz'' ''LG_REMOTE_API_ALLOW_UNAUTHENTICATED_HEALTHZ'' True) (\<lambda>healthz.
     bind_r (flag_or_env env raw ''trust_forwarded_headers'' ''LG_REMOTE_API_TRUST_FORWARDED_HEADERS'' False) (\<lambda>trust.
     bind_r (flag_or_env env raw ''access_log_enabled'' ''LG_REMOTE_API_ACCESS_LOG_ENABLED'' True) (\<lambda>logging.
     Inr \<lparr> ra_auth_mode = mode, ra_bearer_token = token, ra_allow_unauthenticated_healthz = healthz,
           ra_trust_forwarded_headers = trust, ra_access_log_enabled = logging, ra_run_store_path = store,
           ra_rate_limit_rps = rps, ra_procedure_cache_path = cache, ra_default_namespace = ns,
           ra_jwt_secret = secret, ra_jwks_url = jwks \<rparr>)))))))))))))"

definition backends :: "string list" where
  "backends = [''sqlite'', ''redis'', ''postgres'']"

definition parse_checkpoint :: "pydict \<Rightarrow> Checkpoint result" where
  "parse_checkpoint raw =
     bind_r (opt_bool raw ''enabled'' True) (\<lambda>on.
     bind_r (opt_str_default raw ''db_path'' ''artifacts/checkpoints/langgraph.sqlite'') (\<lambda>db.
     bind_r (ensure (db \<noteq> []) ''missing/invalid checkpoint.db_path'') (\<lambda>_.
     bind_r (opt_str_default raw ''namespace'' ''main'') (\<lambda>ns.
     bind_r (ensure (ns \<noteq> []) ''missing/invalid checkpoint.namespace'') (\<lambda>_.
     bind_r (opt_str_default raw ''thread_prefix'' ''lg-orch'') (\<lambda>tp.
     bind_r (ensure (tp \<noteq> []) ''missing/invalid checkpoint.thread_prefix'') (\<lambda>_.
     bind_r (opt_str_default raw ''backend'' ''sqlite'') (\<lambda>b.
     bind_r (let backend = or_str (lower b) ''sqlite''
             in if backend \<in> set backends then Inr backend
                else config_error ''checkpoint.backend must be one of: sqlite, redis, postgres'') (\<lambda>backend.
     bind_r (opt_str_default raw ''redis_url'' ''redis://localhost:6379/0'') (\<lambda>url.
     bind_r (opt_str_default raw ''postgres_dsn'' []) (\<lambda>dsn.
     bind_r (opt_int raw ''redis_ttl_seconds'' 86400) (\<lambda>ttl.
     bind_r (ensure (1 \<le> ttl) ''checkpoint.redis_ttl_seconds must be >= 1'') (\<lambda>_.
     Inr \<lparr> cp_enabled = on, cp_db_path = db, cp_namespace = ns, cp_thread_prefix = tp, cp_backend = backend,
           cp_redis_url = or_str url ''redis://localhost:6379/0'', cp_postgres_dsn = dsn,
           cp_redis_ttl_seconds = ttl \<rparr>)))))))))))))"

definition parse_vericoding :: "pydict \<Rightarrow> VericodingConfig result" where
  "parse_vericoding raw =
     bind_r (get_bool raw ''enabled'' False) (\<lambda>on.
     bind_r (optional_str_tuple raw ''extensions'') (\<lambda>exts.
     Inr \<lparr> vc_enabled = on, vc_extensions = (if exts = [] then [''.rs''] else exts) \<rparr>))"

definition sink_type_of :: "pyval \<Rightarrow> string option result" where
  "sink_type_of v = (case v of
     PNone \<Rightarrow> Inr None
   | PStr s \<Rightarrow>
       let t = lower (strip s)
       in if t \<noteq> [] \<and> t \<notin> {''s3'', ''gcs''} then config_error ''audit.sink_type must be one of: s3, gcs or absent''
          else Inr (or_none t)
   | _ \<Rightarrow> invalid ''audit.sink_type'')"

definition parse_audit :: "pydict \<Rightarrow> AuditConfig result" where
  "parse_audit raw =
     bind_r (opt_str_default raw ''log_path'' ''audit.jsonl'') (\<lambda>log.
     bind_r (sink_type_of (dget raw ''sink_type'' PNone)) (\<lambda>sink.
     bind_r (opt_stripped (dget raw ''s3_bucket'' PNone) ''audit.s3_bucket'') (\<lambda>s3.
     bind_r (opt_str_default raw ''s3_prefix'' ''audit'') (\<lambda>s3p.
     bind_r (opt_str_default raw ''s3_region'' ''us-east-1'') (\<lambda>s3r.
     bind_r (opt_stripped (dget raw ''gcs_bucket'' PNone) ''audit.gcs_bucket'') (\<lambda>gcs.
     bind_r (opt_str_default raw ''gcs_prefix'' ''audit'') (\<lambda>gcsp.
     Inr \<lparr> ac_log_path = or_str log ''audit.jsonl'', ac_sink_type = sink, ac_s3_bucket = s3,
           ac_s3_prefix = or_str s3p ''audit'', ac_s3_region = or_str s3r ''us-east-1'', ac_gcs_bucket = gcs,
           ac_gcs_prefix = or_str gcsp ''audit'' \<rparr>)))))))"

definition sla_text :: "pyval \<Rightarrow> string \<Rightarrow> string result" where
  "sla_text v name = (case v of PStr s \<Rightarrow> if strip s = [] then invalid name else Inr (strip s) | _ \<Rightarrow> invalid name)"

definition parse_sla_entry :: "nat \<times> pyval \<Rightarrow> ConfigSlaEntry result" where
  "parse_sla_entry iv =
     (let name = ''sla.entries['' @ nat_str (fst iv) @ '']'' in
      case snd iv of
        PDict d \<Rightarrow>
          bind_r (sla_text (dget d ''model_id'' PNone) (name @ ''.model_id'')) (\<lambda>model.
          bind_r (parse_float (dget d ''threshold_p95_s'' PNone) (Fin (- 1) 0)) (\<lambda>threshold.
          bind_r (ensure (\<not> float_neg threshold) (''missing/invalid '' @ name @ ''.threshold_p95_s'')) (\<lambda>_.
          bind_r (sla_text (dget d ''fallback_model_id'' PNone) (name @ ''.fallback_model_id'')) (\<lambda>fb.
          Inr \<lparr> cse_model_id = model, cse_threshold_p95_s = threshold, cse_fallback_model_id = fb \<rparr>))))
      | _ \<Rightarrow> invalid name)"

definition parse_sla :: "pyval \<Rightarrow> ConfigSlaEntry list result" where
  "parse_sla v = (case v of
     PDict d \<Rightarrow> (case dget d ''entries'' (PList []) of
         PList es \<Rightarrow> map_r parse_sla_entry (List.enumerate 0 es) | _ \<Rightarrow> invalid ''sla.entries'')
   | _ \<Rightarrow> Inr [])"

section \<open>The overlay of environment settings\<close>

record RunnerSettings =
  rs_base_url :: string
  rs_api_key :: string

record AuthSettings =
  as_mode :: string
  as_jwks_url :: string
  as_secret :: string

record CheckpointSettings =
  cs_backend :: string
  cs_db_path :: string
  cs_namespace :: string
  cs_thread_prefix :: string
  cs_redis_url :: string
  cs_redis_ttl_seconds :: int

definition overlay_runner :: "RunnerSettings \<Rightarrow> RunnerConfig \<Rightarrow> RunnerConfig" where
  "overlay_runner st r = r \<lparr> rn_base_url := or_str (rs_base_url st) (rn_base_url r),
     rn_api_key := (if rs_api_key st = [] then rn_api_key r else Some (rs_api_key st)) \<rparr>"

definition overlay_auth :: "AuthSettings \<Rightarrow> RemoteAPIConfig \<Rightarrow> RemoteAPIConfig result" where
  "overlay_auth st r =
     bind_r (ensure (as_mode st \<in> {[], ''off'', ''bearer''}) ''LG_AUTH_MODE must be one of: off, bearer'') (\<lambda>_.
     Inr (r \<lparr> ra_auth_mode := or_str (as_mode st) (ra_auth_mode r),
              ra_jwt_secret := (if as_secret st = [] then ra_jwt_secret r else Some (as_secret st)),
              ra_jwks_url := (if as_jwks_url st = [] then ra_jwks_url r else Some (as_jwks_url st)) \<rparr>))"

definition overlay_checkpoint :: "CheckpointSettings \<Rightarrow> Checkpoint \<Rightarrow> Checkpoint result" where
  "overlay_checkpoint st c =
     bind_r (ensure (cs_backend st = [] \<or> cs_backend st \<in> set backends) ''LG_CHECKPOINT_BACKEND must be one of: sqlite, redis, postgres'') (\<lambda>_.
     Inr (c \<lparr> cp_backend := or_str (cs_backend st) (cp_backend c), cp_db_path := or_str (cs_db_path st) (cp_db_path c),
              cp_namespace := or_str (cs_namespace st) (cp_namespace c),
              cp_thread_prefix := or_str (cs_thread_prefix st) (cp_thread_prefix c),
              cp_redis_url := or_str (cs_redis_url st) (cp_redis_url c),
              cp_redis_ttl_seconds := (if 0 < cs_redis_ttl_seconds st then cs_redis_ttl_seconds st else cp_redis_ttl_seconds c) \<rparr>))"

text \<open>The file under \<open>configs\<close> for a profile: absent or unreadable, not TOML, or a table.\<close>

datatype toml_file = NoFile string | NotToml | Table pydict

record settings =
  st_runner :: "RunnerSettings result"
  st_auth :: "AuthSettings result"
  st_checkpoint :: "CheckpointSettings result"

definition config_profile :: "environ \<Rightarrow> string" where
  "config_profile env = or_str (strip (case env ''LG_PROFILE'' of Some s \<Rightarrow> s | None \<Rightarrow> ''dev'')) ''dev''"

definition parse_table :: "environ \<Rightarrow> string \<Rightarrow> pydict \<Rightarrow> AppConfig result" where
  "parse_table env prof raw =
     bind_r (section_of raw ''models'' (PDict [])) (\<lambda>models_raw.
     bind_r (section_of raw ''budgets'' PNone) (\<lambda>budgets_raw.
     bind_r (section_of raw ''policy'' PNone) (\<lambda>policy_raw.
     bind_r (section_of raw ''runner'' PNone) (\<lambda>runner_raw.
     bind_r (section_of raw ''mcp'' (PDict [])) (\<lambda>mcp_raw.
     bind_r (section_of raw ''trace'' (PDict [])) (\<lambda>trace_raw.
     bind_r (section_of raw ''remote_api'' (PDict [])) (\<lambda>remote_raw.
     bind_r (section_of raw ''checkpoint'' (PDict [])) (\<lambda>checkpoint_raw.
     bind_r (section_of raw ''vericoding'' (PDict [])) (\<lambda>vericoding_raw.
     bind_r (section_of raw ''audit'' (PDict [])) (\<lambda>audit_raw.
     bind_r (parse_budgets budgets_raw) (\<lambda>bg.
     bind_r (parse_models env models_raw) (\<lambda>md.
     bind_r (parse_policy policy_raw) (\<lambda>pc.
     bind_r (parse_runner env runner_raw) (\<lambda>rn.
     bind_r (parse_mcp mcp_raw) (\<lambda>mc.
     bind_r (parse_remote_api env remote_raw) (\<lambda>ra.
     bind_r (parse_checkpoint checkpoint_raw) (\<lambda>cp.
     bind_r (parse_vericoding vericoding_raw) (\<lambda>vc.
     bind_r (parse_audit audit_raw) (\<lambda>au.
     bind_r (parse_sla (dget raw ''sla'' (PDict []))) (\<lambda>sl.
     Inr \<lparr> cfg_profile = prof, cfg_models = md, cfg_budgets = bg, cfg_policy = pc, cfg_runner = rn,
           cfg_mcp = mc, cfg_trace = parse_trace trace_raw, cfg_remote_api = ra, cfg_checkpoint = cp,
           cfg_vericoding = vc, cfg_audit = au, cfg_sla = sl \<rparr>))))))))))))))))))))"

definition overlay :: "settings \<Rightarrow> AppConfig \<Rightarrow> AppConfig result" where
  "overlay st c =
     bind_r (st_runner st) (\<lambda>rs.
     bind_r (st_auth st) (\<lambda>aus.
     bind_r (overlay_auth aus (cfg_remote_api c)) (\<lambda>ra.
     bind_r (st_checkpoint st) (\<lambda>cs.
     bind_r (overlay_checkpoint cs (cfg_checkpoint c)) (\<lambda>cp.
     Inr (c \<lparr> cfg_runner := overlay_runner rs (cfg_runner c), cfg_remote_api := ra, cfg_checkpoint := cp \<rparr>))))))"

definition load_config :: "environ \<Rightarrow> settings \<Rightarrow> (string \<Rightarrow> toml_file) \<Rightarrow> string \<Rightarrow> AppConfig result" where
  "load_config env st file repo_root =
     (let prof = config_profile env; path = repo_root @ ''/configs/runtime.'' @ prof @ ''.toml'' in
      case file path of
        NoFile m \<Rightarrow> Inl (OSError m)
      | NotToml \<Rightarrow> config_error (''invalid toml: '' @ path)
      | Table raw \<Rightarrow> bind_r (parse_table env prof raw) (overlay st))"

section \<open>What a loaded configuration satisfies\<close>

definition budgets_ok :: "Budgets \<Rightarrow> bool" where
  "budgets_ok b \<longleftrightarrow> 1 \<le> bg_max_loops b \<and> 0 \<le> bg_max_tool_calls_per_loop b \<and> 1 \<le> bg_max_patch_bytes b \<and>
     1 \<le> bg_tool_timeout_s b \<and> 1 \<le> bg_stable_prefix_tokens b \<and> 1 \<le> bg_working_set_tokens b \<and>
     80 \<le> bg_tool_result_summary_chars b"

definition routing_ok :: "ModelRoutingConfig \<Rightarrow> bool" where
  "routing_ok m \<longleftrightarrow> 1 \<le> mr_interactive_context_limit m \<and>
     mr_interactive_context_limit m \<le> mr_deep_planning_context_limit m \<and> 0 \<le> mr_recovery_retry_threshold m \<and>
     mr_local_provider m \<noteq> [] \<and> mr_fallback_task_classes m \<noteq> [] \<and> mr_default_cache_affinity m \<noteq> []"

definition endpoint_ok :: "ModelEndpoint \<Rightarrow> bool" where
  "endpoint_ok m \<longleftrightarrow> me_provider m \<noteq> [] \<and> me_model m \<noteq> []"

definition serverless_ok :: "Serverless \<Rightarrow> bool" where
  "serverless_ok s \<longleftrightarrow> http_url (sv_base_url s) \<and> 1 \<le> sv_timeout_s s \<and> sv_api_key s \<noteq> Some []"

definition models_ok :: "Models \<Rightarrow> bool" where
  "models_ok m \<longleftrightarrow> endpoint_ok (md_router m) \<and> endpoint_ok (md_planner m) \<and> routing_ok (md_routing m) \<and>
     serverless_ok (md_digitalocean m) \<and> serverless_ok (md_openai_compatible m)"

definition policy_ok :: "PolicyConfig \<Rightarrow> bool" where
  "policy_ok p \<longleftrightarrow> pc_network_default p \<in> {''allow'', ''deny''} \<and>
     list_all (\<lambda>w. w \<noteq> [] \<and> strip w = w) (pc_allowed_write_paths p)"

definition server_ok :: "MCPServerConfig \<Rightarrow> bool" where
  "server_ok s \<longleftrightarrow> ms_command s \<noteq> [] \<and> 1 \<le> ms_timeout_s s \<and> ms_cwd s \<noteq> Some [] \<and>
     (case ms_schema_hash s of None \<Rightarrow> True | Some h \<Rightarrow> is_valid_sha256_hex h)"

definition mcp_ok :: "MCPConfig \<Rightarrow> bool" where
  "mcp_ok m \<longleftrightarrow> distinct (map fst (mc_servers m)) \<and> list_all (\<lambda>(k, s). k \<noteq> [] \<and> strip k = k \<and> server_ok s) (mc_servers m)"

definition remote_ok :: "RemoteAPIConfig \<Rightarrow> bool" where
  "remote_ok r \<longleftrightarrow> ra_auth_mode r \<in> {''off'', ''bearer''} \<and> 0 \<le> ra_rate_limit_rps r \<and>
     (ra_default_namespace r = [] \<or> valid_namespace (ra_default_namespace r)) \<and> ra_bearer_token r \<noteq> Some []"

definition checkpoint_ok :: "Checkpoint \<Rightarrow> bool" where
  "checkpoint_ok c \<longleftrightarrow> cp_db_path c \<noteq> [] \<and> cp_namespace c \<noteq> [] \<and> cp_thread_prefix c \<noteq> [] \<and>
     cp_backend c \<in> set backends \<and> 1 \<le> cp_redis_ttl_seconds c"

definition sla_ok :: "ConfigSlaEntry list \<Rightarrow> bool" where
  "sla_ok es \<longleftrightarrow> list_all (\<lambda>e. cse_model_id e \<noteq> [] \<and> \<not> float_neg (cse_threshold_p95_s e) \<and> cse_fallback_model_id e \<noteq> []) es"

definition config_ok :: "AppConfig \<Rightarrow> bool" where
  "config_ok c \<longleftrightarrow> budgets_ok (cfg_budgets c) \<and> models_ok (cfg_models c) \<and> policy_ok (cfg_policy c) \<and>
     mcp_ok (cfg_mcp c) \<and> remote_ok (cfg_remote_api c) \<and> checkpoint_ok (cfg_checkpoint c) \<and>
     vc_extensions (cfg_vericoding c) \<noteq> [] \<and> ac_sink_type (cfg_audit c) \<in> {None, Some ''s3'', Some ''gcs''} \<and>
     sla_ok (cfg_sla c) \<and> cfg_profile c \<noteq> []"

text \<open>Two promises of the parser that the overlay does not keep.\<close>

definition endpoint_safe :: "AppConfig \<Rightarrow> bool" where
  "endpoint_safe c \<longleftrightarrow> http_url (rn_base_url (cfg_runner c)) \<and>
     (ra_auth_mode (cfg_remote_api c) = ''bearer'' \<longrightarrow> ra_bearer_token (cfg_remote_api c) \<noteq> None)"

lemma bind_rE:
  assumes "bind_r m f = Inr y"
  obtains x where "m = Inr x" "f x = Inr y"
  using assms by (auto simp: bind_r_eq_Inr)

named_theorems parse_ok \<open>each section parser establishes the well-formedness of its section\<close>

lemma or_str_neq_Nil: "t \<noteq> [] \<Longrightarrow> or_str s t \<noteq> []"
  by (simp add: or_str_def)

lemma text_or_neq_Nil: "d \<noteq> [] \<Longrightarrow> text_or v d \<noteq> []"
  by (simp add: text_or_def or_str_def split: pyval.splits)

lemma or_none_neq [simp]: "or_none s \<noteq> Some []"
  by (simp add: or_none_def)

lemma parse_budgets_ok [parse_ok]: "parse_budgets raw = Inr b \<Longrightarrow> budgets_ok b"
  by (auto simp: parse_budgets_def budgets_ok_def bind_r_eq_Inr)

lemma parse_model_endpoint_ok [parse_ok]: "parse_model_endpoint env raw k = Inr m \<Longrightarrow> endpoint_ok m"
  by (auto simp: parse_model_endpoint_def endpoint_ok_def bind_r_eq_Inr Let_def or_str_neq_Nil text_or_neq_Nil split: pyval.splits)

lemma parse_model_routing_ok [parse_ok]: "parse_model_routing raw = Inr m \<Longrightarrow> routing_ok m"
  by (auto simp: parse_model_routing_def routing_ok_def bind_r_eq_Inr Let_def text_or_neq_Nil default_fallback_classes_def
      split: pyval.splits if_splits)

lemma env_key_neq [simp]: "env_key env a b \<noteq> Some []"
  by (simp add: env_key_def Let_def split: option.splits)

lemma strict_timeout_Inr: "strict_timeout v n = Inr i \<Longrightarrow> 1 \<le> i"
  by (auto simp: strict_timeout_def split: pyval.splits if_splits)

lemma parse_serverless_ok [parse_ok]: "parse_serverless env raw n u a b = Inr s \<Longrightarrow> serverless_ok s"
  by (auto simp: parse_serverless_def serverless_ok_def bind_r_eq_Inr Let_def strict_timeout_Inr split: pyval.splits if_splits)

lemma parse_models_ok [parse_ok]: "parse_models env raw = Inr m \<Longrightarrow> models_ok m"
  by (auto simp: parse_models_def models_ok_def bind_r_eq_Inr parse_digitalocean_serverless_def
      parse_openai_compatible_serverless_def dest: parse_ok)

lemma map_r_all: "map_r f xs = Inr ys \<Longrightarrow> (\<And>x y. f x = Inr y \<Longrightarrow> P y) \<Longrightarrow> list_all P ys"
  by (induction xs arbitrary: ys) (auto simp: bind_r_eq_Inr)

lemma optional_str_tuple_ok: "optional_str_tuple t k = Inr ws \<Longrightarrow> list_all (\<lambda>w. w \<noteq> [] \<and> strip w = w) ws"
  unfolding optional_str_tuple_def
  by (cases "dget t k (PList [])") (auto elim!: map_r_all split: pyval.splits if_splits)

lemma parse_policy_ok [parse_ok]: "parse_policy raw = Inr p \<Longrightarrow> policy_ok p"
  by (auto simp: parse_policy_def policy_ok_def bind_r_eq_Inr dest: optional_str_tuple_ok)

lemma schema_hash_ok: "schema_hash_of v n = Inr (Some h) \<Longrightarrow> is_valid_sha256_hex h"
  by (auto simp: schema_hash_of_def or_none_def Let_def split: pyval.splits if_splits)

lemma parse_server_ok: "parse_server n d = Inr s \<Longrightarrow> server_ok s"
  unfolding parse_server_def Let_def server_ok_def bind_r_eq_Inr
  by (auto simp: opt_stripped_def strict_timeout_Inr schema_hash_ok split: pyval.splits if_splits option.splits)

lemma parse_servers_ok:
  assumes "parse_servers kvs acc = Inr ss" "distinct (map fst acc)"
    "list_all (\<lambda>(k, s). k \<noteq> [] \<and> strip k = k \<and> server_ok s) acc"
  shows "distinct (map fst ss) \<and> list_all (\<lambda>(k, s). k \<noteq> [] \<and> strip k = k \<and> server_ok s) ss"
  using assms
proof (induction kvs acc rule: parse_servers.induct)
  case (2 k v rest acc)
  obtain d srv where v: "v = PDict d" and srv: "parse_server k d = Inr srv" and k: "strip k \<noteq> []"
    and rest: "parse_servers rest (AList.update (strip k) srv acc) = Inr ss"
    using 2(2) by (auto simp: bind_r_eq_Inr split: if_splits pyval.splits)
  have "set (AList.update (strip k) srv acc) \<subseteq> insert (strip k, srv) (set acc)"
    by (induction acc) auto
  then have "list_all (\<lambda>(k, s). k \<noteq> [] \<and> strip k = k \<and> server_ok s) (AList.update (strip k) srv acc)"
    using 2(4) k parse_server_ok [OF srv] by (fastforce simp: list_all_iff)
  then show ?case using 2(1) [OF k v rest] 2(3) by (simp add: distinct_update)
qed auto

lemma parse_mcp_ok [parse_ok]: "parse_mcp raw = Inr m \<Longrightarrow> mcp_ok m"
  using parse_servers_ok [of _ "[]"] by (auto simp: parse_mcp_def mcp_ok_def bind_r_eq_Inr split: pyval.splits)

lemma parse_auth_mode_Inr: "parse_auth_mode env raw = Inr m \<Longrightarrow> m \<in> {''off'', ''bearer''}"
  by (auto simp: parse_auth_mode_def Let_def split: pyval.splits if_splits)

lemma opt_str_or_env_Inr: "opt_str_or_env env raw k v = Inr t \<Longrightarrow> t \<noteq> Some []"
  by (auto simp: opt_str_or_env_def split: pyval.splits option.splits)

lemma parse_namespace_Inr: "parse_namespace env raw = Inr ns \<Longrightarrow> ns = [] \<or> valid_namespace ns"
  by (auto simp: parse_namespace_def bind_r_eq_Inr)

lemma parse_remote_api_ok [parse_ok]:
  assumes "parse_remote_api env raw = Inr r"
  shows "remote_ok r \<and> (ra_auth_mode r = ''bearer'' \<longrightarrow> ra_bearer_token r \<noteq> None)"
  using assms unfolding parse_remote_api_def
proof (elim bind_rE)
  fix m t rps ns u v s c j k h tr l
  assume "parse_auth_mode env raw = Inr m" "opt_str_or_env env raw ''bearer_token'' ''LG_REMOTE_API_BEARER_TOKEN'' = Inr t"
    "parse_namespace env raw = Inr ns"
    "ensure (m \<noteq> ''bearer'' \<or> t \<noteq> None) ''remote_api.bearer_token is required when remote_api.auth_mode=bearer'' = Inr u"
    "ensure (rps = 0 \<or> 1 \<le> rps) ''remote_api.rate_limit_rps must be 0 (disabled) or >= 1'' = Inr v"
    "Inr \<lparr> ra_auth_mode = m, ra_bearer_token = t, ra_allow_unauthenticated_healthz = h,
           ra_trust_forwarded_headers = tr, ra_access_log_enabled = l, ra_run_store_path = s,
           ra_rate_limit_rps = rps, ra_procedure_cache_path = c, ra_default_namespace = ns,
           ra_jwt_secret = j, ra_jwks_url = k \<rparr> = Inr r"
  then show ?thesis
    using parse_auth_mode_Inr [of env raw m] opt_str_or_env_Inr [of env raw _ _ t] parse_namespace_Inr [of env raw ns]
    by (auto simp: remote_ok_def)
qed

lemma parse_checkpoint_ok [parse_ok]: "parse_checkpoint raw = Inr c \<Longrightarrow> checkpoint_ok c"
  unfolding parse_checkpoint_def bind_r_eq_Inr by (auto simp: checkpoint_ok_def Let_def split: if_splits)

lemma parse_sla_ok [parse_ok]: "parse_sla v = Inr es \<Longrightarrow> sla_ok es"
  unfolding parse_sla_def sla_ok_def
  by (auto simp: parse_sla_entry_def sla_text_def bind_r_eq_Inr Let_def elim!: map_r_all split: pyval.splits if_splits)

lemma parse_runner_ok [parse_ok]: "parse_runner env raw = Inr r \<Longrightarrow> http_url (rn_base_url r)"
  unfolding parse_runner_def bind_r_eq_Inr by auto

lemma sink_type_Inr: "sink_type_of v = Inr t \<Longrightarrow> t \<in> {None, Some ''s3'', Some ''gcs''}"
  by (auto simp: sink_type_of_def or_none_def Let_def split: pyval.splits if_splits)

lemma parse_audit_ok [parse_ok]: "parse_audit raw = Inr a \<Longrightarrow> ac_sink_type a \<in> {None, Some ''s3'', Some ''gcs''}"
  unfolding parse_audit_def bind_r_eq_Inr by (auto dest: sink_type_Inr)

lemma parse_vericoding_ok [parse_ok]: "parse_vericoding raw = Inr v \<Longrightarrow> vc_extensions v \<noteq> []"
  by (auto simp: parse_vericoding_def bind_r_eq_Inr split: if_splits)

lemma parse_table_ok:
  assumes "parse_table env prof raw = Inr c" "prof \<noteq> []"
  shows "config_ok c \<and> endpoint_safe c"
  using assms(1) unfolding parse_table_def
proof (elim bind_rE)
  fix mr br pr rr mcr tr rar cr vr ar bg md pc rn mc ra cp vc au sl
  assume "parse_budgets br = Inr bg" "parse_models env mr = Inr md" "parse_policy pr = Inr pc" "parse_runner env rr = Inr rn"
    "parse_mcp mcr = Inr mc" "parse_remote_api env rar = Inr ra" "parse_checkpoint cr = Inr cp" "parse_vericoding vr = Inr vc"
    "parse_audit ar = Inr au" "parse_sla (dget raw ''sla'' (PDict [])) = Inr sl"
    and c: "Inr \<lparr> cfg_profile = prof, cfg_models = md, cfg_budgets = bg, cfg_policy = pc, cfg_runner = rn,
           cfg_mcp = mc, cfg_trace = parse_trace tr, cfg_remote_api = ra, cfg_checkpoint = cp,
           cfg_vericoding = vc, cfg_audit = au, cfg_sla = sl \<rparr> = Inr c"
  then have "budgets_ok bg" "models_ok md" "policy_ok pc" "http_url (rn_base_url rn)" "mcp_ok mc" "checkpoint_ok cp"
    "remote_ok ra \<and> (ra_auth_mode ra = ''bearer'' \<longrightarrow> ra_bearer_token ra \<noteq> None)" "vc_extensions vc \<noteq> []"
    "ac_sink_type au \<in> {None, Some ''s3'', Some ''gcs''}" "sla_ok sl"
    by - (rule parse_ok; assumption)+
  then show ?thesis using assms(2) c [symmetric] by (simp add: config_ok_def endpoint_safe_def)
qed

lemma or_str_mem: "s \<in> insert [] A \<Longrightarrow> t \<in> A \<Longrightarrow> or_str s t \<in> A"
  by (auto simp: or_str_def)

lemma overlay_auth_ok: "overlay_auth st r = Inr r' \<Longrightarrow> remote_ok r \<Longrightarrow> remote_ok r'"
  using or_str_mem [of "as_mode st" "{''off'', ''bearer''}" "ra_auth_mode r"]
  by (auto simp: overlay_auth_def bind_r_eq_Inr remote_ok_def simp del: insert_iff)

lemma overlay_checkpoint_ok:
  assumes "overlay_checkpoint st c = Inr c'" "checkpoint_ok c"
  shows "checkpoint_ok c'"
proof -
  have "cs_backend st \<in> insert [] (set backends)" using assms(1) by (simp add: overlay_checkpoint_def bind_r_eq_Inr)
  then have "or_str (cs_backend st) (cp_backend c) \<in> set backends"
    using assms(2) or_str_mem unfolding checkpoint_ok_def by blast
  moreover obtain "c' = c \<lparr> cp_backend := or_str (cs_backend st) (cp_backend c), cp_db_path := or_str (cs_db_path st) (cp_db_path c),
              cp_namespace := or_str (cs_namespace st) (cp_namespace c),
              cp_thread_prefix := or_str (cs_thread_prefix st) (cp_thread_prefix c),
              cp_redis_url := or_str (cs_redis_url st) (cp_redis_url c),
              cp_redis_ttl_seconds := (if 0 < cs_redis_ttl_seconds st then cs_redis_ttl_seconds st else cp_redis_ttl_seconds c) \<rparr>"
    using assms(1) by (simp add: overlay_checkpoint_def bind_r_eq_Inr)
  ultimately show ?thesis using assms(2) by (simp add: checkpoint_ok_def or_str_neq_Nil)
qed

lemma overlay_ok:
  assumes "overlay st c = Inr c'" "config_ok c"
  shows "config_ok c'"
  using assms(1) unfolding overlay_def
  by (elim bind_rE) (use assms(2) in \<open>auto simp: config_ok_def dest: overlay_auth_ok overlay_checkpoint_ok\<close>)

lemma config_profile_neq: "config_profile env \<noteq> []"
  by (simp add: config_profile_def or_str_neq_Nil)

lemma overlay_endpoint:
  assumes "overlay st c = Inr c'" "endpoint_safe c" "st_runner st = Inr rs" "st_auth st = Inr au"
    "rs_base_url rs = [] \<or> http_url (rs_base_url rs)" "as_mode au \<noteq> ''bearer''"
  shows "endpoint_safe c'"
  using assms(1) unfolding overlay_def
  by (elim bind_rE) (use assms(2-6) in \<open>auto simp: endpoint_safe_def overlay_runner_def overlay_auth_def bind_r_eq_Inr or_str_def\<close>)

lemma load_config_cases:
  assumes "load_config env st file repo_root = Inr c"
  obtains raw c0 where "parse_table env (config_profile env) raw = Inr c0" "overlay st c0 = Inr c"
  using assms by (auto simp: load_config_def Let_def bind_r_eq_Inr split: toml_file.splits)

lemma load_config_ok: "load_config env st file repo_root = Inr c \<Longrightarrow> config_ok c"
  by (rule load_config_cases) (use parse_table_ok config_profile_neq overlay_ok in blast)+

text \<open>
  C31. A configuration that loads is well-formed: every budget, limit, timeout and enumeration of the
  result is in its range, whatever the file, the environment and the overlay say. If the overlay gives no
  address without a scheme and does not switch bearer authentication on, the runner address has a
  scheme and bearer authentication has its token.
\<close>

theorem load_config_valid:
  assumes "load_config env st file repo_root = Inr c" "st_runner st = Inr rs" "st_auth st = Inr au"
  shows "config_ok c \<and> (rs_base_url rs \<in> {u. u = [] \<or> http_url u} \<and> as_mode au \<noteq> ''bearer'' \<longrightarrow> endpoint_safe c)"
  using assms(1)
proof (rule load_config_cases)
  fix raw c0
  assume "parse_table env (config_profile env) raw = Inr c0" and ov: "overlay st c0 = Inr c"
  then show ?thesis
    using load_config_ok [OF assms(1)] parse_table_ok config_profile_neq overlay_endpoint [OF ov _ assms(2,3)] by auto
qed

definition demo_table :: pydict where
  "demo_table = [(''budgets'', PDict [(''max_loops'', PInt 3), (''max_tool_calls_per_loop'', PStr '' 9 ''),
       (''max_patch_bytes'', PInt 50), (''tool_timeout_s'', PInt 5)]),
     (''policy'', PDict [(''network_default'', PStr ''deny''), (''require_approval_for_mutations'', PBool True)]),
     (''runner'', PDict [(''base_url'', PStr ''http://r''), (''root_dir'', PStr ''.'')]),
     (''mcp'', PDict [(''servers'', PDict [('' s '', PDict [(''command'', PStr ''run'')])])])]"

definition no_settings :: settings where
  "no_settings = \<lparr> st_runner = Inr \<lparr> rs_base_url = [], rs_api_key = [] \<rparr>,
     st_auth = Inr \<lparr> as_mode = [], as_jwks_url = [], as_secret = [] \<rparr>,
     st_checkpoint = Inr \<lparr> cs_backend = [], cs_db_path = [], cs_namespace = [], cs_thread_prefix = [],
       cs_redis_url = [], cs_redis_ttl_seconds = 0 \<rparr> \<rparr>"

theorem load_config_valid_witness:
  "\<exists>c. load_config (\<lambda>_. None) no_settings (\<lambda>_. Table demo_table) [] = Inr c \<and> config_ok c \<and> endpoint_safe c \<and>
     bg_max_tool_calls_per_loop (cfg_budgets c) = 9 \<and> map fst (mc_servers (cfg_mcp c)) = [''s'']"
proof -
  have "(case load_config (\<lambda>_. None) no_settings (\<lambda>_. Table demo_table) [] of Inr c \<Rightarrow>
      bg_max_tool_calls_per_loop (cfg_budgets c) = 9 \<and> map fst (mc_servers (cfg_mcp c)) = [''s''] | Inl _ \<Rightarrow> False) = True"
    by code_simp
  then obtain c where c: "load_config (\<lambda>_. None) no_settings (\<lambda>_. Table demo_table) [] = Inr c"
    "bg_max_tool_calls_per_loop (cfg_budgets c) = 9" "map fst (mc_servers (cfg_mcp c)) = [''s'']"
    by (auto split: sum.splits)
  then show ?thesis
    using load_config_valid [OF c(1), of "\<lparr> rs_base_url = [], rs_api_key = [] \<rparr>" "\<lparr> as_mode = [], as_jwks_url = [], as_secret = [] \<rparr>"]
    by (simp add: no_settings_def)
qed

text \<open>
  The overlay is applied after the checks: \<open>LG_AUTH_MODE=bearer\<close> switches bearer authentication on although
  no token is configured, and an address with leading blanks replaces the checked one.
\<close>

theorem overlay_escapes_checks:
  "\<exists>c. load_config (\<lambda>_. None) (no_settings \<lparr> st_runner := Inr \<lparr> rs_base_url = '' http://r'', rs_api_key = [] \<rparr>,
        st_auth := Inr \<lparr> as_mode = ''bearer'', as_jwks_url = [], as_secret = [] \<rparr> \<rparr>) (\<lambda>_. Table demo_table) [] = Inr c \<and>
     ra_auth_mode (cfg_remote_api c) = ''bearer'' \<and> ra_bearer_token (cfg_remote_api c) = None \<and>
     \<not> http_url (rn_base_url (cfg_runner c))"
proof -
  let ?l = "load_config (\<lambda>_. None) (no_settings \<lparr> st_runner := Inr \<lparr> rs_base_url = '' http://r'', rs_api_key = [] \<rparr>,
        st_auth := Inr \<lparr> as_mode = ''bearer'', as_jwks_url = [], as_secret = [] \<rparr> \<rparr>) (\<lambda>_. Table demo_table) []"
  have "(case ?l of Inr c \<Rightarrow> ra_auth_mode (cfg_remote_api c) = ''bearer'' \<and> ra_bearer_token (cfg_remote_api c) = None \<and>
     \<not> http_url (rn_base_url (cfg_runner c)) | Inl _ \<Rightarrow> False) = True"
    by code_simp
  then show ?thesis by (auto split: sum.splits)
qed

end
