(* ===== verification/Run_Command.thy ===== *)
theory Run_Command
  imports App_Config Orch_State Approvals
begin

text \<open>
  The \<open>run\<close> command (\<open>commands/run.py\<close>): validation of the run id (\<open>main.py\<close>), the approvals handed over by
  the service, the checkpoint thread (\<open>backends/_base.py\<close>), the initial state that a configuration gives
  to the graph, and the record that is stored at the end. Files, path resolution and the
  checkpoint store are arguments; console output is left out.
\<close>

section \<open>Arguments\<close>

record run_args =
  arg_request :: string
  arg_runner_base_url :: "string option"
  arg_trace :: bool
  arg_run_id :: "string option"
  arg_trace_out_dir :: "string option"
  arg_resume :: bool
  arg_thread_id :: "string option"
  arg_checkpoint_id :: "string option"

definition run_id_char :: "bool \<Rightarrow> char \<Rightarrow> bool" where
  "run_id_char first c \<longleftrightarrow> is_dec c \<or> 65 \<le> code c \<and> code c \<le> 90 \<or> 97 \<le> code c \<and> code c \<le> 122 \<or>
     \<not> first \<and> (c = CHR ''.'' \<or> c = CHR ''_'' \<or> c = CHR ''-'')"

definition run_id_ok :: "string \<Rightarrow> bool" where
  "run_id_ok s = (case s of [] \<Rightarrow> False | c # cs \<Rightarrow> run_id_char True c \<and> list_all (run_id_char False) cs \<and> length cs \<le> 127)"

definition validated_run_id :: "string option \<Rightarrow> string option" where
  "validated_run_id v = (case v of None \<Rightarrow> None | Some s \<Rightarrow> if run_id_ok (strip s) then Some (strip s) else None)"

section \<open>What the environment hands over\<close>

definition json_object :: "string \<Rightarrow> pydict option" where
  "json_object s = (if s = [] then None else case json_loads s of Some (PDict d) \<Rightarrow> Some d | _ \<Rightarrow> None)"

text \<open>The approvals come from a file named in the environment, else from the environment itself.\<close>

definition resume_approvals :: "environ \<Rightarrow> (string \<Rightarrow> string option) \<Rightarrow> pydict option" where
  "resume_approvals env read_file =
     (let file = env_text env ''LG_RESUME_APPROVALS_FILE'';
          from_file = (if file = [] then [] else case read_file file of Some t \<Rightarrow> strip t | None \<Rightarrow> [])
      in json_object (or_str from_file (env_text env ''LG_RESUME_APPROVALS_JSON'')))"

definition approval_context :: "environ \<Rightarrow> pydict option" where
  "approval_context env = json_object (env_text env ''LG_APPROVAL_CONTEXT_JSON'')"

section \<open>Checkpoints\<close>

definition stable_checkpoint_thread_id :: "string \<Rightarrow> string \<Rightarrow> string option \<Rightarrow> string" where
  "stable_checkpoint_thread_id request thread_prefix provided =
     (case provided of
        Some p \<Rightarrow> if strip p \<noteq> [] then strip p
                 else or_str (strip thread_prefix) ''lg-orch'' @ ''-'' @ take 16 (sha256_hex request)
      | None \<Rightarrow> or_str (strip thread_prefix) ''lg-orch'' @ ''-'' @ take 16 (sha256_hex request))"

definition is_absolute :: "string \<Rightarrow> bool" where
  "is_absolute p = prefix ''/'' p"

definition resolve_checkpoint_db_path :: "(string \<Rightarrow> string) \<Rightarrow> string \<Rightarrow> string \<Rightarrow> string" where
  "resolve_checkpoint_db_path resolve repo_root db_path =
     (if is_absolute db_path then resolve db_path else resolve (repo_root @ ''/'' @ db_path))"

definition parse_config :: "pydict \<Rightarrow> (string \<times> string \<times> string option) result" where
  "parse_config config = (case dget config ''configurable'' (PDict []) of
     PDict c \<Rightarrow> (case dget c ''thread_id'' PNone of
         PStr t \<Rightarrow> if strip t = [] then Inl (ValueError ''missing configurable.thread_id'')
                  else Inr (strip t, py_str (dget c ''checkpoint_ns'' (PStr [])),
                         (case dget c ''checkpoint_id'' PNone of PNone \<Rightarrow> None | v \<Rightarrow> Some (py_str v)))
       | _ \<Rightarrow> Inl (ValueError ''missing configurable.thread_id''))
   | _ \<Rightarrow> Inl (ValueError ''configurable must be a dict''))"

datatype saver = SqliteSaver string | RedisSaver string int | PostgresSaver string

text \<open>The Redis store is used only if it answers; otherwise the run falls back to SQLite.\<close>

definition choose_saver :: "bool \<Rightarrow> string \<Rightarrow> Checkpoint \<Rightarrow> saver" where
  "choose_saver redis_answers db_path cp =
     (if cp_backend cp = ''redis''
      then if redis_answers then RedisSaver (cp_redis_url cp) (cp_redis_ttl_seconds cp) else SqliteSaver db_path
      else if cp_backend cp = ''postgres'' then PostgresSaver (cp_postgres_dsn cp)
      else SqliteSaver db_path)"

text \<open>The store answers with the configuration of the latest checkpoint of a thread.\<close>

type_synonym latest_checkpoint = "string \<Rightarrow> string \<Rightarrow> pydict option"

definition resume_checkpoint_id :: "latest_checkpoint \<Rightarrow> run_args \<Rightarrow> string \<Rightarrow> string \<Rightarrow> string" where
  "resume_checkpoint_id latest args thread ns =
     (let given = (case arg_checkpoint_id args of Some c \<Rightarrow> strip c | None \<Rightarrow> [])
      in if given \<noteq> [] then given
         else if arg_resume args
         then (case latest thread ns of
                 Some cfg \<Rightarrow> (case dget cfg ''configurable'' (PDict []) of
                     PDict c \<Rightarrow> (case dget c ''checkpoint_id'' PNone of PStr s \<Rightarrow> strip s | _ \<Rightarrow> [])
                   | _ \<Rightarrow> [])
               | None \<Rightarrow> [])
         else [])"

text \<open>The run configuration of LangGraph and the \<open>_checkpoint\<close> entry of the state.\<close>

definition checkpoint_runtime ::
  "latest_checkpoint \<Rightarrow> (string \<Rightarrow> string) \<Rightarrow> string \<Rightarrow> run_args \<Rightarrow> Checkpoint \<Rightarrow> pydict option \<times> pydict" where
  "checkpoint_runtime latest resolve repo_root args cp =
     (if cp_enabled cp
      then let thread = stable_checkpoint_thread_id (arg_request args) (cp_thread_prefix cp) (arg_thread_id args);
               ns = cp_namespace cp;
               cid = resume_checkpoint_id latest args thread ns
           in (Some [(''configurable'', PDict ([(''thread_id'', PStr thread), (''checkpoint_ns'', PStr ns)]
                  @ (if cid = [] then [] else [(''checkpoint_id'', PStr cid)])))],
               [(''enabled'', PBool True), (''db_path'', PStr (resolve_checkpoint_db_path resolve repo_root (cp_db_path cp))),
                (''thread_id'', PStr thread), (''checkpoint_ns'', PStr ns), (''resume'', PBool (arg_resume args)),
                (''resume_checkpoint_id'', PStr cid)])
      else (None, [(''enabled'', PBool False), (''db_path'', PStr []), (''thread_id'', PStr []),
                (''checkpoint_ns'', PStr (cp_namespace cp)), (''resume'', PBool (arg_resume args)),
                (''resume_checkpoint_id'', PStr [])]))"

section \<open>The initial state\<close>

definition str_opt :: "string option \<Rightarrow> pyval" where
  "str_opt = opt_val PStr"

definition dump_server :: "MCPServerConfig \<Rightarrow> pydict" where
  "dump_server s = [(''command'', PStr (ms_command s)), (''args'', str_list (ms_args s))]
     @ (case ms_cwd s of Some c \<Rightarrow> [(''cwd'', PStr c)] | None \<Rightarrow> [])
     @ [(''env'', PDict (map (\<lambda>(k, v). (k, PStr v)) (ms_env s))), (''timeout_s'', PInt (ms_timeout_s s))]"

text \<open>A temperature that is not finite has no counterpart among the values of the state.\<close>

definition float_val :: "pyfloat \<Rightarrow> pyval option" where
  "float_val f = (case f of Fin m e \<Rightarrow> Some (case norm_dec m e of (m', e') \<Rightarrow> PFloat m' e') | _ \<Rightarrow> None)"

definition dump_endpoint :: "ModelEndpoint \<Rightarrow> pydict option" where
  "dump_endpoint m = (case float_val (me_temperature m) of
     None \<Rightarrow> None
   | Some t \<Rightarrow> Some [(''provider'', PStr (me_provider m)), (''model'', PStr (me_model m)), (''temperature'', t)])"

definition dump_serverless :: "Serverless \<Rightarrow> pydict" where
  "dump_serverless s = [(''base_url'', PStr (sv_base_url s)), (''api_key'', str_opt (sv_api_key s)), (''timeout_s'', PInt (sv_timeout_s s))]"

definition dump_routing :: "ModelRoutingConfig \<Rightarrow> pydict" where
  "dump_routing r = [(''local_provider'', PStr (mr_local_provider r)), (''fallback_task_classes'', str_list (mr_fallback_task_classes r)),
     (''interactive_context_limit'', PInt (mr_interactive_context_limit r)),
     (''deep_planning_context_limit'', PInt (mr_deep_planning_context_limit r)),
     (''recovery_retry_threshold'', PInt (mr_recovery_retry_threshold r)),
     (''default_cache_affinity'', PStr (mr_default_cache_affinity r))]"

definition config_state :: "AppConfig \<Rightarrow> pydict" where
  "config_state c =
     [(''_model_routing_policy'', PDict (dump_routing (md_routing (cfg_models c)))),
      (''_model_provider_runtime'', PDict [(''digitalocean'', PDict (dump_serverless (md_digitalocean (cfg_models c)))),
         (''openai_compatible'', PDict (dump_serverless (md_openai_compatible (cfg_models c))))]),
      (''_budget_max_loops'', PInt (bg_max_loops (cfg_budgets c))),
      (''_budget_max_tool_calls_per_loop'', PInt (bg_max_tool_calls_per_loop (cfg_budgets c))),
      (''_budget_max_patch_bytes'', PInt (bg_max_patch_bytes (cfg_budgets c))),
      (''_budget_context'', PDict [(''stable_prefix_tokens'', PInt (bg_stable_prefix_tokens (cfg_budgets c))),
         (''working_set_tokens'', PInt (bg_working_set_tokens (cfg_budgets c))),
         (''tool_result_summary_chars'', PInt (bg_tool_result_summary_chars (cfg_budgets c)))]),
      (''_config_policy'', PDict [(''network_default'', PStr (pc_network_default (cfg_policy c))),
         (''require_approval_for_mutations'', PBool (pc_require_approval_for_mutations (cfg_policy c))),
         (''allowed_write_paths'', str_list (pc_allowed_write_paths (cfg_policy c)))])]"

text \<open>The entries before and after those of the configuration.\<close>

definition request_state :: "string \<Rightarrow> string \<Rightarrow> run_args \<Rightarrow> pydict \<Rightarrow> AppConfig \<Rightarrow> pydict \<Rightarrow> pydict \<Rightarrow> pydict" where
  "request_state uuid repo_root args checkpoint c rt pl =
     [(''request'', PStr (arg_request args)),
      (''_run_id'', PStr (case validated_run_id (arg_run_id args) of Some r \<Rightarrow> r | None \<Rightarrow> uuid)),
      (''_repo_root'', PStr repo_root),
      (''_runner_base_url'', PStr (case arg_runner_base_url args of Some u \<Rightarrow> or_str u (rn_base_url (cfg_runner c)) | None \<Rightarrow> rn_base_url (cfg_runner c))),
      (''_runner_api_key'', str_opt (rn_api_key (cfg_runner c))),
      (''_mcp_enabled'', PBool (mc_enabled (cfg_mcp c))),
      (''_mcp_servers'', PDict (map (\<lambda>(n, s). (n, PDict (dump_server s))) (mc_servers (cfg_mcp c)))),
      (''_checkpoint'', PDict checkpoint),
      (''_models'', PDict [(''router'', PDict rt), (''planner'', PDict pl)])]"

definition runtime_state :: "environ \<Rightarrow> (string \<Rightarrow> string option) \<Rightarrow> run_args \<Rightarrow> AppConfig \<Rightarrow> pydict" where
  "runtime_state env read_file args c =
     (let subject = env_text env ''LG_REMOTE_API_AUTH_SUBJECT''; ip = env_text env ''LG_REMOTE_API_CLIENT_IP'';
          request_id = env_text env ''LG_REQUEST_ID'';
          out_dir = (case arg_trace_out_dir args of Some d \<Rightarrow> strip d | None \<Rightarrow> [])
      in [(''_trace_enabled'', PBool (arg_trace args \<or> tr_enabled (cfg_trace c))),
          (''_trace_out_dir'', PStr (or_str out_dir (tr_output_dir (cfg_trace c)))),
          (''_trace_capture_model_metadata'', PBool (tr_capture_model_metadata (cfg_trace c))),
          (''_run_store_path'', PStr (case ra_run_store_path (cfg_remote_api c) of Some p \<Rightarrow> p | None \<Rightarrow> [])),
          (''_procedure_cache_path'', PStr (case ra_procedure_cache_path (cfg_remote_api c) of Some p \<Rightarrow> p | None \<Rightarrow> [])),
          (''_vericoding_enabled'', PBool (vc_enabled (cfg_vericoding c))),
          (''_vericoding_extensions'', str_list (vc_extensions (cfg_vericoding c)))]
         @ (if request_id = [] then [] else [(''_request_id'', PStr request_id)])
         @ (if subject = [] \<and> ip = [] then []
            else [(''_remote_api_context'', PDict [(''auth_subject'', PStr subject), (''client_ip'', PStr ip)])])
         @ (case resume_approvals env read_file of Some d \<Rightarrow> [(''_resume_approvals'', PDict d)] | None \<Rightarrow> [])
         @ (case approval_context env of Some d \<Rightarrow> [(''_approval_context'', PDict d)] | None \<Rightarrow> []))"

definition initial_state ::
  "environ \<Rightarrow> (string \<Rightarrow> string option) \<Rightarrow> string \<Rightarrow> string \<Rightarrow> run_args \<Rightarrow> pydict \<Rightarrow> AppConfig \<Rightarrow> pydict option" where
  "initial_state env read_file uuid repo_root args checkpoint c =
     (case (dump_endpoint (md_router (cfg_models c)), dump_endpoint (md_planner (cfg_models c))) of
        (Some rt, Some pl) \<Rightarrow>
          Some (request_state uuid repo_root args checkpoint c rt pl @ config_state c @ runtime_state env read_file args c)
      | _ \<Rightarrow> None)"

text \<open>A run id that was given and is not valid stops the command with exit code 2 before anything else.\<close>

definition run_id_rejected :: "run_args \<Rightarrow> bool" where
  "run_id_rejected args \<longleftrightarrow> (case arg_run_id args of None \<Rightarrow> False | Some r \<Rightarrow> r \<noteq> [] \<and> validated_run_id (Some r) = None)"

section \<open>The stored record\<close>

definition run_status :: "pydict \<Rightarrow> string result" where
  "run_status out =
     bind_r (dict_method (or_val (dget out ''recovery_packet'' PNone) (PDict [])) ''get'') (\<lambda>p.
       Inr (if map_of out ''final'' = None \<or> py_bool (dget p ''failure_class'' PNone) then ''failed'' else ''succeeded''))"

definition run_record :: "string \<Rightarrow> string \<Rightarrow> pydict \<Rightarrow> pydict result" where
  "run_record now trace_path out =
     bind_r (run_status out) (\<lambda>status.
     let ctx = as_dict (dget out ''_remote_api_context'' (PDict []))
     in Inr [(''run_id'', PStr (gets out ''_run_id'' [])), (''request'', PStr (gets out ''request'' [])),
        (''status'', PStr status), (''created_at'', PStr now), (''started_at'', PStr now), (''finished_at'', PStr now),
        (''exit_code'', PInt (if status = ''succeeded'' then 0 else 1)),
        (''trace_out_dir'', PStr (gets out ''_trace_out_dir'' ''artifacts/runs'')), (''trace_path'', PStr trace_path),
        (''request_id'', PStr (gets out ''_request_id'' [])), (''auth_subject'', PStr (gets ctx ''auth_subject'' [])),
        (''client_ip'', PStr (gets ctx ''client_ip'' [])), (''final'', PStr (gets out ''final'' []))])"

text \<open>After the run the \<open>_checkpoint\<close> entry names the thread and the last checkpoint of the store.\<close>

definition final_checkpoint :: "latest_checkpoint \<Rightarrow> string \<Rightarrow> string \<Rightarrow> string \<Rightarrow> pydict \<Rightarrow> pydict" where
  "final_checkpoint latest run_id thread ns out =
     (let last = (case latest thread ns of
            Some cfg \<Rightarrow> (case dget cfg ''configurable'' (PDict []) of
                PDict c \<Rightarrow> (case dget c ''checkpoint_id'' PNone of PStr s \<Rightarrow> s | _ \<Rightarrow> []) | _ \<Rightarrow> [])
          | None \<Rightarrow> []);
          meta = as_dict (dget out ''_checkpoint'' (PDict []))
      in dset out ''_checkpoint'' (PDict (dset (dset (dset (dset meta ''thread_id'' (PStr thread)) ''checkpoint_ns'' (PStr ns))
           ''latest_checkpoint_id'' (PStr last)) ''run_id'' (PStr run_id))))"

section \<open>Properties\<close>

text \<open>
  A run id that passes the validation is a plain file name: between 1 and 128 characters, none of them
  a slash, not beginning with a dot. The trace file of a run therefore stays in its directory.
\<close>

theorem validated_run_id_plain:
  assumes "validated_run_id v = Some r"
  shows "1 \<le> length r \<and> length r \<le> 128 \<and> CHR ''/'' \<notin> set r \<and> \<not> prefix ''.'' r \<and> strip r = r"
proof -
  obtain s where s: "v = Some s" "r = strip s" "run_id_ok r"
    using assms by (auto simp: validated_run_id_def split: option.splits if_splits)
  then obtain c cs where r: "r = c # cs" and ok: "run_id_char True c" "list_all (run_id_char False) cs" "length cs \<le> 127"
    by (auto simp: run_id_ok_def split: list.splits)
  have no: "\<not> run_id_char b (CHR ''/'')" "\<not> run_id_char True (CHR ''.'')" for b
    by (simp_all add: run_id_char_def is_dec_def code_def)
  have "CHR ''/'' \<notin> set r" "\<not> prefix ''.'' r" using ok no r by (auto simp: list_all_iff)
  moreover have "strip r = r" using s(2) by simp
  ultimately show ?thesis using ok(3) r by simp
qed

theorem validated_run_id_plain_witness: "validated_run_id (Some '' run-1.a '') = Some ''run-1.a'' \<and> CHR ''/'' \<notin> set ''run-1.a''"
proof -
  have "validated_run_id (Some '' run-1.a '') = Some ''run-1.a''" by code_simp
  then show ?thesis using validated_run_id_plain [of "Some '' run-1.a ''" "''run-1.a''"] by blast
qed

definition hex_digit :: "char \<Rightarrow> bool" where
  "hex_digit c \<longleftrightarrow> is_dec c \<or> 97 \<le> code c \<and> code c \<le> 102"

lemma hex_char_digit: "n < 16 \<Longrightarrow> hex_digit (hex_char n)"
  by (simp add: hex_digit_def is_dec_def hex_char_def code_def of_char_of)

lemma hex8_digits: "list_all hex_digit (hex8 w)"
proof -
  have "hex_digit c" if "b \<in> set (be_bytes 4 (unat w))" "c \<in> set (hex2 b)" for b c
  proof -
    have "b div 16 < 16" using be_bytes_less that(1) by (simp add: less_mult_imp_div_less)
    then show ?thesis using that(2) hex_char_digit [of "b div 16"] hex_char_digit [of "b mod 16"] by (auto simp: hex2_def)
  qed
  then show ?thesis by (auto simp: hex8_def list_all_iff)
qed

text \<open>A digest has the shape that the configuration demands of a pinned schema hash.\<close>

lemma sha256_hex_valid: "is_valid_sha256_hex (sha256_hex s)"
proof -
  have "list_all hex_digit (sha256_hex s)"
    unfolding sha256_hex_def Let_def using hex8_digits by (auto simp: list_all_iff)
  then show ?thesis by (auto simp: is_valid_sha256_hex_def length_sha256_hex hex_digit_def list_all_iff)
qed

lemma hex_digit_not_space: "hex_digit c \<Longrightarrow> \<not> is_space c"
  by (auto simp: hex_digit_def is_dec_def is_space_def)

lemma strip_neq_hd: "strip s \<noteq> [] \<Longrightarrow> \<not> is_space (hd (strip s))"
proof -
  assume a: "strip s \<noteq> []"
  have "prefix (strip s) (lstrip s)" unfolding strip_def by (rule rstrip_prefix)
  then obtain z where "lstrip s = strip s @ z" by (auto simp: prefix_def)
  then have "hd (lstrip s) = hd (strip s)" "lstrip s \<noteq> []" using a by auto
  then show ?thesis using hd_dropWhile [of is_space s] by (simp add: lstrip_def)
qed

lemma thread_id_stripped:
  "strip (stable_checkpoint_thread_id request p provided) = stable_checkpoint_thread_id request p provided \<and>
   stable_checkpoint_thread_id request p provided \<noteq> []"
proof -
  let ?pre = "or_str (strip p) ''lg-orch''" and ?d = "take 16 (sha256_hex request)"
  have pre: "?pre \<noteq> []" "\<not> is_space (hd ?pre)"
    using strip_neq_hd [of p] by (auto simp: or_str_def is_space_def code_def)
  have d: "?d \<noteq> []" using length_sha256_hex [of request] by auto
  then have "last ?d \<in> set (sha256_hex request)" by (meson in_set_takeD last_in_set)
  then have "\<not> is_space (last ?d)"
    using sha256_hex_valid [of request] hex_digit_not_space by (auto simp: is_valid_sha256_hex_def list_all_iff hex_digit_def)
  then have "strip (?pre @ ''-'' @ ?d) = ?pre @ ''-'' @ ?d"
    using pre d by (intro strip_ends) simp_all
  then show ?thesis by (auto simp: stable_checkpoint_thread_id_def split: option.splits)
qed

text \<open>
  The run configuration built for LangGraph is read back by the checkpoint stores as it was meant: the
  thread, the namespace of the configuration and the checkpoint to resume (or none), in agreement with the
  \<open>_checkpoint\<close> entry of the state.
\<close>

theorem run_config_round_trip:
  assumes "checkpoint_runtime latest resolve repo_root args cp = (Some cfg, meta)"
  shows "\<exists>cid. parse_config cfg = Inr (gets meta ''thread_id'' [], cp_namespace cp, if cid = [] then None else Some cid) \<and>
     dget meta ''resume_checkpoint_id'' PNone = PStr cid \<and> dget meta ''checkpoint_ns'' PNone = PStr (cp_namespace cp) \<and>
     gets meta ''thread_id'' [] = stable_checkpoint_thread_id (arg_request args) (cp_thread_prefix cp) (arg_thread_id args)"
proof -
  let ?t = "stable_checkpoint_thread_id (arg_request args) (cp_thread_prefix cp) (arg_thread_id args)"
  define cid where "cid = resume_checkpoint_id latest args ?t (cp_namespace cp)"
  have "cp_enabled cp" using assms by (cases "cp_enabled cp") (simp_all add: checkpoint_runtime_def)
  then have m: "meta = [(''enabled'', PBool True), (''db_path'', PStr (resolve_checkpoint_db_path resolve repo_root (cp_db_path cp))),
      (''thread_id'', PStr ?t), (''checkpoint_ns'', PStr (cp_namespace cp)), (''resume'', PBool (arg_resume args)),
      (''resume_checkpoint_id'', PStr cid)]"
    and c: "cfg = [(''configurable'', PDict ([(''thread_id'', PStr ?t), (''checkpoint_ns'', PStr (cp_namespace cp))]
                  @ (if cid = [] then [] else [(''checkpoint_id'', PStr cid)])))]"
    using assms unfolding checkpoint_runtime_def Let_def cid_def by simp_all
  have "parse_config cfg = Inr (?t, cp_namespace cp, if cid = [] then None else Some cid)"
    using thread_id_stripped [of "arg_request args" "cp_thread_prefix cp" "arg_thread_id args"]
    by (simp add: c parse_config_def)
  then show ?thesis by (intro exI [of _ cid]) (simp add: m)
qed

definition demo_args :: run_args where
  "demo_args = \<lparr> arg_request = ''fix it'', arg_runner_base_url = None, arg_trace = False, arg_run_id = None,
     arg_trace_out_dir = None, arg_resume = True, arg_thread_id = Some ''t1'', arg_checkpoint_id = Some '' c7 '' \<rparr>"

definition demo_checkpoint :: Checkpoint where
  "demo_checkpoint = \<lparr> cp_enabled = True, cp_db_path = ''db'', cp_namespace = ''main'', cp_thread_prefix = ''lg'',
     cp_backend = ''sqlite'', cp_redis_url = [], cp_postgres_dsn = [], cp_redis_ttl_seconds = 1 \<rparr>"

theorem run_config_round_trip_witness:
  "\<exists>cfg meta. checkpoint_runtime (\<lambda>_ _. None) (\<lambda>p. p) ''/r'' demo_args demo_checkpoint = (Some cfg, meta) \<and>
     parse_config cfg = Inr (''t1'', ''main'', Some ''c7'')"
proof -
  let ?r = "checkpoint_runtime (\<lambda>_ _. None) (\<lambda>p. p) ''/r'' demo_args demo_checkpoint"
  have "(case ?r of (Some cfg, meta) \<Rightarrow> dget meta ''resume_checkpoint_id'' PNone = PStr ''c7'' \<and> gets meta ''thread_id'' [] = ''t1'' | _ \<Rightarrow> False) = True"
    by code_simp
  then obtain cfg meta where r: "?r = (Some cfg, meta)" "dget meta ''resume_checkpoint_id'' PNone = PStr ''c7''" "gets meta ''thread_id'' [] = ''t1''"
    by (auto split: option.splits)
  then show ?thesis using run_config_round_trip [OF r(1)] by (auto simp: demo_checkpoint_def)
qed

text \<open>The pinned schema hash of a server is not part of what the state hands to the MCP client.\<close>

lemma dump_server_unpinned: "map_of (dump_server s) ''schema_hash'' = None"
  by (simp add: dump_server_def split: option.splits)

lemma map_of_append_None: "map_of xs k = None \<Longrightarrow> map_of (xs @ ys) k = map_of ys k"
  by (simp add: map_add_def split: option.splits)

lemma initial_state_config:
  assumes "initial_state env read_file uuid repo_root args checkpoint c = Some raw"
  shows "map_of raw ''_budget_max_loops'' = Some (PInt (bg_max_loops (cfg_budgets c)))"
    and "map_of raw ''_config_policy'' = Some (PDict [(''network_default'', PStr (pc_network_default (cfg_policy c))),
         (''require_approval_for_mutations'', PBool (pc_require_approval_for_mutations (cfg_policy c))),
         (''allowed_write_paths'', str_list (pc_allowed_write_paths (cfg_policy c)))])"
proof -
  obtain rt pl where raw: "raw = request_state uuid repo_root args checkpoint c rt pl @ config_state c @ runtime_state env read_file args c"
    using assms by (auto simp: initial_state_def split: option.splits)
  have pre: "map_of (request_state uuid repo_root args checkpoint c rt pl) k = None" if "k \<in> {''_budget_max_loops'', ''_config_policy''}" for k
    using that by (elim insertE emptyE) (simp_all add: request_state_def)
  show "map_of raw ''_budget_max_loops'' = Some (PInt (bg_max_loops (cfg_budgets c)))"
    unfolding raw by (subst map_of_append_None [OF pre]) (simp_all add: config_state_def)
  show "map_of raw ''_config_policy'' = Some (PDict [(''network_default'', PStr (pc_network_default (cfg_policy c))),
         (''require_approval_for_mutations'', PBool (pc_require_approval_for_mutations (cfg_policy c))),
         (''allowed_write_paths'', str_list (pc_allowed_write_paths (cfg_policy c)))])"
    unfolding raw by (subst map_of_append_None [OF pre]) (simp_all add: config_state_def)
qed

lemma distinct_subseq: "distinct ys \<Longrightarrow> subseq xs ys \<Longrightarrow> distinct xs"
  by (metis distinct_nthsI subseq_conv_nths)

text \<open>No key occurs twice: the state is a dictionary.\<close>

lemma distinct_initial_state:
  assumes "initial_state env read_file uuid repo_root args checkpoint c = Some raw"
  shows "distinct (map fst raw)"
proof -
  obtain rt pl where raw: "raw = request_state uuid repo_root args checkpoint c rt pl @ config_state c @ runtime_state env read_file args c"
    using assms by (auto simp: initial_state_def split: option.splits)
  let ?keys = "[''_trace_enabled'', ''_trace_out_dir'', ''_trace_capture_model_metadata'', ''_run_store_path'', ''_procedure_cache_path'',
     ''_vericoding_enabled'', ''_vericoding_extensions'', ''_request_id'', ''_remote_api_context'', ''_resume_approvals'', ''_approval_context'']"
  have sub: "subseq (map fst (runtime_state env read_file args c)) ?keys"
    unfolding runtime_state_def Let_def by (simp split: option.splits)
  have "distinct (map fst (request_state uuid repo_root args checkpoint c rt pl @ config_state c) @ ?keys)"
    by (simp add: request_state_def config_state_def)
  moreover have "subseq (map fst raw) (map fst (request_state uuid repo_root args checkpoint c rt pl @ config_state c) @ ?keys)"
    using sub by (simp add: raw list_emb_append_mono)
  ultimately show ?thesis using distinct_subseq by blast
qed

end
