(* ===== verification/Mcp_Client.thy ===== *)
theory Mcp_Client
  imports Runner_Client Run_Command
begin

text \<open>
  \<open>tools/mcp_client.py\<close>: tools, resources and prompts of MCP servers, reached through the tool runner. A server
  may be pinned to the hash of its tool list; tools of a server whose list does not match are withheld.
\<close>

section \<open>Servers\<close>

definition compute_tools_hash :: "pyval list \<Rightarrow> string" where
  "compute_tools_hash tools = sha256_hex (json_dumps True '','' '':'' (PList tools))"

definition to_timeout :: "pyval \<Rightarrow> int \<Rightarrow> int" where
  "to_timeout v d = (case v of
     PInt i \<Rightarrow> max 1 i
   | PFloat m e \<Rightarrow> max 1 (trunc_dec m e)
   | PStr s \<Rightarrow> (case py_int (PStr (strip s)) of Inl _ \<Rightarrow> d | Inr i \<Rightarrow> max 1 i)
   | _ \<Rightarrow> d)"

definition str_entries :: "string \<Rightarrow> pyval list \<Rightarrow> string list result" where
  "str_entries msg = map_r (\<lambda>e. case e of PStr s \<Rightarrow> Inr s | _ \<Rightarrow> Inl (ValueError msg))"

definition server_payload :: "pydict \<Rightarrow> string \<Rightarrow> pydict result" where
  "server_payload configs name = (case dget configs name PNone of
     PDict raw \<Rightarrow>
       bind_r (case dget raw ''command'' PNone of
           PStr c \<Rightarrow> if strip c = [] then Inl (ValueError (''invalid MCP server command: '' @ name)) else Inr (strip c)
         | _ \<Rightarrow> Inl (ValueError (''invalid MCP server command: '' @ name))) (\<lambda>command.
       bind_r (case dget raw ''args'' (PList []) of
           PList es \<Rightarrow> str_entries (''invalid MCP server arg entry: '' @ name) es
         | _ \<Rightarrow> Inl (ValueError (''invalid MCP server args: '' @ name))) (\<lambda>args.
       bind_r (case dget raw ''cwd'' PNone of
           PNone \<Rightarrow> Inr None | PStr s \<Rightarrow> Inr (or_none (strip s))
         | _ \<Rightarrow> Inl (ValueError (''invalid MCP server cwd: '' @ name))) (\<lambda>cwd.
       bind_r (case dget raw ''env'' (PDict []) of
           PDict kvs \<Rightarrow> bind_r (str_entries (''invalid MCP server env entry: '' @ name) (map snd kvs)) (\<lambda>_. Inr kvs)
         | _ \<Rightarrow> Inl (ValueError (''invalid MCP server env: '' @ name))) (\<lambda>env.
       Inr ([(''command'', PStr command), (''args'', str_list args), (''env'', PDict env),
             (''timeout_s'', PInt (to_timeout (dget raw ''timeout_s'' (PInt 20)) 20))]
            @ (case cwd of Some c \<Rightarrow> [(''cwd'', PStr c)] | None \<Rightarrow> []))))))
   | _ \<Rightarrow> Inl (ValueError (''unknown MCP server: '' @ name)))"

text \<open>
  A request to a server: nothing when its configuration is invalid or the answer is not usable, else the
  parsed answer.
\<close>

definition server_query :: "http_post \<Rightarrow> RunnerClient \<Rightarrow> pydict \<Rightarrow> string \<Rightarrow> string \<Rightarrow> pydict \<Rightarrow> pyval option result" where
  "server_query post client configs tool name extra =
     (case server_payload configs name of
        Inl _ \<Rightarrow> Inr None
      | Inr server \<Rightarrow>
          bind_r (execute_tool post client tool ((''server_name'', PStr name) # extra @ [(''server'', PDict server)]))
            (\<lambda>env. Inr (parsed_stdout json_loads env)))"

section \<open>Tools\<close>

definition expected_hash :: "pydict \<Rightarrow> string \<Rightarrow> string" where
  "expected_hash configs name = (case dget configs name (PDict []) of
     PDict cfg \<Rightarrow> lower (strip (gets cfg ''schema_hash'' [])) | _ \<Rightarrow> [])"

definition server_tools :: "pydict \<Rightarrow> string \<Rightarrow> pyval list \<Rightarrow> pydict list" where
  "server_tools configs name tools =
     (let expected = expected_hash configs name; actual = compute_tools_hash tools
      in if expected \<noteq> [] \<and> actual \<noteq> expected
         then [[(''server_name'', PStr name), (''_schema_hash_mismatch'', PBool True),
                (''_expected_hash'', PStr expected), (''_actual_hash'', PStr actual)]]
         else map (\<lambda>t. dset (dset t ''server_name'' (PStr name)) ''_schema_hash'' (PStr actual)) (dicts_of tools))"

definition discover_server :: "http_post \<Rightarrow> RunnerClient \<Rightarrow> pydict \<Rightarrow> string \<Rightarrow> pydict list result" where
  "discover_server post client configs name =
     bind_r (server_query post client configs ''mcp_discover'' name []) (\<lambda>answer.
       Inr (case answer of Some (PList tools) \<Rightarrow> server_tools configs name tools | _ \<Rightarrow> []))"

definition server_names :: "pydict \<Rightarrow> string list" where
  "server_names configs = sort (map fst configs)"

definition discover_tools :: "http_post \<Rightarrow> RunnerClient \<Rightarrow> pydict \<Rightarrow> pydict list result" where
  "discover_tools post client configs =
     bind_r (map_r (discover_server post client configs) (server_names configs)) (\<lambda>ts. Inr (concat ts))"

definition is_mismatch :: "pydict \<Rightarrow> bool" where
  "is_mismatch t \<longleftrightarrow> py_bool (dget t ''_schema_hash_mismatch'' (PBool False))"

definition tool_summary :: "pydict \<Rightarrow> pydict" where
  "tool_summary t = [(''name'', PStr (strip (gets t ''name'' []))), (''description'', PStr (strip (gets t ''description'' []))),
     (''input_schema'', dget t ''inputSchema'' PNone)]"

definition server_of :: "pydict \<Rightarrow> string" where
  "server_of t = or_str (strip (gets t ''server_name'' [])) ''unknown''"

definition server_entry :: "pydict list \<Rightarrow> string \<Rightarrow> pydict" where
  "server_entry tools name =
     (let own = filter (\<lambda>t. server_of t = name) tools
      in [(''server_name'', PStr name), (''tool_count'', PInt (int (length own))), (''tools'', dict_list (map tool_summary own))])"

definition server_line :: "pydict list \<Rightarrow> string \<Rightarrow> string" where
  "server_line tools name =
     (let names = filter (\<lambda>n. n \<noteq> []) (map (\<lambda>t. strip (gets t ''name'' [])) (filter (\<lambda>t. server_of t = name) tools))
      in name @ '': '' @ or_str (join '', '' names) ''no tools'')"

definition summarize_tools :: "pydict list \<Rightarrow> pydict" where
  "summarize_tools discovered =
     (let valid = filter (\<lambda>t. \<not> is_mismatch t) discovered;
          names = sort (remdups (map server_of valid))
      in [(''server_count'', PInt (int (length names))), (''tool_count'', PInt (int (length valid))),
          (''servers'', dict_list (map (server_entry valid) names)),
          (''summary'', PStr (join [CHR 0x0A] (map (server_line valid) names))),
          (''mismatch_servers'', str_list (map (\<lambda>t. gets t ''server_name'' []) (filter is_mismatch discovered)))])"

definition mcp_execute_tool :: "http_post \<Rightarrow> RunnerClient \<Rightarrow> pydict \<Rightarrow> string \<Rightarrow> string \<Rightarrow> pydict \<Rightarrow> pydict result" where
  "mcp_execute_tool post client configs server_name tool_name args =
     bind_r (server_payload configs server_name) (\<lambda>server.
       execute_tool post client ''mcp_execute'' [(''server_name'', PStr server_name), (''tool_name'', PStr tool_name),
         (''args'', PDict args), (''server'', PDict server)])"

section \<open>Resources and prompts\<close>

definition list_answer :: "pyval option \<Rightarrow> pydict list" where
  "list_answer a = (case a of Some (PList xs) \<Rightarrow> dicts_of xs | _ \<Rightarrow> [])"

definition dict_answer :: "pyval option \<Rightarrow> pydict" where
  "dict_answer a = (case a of Some (PDict d) \<Rightarrow> d | _ \<Rightarrow> [])"

definition list_resources :: "http_post \<Rightarrow> RunnerClient \<Rightarrow> pydict \<Rightarrow> string \<Rightarrow> pydict list result" where
  "list_resources post client configs name =
     bind_r (server_query post client configs ''mcp_resources_list'' name []) (\<lambda>a. Inr (list_answer a))"

definition read_resource :: "http_post \<Rightarrow> RunnerClient \<Rightarrow> pydict \<Rightarrow> string \<Rightarrow> string \<Rightarrow> pydict result" where
  "read_resource post client configs name uri =
     bind_r (server_query post client configs ''mcp_resource_read'' name [(''resource_uri'', PStr uri)]) (\<lambda>a. Inr (dict_answer a))"

definition list_prompts :: "http_post \<Rightarrow> RunnerClient \<Rightarrow> pydict \<Rightarrow> string \<Rightarrow> pydict list result" where
  "list_prompts post client configs name =
     bind_r (server_query post client configs ''mcp_prompts_list'' name []) (\<lambda>a. Inr (list_answer a))"

definition get_prompt :: "http_post \<Rightarrow> RunnerClient \<Rightarrow> pydict \<Rightarrow> string \<Rightarrow> string \<Rightarrow> pydict \<Rightarrow> pydict result" where
  "get_prompt post client configs name prompt arguments =
     bind_r (server_query post client configs ''mcp_prompt_get'' name [(''prompt_name'', PStr prompt), (''arguments'', PDict arguments)])
       (\<lambda>a. Inr (dict_answer a))"

definition server_capabilities :: "http_post \<Rightarrow> RunnerClient \<Rightarrow> pydict \<Rightarrow> string \<Rightarrow> pydict result" where
  "server_capabilities post client configs name =
     bind_r (discover_tools post client configs) (\<lambda>tools.
     bind_r (list_resources post client configs name) (\<lambda>resources.
     bind_r (list_prompts post client configs name) (\<lambda>prompts.
     Inr [(''server_name'', PStr name),
          (''tools'', PInt (int (length (filter (\<lambda>t. dget t ''server_name'' PNone = PStr name \<and>
             \<not> py_bool (dget t ''_schema_hash_mismatch'' PNone)) tools)))),
          (''resources'', PInt (int (length resources))), (''prompts'', PInt (int (length prompts)))])))"

definition sum_entry :: "string \<Rightarrow> pydict list \<Rightarrow> pyval" where
  "sum_entry k ds = PInt (sum_list (map (\<lambda>d. int_or (dget d k PNone) 0) ds))"

definition summarize_capabilities :: "http_post \<Rightarrow> RunnerClient \<Rightarrow> pydict \<Rightarrow> pydict result" where
  "summarize_capabilities post client configs =
     bind_r (map_r (server_capabilities post client configs)
         (filter (\<lambda>n. case server_payload configs n of Inl _ \<Rightarrow> False | Inr _ \<Rightarrow> True) (server_names configs))) (\<lambda>servers.
     Inr [(''tools_count'', sum_entry ''tools'' servers), (''resources_count'', sum_entry ''resources'' servers),
          (''prompts_count'', sum_entry ''prompts'' servers), (''servers'', dict_list servers)])"

section \<open>Properties\<close>

lemma in_map_r: "map_r f xs = Inr ys \<Longrightarrow> y \<in> set ys \<Longrightarrow> \<exists>x\<in>set xs. f x = Inr y"
  by (induction xs arbitrary: ys) (auto simp: bind_r_eq_Inr)

lemma discovered_tool:
  assumes "discover_tools post client configs = Inr out" "t \<in> set out"
  obtains name tools where "name \<in> fst ` set configs" "t \<in> set (server_tools configs name tools)"
proof -
  obtain ts where ts: "map_r (discover_server post client configs) (server_names configs) = Inr ts" "out = concat ts"
    using assms(1) by (auto simp: discover_tools_def bind_r_eq_Inr)
  then obtain l where "l \<in> set ts" "t \<in> set l" using assms(2) by auto
  then obtain n where n: "n \<in> set (server_names configs)" "discover_server post client configs n = Inr l"
    using in_map_r [OF ts(1)] by blast
  then obtain a where "l = (case a of Some (PList tools) \<Rightarrow> server_tools configs n tools | _ \<Rightarrow> [])"
    by (auto simp: discover_server_def bind_r_eq_Inr)
  then obtain tools where "t \<in> set (server_tools configs n tools)" using \<open>t \<in> set l\<close> by (auto split: option.splits pyval.splits)
  then show thesis using that n(1) by (auto simp: server_names_def)
qed

text \<open>
  Pinning is effective: a tool that is offered for a pinned server belongs to a tool list whose hash is the
  pinned one, whatever the server answers. The server name of a tool is the one that was asked, and a tool
  list that does not match yields no tool at all.
\<close>

theorem pinned_tools_match:
  assumes "discover_tools post client configs = Inr out" "t \<in> set out" "\<not> is_mismatch t"
    and "expected_hash configs (gets t ''server_name'' []) \<noteq> []"
  shows "\<exists>tools d. compute_tools_hash tools = expected_hash configs (gets t ''server_name'' []) \<and> PDict d \<in> set tools \<and>
     t = dset (dset d ''server_name'' (dget t ''server_name'' PNone)) ''_schema_hash'' (PStr (compute_tools_hash tools)) \<and>
     gets t ''server_name'' [] \<in> fst ` set configs"
proof -
  obtain name tools where n: "name \<in> fst ` set configs" and t: "t \<in> set (server_tools configs name tools)"
    using discovered_tool [OF assms(1,2)] by blast
  have ok: "expected_hash configs name = [] \<or> compute_tools_hash tools = expected_hash configs name"
    using t assms(3) by (auto simp: server_tools_def is_mismatch_def Let_def split: if_splits)
  then obtain d where d: "d \<in> set (dicts_of tools)" "t = dset (dset d ''server_name'' (PStr name)) ''_schema_hash'' (PStr (compute_tools_hash tools))"
    using t by (auto simp: server_tools_def Let_def split: if_splits)
  have "PDict d \<in> set tools" using d(1) by (induction tools rule: dicts_of.induct) auto
  then show ?thesis using d(2) n ok assms(4) by (intro exI [of _ tools] exI [of _ d]) auto
qed

text \<open>The order in which a server lists the keys of a tool does not change the hash; any other change of the text does.\<close>

lemma canonical_text_iff:
  assumes "json_plain (PList a)" "json_plain (PList b)"
  shows "json_dumps True '','' '':'' (PList a) = json_dumps True '','' '':'' (PList b) \<longleftrightarrow> sort_keys (PList a) = sort_keys (PList b)"
proof -
  have s: "json_seps '','' '':''" by (auto simp: json_seps_def)
  show ?thesis
  proof
    assume "json_dumps True '','' '':'' (PList a) = json_dumps True '','' '':'' (PList b)"
    then have "Some (sort_keys (PList a)) = Some (sort_keys (PList b))"
      using json_round_trip_sorted [OF s assms(1)] json_round_trip_sorted [OF s assms(2)] by metis
    then show "sort_keys (PList a) = sort_keys (PList b)" by simp
  qed (simp only: json_dumps_sorted)
qed

text \<open>A client answer for the witness: every request returns a fixed tool list.\<close>

definition demo_answer :: "string \<Rightarrow> http_post" where
  "demo_answer out = (\<lambda>_ _ _ _. JsonBody (PDict [(''ok'', PBool True), (''stdout'', PStr out)]))"

definition demo_runner :: RunnerClient where
  "demo_runner = \<lparr> rc_base_url = ''http://r'', rc_api_key = None, rc_request_id = None \<rparr>"

text \<open>A pin that the configuration accepts is compared as it was written.\<close>

lemma pin_unchanged:
  assumes "is_valid_sha256_hex h"
  shows "lower (strip h) = h"
proof -
  have d: "list_all hex_digit h" "h \<noteq> []" using assms by (auto simp: is_valid_sha256_hex_def hex_digit_def list_all_iff)
  then have "\<not> is_space (hd h)" "\<not> is_space (last h)" by (auto simp: list_all_iff hex_digit_not_space)
  moreover have "lower h = h"
    using d(1) by (induction h) (auto simp: lower_def lower_char_def hex_digit_def is_dec_def)
  ultimately show ?thesis using d(2) by (simp add: strip_ends)
qed

definition demo_tools :: "pyval list" where
  "demo_tools = [PDict [(''name'', PStr ''read''), (''server_name'', PStr ''other'')]]"

definition demo_servers :: pydict where
  "demo_servers = [(''s'', PDict [(''command'', PStr ''run''), (''schema_hash'', PStr (compute_tools_hash demo_tools))])]"

lemma demo_discovered:
  "discover_tools (demo_answer (json_dumps False '','' '':'' (PList demo_tools))) demo_runner demo_servers
     = Inr [[(''name'', PStr ''read''), (''server_name'', PStr ''s''), (''_schema_hash'', PStr (compute_tools_hash demo_tools))]]"
proof -
  let ?out = "json_dumps False '','' '':'' (PList demo_tools)"
  have l: "json_loads ?out = Some (PList demo_tools)"
    by (rule json_loads_dumps) (auto simp: json_seps_def demo_tools_def)
  have "strip ?out \<noteq> []" unfolding demo_tools_def by code_simp
  then have "server_query (demo_answer ?out) demo_runner demo_servers ''mcp_discover'' ''s'' [] = Inr (Some (PList demo_tools))"
    using l by (simp add: server_query_def server_payload_def demo_servers_def str_entries_def execute_tool_def demo_answer_def
        parsed_stdout_def strip_def lstrip_def rstrip_def is_space_def code_def or_none_def numeral_2_eq_2 del: json_dumps.simps)
  moreover have "expected_hash demo_servers ''s'' = compute_tools_hash demo_tools"
    using pin_unchanged [OF sha256_hex_valid] by (simp add: expected_hash_def demo_servers_def compute_tools_hash_def)
  ultimately show ?thesis
    by (simp add: discover_tools_def server_names_def demo_servers_def [symmetric] discover_server_def server_tools_def)
      (simp add: demo_servers_def discover_server_def server_tools_def demo_tools_def)
qed

theorem pinned_tools_match_witness:
  "\<exists>tools d. compute_tools_hash tools = compute_tools_hash demo_tools \<and> PDict d \<in> set tools \<and>
     [(''name'', PStr ''read''), (''server_name'', PStr ''s''), (''_schema_hash'', PStr (compute_tools_hash demo_tools))]
       = dset (dset d ''server_name'' (PStr ''s'')) ''_schema_hash'' (PStr (compute_tools_hash tools)) \<and> ''s'' \<in> fst ` set demo_servers"
proof -
  let ?t = "[(''name'', PStr ''read''), (''server_name'', PStr ''s''), (''_schema_hash'', PStr (compute_tools_hash demo_tools))]"
  have e: "expected_hash demo_servers ''s'' = compute_tools_hash demo_tools"
    using pin_unchanged [OF sha256_hex_valid] by (simp add: expected_hash_def demo_servers_def compute_tools_hash_def)
  have "compute_tools_hash demo_tools \<noteq> []" using length_sha256_hex by (metis compute_tools_hash_def list.size(3) zero_neq_numeral)
  then have "\<exists>tools d. compute_tools_hash tools = expected_hash demo_servers ''s'' \<and> PDict d \<in> set tools \<and>
     ?t = dset (dset d ''server_name'' (PStr ''s'')) ''_schema_hash'' (PStr (compute_tools_hash tools)) \<and> ''s'' \<in> fst ` set demo_servers"
    using pinned_tools_match [OF demo_discovered, of ?t] e by (simp add: is_mismatch_def)
  then show ?thesis unfolding e .
qed

text \<open>
  The \<open>run\<close> command copies the servers of the configuration without their pin: whatever the configuration
  says, the client sees every server as unpinned and withholds nothing.
\<close>

theorem run_command_drops_pins:
  "expected_hash (map (\<lambda>(n, s). (n, PDict (dump_server s))) servers) name = []"
proof -
  have "map_of (map (\<lambda>(n, s). (n, PDict (dump_server s))) servers) name \<in> {None} \<union> range (\<lambda>s. Some (PDict (dump_server s)))"
    by (induction servers) auto
  then show ?thesis
    by (auto simp: expected_hash_def dget_def dump_server_unpinned split: option.splits)
qed

end
