(* ===== verification/Planner_Memory.thy ===== *)
theory Planner_Memory
  imports Router_Node Answer_Nodes
begin

text \<open>
  \<open>nodes/_planner_memory.py\<close>: the ranking of recalled run knowledge and cached procedures by their overlap with
  the request, the prompts made from them, and what they add to a plan. The use of a cached procedure is
  returned to the caller; writing it to the store is the caller's business.
\<close>

section \<open>Ranking\<close>

definition word_tokens :: "string \<Rightarrow> string list" where
  "word_tokens s = word_runs [] (lower s)"

text \<open>The number of distinct words of the request that occur in a text.\<close>

definition overlap :: "string list \<Rightarrow> string \<Rightarrow> int" where
  "overlap tokens text = int (length (filter (\<lambda>t. t \<in> set (word_tokens text)) (remdups tokens)))"

text \<open>\<open>sort(key=..., reverse=True)\<close>: descending, and stable.\<close>

definition sort_desc :: "('a \<Rightarrow> 'b::linorder) \<Rightarrow> 'a list \<Rightarrow> 'a list" where
  "sort_desc key xs = rev (sort_key key (rev xs))"

definition memory_score :: "string list \<Rightarrow> pydict \<Rightarrow> int" where
  "memory_score tokens m =
     (let summary = strip (gets m ''summary'' []); kind = strip (gets m ''kind'' []); source = strip (gets m ''source'' [])
      in overlap tokens (kind @ '' '' @ source @ '' '' @ summary) * 10
         + (if kind = ''approval_history'' then 3 else 0) + (if kind = ''loop_summary'' then 2 else 0)
         + (if strip (gets m ''created_at'' []) \<noteq> [] then 1 else 0))"

definition memory_key :: "string list \<Rightarrow> nat \<times> pydict \<Rightarrow> int \<times> string \<times> int" where
  "memory_key tokens im = (memory_score tokens (snd im), strip (gets (snd im) ''created_at'' []), - int (fst im))"

definition rank_semantic_memories :: "string \<Rightarrow> pydict \<Rightarrow> nat \<Rightarrow> pydict list" where
  "rank_semantic_memories request repo_context limit =
     (let memories = dicts_of (as_list (dget repo_context ''semantic_memories'' (PList [])));
          numbered = filter (\<lambda>(i, m). strip (gets m ''summary'' []) \<noteq> []) (List.enumerate 0 memories)
      in map snd (take limit (sort_desc (memory_key (word_tokens request)) numbered)))"

definition procedure_tools :: "pydict \<Rightarrow> string list" where
  "procedure_tools p =
     dedup_first (filter (\<lambda>n. n \<noteq> [])
       (map (\<lambda>c. strip (gets c ''tool'' []))
         (concat (map (\<lambda>step. dicts_of (as_list (dget step ''tools'' (PList []))))
           (dicts_of (as_list (dget p ''steps'' (PList []))))))))"

definition use_count :: "pydict \<Rightarrow> int" where
  "use_count p = int_or (dget p ''use_count'' (PInt 0)) 0"

definition procedure_score :: "string list \<Rightarrow> pydict \<Rightarrow> int" where
  "procedure_score tokens p =
     overlap tokens (join '' '' ([strip (gets p ''canonical_name'' []), strip (gets p ''task_class'' [])] @ procedure_tools p)) * 10
       + min (use_count p) 5"

definition procedure_key :: "string list \<Rightarrow> nat \<times> pydict \<Rightarrow> int \<times> int \<times> string \<times> int" where
  "procedure_key tokens ip = (procedure_score tokens (snd ip), use_count (snd ip), strip (gets (snd ip) ''created_at'' []), - int (fst ip))"

definition rank_cached_procedures :: "string \<Rightarrow> pydict \<Rightarrow> nat \<Rightarrow> pydict list" where
  "rank_cached_procedures request repo_context limit =
     map snd (take limit (sort_desc (procedure_key (word_tokens request))
       (List.enumerate 0 (dicts_of (as_list (dget repo_context ''cached_procedures'' (PList [])))))))"

section \<open>Prompts\<close>

definition stripped_entry :: "pydict \<Rightarrow> string \<Rightarrow> string \<times> pyval" where
  "stripped_entry d k = (k, PStr (strip (gets d k [])))"

definition planner_semantic_memory_prompt :: "pydict \<Rightarrow> string \<Rightarrow> string" where
  "planner_semantic_memory_prompt repo_context request =
     (let ranked = rank_semantic_memories request repo_context 4
      in if ranked = [] then []
         else ''semantic_memory_recall: '' @ json_dumps True '', '' '': ''
           (dict_list (map (\<lambda>m. map (stripped_entry m) [''kind'', ''source'', ''summary'', ''created_at'']) ranked)))"

definition procedure_line :: "pydict \<Rightarrow> pydict result" where
  "procedure_line p =
     bind_r (py_int (or_val (dget p ''use_count'' (PInt 0)) (PInt 0))) (\<lambda>n.
       Inr (map (stripped_entry p) [''procedure_id'', ''canonical_name'', ''task_class'']
            @ [(''use_count'', PInt n), (''step_count'', PInt (int (length (as_list (dget p ''steps'' (PList []))))))]))"

definition planner_procedural_memory_prompt :: "pydict \<Rightarrow> string \<Rightarrow> string result" where
  "planner_procedural_memory_prompt repo_context request =
     (let ranked = rank_cached_procedures request repo_context 3
      in if ranked = [] then Inr []
         else bind_r (map_r procedure_line ranked) (\<lambda>ls.
           Inr (''procedural_memory_recall: '' @ json_dumps True '', '' '': '' (dict_list ls))))"

section \<open>File names in a text\<close>

text \<open>
  The matches of \<open>(?:[A-Za-z0-9_.-]+/)+[A-Za-z0-9_.-]+\.[A-Za-z0-9_.-]+\<close>: from a position, the segments that follow
  each other with single slashes; the match ends with the last segment, after the first, that has a dot
  with characters on both sides.
\<close>

definition hint_char :: "char \<Rightarrow> bool" where
  "hint_char c \<longleftrightarrow> 48 \<le> code c \<and> code c \<le> 57 \<or> 65 \<le> code c \<and> code c \<le> 90 \<or> 97 \<le> code c \<and> code c \<le> 122 \<or>
     c = CHR ''_'' \<or> c = CHR ''.'' \<or> c = CHR ''-''"

definition inner_dot :: "string \<Rightarrow> bool" where
  "inner_dot w \<longleftrightarrow> CHR ''.'' \<in> set (butlast (tl w))"

fun path_segments :: "nat \<Rightarrow> string \<Rightarrow> string list" where
  "path_segments 0 s = []"
| "path_segments (Suc n) s =
     (let w = takeWhile hint_char s; r = dropWhile hint_char s
      in if w = [] then []
         else case r of c # r' \<Rightarrow> if c = CHR ''/'' then w # path_segments n r' else [w] | [] \<Rightarrow> [w])"

definition file_hint_at :: "string \<Rightarrow> string option" where
  "file_hint_at s =
     (case path_segments (length s) s of
        [] \<Rightarrow> None
      | w # ws \<Rightarrow>
          (case rev (dropWhile (\<lambda>v. \<not> inner_dot v) (rev ws)) of
             [] \<Rightarrow> None
           | vs \<Rightarrow> Some (join ''/'' (w # vs))))"

function file_hints :: "string \<Rightarrow> string list" where
  "file_hints [] = []"
| "file_hints (c # s) =
     (case file_hint_at (c # s) of
        None \<Rightarrow> file_hints s
      | Some h \<Rightarrow> h # file_hints (drop (max 1 (length h)) (c # s)))"
  by pat_completeness auto
termination by (relation "measure length") auto

section \<open>What memory adds to a plan\<close>

record memory_constraints =
  mm_files :: "string list"
  mm_criteria :: "string list"
  mm_constraints :: "string list"
  mm_evidence :: "pydict list"

definition memory_criterion :: "string \<Rightarrow> string" where
  "memory_criterion kind =
     (if kind \<in> {''approval_history'', ''approval_summary''}
      then ''Approval-sensitive changes preserve checkpoint-backed resume and auditability.''
      else if kind = ''loop_summary''
      then ''Cross-run lessons recalled from semantic memory are incorporated into the bounded plan.''
      else ''Relevant recalled run knowledge is reflected in the plan.'')"

definition memory_constraint :: "string \<Rightarrow> string list" where
  "memory_constraint kind =
     (if kind \<in> {''approval_history'', ''approval_summary''}
      then [''Preserve approval and checkpoint compatibility for approval-sensitive mutations.'']
      else if kind = ''loop_summary''
      then [''Do not repeat a previously failed repair pattern without a concrete change in approach.'']
      else [])"

definition memory_evidence :: "pydict \<Rightarrow> pydict" where
  "memory_evidence m =
     (let kind = strip (gets m ''kind'' []); source = strip (gets m ''source'' [])
      in evidence_entry ''semantic_memory'' (if source \<noteq> [] then kind @ '':'' @ source else kind) (strip (gets m ''summary'' [])))"

definition semantic_memory_constraints :: "pydict \<Rightarrow> string \<Rightarrow> memory_constraints" where
  "semantic_memory_constraints repo_context request =
     (let ranked = rank_semantic_memories request repo_context 4; kinds = map (\<lambda>m. strip (gets m ''kind'' [])) ranked
      in \<lparr> mm_files = take 6 (dedupe (concat (map (\<lambda>m. file_hints (strip (gets m ''summary'' []))) ranked))),
           mm_criteria = dedupe (map memory_criterion kinds),
           mm_constraints = dedupe (concat (map memory_constraint kinds)),
           mm_evidence = take 4 (map memory_evidence ranked) \<rparr>)"

definition no_constraints :: "memory_constraints \<Rightarrow> bool" where
  "no_constraints c \<longleftrightarrow> mm_files c = [] \<and> mm_criteria c = [] \<and> mm_constraints c = [] \<and> mm_evidence c = []"

definition strs :: "pyval \<Rightarrow> string list" where
  "strs v = concat (map (\<lambda>e. case e of PStr s \<Rightarrow> [s] | _ \<Rightarrow> []) (as_list v))"

definition coder_handoff_of :: "pydict \<Rightarrow> pydict option" where
  "coder_handoff_of step = (case dget step ''handoff'' PNone of
     PDict h \<Rightarrow> if strip (gets h ''consumer'' []) = ''coder'' then Some h else None | _ \<Rightarrow> None)"

definition constrain_step :: "memory_constraints \<Rightarrow> pyval \<Rightarrow> pyval" where
  "constrain_step c v = (case v of
     PDict step \<Rightarrow>
       (let files = dedupe (strs (dget step ''files_touched'' (PList [])) @ mm_files c);
            step1 = dset step ''files_touched'' (str_list files)
        in PDict (case coder_handoff_of step1 of
             None \<Rightarrow> step1
           | Some h \<Rightarrow>
               let h1 = dset h ''file_scope'' (str_list (dedupe (strs (dget h ''file_scope'' (PList [])) @ files)));
                   h2 = dset h1 ''constraints'' (str_list (dedupe (strs (dget h1 ''constraints'' (PList [])) @ mm_constraints c)));
                   h3 = dset h2 ''evidence'' (dict_list (dicts_of (as_list (dget h2 ''evidence'' (PList []))) @ mm_evidence c))
               in dset step1 ''handoff'' (PDict h3)))
   | _ \<Rightarrow> v)"

definition map_steps :: "(pyval \<Rightarrow> pyval) \<Rightarrow> pydict \<Rightarrow> pydict" where
  "map_steps f plan = (case dget plan ''steps'' (PList []) of
     PList steps \<Rightarrow> dset plan ''steps'' (PList (map f steps)) | _ \<Rightarrow> plan)"

definition apply_semantic_memory_constraints :: "pydict \<Rightarrow> pydict \<Rightarrow> string \<Rightarrow> pydict" where
  "apply_semantic_memory_constraints plan repo_context request =
     (let c = semantic_memory_constraints repo_context request
      in if no_constraints c then plan
         else map_steps (constrain_step c)
           (dset plan ''acceptance_criteria'' (str_list (dedupe (strs (dget plan ''acceptance_criteria'' (PList [])) @ mm_criteria c)))))"

definition prefer_procedure :: "string \<Rightarrow> string option \<Rightarrow> pyval \<Rightarrow> pyval" where
  "prefer_procedure name pid v = (case v of
     PDict step \<Rightarrow>
       PDict (case coder_handoff_of step of
           None \<Rightarrow> step
         | Some h \<Rightarrow>
             let h1 = dset h ''constraints'' (str_list (dedupe (strs (dget h ''constraints'' (PList [])) @
                   [''Prefer the validated cached procedure '' @ [quote1] @ name @ [quote1] @ '' when it remains compatible with current evidence.''])));
                 h2 = dset h1 ''evidence'' (dict_list (dicts_of (as_list (dget h1 ''evidence'' (PList []))) @
                   [evidence_entry ''procedure_cache'' (case pid of Some p \<Rightarrow> p | None \<Rightarrow> name)
                      (''Validated procedure '' @ [quote1] @ name @ [quote1] @ '' is available for reuse.'')]))
             in dset step ''handoff'' (PDict h2))
   | _ \<Rightarrow> v)"

definition apply_procedural_memory_constraints :: "pydict \<Rightarrow> pydict \<Rightarrow> string \<Rightarrow> pydict \<times> string option" where
  "apply_procedural_memory_constraints plan repo_context request =
     (case rank_cached_procedures request repo_context 1 of
        [] \<Rightarrow> (plan, None)
      | p # _ \<Rightarrow>
          let pid = (let i = strip (gets p ''procedure_id'' []) in if i = [] then None else Some i);
              name = or_str (strip (gets p ''canonical_name'' [])) ''cached_procedure'';
              verification = dicts_of (as_list (dget p ''verification'' (PList [])));
              plan1 = (if verification \<noteq> [] \<and> \<not> py_bool (dget plan ''verification'' PNone)
                       then dset plan ''verification'' (dict_list verification) else plan);
              criteria = dedupe (strs (dget plan1 ''acceptance_criteria'' (PList [])) @
                [''Validated procedure memory '' @ [quote1] @ name @ [quote1] @ '' is reused when compatible with current evidence.''])
          in (map_steps (prefer_procedure name pid) (dset plan1 ''acceptance_criteria'' (str_list criteria)), pid))"

definition record_selected_procedure_use :: "pydict \<Rightarrow> string option \<Rightarrow> (string \<times> string) option" where
  "record_selected_procedure_use state pid = (case pid of
     None \<Rightarrow> None
   | Some p \<Rightarrow> let path = strip (gets state ''_procedure_cache_path'' []) in if path = [] then None else Some (path, p))"

section \<open>Properties\<close>

text \<open>The tool calls of the steps of a plan.\<close>

definition step_tools :: "pydict \<Rightarrow> pyval option list" where
  "step_tools plan = map (\<lambda>v. case v of PDict s \<Rightarrow> map_of s ''tools'' | _ \<Rightarrow> None) (as_list (dget plan ''steps'' (PList [])))"

lemma step_tools_dset: "k \<noteq> ''steps'' \<Longrightarrow> step_tools (dset plan k v) = step_tools plan"
  by (simp add: step_tools_def)

lemma step_tools_map_steps:
  assumes "\<And>v. (case f v of PDict s \<Rightarrow> map_of s ''tools'' | _ \<Rightarrow> None) = (case v of PDict s \<Rightarrow> map_of s ''tools'' | _ \<Rightarrow> None)"
  shows "step_tools (map_steps f plan) = step_tools plan"
  using assms by (simp add: step_tools_def map_steps_def split: pyval.splits)

lemma constrain_step_tools:
  "(case constrain_step c v of PDict s \<Rightarrow> map_of s ''tools'' | _ \<Rightarrow> None) = (case v of PDict s \<Rightarrow> map_of s ''tools'' | _ \<Rightarrow> None)"
  by (cases v) (auto simp: constrain_step_def Let_def split: option.splits)

lemma prefer_procedure_tools:
  "(case prefer_procedure n p v of PDict s \<Rightarrow> map_of s ''tools'' | _ \<Rightarrow> None) = (case v of PDict s \<Rightarrow> map_of s ''tools'' | _ \<Rightarrow> None)"
  by (cases v) (auto simp: prefer_procedure_def Let_def split: option.splits)

lemma map_steps_other: "k \<noteq> ''steps'' \<Longrightarrow> map_of (map_steps f plan) k = map_of plan k"
  by (simp add: map_steps_def split: pyval.splits)

lemma apply_semantic_other:
  "k \<noteq> ''steps'' \<Longrightarrow> k \<noteq> ''acceptance_criteria'' \<Longrightarrow>
     map_of (apply_semantic_memory_constraints plan repo_context request) k = map_of plan k"
  by (simp add: apply_semantic_memory_constraints_def Let_def map_steps_other)

lemma apply_procedural_other:
  "k \<noteq> ''steps'' \<Longrightarrow> k \<noteq> ''acceptance_criteria'' \<Longrightarrow> k \<noteq> ''verification'' \<Longrightarrow>
     map_of (fst (apply_procedural_memory_constraints plan repo_context request)) k = map_of plan k"
  by (simp add: apply_procedural_memory_constraints_def Let_def map_steps_other split: list.splits)

lemma step_tools_semantic:
  "step_tools (apply_semantic_memory_constraints plan repo_context request) = step_tools plan"
  by (simp add: apply_semantic_memory_constraints_def Let_def step_tools_map_steps constrain_step_tools step_tools_dset)

lemma step_tools_procedural:
  "step_tools (fst (apply_procedural_memory_constraints plan repo_context request)) = step_tools plan"
  by (simp add: apply_procedural_memory_constraints_def Let_def step_tools_map_steps prefer_procedure_tools step_tools_dset split: list.splits)

text \<open>
  Recalled memory adds no actions: whatever texts the memory holds, the tool calls of the steps of
  the plan are the ones the plan had, and recalled run knowledge leaves the verification calls alone too.
\<close>

theorem memory_adds_no_tools:
  "step_tools (apply_semantic_memory_constraints plan repo_context request) = step_tools plan \<and>
   map_of (apply_semantic_memory_constraints plan repo_context request) ''verification'' = map_of plan ''verification'' \<and>
   step_tools (fst (apply_procedural_memory_constraints plan repo_context request)) = step_tools plan"
  by (simp add: step_tools_semantic step_tools_procedural apply_semantic_other)

text \<open>
  The ranking selects the best: at most \<open>limit\<close> memories are chosen, in descending order of their keys, all
  of them from the recalled ones with a summary, and none that was left out has a higher key.
\<close>

lemma take_sort_desc_best:
  assumes "x \<in> set (take n (sort_desc f xs))" "y \<in> set xs" "y \<notin> set (take n (sort_desc f xs))"
  shows "f y \<le> f x"
proof -
  let ?s = "sort_desc f xs"
  have "sorted (map f (sort_key f (rev xs)))" by simp
  then have "sorted_wrt (\<lambda>a b. f a \<le> f b) (sort_key f (rev xs))" unfolding sorted_wrt_map .
  then have "sorted_wrt (\<lambda>a b. f b \<le> f a) ?s" unfolding sort_desc_def sorted_wrt_rev .
  then have s: "sorted_wrt (\<lambda>a b. f b \<le> f a) (take n ?s @ drop n ?s)" by simp
  have "y \<in> set ?s" using assms(2) by (simp add: sort_desc_def)
  then have "y \<in> set (drop n ?s)" using assms(3) by (metis Un_iff append_take_drop_id set_append)
  then show ?thesis using s assms(1) unfolding sorted_wrt_append by blast
qed

end
