(* ===== verification/Planner_Node.thy ===== *)
theory Planner_Node
  imports Planner_Memory Py_Json Py_Regex App_Config
begin

text \<open>
  \<open>nodes/planner.py\<close>, \<open>nodes/_planner_prompt.py\<close> and \<open>nodes/_utils.py\<close>: the plan of a run. A remote model may
  propose it (its answer is cut out of the text, decoded and validated); otherwise, and after every
  exception on that path, the plan is the deterministic one, which only reads. Recalled memory then adds
  hints, and the number of iterations is capped by the configured budget.
  The language model, the schema check, pydantic's validation of a plan, the files with the prompt and the
  schema, and the policy object in the state are parameters; the pool of failure reflections is passed
  through.
\<close>

section \<open>JSON blocks in the answer of a model\<close>

text \<open>
  The regular expression of a fenced block: three backquotes, optionally the word json, spaces, and
  an object or a list up to the first closing bracket that only spaces separate from three backquotes.
\<close>

fun until_fence :: "char \<Rightarrow> string \<Rightarrow> string \<Rightarrow> string option" where
  "until_fence close acc [] = None"
| "until_fence close acc (c # cs) =
     (if c = close \<and> prefix ''```'' (lstrip cs) then Some (rev (c # acc)) else until_fence close (c # acc) cs)"

definition fence_at :: "string \<Rightarrow> string option" where
  "fence_at s =
     (if prefix ''```'' s
      then let r = drop 3 s;
               body = lstrip (if lower (take 4 r) = ''json'' then drop 4 r else r)
           in (case body of
                 [] \<Rightarrow> None
               | c # cs \<Rightarrow> if c = CHR ''{'' then until_fence (CHR ''}'') [c] cs
                           else if c = CHR ''['' then until_fence (CHR '']'') [c] cs
                           else None)
      else None)"

fun find_fence :: "string \<Rightarrow> string option" where
  "find_fence [] = None"
| "find_fence (c # cs) = (case fence_at (c # cs) of Some b \<Rightarrow> Some b | None \<Rightarrow> find_fence cs)"

text \<open>The text from the first opening to the last closing bracket.\<close>

definition bracketed :: "char \<Rightarrow> char \<Rightarrow> string \<Rightarrow> string option" where
  "bracketed op cl s =
     (let start = length (takeWhile (\<lambda>c. c \<noteq> op) s); stop = length s - length (takeWhile (\<lambda>c. c \<noteq> cl) (rev s))
      in if op \<in> set s \<and> cl \<in> set s \<and> start < stop then Some (strip (drop start (take stop s))) else None)"

definition extract_json_block :: "string \<Rightarrow> string option" where
  "extract_json_block text = (case find_fence text of
     Some b \<Rightarrow> Some (strip b)
   | None \<Rightarrow> (case bracketed (CHR ''{'') (CHR ''}'') text of Some b \<Rightarrow> Some b | None \<Rightarrow> bracketed (CHR ''['') (CHR '']'') text))"

definition planner_json_block :: "string \<Rightarrow> string" where
  "planner_json_block raw = (case extract_json_block raw of Some b \<Rightarrow> b | None \<Rightarrow> strip raw)"

section \<open>The model that is asked\<close>

definition validate_base_url_fn :: "string \<Rightarrow> string \<Rightarrow> unit result" where
  "validate_base_url_fn url label =
     (if prefix ''http://'' url \<or> prefix ''https://'' url then Inr ()
      else Inl (ValueError (label @ '' must start with http:// or https://; got '' @ repr_str url)))"

definition pos_timeout :: "pyval \<Rightarrow> int" where
  "pos_timeout v = (if 0 < int_or v 60 then int_or v 60 else 60)"

definition client_settings :: "pydict \<Rightarrow> string \<Rightarrow> string \<Rightarrow> (string \<times> string \<times> int) result" where
  "client_settings cfg label default_url =
     (let api_key = strip (gets cfg ''api_key'' []);
          base_url = rstrip_slash (strip (gets cfg ''base_url'' default_url))
      in if api_key = [] then Inl (ValueError (label @ ''.api_key is not set''))
         else if base_url = [] then Inl (ValueError (label @ ''.base_url is empty''))
         else bind_r (validate_base_url_fn base_url (label @ ''.base_url'')) (\<lambda>_.
           Inr (base_url, api_key, pos_timeout (dget cfg ''timeout_s'' (PInt 60)))))"

text \<open>The base address, the key and the timeout of the client, and the name of the model.\<close>

definition resolve_inference_client :: "pydict \<Rightarrow> string \<Rightarrow> ((string \<times> string \<times> int) \<times> string) result" where
  "resolve_inference_client state slot_name =
     (let slot = as_dict (dget (as_dict (dget state ''_models'' (PDict []))) slot_name (PDict []));
          provider = lower (strip (gets slot ''provider'' ''local''));
          model = strip (gets slot ''model'' ''deterministic'');
          runtime = as_dict (dget state ''_model_provider_runtime'' (PDict []))
      in if provider \<in> set [[], ''local'']
         then Inl (ValueError (''provider for slot '' @ [quote1] @ slot_name @ [quote1] @ '' is '' @ [quote1] @ ''local'' @ [quote1]))
         else if model = [] then Inl (ValueError (''model name for slot '' @ [quote1] @ slot_name @ [quote1] @ '' is empty''))
         else bind_r (if provider = ''openai_compatible''
                then client_settings (as_dict (dget runtime ''openai_compatible'' (PDict []))) ''openai_compatible'' ''https://api.openai.com/v1''
                else client_settings (as_dict (dget runtime ''digitalocean'' (PDict []))) ''digitalocean'' ''https://inference.do-ai.run/v1'')
              (\<lambda>c. Inr (c, model)))"

section \<open>Intent and paths in the request\<close>

definition what_is_re :: regex where
  "what_is_re = r_seq [RBoundary, r_string ''what'', r_plus (RClass Space), r_string ''is'', RBoundary]"

definition planner_classify_intent :: "string \<Rightarrow> string" where
  "planner_classify_intent request =
     (let r = lower request; words = word_runs [] r in
      if ''fix'' \<in> set words \<or> sublist ''fix'' r then ''code_change''
      else if intersects words [''implement'', ''add'', ''change'', ''refactor''] then ''code_change''
      else if ''why'' \<in> set words \<or> ''how'' \<in> set words \<or> ''explain'' \<in> set words \<or> re_search what_is_re r then ''question''
      else if intersects words [''research'', ''latest'', ''compare'', ''survey''] then ''research''
      else if intersects words [''debug'', ''error'', ''panic'', ''exception''] \<or> sublist ''stack trace'' r then ''debug''
      else ''analysis'')"

text \<open>
  The expression for a path takes an optional quote, as few characters as possible that are neither quotes nor line
  ends, the suffix and the same quote again; the search starts at the leftmost position.
\<close>

fun pdf_run :: "string \<Rightarrow> string \<Rightarrow> string \<Rightarrow> string option" where
  "pdf_run close acc [] = None"
| "pdf_run close acc (c # cs) =
     (if lower (take 4 (c # cs)) = ''.pdf'' \<and> prefix close (drop 3 cs) then Some (rev acc @ take 4 (c # cs))
      else if c \<in> set [quote1, quote2, CHR 0x0A, CHR 0x0D] then None
      else pdf_run close (c # acc) cs)"

fun pdf_search :: "string \<Rightarrow> string option" where
  "pdf_search [] = None"
| "pdf_search (c # cs) =
     (case (if c \<in> set [quote1, quote2] then pdf_run [c] [] cs else pdf_run [] [] (c # cs)) of
        Some p \<Rightarrow> Some p | None \<Rightarrow> pdf_search cs)"

definition extract_pdf_path :: "string \<Rightarrow> string option" where
  "extract_pdf_path request = (case pdf_search request of
     None \<Rightarrow> None | Some p \<Rightarrow> if strip p = [] then None else Some (strip p))"

section \<open>Parts of the prompt\<close>

abbreviation dumps_sorted :: "pyval \<Rightarrow> string" where
  "dumps_sorted v \<equiv> json_dumps True '', '' '': '' v"

abbreviation dumps_plain :: "pyval \<Rightarrow> string" where
  "dumps_plain v \<equiv> json_dumps False '', '' '': '' v"

definition planner_mcp_prompt :: "pydict \<Rightarrow> string" where
  "planner_mcp_prompt repo_context =
     (let catalog = strip (gets repo_context ''mcp_catalog'' []);
          hints = strip (gets repo_context ''mcp_recovery_hints'' [])
      in join [CHR 0x0A]
          ((if catalog \<noteq> [] then [''mcp_catalog: '' @ catalog] else []) @
           (case dget repo_context ''mcp_capabilities'' (PDict []) of
              PDict d \<Rightarrow> if d \<noteq> [] then [''mcp_capabilities: '' @ dumps_sorted (PDict d)] else [] | _ \<Rightarrow> []) @
           (if hints \<noteq> [] then [''mcp_recovery_hints: '' @ hints] else []) @
           (case dget repo_context ''mcp_relevant_tools'' (PList []) of
              PList xs \<Rightarrow> if xs \<noteq> [] then [''mcp_relevant_tools: '' @ dumps_sorted (PList xs)] else [] | _ \<Rightarrow> [])))"

definition schema_line :: "pydict \<Rightarrow> string list" where
  "schema_line tool = (case or_val (dget tool ''inputSchema'' PNone) (dget tool ''input_schema'' PNone) of
     PDict schema \<Rightarrow> (case dget schema ''properties'' (PDict []) of
        PDict props \<Rightarrow>
          if props \<noteq> []
          then [''  Input schema: '' @ py_str (PDict (concat (map (\<lambda>kv. case snd kv of
                  PDict d \<Rightarrow> [(fst kv, PStr (gets d ''type'' ''any''))] | _ \<Rightarrow> []) props)))]
          else []
      | _ \<Rightarrow> [])
   | _ \<Rightarrow> [])"

definition tool_lines :: "pydict \<Rightarrow> string list" where
  "tool_lines tool =
     (let name = strip (gets tool ''name'' []); description = strip (gets tool ''description'' [])
      in if name = [] then []
         else (if description \<noteq> [] then ''- `'' @ name @ ''`: '' @ description else ''- `'' @ name @ ''`'') # schema_line tool)"

definition format_mcp_tool_catalog :: "pydict list \<Rightarrow> string" where
  "format_mcp_tool_catalog mcp_tools =
     (let lines = concat (map tool_lines mcp_tools)
      in if lines = [] then [] else ''## Available MCP Tools'' @ [CHR 0x0A] @ join [CHR 0x0A] lines)"

section \<open>Plans\<close>

record ToolCall =
  tc_tool :: string
  tc_input :: pydict

definition dump_tool_call :: "ToolCall \<Rightarrow> pydict" where
  "dump_tool_call t = [(''tool'', PStr (tc_tool t)), (''input'', PDict (tc_input t))]"

record PlanStep =
  ps_id :: string
  ps_description :: string
  ps_tools :: "ToolCall list"
  ps_expected_outcome :: string
  ps_files_touched :: "string list"
  ps_handoff :: "AgentHandoff option"

definition dump_step :: "PlanStep \<Rightarrow> pydict" where
  "dump_step p =
     [(''id'', PStr (ps_id p)), (''description'', PStr (ps_description p)),
      (''tools'', dict_list (map dump_tool_call (ps_tools p))),
      (''expected_outcome'', PStr (ps_expected_outcome p)), (''files_touched'', str_list (ps_files_touched p)),
      (''handoff'', opt_val (\<lambda>h. PDict (dump_handoff h)) (ps_handoff p))]"

record PlannerOutput =
  po_steps :: "PlanStep list"
  po_verification :: "ToolCall list"
  po_rollback :: string
  po_acceptance_criteria :: "string list"
  po_max_iterations :: int
  po_recovery :: "RecoveryAction option"
  po_recovery_packet :: "RecoveryPacket option"

definition dump_plan :: "PlannerOutput \<Rightarrow> pydict" where
  "dump_plan p =
     [(''steps'', dict_list (map dump_step (po_steps p))),
      (''verification'', dict_list (map dump_tool_call (po_verification p))),
      (''rollback'', PStr (po_rollback p)), (''acceptance_criteria'', str_list (po_acceptance_criteria p)),
      (''max_iterations'', PInt (po_max_iterations p)),
      (''recovery'', opt_val (\<lambda>r. PDict (dump_recovery_action r)) (po_recovery p)),
      (''recovery_packet'', opt_val (\<lambda>r. PDict (dump_recovery_packet r)) (po_recovery_packet p))]"

definition default_step_handoff :: "string \<Rightarrow> string \<Rightarrow> string \<Rightarrow> AgentHandoff option" where
  "default_step_handoff request step_id expected_outcome =
     (let intent = planner_classify_intent request;
          debug = (intent = ''debug'')
      in if intent \<notin> set [''code_change'', ''refactor'', ''debug''] then None
         else Some \<lparr> ah_producer = ''planner'', ah_consumer = ''coder'',
           ah_objective =
             (if debug then ''Prepare a minimal repair grounded in the gathered repository context and failing evidence.''
              else ''Prepare a minimal patch proposal grounded in the gathered repository context.''),
           ah_file_scope = [],
           ah_evidence =
             [\<lparr> ev_kind = ''request'', ev_detail = strip request, ev_ref = ''user_request'' \<rparr>,
              \<lparr> ev_kind = ''expected_outcome'', ev_detail = expected_outcome, ev_ref = step_id \<rparr>],
           ah_constraints =
             [''Prefer the smallest correct diff.'',
              ''Stay within the declared file scope or hand back a narrower follow-up request.'',
              ''Keep the change compatible with the planned verification steps.''] @
             (if debug then [''Preserve the failing reproduction until the fix is ready for verification.''] else []),
           ah_acceptance_checks =
             [''The proposed patch is grounded in gathered repository context.'',
              ''The change remains minimal and reviewable.''],
           ah_retry_budget = 1,
           ah_provenance = [''plan:'' @ step_id] \<rparr>)"

definition first_step_handoff :: "pydict \<Rightarrow> pyval" where
  "first_step_handoff plan =
     (case filter is_dict (map (\<lambda>step. dget step ''handoff'' PNone) (dicts_of (as_list (dget plan ''steps'' (PList []))))) of
        [] \<Rightarrow> PNone | h # _ \<Rightarrow> h)"

text \<open>The verification report of a failed loop, if there is one.\<close>

definition failed_verification :: "pyval \<Rightarrow> pydict option result" where
  "failed_verification v =
     (if \<not> py_bool v then Inr None
      else bind_r (dict_method v ''get'') (\<lambda>d. Inr (if py_bool (dget d ''ok'' (PBool True)) then None else Some d)))"

definition recovery_step :: "pydict \<Rightarrow> PlanStep" where
  "recovery_step verification =
     (let failure_class = or_str (strip (gets verification ''failure_class'' ''unknown'')) ''unknown'';
          recovery = as_dict (dget verification ''recovery'' (PDict []));
          action = or_str (strip (gets recovery ''action'' ''retry'')) ''retry''
      in \<lparr> ps_id = ''step-0-recovery'',
           ps_description = ''Recovery from verification failure ('' @ failure_class @ ''): '' @ action @ '' with updated context.'',
           ps_tools = [],
           ps_expected_outcome = ''Recovery action '' @ [quote1] @ action @ [quote1] @ '' applied for '' @ failure_class @ ''.'',
           ps_files_touched = [], ps_handoff = None \<rparr>)"

definition collect_step :: "string \<Rightarrow> PlanStep" where
  "collect_step request =
     (let listing = \<lparr> tc_tool = ''list_files'', tc_input = [(''path'', PStr ''.''), (''recursive'', PBool False)] \<rparr>;
          (second, outcome) = (case extract_pdf_path request of
            Some p \<Rightarrow> (\<lparr> tc_tool = ''read_file'', tc_input = [(''path'', PStr p)] \<rparr>,
                       ''Top-level repository structure and PDF requirements extracted.'')
          | None \<Rightarrow> (\<lparr> tc_tool = ''search_files'',
                        tc_input = [(''path'', PStr ''.''), (''regex'', PStr ''TODO''), (''file_pattern'', PStr ''*.py'')] \<rparr>,
                     ''Top-level repository structure and TODOs captured.''))
      in \<lparr> ps_id = ''step-1'', ps_description = ''Collect repository context.'', ps_tools = [listing, second],
           ps_expected_outcome = outcome, ps_files_touched = [],
           ps_handoff = default_step_handoff request ''step-1'' outcome \<rparr>)"

definition default_plan :: "string \<Rightarrow> pyval \<Rightarrow> PlannerOutput result" where
  "default_plan request verification =
     bind_r (failed_verification verification) (\<lambda>failed.
       Inr \<lparr> po_steps = (case failed of None \<Rightarrow> [] | Some d \<Rightarrow> [recovery_step d]) @ [collect_step request],
             po_verification = [], po_rollback = ''No changes were made.'',
             po_acceptance_criteria =
               [''Necessary repository context was gathered.'',
                ''The request can be answered or executed with bounded next steps.''] @
               (if failed = None then [] else [''Recovery from prior verification failure has been addressed.'']),
             po_max_iterations = 1, po_recovery = None, po_recovery_packet = None \<rparr>)"

definition recovery_action_from_packet :: "pydict \<Rightarrow> pydict" where
  "recovery_action_from_packet packet =
     [(''failure_class'', PStr (strip (gets packet ''failure_class'' []))),
      (''failure_fingerprint'', PStr (strip (gets packet ''failure_fingerprint'' []))),
      (''rationale'', PStr (strip (gets packet ''rationale'' []))),
      (''retry_target'', PStr (or_str (strip (gets packet ''retry_target'' ''planner'')) ''planner'')),
      (''context_scope'', PStr (or_str (strip (gets packet ''context_scope'' ''working_set'')) ''working_set'')),
      (''plan_action'', PStr (or_str (strip (gets packet ''plan_action'' ''keep'')) ''keep''))]"

section \<open>Prompts\<close>

text \<open>
  \<open>read_file root name\<close> is the text of a file below the resolved root, None if it is no file; an
  \<open>OSError\<close> counts as no file, every other exception propagates.
\<close>

definition text_or_empty :: "string option result \<Rightarrow> string result" where
  "text_or_empty r = (case r of
     Inl e \<Rightarrow> (case e of OSError _ \<Rightarrow> Inr [] | _ \<Rightarrow> Inl e) | Inr None \<Rightarrow> Inr [] | Inr (Some t) \<Rightarrow> Inr t)"

definition planner_system_prompt :: string where
  "planner_system_prompt = ''You are a planner for a repo-aware coding assistant. Return strict JSON only.''"

definition repair_prefix :: string where
  "repair_prefix = concat (map (\<lambda>l. l @ [CHR 0x0A])
     [''REPAIR MODE: The task is to fix one or more failing tests. Focus exclusively on:'',
      ''1. Reading the failing test(s) and the code they test.'',
      ''2. Identifying the root cause (test expectation vs. implementation mismatch).'',
      ''3. Generating a targeted patch to fix the implementation (not the test, unless the test itself is incorrect).'',
      ''4. Verifying the fix by re-running only the affected test(s).'',
      ''Do not refactor unrelated code.'', []])"

definition prompt_line :: "string \<Rightarrow> string" where
  "prompt_line l = (if l = [] then [] else l @ [CHR 0x0A])"

definition build_planner_prompts ::
  "(string \<Rightarrow> string option result) \<Rightarrow> pydict \<Rightarrow> pydict \<Rightarrow> pydict \<Rightarrow> pydict \<Rightarrow> (string \<times> string) result" where
  "build_planner_prompts read_file state repo_context route verification =
     bind_r (text_or_empty (read_file ''prompts/planner.md'')) (\<lambda>prompt_text.
     bind_r (text_or_empty (read_file ''schemas/planner_output.schema.json'')) (\<lambda>schema_text.
     bind_r (or_default_int state ''_budget_max_tool_calls_per_loop'' 0) (\<lambda>calls.
     bind_r (or_default_int state ''_budget_max_patch_bytes'' 0) (\<lambda>patch_bytes.
     bind_r (or_default_int state ''_budget_max_loops'' 1) (\<lambda>loops.
     bind_r (planner_procedural_memory_prompt repo_context (strip (gets state ''request'' []))) (\<lambda>procedures.
       let nl = [CHR 0x0A];
           base = or_str (strip prompt_text) planner_system_prompt;
           system_prompt = (if py_bool (dget state ''test_repair_mode'' (PBool False)) then repair_prefix @ base else base);
           request = strip (gets state ''request'' []);
           top_level = join '', '' (map py_str (take 30 (as_list (dget repo_context ''top_level'' (PList [])))));
           planner_context = as_dict (dget repo_context ''planner_context'' (PDict []));
           budgets = PDict [(''max_tool_calls_per_loop'', PInt calls), (''max_patch_bytes'', PInt patch_bytes), (''max_loops'', PInt loops)];
           mcp_tools = dicts_of (as_list (dget state ''mcp_tools'' (PList [])));
           user_prompt =
             ''Create a bounded execution plan for the request below. The response must be JSON matching planner_output.schema.json. Do not include prose outside JSON.'' @ nl @ nl @
             ''request: '' @ request @ nl @
             ''top_level: '' @ top_level @ nl @
             ''route: '' @ dumps_plain (PDict route) @ nl @
             ''planner_context: '' @ gets planner_context ''content'' [] @ nl @
             ''verification: '' @ dumps_plain (PDict verification) @ nl @
             ''budgets: '' @ dumps_plain budgets @ nl @
             prompt_line (planner_mcp_prompt repo_context) @
             prompt_line (format_mcp_tool_catalog mcp_tools) @
             prompt_line (planner_semantic_memory_prompt repo_context request) @
             prompt_line procedures @
             (if schema_text = [] then [] else nl @ ''schema:'' @ nl @ schema_text)
       in Inr (system_prompt, user_prompt)))))))"

section \<open>The plan of the model\<close>

record plan_request = llm_request +
  pq_temperature :: pyval
  pq_max_tokens :: int

record plan_env =
  pe_diversity :: "string option"
  pe_sla_select :: "(string \<Rightarrow> string) option"
  pe_read_file :: "string \<Rightarrow> string \<Rightarrow> string option result"
  pe_stream :: "plan_request \<Rightarrow> string result"
  pe_chat :: "plan_request \<Rightarrow> (string \<times> response_meta) result"
  pe_json_error :: "string \<Rightarrow> string"
  pe_schema_ok :: "pydict \<Rightarrow> bool"
  pe_validate_plan :: "pydict \<Rightarrow> PlannerOutput result"

text \<open>\<open>max(0.0, min(float(t), 1.0))\<close> for a number, and zero for every other value.\<close>

definition clamp_unit :: "int \<Rightarrow> int \<Rightarrow> pyval" where
  "clamp_unit m e =
     (if m \<le> 0 then PFloat 0 0
      else if (if 0 \<le> e then 1 < m * 10 ^ nat e else 10 ^ nat (- e) < m) then PFloat 1 0
      else PFloat m e)"

definition temperature_of :: "pyval \<Rightarrow> pyval result" where
  "temperature_of v = (case v of
     PInt i \<Rightarrow> if float_overflows i 0 then Inl (OverflowError ''int too large to convert to float'') else Inr (clamp_unit i 0)
   | PBool b \<Rightarrow> Inr (clamp_unit (of_bool b) 0)
   | PFloat m e \<Rightarrow> Inr (clamp_unit m e)
   | _ \<Rightarrow> Inr (PFloat 0 0))"

text \<open>
  The policy is created for this call, so a round-robin policy selects the first of its models. The
  entries of \<open>diversity_models\<close> are model names, read as texts.
\<close>

definition policy_model :: "string option \<Rightarrow> (string \<Rightarrow> string) option \<Rightarrow> pydict \<Rightarrow> string \<Rightarrow> string result" where
  "policy_model diversity sla state model =
     (let cfg = as_dict (dget state ''_model_routing_policy'' (PDict []));
          models = map py_str (as_list (dget cfg ''diversity_models'' (PList [])))
      in bind_r (get_routing_policy diversity (None :: nat SlaEntry list option) (if models = [] then None else Some models)) (\<lambda>policy.
           Inr (case policy of
               Some (Diversity d) \<Rightarrow> or_str (fst (diversity_select_model d)) model
             | Some (Sla p) \<Rightarrow> or_str (sla_select_model p model) model
             | None \<Rightarrow> (case sla of None \<Rightarrow> model | Some f \<Rightarrow> or_str (f model) model))))"

definition ask_planner_model :: "plan_env \<Rightarrow> string \<Rightarrow> plan_request \<Rightarrow> (string \<times> response_meta option) result" where
  "ask_planner_model env lane req =
     (let chat = bind_r (pe_chat env req) (\<lambda>(t, meta). Inr (t, Some meta))
      in if lane = ''interactive'' then (case pe_stream env req of Inr t \<Rightarrow> Inr (t, None) | Inl _ \<Rightarrow> chat) else chat)"

text \<open>What the text of the answer gives: no plan for null and for an object that violates the schema.\<close>

definition decode_plan :: "plan_env \<Rightarrow> string \<Rightarrow> PlannerOutput option result" where
  "decode_plan env raw = (case json_loads (planner_json_block raw) of
     None \<Rightarrow> Inl (OtherError ''JSONDecodeError'' (pe_json_error env (planner_json_block raw)))
   | Some PNone \<Rightarrow> Inr None
   | Some (PDict d) \<Rightarrow> if pe_schema_ok env d then bind_r (pe_validate_plan env d) (\<lambda>p. Inr (Some p)) else Inr None
   | Some _ \<Rightarrow> Inl (ValueError ''planner completion did not return an object''))"

definition planner_model_output ::
  "plan_env \<Rightarrow> SharedReflectionPool \<Rightarrow> pydict \<Rightarrow> pydict \<Rightarrow> (PlannerOutput option \<times> response_meta option) result" where
  "planner_model_output env pool state route_decision =
     (if strip (gets route_decision ''provider_used'' ''local'') = ''local'' then Inr (None, None)
      else let slot = as_dict (dget (as_dict (dget state ''_models'' (PDict []))) ''planner'' (PDict []))
      in bind_r (temperature_of (dget slot ''temperature'' (PFloat 0 0))) (\<lambda>temperature.
        case resolve_inference_client state ''planner'' of
          Inl _ \<Rightarrow> Inr (None, None)
        | Inr ((base_url, api_key, timeout_s), model0) \<Rightarrow>
            bind_r (policy_model (pe_diversity env) (pe_sla_select env) state model0) (\<lambda>model.
            bind_r (build_planner_prompts (pe_read_file env (gets state ''_repo_root'' ''.'')) state
                (as_dict (dget state ''repo_context'' (PDict []))) (as_dict (dget state ''route'' (PDict [])))
                (as_dict (dget state ''verification'' (PDict [])))) (\<lambda>(system_prompt, user_prompt).
              let reflections = get_context pool;
                  lane = strip (gets route_decision ''lane'' ''deep_planning'')
              in bind_r (ask_planner_model env lane
                  \<lparr> lr_model = model, lr_api_key = api_key, lr_base_url = base_url, lr_timeout_s = timeout_s,
                    lr_system_prompt = (if reflections = [] then system_prompt else system_prompt @ [CHR 0x0A, CHR 0x0A] @ reflections),
                    lr_user_prompt = user_prompt, pq_temperature = temperature, pq_max_tokens = 1400 \<rparr>) (\<lambda>(raw, meta).
                 bind_r (decode_plan env raw) (\<lambda>plan. Inr (case plan of None \<Rightarrow> (None, None) | Some p \<Rightarrow> (Some p, meta))))))))"

section \<open>The node\<close>

definition reset_context :: "pydict \<Rightarrow> pydict" where
  "reset_context s =
     (if py_bool (dget s ''context_reset_requested'' (PBool False))
      then dset (dset (dset (dset (dset (dset s ''plan'' PNone) ''facts'' (PList [])) ''context_reset_requested'' (PBool False))
             ''plan_discarded'' (PBool False)) ''plan_discard_reason'' (PStr [])) ''retry_target'' PNone
      else s)"

definition prior_verification :: "pydict \<Rightarrow> pyval" where
  "prior_verification s = or_val (dget s ''verification'' PNone) (PDict [])"

definition recovery_packet_of :: "pydict \<Rightarrow> pydict" where
  "recovery_packet_of s = as_dict (dget s ''recovery_packet'' (dget (as_dict (dget s ''verification'' (PDict []))) ''recovery_packet'' (PDict [])))"

definition add_recovery :: "pyval \<Rightarrow> pydict \<Rightarrow> pydict \<Rightarrow> pydict" where
  "add_recovery recovery packet plan =
     (if dget plan ''recovery'' PNone \<noteq> PNone then plan
      else if is_dict recovery then dset plan ''recovery'' recovery
      else if packet \<noteq> [] then dset plan ''recovery'' (PDict (recovery_action_from_packet packet))
      else plan)"

definition add_recovery_packet :: "pydict \<Rightarrow> pydict \<Rightarrow> pydict" where
  "add_recovery_packet packet plan =
     (if dget plan ''recovery_packet'' PNone = PNone \<and> packet \<noteq> [] then dset plan ''recovery_packet'' (PDict packet) else plan)"

definition with_recovery :: "pydict \<Rightarrow> pydict \<Rightarrow> pydict" where
  "with_recovery s plan =
     (let packet = recovery_packet_of s
      in add_recovery_packet packet
           (add_recovery (dget (as_dict (dget s ''verification'' (PDict []))) ''recovery'' PNone) packet plan))"

text \<open>The payload of the plan before the recalled memory is applied.\<close>

definition plan_payload :: "pydict \<Rightarrow> string \<Rightarrow> PlannerOutput option \<Rightarrow> pydict result" where
  "plan_payload s request remote =
     bind_r (case remote of Some p \<Rightarrow> Inr p | None \<Rightarrow> default_plan request (prior_verification s)) (\<lambda>plan.
     bind_r (or_default_int s ''_budget_max_loops'' 1) (\<lambda>loops.
     bind_r (or_default_int (dump_plan plan) ''max_iterations'' 1) (\<lambda>wanted.
       let payload = dset (dump_plan plan) ''max_iterations'' (PInt (max 1 (min wanted loops)))
       in bind_r (if po_acceptance_criteria plan \<noteq> [] then Inr payload
                  else bind_r (default_plan request (prior_verification s)) (\<lambda>d.
                    Inr (dset payload ''acceptance_criteria'' (str_list (po_acceptance_criteria d))))) (\<lambda>payload'.
          Inr (with_recovery s payload')))))"

definition with_memory :: "pydict \<Rightarrow> string \<Rightarrow> pydict \<Rightarrow> pydict \<times> string option" where
  "with_memory s request plan =
     (let repo_context = as_dict (dget s ''repo_context'' (PDict []))
      in apply_procedural_memory_constraints (apply_semantic_memory_constraints plan repo_context request) repo_context request)"

definition with_plan :: "pydict \<Rightarrow> string \<Rightarrow> pydict \<Rightarrow> pydict" where
  "with_plan s intent plan =
     dset (dset (dset s ''intent'' (PStr intent)) ''plan'' (PDict plan)) ''active_handoff'' (first_step_handoff plan)"

definition planner_end :: "clock \<Rightarrow> pydict \<Rightarrow> pydict result" where
  "planner_end now out =
     bind_r (dict_method (or_val (dget out ''plan'' PNone) (PDict [])) ''get'') (\<lambda>plan.
     bind_r (py_len (dget plan ''steps'' (PList []))) (\<lambda>n.
     bind_r (append_event now out ''node'' [(''name'', PStr ''planner''), (''phase'', PStr ''end''), (''steps'', PInt (int n))]) (\<lambda>out'.
       Inr (prune_pre_verification_history out'))))"

definition planner_finish :: "clock \<Rightarrow> pydict \<Rightarrow> pydict \<Rightarrow> response_meta option \<Rightarrow> pydict result" where
  "planner_finish now out0 route_decision response =
     (let out = record_inference_telemetry out0 ''planner'' (gets route_decision ''provider'' []) (gets route_decision ''model'' []) response
      in bind_r (get_compression_summary out) (\<lambda>summary.
           planner_end now (dset out ''telemetry''
             (PDict (dset (as_dict (dget out ''telemetry'' (PDict []))) ''compression_summary'' (PDict summary))))))"

text \<open>The exception handler: the failure is remembered and the deterministic plan is used.\<close>

definition planner_fallback ::
  "clock \<Rightarrow> SharedReflectionPool \<Rightarrow> pydict \<Rightarrow> pydict \<Rightarrow> exn \<Rightarrow> (string \<times> string) list \<Rightarrow>
     (pydict \<times> SharedReflectionPool \<times> (string \<times> string) list) result" where
  "planner_fallback now pool s route_decision exc uses =
     (let request = strip (gets s ''request'' []);
          route = as_dict (dget s ''route'' (PDict []))
      in bind_r (py_int (dget (as_dict (dget s ''budgets'' (PDict []))) ''current_loop'' (PInt 0))) (\<lambda>loop_index.
         bind_r (default_plan request (prior_verification s)) (\<lambda>d.
           let pool' = add_reflection pool \<lparr> fr_loop_index = loop_index, fr_model_used = gets route_decision ''model'' ''unknown'',
                 fr_failure_class = ''planner_exception'',
                 fr_reflection = ''Planner failed with '' @ exn_type exc @ '': '' @ exn_str exc \<rparr>;
               (plan, procedure_id) = with_memory s request
                 (dset (dump_plan d) ''rollback'' (PStr ''Plan generation failed; deterministic fallback used.''));
               used = (case record_selected_procedure_use s procedure_id of None \<Rightarrow> [] | Some u \<Rightarrow> [u])
           in bind_r (planner_end now (with_plan s (py_str (or_val (dget route ''intent'' (PStr ''analysis'')) (PStr ''analysis''))) plan))
                (\<lambda>out. Inr (out, pool', uses @ used)))))"

definition planner_body ::
  "plan_env \<Rightarrow> clock \<Rightarrow> SharedReflectionPool \<Rightarrow> pydict \<Rightarrow> (pydict \<times> SharedReflectionPool \<times> (string \<times> string) list) result" where
  "planner_body env now pool s =
     (let request = strip (gets s ''request'' []);
          route_decision = latest_model_route s ''planner'';
          route = as_dict (dget s ''route'' (PDict []));
          intent = or_str (strip (gets route ''intent'' [])) (planner_classify_intent request)
      in case bind_r (planner_model_output env pool s route_decision) (\<lambda>(remote, response).
                bind_r (plan_payload s request remote) (\<lambda>payload. Inr (payload, response))) of
           Inl exc \<Rightarrow> planner_fallback now pool s route_decision exc []
         | Inr (payload, response) \<Rightarrow>
             let (plan, procedure_id) = with_memory s request payload;
                 used = (case record_selected_procedure_use s procedure_id of None \<Rightarrow> [] | Some u \<Rightarrow> [u])
             in (case planner_finish now (with_plan s intent plan) route_decision response of
                   Inl exc \<Rightarrow> planner_fallback now pool s route_decision exc used
                 | Inr out \<Rightarrow> Inr (out, pool, used)))"

definition planner ::
  "plan_env \<Rightarrow> clock \<Rightarrow> SharedReflectionPool \<Rightarrow> pydict \<Rightarrow> (pydict \<times> SharedReflectionPool \<times> (string \<times> string) list) result" where
  "planner env now pool state0 =
     (let state1 = ensure_history_policy state0 in
      bind_r (dict_method (or_val (dget state1 ''route'' PNone) (PDict [])) ''get'') (\<lambda>route.
      bind_r (record_model_route state1 ''planner'' (gets route ''task_class'' ''context_condensation'') ''planner'') (\<lambda>state2.
      bind_r (node_event now state2 ''planner'' ''start'') (\<lambda>state3.
        planner_body env now pool (reset_context state3)))))"

end
