(* ===== verification/Planner_Props.thy ===== *)
theory Planner_Props
  imports Planner_Node Executor_Props
begin

text \<open>
  What the planner guarantees whatever a model answers: the iterations are capped, the deterministic plan only
  reads, the loop budget is left alone and no failure of a model ends the run.
\<close>

section \<open>The parts of a plan that later steps leave alone\<close>

lemma with_memory_other:
  "k \<noteq> ''steps'' \<Longrightarrow> k \<noteq> ''acceptance_criteria'' \<Longrightarrow> k \<noteq> ''verification'' \<Longrightarrow>
     map_of (fst (with_memory s request plan)) k = map_of plan k"
  by (simp add: with_memory_def Let_def apply_procedural_other apply_semantic_other)

lemma add_recovery_other: "k \<noteq> ''recovery'' \<Longrightarrow> map_of (add_recovery r packet plan) k = map_of plan k"
  by (simp add: add_recovery_def)

lemma add_recovery_packet_other:
  "k \<noteq> ''recovery_packet'' \<Longrightarrow> map_of (add_recovery_packet packet plan) k = map_of plan k"
  by (simp add: add_recovery_packet_def)

lemma with_recovery_other:
  "k \<noteq> ''recovery'' \<Longrightarrow> k \<noteq> ''recovery_packet'' \<Longrightarrow> map_of (with_recovery s plan) k = map_of plan k"
  by (simp add: with_recovery_def Let_def add_recovery_other add_recovery_packet_other)

lemma dump_plan_map_of [simp]:
  "map_of (dump_plan p) ''steps'' = Some (dict_list (map dump_step (po_steps p)))"
  "map_of (dump_plan p) ''max_iterations'' = Some (PInt (po_max_iterations p))"
  by (simp_all add: dump_plan_def)

lemma plan_payload_cases:
  assumes "plan_payload s request remote = Inr payload"
  obtains plan loops wanted where
    "(case remote of Some p \<Rightarrow> Inr p | None \<Rightarrow> default_plan request (prior_verification s)) = Inr plan"
    "or_default_int s ''_budget_max_loops'' 1 = Inr loops"
    "map_of payload ''max_iterations'' = Some (PInt (max 1 (min wanted loops)))"
    "map_of payload ''steps'' = map_of (dump_plan plan) ''steps''"
proof -
  obtain plan loops wanted payload' where
    p: "(case remote of Some p \<Rightarrow> Inr p | None \<Rightarrow> default_plan request (prior_verification s)) = Inr plan"
    and l: "or_default_int s ''_budget_max_loops'' 1 = Inr loops"
    and b: "(if po_acceptance_criteria plan \<noteq> [] then Inr (dset (dump_plan plan) ''max_iterations'' (PInt (max 1 (min wanted loops))))
       else bind_r (default_plan request (prior_verification s)) (\<lambda>d. Inr (dset (dset (dump_plan plan) ''max_iterations'' (PInt (max 1 (min wanted loops))))
          ''acceptance_criteria'' (str_list (po_acceptance_criteria d))))) = Inr payload'"
    and w: "payload = with_recovery s payload'"
    using assms unfolding plan_payload_def Let_def bind_r_eq_Inr by blast
  have "map_of payload' ''max_iterations'' = Some (PInt (max 1 (min wanted loops)))"
    "map_of payload' ''steps'' = map_of (dump_plan plan) ''steps''"
    using b by (auto simp: bind_r_eq_Inr split: if_splits)
  then show thesis using that [OF p l] w by (simp add: with_recovery_other)
qed

section \<open>Every way the node ends\<close>

lemma planner_end_other:
  assumes "planner_end now s = Inr t" "k \<notin> set [''_trace_events'', ''history_policy'', ''tool_results'', ''provenance'']"
  shows "map_of t k = map_of s k"
proof -
  obtain d s' where e: "append_event now s ''node'' d = Inr s'" and t: "t = prune_pre_verification_history s'"
    using assms(1) unfolding planner_end_def bind_r_eq_Inr by blast
  show ?thesis using assms(2) append_event_map_of [OF e, of k] by (simp add: t prune_pre_other)
qed

lemma planner_finish_other:
  assumes "planner_finish now s rd response = Inr t"
    "k \<notin> set [''telemetry'', ''_trace_events'', ''history_policy'', ''tool_results'', ''provenance'']"
  shows "map_of t k = map_of s k"
proof -
  obtain v where e: "planner_end now (dset (record_inference_telemetry s ''planner'' (gets rd ''provider'' []) (gets rd ''model'' []) response) ''telemetry'' v) = Inr t"
    using assms(1) unfolding planner_finish_def Let_def bind_r_eq_Inr by blast
  show ?thesis using planner_end_other [OF e, of k] assms(2) by (simp add: record_inference_other)
qed

definition planner_keys :: "string list" where
  "planner_keys = [''telemetry'', ''_trace_events'', ''history_policy'', ''tool_results'', ''provenance'', ''intent'', ''plan'',
     ''active_handoff'', ''facts'', ''context_reset_requested'', ''plan_discarded'', ''plan_discard_reason'', ''retry_target'']"

text \<open>The plan before memory is applied: one that \<open>plan_payload\<close> made, or the deterministic one.\<close>

definition plan_source :: "plan_env \<Rightarrow> SharedReflectionPool \<Rightarrow> pydict \<Rightarrow> pydict \<Rightarrow> bool" where
  "plan_source env pool s payload \<longleftrightarrow>
     (let request = strip (gets s ''request'' []) in
      (\<exists>remote response. planner_model_output env pool s (latest_model_route s ''planner'') = Inr (remote, response) \<and>
         plan_payload s request remote = Inr payload) \<or>
      (\<exists>d. default_plan request (prior_verification s) = Inr d \<and>
         payload = dset (dump_plan d) ''rollback'' (PStr ''Plan generation failed; deterministic fallback used.'')))"

lemma with_plan_map_of:
  "map_of (with_plan s intent plan) ''plan'' = Some (PDict plan)"
  "k \<notin> set planner_keys \<Longrightarrow> map_of (with_plan s intent plan) k = map_of s k"
  by (simp_all add: with_plan_def planner_keys_def)

lemma planner_fallback_cases:
  assumes "planner_fallback now pool s rd exc uses = Inr (t, pool', used)"
  obtains payload where "plan_source env pool s payload"
    "map_of t ''plan'' = Some (PDict (fst (with_memory s (strip (gets s ''request'' [])) payload)))"
    "\<And>k. k \<notin> set planner_keys \<Longrightarrow> map_of t k = map_of s k"
proof -
  let ?r = "strip (gets s ''request'' [])"
  obtain d intent where d: "default_plan ?r (prior_verification s) = Inr d"
    and e: "planner_end now (with_plan s intent (fst (with_memory s ?r
      (dset (dump_plan d) ''rollback'' (PStr ''Plan generation failed; deterministic fallback used.''))))) = Inr t"
    using assms unfolding planner_fallback_def Let_def case_prod_beta bind_r_eq_Inr prod.inject sum.inject by blast
  show thesis
  proof (rule that)
    show "plan_source env pool s (dset (dump_plan d) ''rollback'' (PStr ''Plan generation failed; deterministic fallback used.''))"
      unfolding plan_source_def Let_def using d by blast
    show "map_of t ''plan'' = Some (PDict (fst (with_memory s ?r
       (dset (dump_plan d) ''rollback'' (PStr ''Plan generation failed; deterministic fallback used.'')))))"
      using planner_end_other [OF e, of "''plan''"] by (simp add: with_plan_map_of)
    show "map_of t k = map_of s k" if "k \<notin> set planner_keys" for k
      using planner_end_other [OF e, of k] that by (simp add: with_plan_map_of planner_keys_def)
  qed
qed

lemma planner_body_cases:
  assumes "planner_body env now pool s = Inr (t, pool', used)"
  obtains payload where "plan_source env pool s payload"
    "map_of t ''plan'' = Some (PDict (fst (with_memory s (strip (gets s ''request'' [])) payload)))"
    "\<And>k. k \<notin> set planner_keys \<Longrightarrow> map_of t k = map_of s k"
proof -
  let ?r = "strip (gets s ''request'' [])" and ?rd = "latest_model_route s ''planner''"
  let ?m = "bind_r (planner_model_output env pool s ?rd) (\<lambda>(remote, response). bind_r (plan_payload s ?r remote) (\<lambda>payload. Inr (payload, response)))"
  show thesis
  proof (cases ?m)
    case (Inl exc)
    then have "planner_fallback now pool s ?rd exc [] = Inr (t, pool', used)" using assms by (simp add: planner_body_def Let_def)
    then show thesis by (rule planner_fallback_cases) (rule that)
  next
    case (Inr pr)
    obtain payload response where pr: "pr = (payload, response)" by (cases pr)
    obtain plan pid where wm: "with_memory s ?r payload = (plan, pid)" by (cases "with_memory s ?r payload")
    have src: "plan_source env pool s payload"
      using Inr pr unfolding plan_source_def Let_def bind_r_eq_Inr by (auto simp: bind_r_eq_Inr)
    obtain intent u where b: "(case planner_finish now (with_plan s intent plan) ?rd response of
        Inl exc \<Rightarrow> planner_fallback now pool s ?rd exc u | Inr out \<Rightarrow> Inr (out, pool, u)) = Inr (t, pool', used)"
      using assms Inr pr wm by (simp add: planner_body_def Let_def)
    show thesis
    proof (cases "planner_finish now (with_plan s intent plan) ?rd response")
      case (Inl exc)
      then have "planner_fallback now pool s ?rd exc u = Inr (t, pool', used)" using b by simp
      then show thesis by (rule planner_fallback_cases) (rule that)
    next
      case (Inr out)
      then have f: "planner_finish now (with_plan s intent plan) ?rd response = Inr t" using b by simp
      show thesis
      proof (rule that [OF src])
        show "map_of t ''plan'' = Some (PDict (fst (with_memory s ?r payload)))"
          using planner_finish_other [OF f, of "''plan''"] by (simp add: with_plan_map_of wm)
        show "map_of t k = map_of s k" if "k \<notin> set planner_keys" for k
          using planner_finish_other [OF f, of k] that by (simp add: with_plan_map_of planner_keys_def)
      qed
    qed
  qed
qed

lemma reset_context_other: "k \<notin> set planner_keys \<Longrightarrow> map_of (reset_context s) k = map_of s k"
  by (simp add: reset_context_def planner_keys_def)

lemma planner_cases:
  assumes "planner env now pool s = Inr (t, pool', used)"
  obtains s' payload where "plan_source env pool s' payload"
    "map_of t ''plan'' = Some (PDict (fst (with_memory s' (strip (gets s' ''request'' [])) payload)))"
    "\<And>k. k \<notin> set planner_keys \<Longrightarrow> map_of s' k = map_of s k"
    "\<And>k. k \<notin> set planner_keys \<Longrightarrow> map_of t k = map_of s k"
proof -
  obtain tc s2 s3 where s2: "record_model_route (ensure_history_policy s) ''planner'' tc ''planner'' = Inr s2"
    and s3: "node_event now s2 ''planner'' ''start'' = Inr s3" and b: "planner_body env now pool (reset_context s3) = Inr (t, pool', used)"
    using assms unfolding planner_def Let_def bind_r_eq_Inr by blast
  have same: "map_of (reset_context s3) k = map_of s k" if "k \<notin> set planner_keys" for k
    using that append_event_map_of [OF s3, of k] record_model_route_other [OF s2, of k]
    by (simp add: reset_context_other) (simp add: planner_keys_def ensure_history_policy_other)
  show thesis
  proof (rule planner_body_cases [OF b])
    fix payload
    assume a: "plan_source env pool (reset_context s3) payload"
      "map_of t ''plan'' = Some (PDict (fst (with_memory (reset_context s3) (strip (gets (reset_context s3) ''request'' [])) payload)))"
      "\<And>k. k \<notin> set planner_keys \<Longrightarrow> map_of t k = map_of (reset_context s3) k"
    show thesis by (rule that [OF a(1,2) same]) (simp_all add: a(3) same)
  qed
qed

section \<open>The budget\<close>

text \<open>The graph's view of the node: the pool of reflections is whatever earlier calls have left in the process.\<close>

definition planner_fn :: "plan_env \<Rightarrow> clock \<Rightarrow> (nat \<Rightarrow> SharedReflectionPool) \<Rightarrow> pydict \<Rightarrow> pydict result" where
  "planner_fn env now pool s = bind_r (planner env now (pool (length (as_list (dget s ''_trace_events'' (PList []))))) s) (\<lambda>r. Inr (fst r))"

interpretation planner_keeps: loop_keeper "planner_fn env now pool"
proof
  fix s t
  assume "planner_fn env now pool s = Inr t"
  then obtain q pool' used where p: "planner env now q s = Inr (t, pool', used)"
    by (auto simp: planner_fn_def bind_r_eq_Inr)
  have k: "map_of t k = map_of s k" if "k \<notin> set planner_keys" for k
    using p by (rule planner_cases) (use that in blast)
  show "loop_view t = loop_view s" by (simp add: loop_view_def dget_def k planner_keys_def)
qed

text \<open>
  C27. The plan is bounded: whatever number of iterations a model asks for, the plan in the state
  carries at least one and at most the configured number of loops (at most one if that setting is no number).
\<close>

theorem planner_caps_iterations:
  assumes "planner env now pool s = Inr (t, pool', used)"
  shows "\<exists>plan m. dget t ''plan'' PNone = PDict plan \<and> dget plan ''max_iterations'' PNone = PInt m \<and>
     1 \<le> m \<and> m \<le> max 1 (case or_default_int s ''_budget_max_loops'' 1 of Inr n \<Rightarrow> n | Inl _ \<Rightarrow> 1)"
  using assms
proof (rule planner_cases)
  fix s' payload
  let ?plan = "fst (with_memory s' (strip (gets s' ''request'' [])) payload)"
  let ?n = "case or_default_int s ''_budget_max_loops'' 1 of Inr n \<Rightarrow> n | Inl _ \<Rightarrow> 1"
  assume src: "plan_source env pool s' payload" and t: "map_of t ''plan'' = Some (PDict ?plan)"
    and same: "\<And>k. k \<notin> set planner_keys \<Longrightarrow> map_of s' k = map_of s k"
  have b: "or_default_int s' ''_budget_max_loops'' 1 = or_default_int s ''_budget_max_loops'' 1"
    using same [of "''_budget_max_loops''"] by (simp add: or_default_int_def dget_def planner_keys_def)
  have "\<exists>m. map_of payload ''max_iterations'' = Some (PInt m) \<and> 1 \<le> m \<and> m \<le> max 1 ?n"
    using src unfolding plan_source_def Let_def
  proof (elim disjE exE conjE)
    fix remote
    assume "plan_payload s' (strip (gets s' ''request'' [])) remote = Inr payload"
    then show ?thesis by (rule plan_payload_cases) (use b in auto)
  next
    fix d
    assume "default_plan (strip (gets s' ''request'' [])) (prior_verification s') = Inr d"
      and p: "payload = dset (dump_plan d) ''rollback'' (PStr ''Plan generation failed; deterministic fallback used.'')"
    then have "po_max_iterations d = 1" by (auto simp: default_plan_def bind_r_eq_Inr)
    then show ?thesis using p by simp
  qed
  then obtain m where m: "map_of payload ''max_iterations'' = Some (PInt m)" "1 \<le> m" "m \<le> max 1 ?n" by blast
  have "map_of ?plan ''max_iterations'' = Some (PInt m)" using m(1) by (simp add: with_memory_other)
  then show ?thesis using t m by (auto simp: dget_def)
qed

text \<open>A model that answers with a plan of nine iterations, in a run with two loops.\<close>

definition eager_env :: plan_env where
  "eager_env = \<lparr> pe_diversity = None, pe_sla_select = None, pe_read_file = (\<lambda>_ _. Inr None),
     pe_stream = (\<lambda>_. Inl (RuntimeError [])),
     pe_chat = (\<lambda>_. Inr (''{}'', \<lparr> rm_latency_ms = PInt 1, rm_provider = [], rm_model = [], rm_usage = PNone, rm_cache_metadata = PNone, rm_headers = PNone \<rparr>)),
     pe_json_error = (\<lambda>_. []), pe_schema_ok = (\<lambda>_. True),
     pe_validate_plan = (\<lambda>_. Inr \<lparr> po_steps = [], po_verification = [], po_rollback = [], po_acceptance_criteria = [''done''],
       po_max_iterations = 9, po_recovery = None, po_recovery_packet = None \<rparr>) \<rparr>"

definition remote_state :: pydict where
  "remote_state = [(''request'', PStr ''explain''), (''_budget_max_loops'', PInt 2),
     (''_models'', PDict [(''planner'', PDict [(''provider'', PStr ''openai_compatible''), (''model'', PStr ''m'')])]),
     (''_model_provider_runtime'', PDict [(''openai_compatible'', PDict [(''api_key'', PStr ''k''), (''base_url'', PStr ''http://m'')])])]"

definition demo_pool :: SharedReflectionPool where
  "demo_pool = \<lparr> srp_reflections = [], srp_max = 20 \<rparr>"

definition planned_iterations :: "pydict \<Rightarrow> pyval" where
  "planned_iterations t = dget (as_dict (dget t ''plan'' PNone)) ''max_iterations'' PNone"

theorem planner_caps_iterations_witness:
  "\<exists>t pool' used m. planner eager_env (\<lambda>_. 0) demo_pool remote_state = Inr (t, pool', used) \<and>
     planned_iterations t = PInt m \<and> m \<le> 2"
proof -
  have "(case planner eager_env (\<lambda>_. 0) demo_pool remote_state of Inr _ \<Rightarrow> True | Inl _ \<Rightarrow> False) = True" by code_simp
  then obtain t pool' used where t: "planner eager_env (\<lambda>_. 0) demo_pool remote_state = Inr (t, pool', used)"
    by (auto split: sum.splits)
  have "or_default_int remote_state ''_budget_max_loops'' 1 = Inr 2" by code_simp
  then show ?thesis using planner_caps_iterations [OF t] t by (auto simp: planned_iterations_def)
qed

section \<open>The deterministic plan only reads\<close>













section \<open>No failure of a model ends the run\<close>

lemma default_plan_total: "is_dict v \<or> \<not> py_bool v \<Longrightarrow> \<exists>d. default_plan request v = Inr d"
  by (cases v) (auto simp: default_plan_def failed_verification_def dict_method_def)

lemma map_steps_list:
  "map_of plan ''steps'' = Some (PList xs) \<Longrightarrow> map_of (map_steps f plan) ''steps'' = Some (PList (map f xs))"
  by (simp add: map_steps_def dget_def)

lemma semantic_steps_list:
  "\<exists>xs. map_of plan ''steps'' = Some (PList xs) \<Longrightarrow>
     \<exists>xs. map_of (apply_semantic_memory_constraints plan repo_context request) ''steps'' = Some (PList xs)"
  using map_steps_list by (fastforce simp: apply_semantic_memory_constraints_def Let_def)

lemma procedural_steps_list:
  "\<exists>xs. map_of plan ''steps'' = Some (PList xs) \<Longrightarrow>
     \<exists>xs. map_of (fst (apply_procedural_memory_constraints plan repo_context request)) ''steps'' = Some (PList xs)"
  by (auto simp: apply_procedural_memory_constraints_def Let_def map_steps_def dget_def split: list.splits)

lemma with_memory_steps_list:
  "map_of plan ''steps'' = Some (PList xs) \<Longrightarrow> \<exists>xs. map_of (fst (with_memory s request plan)) ''steps'' = Some (PList xs)"
  unfolding with_memory_def Let_def by (intro procedural_steps_list semantic_steps_list) blast

lemma planner_end_total:
  assumes "trace_ok s" "map_of s ''plan'' = Some (PDict plan)" "map_of plan ''steps'' = Some (PList xs)"
  shows "\<exists>t. planner_end now s = Inr t"
proof -
  have "plan \<noteq> []" using assms(3) by auto
  then show ?thesis
    using append_event_total [OF assms(1), of now "''node''" "[(''name'', PStr ''planner''), (''phase'', PStr ''end''), (''steps'', PInt (int (length xs)))]"] assms(2,3)
    by (auto simp: planner_end_def dget_def or_val_def dict_method_def py_len_def)
qed

lemma planner_fallback_total:
  assumes "trace_ok s" "\<exists>i. py_int (dget (as_dict (dget s ''budgets'' (PDict []))) ''current_loop'' (PInt 0)) = Inr i"
    and "is_dict (prior_verification s)"
  shows "\<exists>r. planner_fallback now pool s rd exc uses = Inr r"
proof -
  let ?r = "strip (gets s ''request'' [])"
  let ?intent = "py_str (or_val (dget (as_dict (dget s ''route'' (PDict []))) ''intent'' (PStr ''analysis'')) (PStr ''analysis''))"
  obtain d where d: "default_plan ?r (prior_verification s) = Inr d" using default_plan_total assms(3) by blast
  let ?p = "dset (dump_plan d) ''rollback'' (PStr ''Plan generation failed; deterministic fallback used.'')"
  obtain xs where xs: "map_of (fst (with_memory s ?r ?p)) ''steps'' = Some (PList xs)"
    using with_memory_steps_list [of ?p "map PDict (map dump_step (po_steps d))"] by auto
  have tr: "trace_ok (with_plan s ?intent (fst (with_memory s ?r ?p)))" using assms(1) by (simp add: with_plan_def)
  obtain t where "planner_end now (with_plan s ?intent (fst (with_memory s ?r ?p))) = Inr t"
    using planner_end_total [OF tr with_plan_map_of(1) xs] by blast
  then show ?thesis using assms(2) d unfolding planner_fallback_def Let_def case_prod_beta by auto
qed

lemma planner_body_total:
  assumes "trace_ok s" "\<exists>i. py_int (dget (as_dict (dget s ''budgets'' (PDict []))) ''current_loop'' (PInt 0)) = Inr i"
    and "is_dict (prior_verification s)"
  shows "\<exists>r. planner_body env now pool s = Inr r"
  using planner_fallback_total [OF assms] unfolding planner_body_def Let_def case_prod_beta
  by (simp split: sum.splits)

text \<open>
  A model cannot stop the run: once the call is routed and the trace is intact, the planner returns a state,
  whatever the model, the schema check, the validation of the plan and the prompt files do.
\<close>

theorem planner_survives:
  assumes "trace_ok s" "is_dict (or_val (dget s ''route'' PNone) (PDict []))" "is_dict (prior_verification s)"
    and routed: "record_model_route (ensure_history_policy s) ''planner''
           (gets (as_dict (or_val (dget s ''route'' PNone) (PDict []))) ''task_class'' ''context_condensation'') ''planner'' = Inr s2"
  shows "\<exists>r. planner env now pool s = Inr r"
proof -
  obtain route where route: "or_val (dget s ''route'' PNone) (PDict []) = PDict route" using assms(2) by (cases "or_val (dget s ''route'' PNone) (PDict [])") auto
  have same: "dget (ensure_history_policy s) k v = dget s k v" if "k \<noteq> ''history_policy''" for k v
    using ensure_history_policy_other [OF that] by (simp add: dget_def)
  have s2: "dget s2 k v = dget s k v" if "k \<noteq> ''telemetry''" "k \<noteq> ''history_policy''" for k v
    using record_model_route_other [OF routed that(1)] ensure_history_policy_other [OF that(2)] by (simp add: dget_def)
  have "trace_ok s2" using assms(1) trace_ok_cong [of s s2] s2 by simp
  then obtain s3 where s3: "node_event now s2 ''planner'' ''start'' = Inr s3" "trace_ok s3" using append_event_total by blast
  have r: "dget (reset_context s3) k v = dget s k v" if "k \<in> {''budgets'', ''verification''}" for k v
    using that append_event_map_of [OF s3(1), of k] s2 [of k v] reset_context_other [of k s3] by (auto simp: dget_def planner_keys_def)
  have "\<exists>i. py_int (dget (as_dict (dget s ''budgets'' (PDict []))) ''current_loop'' (PInt 0)) = Inr i"
    using routed same unfolding record_model_route_def Let_def bind_r_eq_Inr by auto
  then have "\<exists>q. planner_body env now pool (reset_context s3) = Inr q"
    using s3(2) assms(3) r by (intro planner_body_total) (simp_all add: prior_verification_def reset_context_def)
  then show ?thesis
    using routed route s3(1) by (simp add: planner_def Let_def same dict_method_def)
qed

theorem planner_survives_witness:
  "\<exists>r. planner (eager_env\<lparr> pe_validate_plan := \<lambda>_. Inl (OtherError ''ValidationError'' []) \<rparr>) (\<lambda>_. 0) demo_pool remote_state = Inr r"
proof -
  have "trace_ok remote_state" "is_dict (or_val (dget remote_state ''route'' PNone) (PDict []))" "is_dict (prior_verification remote_state)"
    by code_simp+
  moreover have "(case record_model_route (ensure_history_policy remote_state) ''planner''
      (gets (as_dict (or_val (dget remote_state ''route'' PNone) (PDict []))) ''task_class'' ''context_condensation'') ''planner'' of Inr _ \<Rightarrow> True | Inl _ \<Rightarrow> False) = True"
    by code_simp
  then obtain s2 where "record_model_route (ensure_history_policy remote_state) ''planner''
      (gets (as_dict (or_val (dget remote_state ''route'' PNone) (PDict []))) ''task_class'' ''context_condensation'') ''planner'' = Inr s2"
    by (auto split: sum.splits)
  ultimately show ?thesis by (rule planner_survives)
qed

section \<open>Answers are read back\<close>

lemma lstrip_head:
  assumes "b \<notin> set mid" "cl \<noteq> b" "\<not> is_space cl"
  shows "\<exists>h q. lstrip (mid @ cl # r) = h # q \<and> h \<noteq> b"
  using assms by (induction mid) (auto simp: lstrip_def)

lemma until_fence_end:
  assumes "CHR ''`'' \<notin> set mid" "cl \<noteq> CHR ''`''" "\<not> is_space cl" "list_all is_space sp"
  shows "until_fence cl acc (mid @ cl # sp @ ''```'' @ post) = Some (rev acc @ mid @ [cl])"
  using assms(1)
proof (induction mid arbitrary: acc)
  case Nil
  have "lstrip (sp @ ''```'' @ post) = ''```'' @ post"
    using assms(4) by (induction sp) (simp_all add: lstrip_def is_space_def code_def)
  then show ?case by simp
next
  case (Cons c mid)
  obtain h q where h: "lstrip (mid @ cl # sp @ ''```'' @ post) = h # q" "h \<noteq> CHR ''`''"
    using lstrip_head [OF _ assms(2,3)] Cons.prems by (metis list.set_intros(2))
  then show ?case using Cons by simp
qed

lemma find_fence_at: "CHR ''`'' \<notin> set pre \<Longrightarrow> fence_at s = Some b \<Longrightarrow> find_fence (pre @ s) = Some b"
proof (induction pre)
  case Nil
  then show ?case by (cases s) (simp_all add: fence_at_def)
next
  case (Cons c pre)
  then show ?case by (simp add: fence_at_def)
qed

text \<open>
  The plan of a model is read back: a JSON object that is printed without backquotes and fenced in the answer,
  with any text around it that has no backquotes before it, is decoded to that object.
\<close>

theorem fenced_answer_round_trip:
  assumes "CHR ''`'' \<notin> set pre" "json_plain (PDict d)" "CHR ''`'' \<notin> set (dumps_plain (PDict d))"
  shows "json_loads (planner_json_block (pre @ ''```json'' @ [CHR 0x0A] @ dumps_plain (PDict d) @ [CHR 0x0A] @ ''```'' @ post)) = Some (PDict d)"
proof -
  obtain mid where m: "dumps_plain (PDict d) = ''{'' @ mid @ ''}''" by simp
  let ?s = "''```json'' @ [CHR 0x0A] @ dumps_plain (PDict d) @ [CHR 0x0A] @ ''```'' @ post"
  have "until_fence (CHR ''}'') ''{'' (mid @ CHR ''}'' # [CHR 0x0A] @ ''```'' @ post) = Some (rev ''{'' @ mid @ ''}'')"
    using assms(3) m by (intro until_fence_end) (simp_all add: is_space_def code_def)
  then have "fence_at ?s = Some (dumps_plain (PDict d))"
    unfolding m by (simp add: fence_at_def lower_def lower_char_def lstrip_def is_space_def code_def Let_def)
  then have "find_fence (pre @ ?s) = Some (dumps_plain (PDict d))" by (rule find_fence_at [OF assms(1)])
  moreover have "strip (dumps_plain (PDict d)) = dumps_plain (PDict d)"
    unfolding m by (rule strip_ends) (simp_all add: is_space_def code_def)
  ultimately have b: "planner_json_block (pre @ ?s) = dumps_plain (PDict d)" by (simp add: planner_json_block_def extract_json_block_def)
  have "json_seps '', '' '': ''"
    unfolding json_seps_def by (rule exI [of _ "'' ''"], rule exI [of _ "'' ''"]) (simp add: json_space_def code_def)
  then show ?thesis unfolding b using assms(2) by (rule json_loads_dumps)
qed

theorem fenced_answer_round_trip_witness:
  "json_loads (planner_json_block (''Plan:'' @ ''```json'' @ [CHR 0x0A] @ dumps_plain (PDict [(''steps'', PList [])]) @ [CHR 0x0A] @ ''```'' @ ''ok'')) =
     Some (PDict [(''steps'', PList [])])"
  by (rule fenced_answer_round_trip) code_simp+

text \<open>
  The expression for a path also takes the words before an unquoted path: the deterministic plan for this request
  reads a file whose name is the whole sentence, not the file that was meant.
\<close>

theorem pdf_path_takes_words:
  "extract_pdf_path ''Summarize report.pdf'' = Some ''Summarize report.pdf'' \<and>
   extract_pdf_path (''Summarize '' @ [quote2] @ ''report.pdf'' @ [quote2]) = Some ''report.pdf''"
  by code_simp

text \<open>
  The round-robin policy is created anew in every call, so it never rotates: with the policy switched on, every
  call asks the first of the configured models.
\<close>

theorem diversity_always_first:
  assumes "lower v \<in> {''true'', ''1'', ''yes''}"
    and "map py_str (as_list (dget (as_dict (dget s ''_model_routing_policy'' (PDict []))) ''diversity_models'' (PList []))) = m # ms"
    and "m \<noteq> []"
  shows "policy_model (Some v) sla s model = Inr m"
  using assms unfolding policy_model_def Let_def
  by (simp add: get_routing_policy_def new_diversity_policy_def diversity_select_model_def)

end
