(* ===== verification/Context_Builder.thy ===== *)
theory Context_Builder
  imports Mcp_Client Planner_Props
begin

text \<open>
  \<open>nodes/context_builder.py\<close>: what the planner sees of the repository. The node lists the files, asks the runner
  for an index and a search, discovers the tools of the MCP servers, recalls facts, memories and
  procedures, and fits everything into the token budgets. The file system, the runner and the three stores
  are parameters; a store that fails yields nothing, as in the source. The glyphs of the tree are a
  parameter too, since they lie outside Latin-1.
\<close>

section \<open>Words of the request\<close>

definition ident_char :: "char \<Rightarrow> bool" where
  "ident_char c = (let n = code c in 97 \<le> n \<and> n \<le> 122 \<or> 65 \<le> n \<and> n \<le> 90 \<or> 48 \<le> n \<and> n \<le> 57 \<or> n = 95)"

fun ident_runs :: "string \<Rightarrow> string \<Rightarrow> string list" where
  "ident_runs cur [] = (if cur = [] then [] else [rev cur])"
| "ident_runs cur (c # cs) =
     (if ident_char c then ident_runs (c # cur) cs
      else if cur = [] then ident_runs [] cs else rev cur # ident_runs [] cs)"

definition lower_tokens :: "string \<Rightarrow> string list" where
  "lower_tokens s = map lower (ident_runs [] s)"

definition semantic_query_from_request :: "string \<Rightarrow> string" where
  "semantic_query_from_request request =
     (let tokens = lower_tokens request in if tokens = [] then ''repository structure'' else join '' '' (take 8 tokens))"

section \<open>The runner\<close>

definition opt_text :: "pyval \<Rightarrow> string option" where
  "opt_text v = (case v of PNone \<Rightarrow> None | _ \<Rightarrow> Some (strip (py_str v)))"

definition runner_client_from_state :: "pydict \<Rightarrow> RunnerClient option" where
  "runner_client_from_state state =
     (if \<not> py_bool (dget state ''_runner_enabled'' (PBool True)) then None
      else case dget state ''_runner_base_url'' PNone of
          PStr raw \<Rightarrow> (case validate_base_url_fn (strip raw) ''runner_base_url'' of
              Inl _ \<Rightarrow> None
            | Inr _ \<Rightarrow> Some \<lparr> rc_base_url = strip raw, rc_api_key = opt_text (dget state ''_runner_api_key'' PNone),
                             rc_request_id = opt_text (dget state ''_request_id'' PNone) \<rparr>)
        | _ \<Rightarrow> None)"

definition snapshot_calls :: "string \<Rightarrow> pydict list" where
  "snapshot_calls query =
     [[(''tool'', PStr ''ast_index_summary''), (''input'', PDict [(''max_files'', PInt 200)])],
      [(''tool'', PStr ''search_codebase''), (''input'', PDict [(''query'', PStr query), (''limit'', PInt 8)])]]"

definition nth_answer :: "pydict list \<Rightarrow> nat \<Rightarrow> pyval option" where
  "nth_answer results i = (if i < length results then parsed_stdout json_loads (results ! i) else None)"

definition runner_context_snapshot :: "http_post \<Rightarrow> pydict \<Rightarrow> (pydict \<times> pydict list \<times> string) result" where
  "runner_context_snapshot post state = (case runner_client_from_state state of
     None \<Rightarrow> Inr ([], [], [])
   | Some client \<Rightarrow>
       let query = semantic_query_from_request (gets state ''request'' [])
       in bind_r (batch_execute_tools post client (snapshot_calls query)) (\<lambda>results.
            Inr (dict_answer (nth_answer results 0), list_answer (nth_answer results 1), query)))"

section \<open>MCP servers\<close>

definition mcp_catalog_snapshot :: "http_post \<Rightarrow> pydict \<Rightarrow> (pydict \<times> string \<times> pydict list) result" where
  "mcp_catalog_snapshot post state =
     (if \<not> py_bool (dget state ''_mcp_enabled'' (PBool False)) then Inr ([], [], [])
      else case runner_client_from_state state of
          None \<Rightarrow> Inr ([], [], [])
        | Some client \<Rightarrow>
            (let servers = as_dict (dget state ''_mcp_servers'' (PDict [])) in
             if servers = [] then Inr ([], [], [])
             else bind_r (discover_tools post client servers) (\<lambda>raw_tools.
               let summary = summarize_tools raw_tools
               in Inr (summary, strip (gets summary ''summary'' []), filter (\<lambda>t. \<not> is_mismatch t) raw_tools))))"

definition hint_entry :: "string \<Rightarrow> pydict \<Rightarrow> pydict list" where
  "hint_entry server_name tool =
     (let name = strip (gets tool ''name'' [])
      in if name = [] then []
         else [[(''server_name'', PStr server_name), (''name'', PStr name), (''description'', PStr (strip (gets tool ''description'' [])))]])"

definition hint_relevant :: "string list \<Rightarrow> pydict \<Rightarrow> bool" where
  "hint_relevant keywords e =
     (let haystack = lower (gets e ''name'' [] @ '' '' @ gets e ''description'' [])
      in list_ex (\<lambda>k. k \<noteq> [] \<and> sublist k haystack) keywords)"

definition mcp_recovery_hints :: "pydict \<Rightarrow> pydict \<Rightarrow> string \<times> pydict list" where
  "mcp_recovery_hints state mcp_summary =
     (if mcp_summary = [] then ([], [])
      else
        let packet = as_dict (dget state ''recovery_packet'' (PDict []));
            keywords = lower_tokens (lower (strip (gets state ''request'' []))) @
              lower_tokens (lower (strip (gets packet ''failure_class'' []))) @
              lower_tokens (lower (strip (gets packet ''last_check'' [])));
            servers = dicts_of (as_list (dget mcp_summary ''servers'' (PList [])));
            entries = concat (map (\<lambda>server. concat (map (hint_entry (or_str (strip (gets server ''server_name'' [])) ''unknown''))
              (dicts_of (as_list (dget server ''tools'' (PList [])))))) servers);
            found = filter (hint_relevant keywords) entries;
            relevant = take 5 (if found = [] then entries else found);
            lines =
              (if packet \<noteq> [] then [''recovery_focus: '' @ gets packet ''failure_class'' [] @ '' | '' @ gets packet ''last_check'' []] else []) @
              (if relevant \<noteq> [] then [''candidate_tools: '' @ join '', '' (map (\<lambda>t. gets t ''server_name'' [] @ ''.'' @ gets t ''name'' []) relevant)] else [])
        in (strip (join [CHR 0x0A] (filter (\<lambda>l. strip l \<noteq> []) lines)), relevant))"

section \<open>Files\<close>

text \<open>
  A directory lists its entries, unless reading it fails; \<open>Missing\<close> is an entry that does not exist, such as a
  broken link. Links may make the tree arbitrarily deep; the walk sees four levels of it.
\<close>

datatype fentry = Missing | Plain | Folder "(string \<times> fentry) list option"

record tree_glyphs =
  tg_last :: string
  tg_middle :: string
  tg_bar :: string

record file_system =
  fs_resolve :: "string \<Rightarrow> string"
  fs_tree :: "string \<Rightarrow> fentry"
  fs_is_dir :: "string \<Rightarrow> string \<Rightarrow> bool"
  fs_glyphs :: tree_glyphs

fun is_folder :: "fentry \<Rightarrow> bool" where
  "is_folder (Folder es) = True"
| "is_folder _ = False"

definition iterdir :: "fentry \<Rightarrow> (string \<times> fentry) list option" where
  "iterdir f = (case f of Folder es \<Rightarrow> es | _ \<Rightarrow> None)"

definition existing :: "(string \<times> fentry) list \<Rightarrow> (string \<times> fentry) list" where
  "existing es = sort_key fst (filter (\<lambda>(n, e). e \<noteq> Missing) es)"

definition shown :: "(string \<times> fentry) list \<Rightarrow> (string \<times> fentry) list" where
  "shown es = filter (\<lambda>(n, e). \<not> prefix ''.'' n) (existing es)"

fun walk :: "tree_glyphs \<Rightarrow> nat \<Rightarrow> string \<Rightarrow> fentry \<Rightarrow> string list" where
  "walk g 0 pre f = []"
| "walk g (Suc d) pre f = (case iterdir f of
     None \<Rightarrow> []
   | Some es \<Rightarrow>
       let paths = shown es
       in concat (map (\<lambda>(i, name, e).
            let is_last = (i = length paths - 1)
            in (pre @ (if is_last then tg_last g else tg_middle g) @ name) #
               (if is_folder e then walk g d (pre @ (if is_last then ''    '' else tg_bar g)) e else []))
          (List.enumerate 0 paths)))"

definition generate_repo_map :: "tree_glyphs \<Rightarrow> fentry \<Rightarrow> nat \<Rightarrow> string" where
  "generate_repo_map g f max_depth = join [CHR 0x0A] (walk g (Suc max_depth) [] f)"

definition with_files :: "file_system \<Rightarrow> string \<Rightarrow> pydict \<Rightarrow> pydict" where
  "with_files fs root_path ctx =
     dset (dset (dset (dset (dset ctx ''repo_root'' (PStr root_path))
        ''has_py'' (PBool (fs_is_dir fs root_path ''py'')))
        ''has_rs'' (PBool (fs_is_dir fs root_path ''rs'')))
        ''top_level'' (str_list (case iterdir (fs_tree fs root_path) of None \<Rightarrow> [] | Some es \<Rightarrow> map fst (existing es))))
        ''repo_map'' (PStr (generate_repo_map (fs_glyphs fs) (fs_tree fs root_path) 3))"

section \<open>Stores\<close>

record context_stores =
  cs_procedures :: "string \<Rightarrow> string \<Rightarrow> nat \<Rightarrow> pydict list result"
  cs_episodes :: "string \<Rightarrow> string \<Rightarrow> string \<Rightarrow> nat \<Rightarrow> pydict list result"
  cs_memories :: "string \<Rightarrow> string \<Rightarrow> nat \<Rightarrow> pydict list result"

definition or_nothing :: "'a list result \<Rightarrow> 'a list" where
  "or_nothing r = (case r of Inl _ \<Rightarrow> [] | Inr xs \<Rightarrow> xs)"

definition load_cached_procedures :: "context_stores \<Rightarrow> pydict \<Rightarrow> pydict list" where
  "load_cached_procedures cs state =
     (let path = strip (gets state ''_procedure_cache_path'' []); request = strip (gets state ''request'' [])
      in if path = [] \<or> request = [] then [] else or_nothing (cs_procedures cs path request 3))"

definition load_episodic_context :: "context_stores \<Rightarrow> pydict \<Rightarrow> pydict list" where
  "load_episodic_context cs state =
     (let path = strip (gets state ''_run_store_path'' []);
          packet = as_dict (dget state ''recovery_packet'' (PDict []));
          fingerprint = strip (gets packet ''failure_fingerprint'' []);
          failure_class = strip (gets packet ''failure_class'' [])
      in if path = [] \<or> fingerprint = [] \<and> failure_class = [] then [] else or_nothing (cs_episodes cs path fingerprint failure_class 5))"

definition load_semantic_context :: "context_stores \<Rightarrow> pydict \<Rightarrow> pydict list" where
  "load_semantic_context cs state =
     (let path = strip (gets state ''_run_store_path'' []);
          query = semantic_query_from_request (gets state ''request'' [])
      in if path = [] \<or> query = [] then [] else or_nothing (cs_memories cs path query 5))"

section \<open>The node\<close>

definition persistent_repo_context_keys :: "string list" where
  "persistent_repo_context_keys = [''system_prompt'', ''structural_ast_map'', ''semantic_hits'']"

definition base_context :: "pydict \<Rightarrow> pydict" where
  "base_context state =
     (let old = as_dict (dget state ''repo_context'' (PDict []))
      in if py_bool (dget state ''context_reset_requested'' (PBool False))
         then concat (map (\<lambda>k. case map_of old k of Some v \<Rightarrow> [(k, v)] | None \<Rightarrow> []) persistent_repo_context_keys)
         else old)"

text \<open>An entry that is written when there is something to write.\<close>

definition dset_some :: "pydict \<Rightarrow> string \<Rightarrow> pyval \<Rightarrow> pydict" where
  "dset_some d k v = (if py_bool v then dset d k v else d)"

definition with_runner :: "http_post \<Rightarrow> pydict \<Rightarrow> pydict \<Rightarrow> pydict" where
  "with_runner post state ctx = (case runner_context_snapshot post state of
     Inl _ \<Rightarrow> ctx
   | Inr (ast_map, hits, query) \<Rightarrow>
       dset_some (dset_some (dset_some ctx ''structural_ast_map'' (PDict ast_map)) ''semantic_query'' (PStr query))
         ''semantic_hits'' (dict_list hits))"

definition with_mcp :: "http_post \<Rightarrow> pydict \<Rightarrow> pydict \<Rightarrow> pydict \<times> pydict list" where
  "with_mcp post state ctx = (case mcp_catalog_snapshot post state of
     Inl _ \<Rightarrow> (ctx, [])
   | Inr (summary, catalog, tools) \<Rightarrow>
       let names = map (\<lambda>t. strip (gets t ''name'' [])) (filter (\<lambda>t. py_bool (dget t ''name'' PNone)) tools);
           hints = mcp_recovery_hints state summary;
           c1 = dset_some ctx ''mcp_capabilities'' (PDict summary);
           c2 = dset_some c1 ''mcp_catalog'' (PStr catalog);
           c3 = (if names \<noteq> [] then dset c2 ''mcp_tools_catalog'' (PStr (''Available MCP tools: '' @ join '', '' names)) else c2);
           c4 = dset_some c3 ''mcp_hash_mismatches'' (dget summary ''mismatch_servers'' (PList []));
           c5 = dset_some c4 ''mcp_recovery_hints'' (PStr (fst hints))
       in (dset_some c5 ''mcp_relevant_tools'' (dict_list (snd hints)), tools))"

definition with_stores :: "context_stores \<Rightarrow> pydict \<Rightarrow> pydict \<Rightarrow> pydict" where
  "with_stores cs state ctx =
     dset_some (dset_some (dset_some ctx ''episodic_facts'' (dict_list (load_episodic_context cs state)))
       ''semantic_memories'' (dict_list (load_semantic_context cs state)))
       ''cached_procedures'' (dict_list (load_cached_procedures cs state))"

definition gathered :: "file_system \<Rightarrow> http_post \<Rightarrow> context_stores \<Rightarrow> string \<Rightarrow> pydict \<Rightarrow> pydict \<times> pydict list" where
  "gathered fs post cs root_path state =
     (let (ctx, tools) = with_mcp post state (with_runner post state (with_files fs root_path (base_context state)))
      in (with_stores cs state ctx, tools))"

definition layer_keys :: "string list" where
  "layer_keys = [''semantic_hits'', ''stable_prefix'', ''working_set'', ''planner_context'', ''compression'']"

definition with_layers :: "pydict \<Rightarrow> pydict \<Rightarrow> pydict" where
  "with_layers layers ctx = fold (\<lambda>k c. dset c k (dget layers k PNone)) layer_keys ctx"

definition layers_built :: "pydict \<Rightarrow> pydict" where
  "layers_built ctx =
     [(''event'', PStr ''context_layers_built''),
      (''stable_prefix_tokens'', dget (as_dict (dget ctx ''stable_prefix'' PNone)) ''token_estimate'' (PInt 0)),
      (''working_set_tokens'', dget (as_dict (dget ctx ''working_set'' PNone)) ''token_estimate'' (PInt 0)),
      (''compression'', dget ctx ''compression'' PNone)]"

definition context_end :: "clock \<Rightarrow> pydict \<Rightarrow> pydict \<Rightarrow> pydict list \<Rightarrow> pydict result" where
  "context_end now out ctx mcp_tools =
     bind_r (get_compression_summary out) (\<lambda>summary.
       let provenance = as_list (dget out ''provenance'' (PList [])) @ [PDict (layers_built ctx)];
           telemetry = dset (dset (as_dict (dget out ''telemetry'' (PDict [])))
             ''context_budget'' (PDict [(''stable_prefix'', dget ctx ''stable_prefix'' PNone), (''working_set'', dget ctx ''working_set'' PNone)]))
             ''compression_summary'' (PDict summary);
           out' = dset (dset (dset (dset out ''repo_context'' (PDict ctx)) ''provenance'' (PList (lastn 20 provenance)))
             ''telemetry'' (PDict telemetry)) ''mcp_tools'' (dict_list mcp_tools)
       in bind_r (append_event now out' ''node''
            [(''name'', PStr ''context_builder''), (''phase'', PStr ''end''),
             (''top_level'', PInt (int (length (as_list (dget ctx ''top_level'' PNone))))),
             (''planner_context_tokens'', dget (as_dict (dget ctx ''planner_context'' PNone)) ''token_estimate'' (PInt 0))])
          (\<lambda>out''. Inr (prune_pre_verification_history out'')))"

definition context_builder :: "file_system \<Rightarrow> http_post \<Rightarrow> context_stores \<Rightarrow> clock \<Rightarrow> pydict \<Rightarrow> pydict result" where
  "context_builder fs post cs now state0 =
     bind_r (record_model_route (ensure_history_policy state0) ''context_builder'' ''summarization'' ''router'') (\<lambda>state1.
     bind_r (node_event now state1 ''context_builder'' ''start'') (\<lambda>state.
     bind_r (case dget state ''_repo_root'' (PStr ''.'') of
               PStr p \<Rightarrow> Inr (fs_resolve fs p)
             | v \<Rightarrow> Inl (TypeError (''argument should be a str or an os.PathLike object, not '' @ type_name v))) (\<lambda>root_path.
       let (ctx0, mcp_tools) = gathered fs post cs root_path state;
           layers = fst (build_context_layers None state ctx0);
           ctx = with_layers layers ctx0
       in bind_r (or_default_int (as_dict (dget state ''budgets'' (PDict []))) ''current_loop'' 0) (\<lambda>current_loop.
          bind_r (record_compression_provenance state layers current_loop) (\<lambda>out.
            context_end now out ctx mcp_tools)))))"

section \<open>What the node leaves alone\<close>

definition builder_keys :: "string list" where
  "builder_keys = [''telemetry'', ''_trace_events'', ''history_policy'', ''tool_results'', ''provenance'', ''repo_context'', ''mcp_tools'']"

lemma record_compression_other:
  "record_compression_provenance s l n = Inr t \<Longrightarrow> k \<noteq> ''provenance'' \<Longrightarrow> map_of t k = map_of s k"
  by (auto simp: record_compression_provenance_def Let_def bind_r_eq_Inr)

lemma context_end_cases:
  assumes "context_end now out ctx tools = Inr t"
  shows "map_of t ''repo_context'' = Some (PDict ctx)" "map_of t ''mcp_tools'' = Some (dict_list tools)"
    "k \<notin> set builder_keys \<Longrightarrow> map_of t k = map_of out k"
proof -
  obtain pr tel data o2 where e: "append_event now (dset (dset (dset (dset out ''repo_context'' (PDict ctx)) ''provenance'' pr)
      ''telemetry'' tel) ''mcp_tools'' (dict_list tools)) ''node'' data = Inr o2" and t: "t = prune_pre_verification_history o2"
    using assms unfolding context_end_def Let_def bind_r_eq_Inr by blast
  note m = append_event_map_of [OF e]
  show "map_of t ''repo_context'' = Some (PDict ctx)" using m [of "''repo_context''"] by (simp add: t prune_pre_other)
  show "map_of t ''mcp_tools'' = Some (dict_list tools)" using m [of "''mcp_tools''"] by (simp add: t prune_pre_other)
  show "k \<notin> set builder_keys \<Longrightarrow> map_of t k = map_of out k" using m [of k] by (simp add: t prune_pre_other builder_keys_def)
qed

text \<open>A run of the node, with the state after its start event.\<close>

lemma context_builder_cases:
  assumes "context_builder fs post cs now s = Inr t"
  obtains s' root_path layers where
    "\<And>k. k \<notin> {''telemetry'', ''_trace_events'', ''history_policy''} \<Longrightarrow> map_of s' k = map_of s k"
    "map_of t ''repo_context'' = Some (PDict (with_layers layers (fst (gathered fs post cs root_path s'))))"
    "map_of t ''mcp_tools'' = Some (dict_list (snd (gathered fs post cs root_path s')))"
    "\<And>k. k \<notin> set builder_keys \<Longrightarrow> map_of t k = map_of s k"
proof -
  obtain s1 s' root_path current_loop out where
    s1: "record_model_route (ensure_history_policy s) ''context_builder'' ''summarization'' ''router'' = Inr s1"
    and s': "node_event now s1 ''context_builder'' ''start'' = Inr s'"
    and o1: "record_compression_provenance s' (fst (build_context_layers None s' (fst (gathered fs post cs root_path s')))) current_loop = Inr out"
    and t: "context_end now out (with_layers (fst (build_context_layers None s' (fst (gathered fs post cs root_path s'))))
       (fst (gathered fs post cs root_path s'))) (snd (gathered fs post cs root_path s')) = Inr t"
    using assms unfolding context_builder_def Let_def case_prod_beta bind_r_eq_Inr by blast
  have a: "map_of s' k = map_of s k" if "k \<notin> {''telemetry'', ''_trace_events'', ''history_policy''}" for k
    using that append_event_map_of [OF s', of k] record_model_route_other [OF s1, of k] ensure_history_policy_other [of k s] by simp
  have "map_of t k = map_of s k" if "k \<notin> set builder_keys" for k
    using context_end_cases(3) [OF t that] record_compression_other [OF o1, of k] a [of k] that by (simp add: builder_keys_def)
  then show thesis using that [OF a context_end_cases(1,2) [OF t]] by blast
qed

interpretation context_builder_keeps: loop_keeper "context_builder fs post cs now"
proof
  fix s t
  assume "context_builder fs post cs now s = Inr t"
  then have k: "map_of t k = map_of s k" if "k \<notin> set builder_keys" for k
    by (rule context_builder_cases) (use that in blast)
  show "loop_view t = loop_view s" by (simp add: loop_view_def dget_def k builder_keys_def)
qed

section \<open>No failure outside ends the run\<close>

lemma map_r_total: "(\<And>x. x \<in> set xs \<Longrightarrow> \<exists>y. f x = Inr y) \<Longrightarrow> \<exists>ys. map_r f xs = Inr ys"
proof (induction xs)
  case (Cons x xs)
  obtain y ys where "f x = Inr y" "map_r f xs = Inr ys" using Cons.IH Cons.prems by (meson list.set_intros)
  then show ?case by simp
qed simp

text \<open>The counters in the recorded compressions are numbers.\<close>

definition compression_ok :: "pydict \<Rightarrow> bool" where
  "compression_ok e \<longleftrightarrow> (\<forall>k\<in>set [''total_compressed'', ''total_dropped'', ''pressure_score'', ''loop''].
     case py_int (dget e k (PInt 0)) of Inr _ \<Rightarrow> True | Inl _ \<Rightarrow> False)"

definition provenance_ok :: "pydict \<Rightarrow> bool" where
  "provenance_ok s \<longleftrightarrow> list_all compression_ok (provenance_of s)"

lemma compression_okD:
  assumes "compression_ok e" "k \<in> set [''total_compressed'', ''total_dropped'', ''pressure_score'', ''loop'']"
  shows "\<exists>i. py_int (dget e k (PInt 0)) = Inr i"
proof -
  have "case py_int (dget e k (PInt 0)) of Inr _ \<Rightarrow> True | Inl _ \<Rightarrow> False"
    using assms unfolding compression_ok_def by (rule bspec)
  then show ?thesis by (cases "py_int (dget e k (PInt 0))") simp_all
qed

lemma get_compression_summary_total:
  assumes "provenance_ok s"
  shows "\<exists>r. get_compression_summary s = Inr r"
proof -
  let ?e = "filter (\<lambda>e. strip (gets e ''event'' []) = ''context_compression'') (provenance_of s)"
  have ok: "compression_ok e" if "e \<in> set ?e" for e using assms that by (auto simp: provenance_ok_def list_all_iff)
  have i: "\<exists>ys. map_r (\<lambda>e. py_int (dget e k (PInt 0))) ?e = Inr ys"
    if "k \<in> set [''total_compressed'', ''total_dropped'', ''pressure_score'']" for k
    using that by (intro map_r_total compression_okD ok) auto
  obtain cs ds ps where c: "map_r (\<lambda>e. py_int (dget e ''total_compressed'' (PInt 0))) ?e = Inr cs"
    "map_r (\<lambda>e. py_int (dget e ''total_dropped'' (PInt 0))) ?e = Inr ds"
    "map_r (\<lambda>e. py_int (dget e ''pressure_score'' (PInt 0))) ?e = Inr ps"
    using i [of "''total_compressed''"] i [of "''total_dropped''"] i [of "''pressure_score''"] by auto
  have "\<exists>ls. map_r (\<lambda>(e, c). py_int (dget e ''loop'' (PInt 0))) (filter (\<lambda>(e, c). 0 < c) (zip ?e cs)) = Inr ls"
    by (intro map_r_total) (auto dest!: set_zip_leftD intro!: compression_okD ok)
  then show ?thesis using c by (auto simp: get_compression_summary_def Let_def)
qed

lemma overall_pressure:
  "\<exists>a b d. as_dict (dget (as_dict (dget (as_dict (dget (fst (build_context_layers lt st c)) ''compression'' (PDict []))) ''pressure'' (PDict []))) ''overall'' (PDict []))
     = [(''score'', PInt a), (''compressed_segments'', PInt b), (''dropped_segments'', PInt d)]"
  by (simp add: build_context_layers_def Let_def)

lemma record_compression_entry:
  assumes "as_dict (dget (as_dict (dget (as_dict (dget L ''compression'' (PDict []))) ''pressure'' (PDict []))) ''overall'' (PDict []))
     = [(''score'', PInt a), (''compressed_segments'', PInt b), (''dropped_segments'', PInt d)]"
    "sp = dicts_of (as_list (dget (as_dict (dget L ''compression'' (PDict []))) ''stable_prefix'' (PList [])))"
    "wk = dicts_of (as_list (dget (as_dict (dget L ''compression'' (PDict []))) ''working_set'' (PList [])))"
  shows "record_compression_provenance s L n = Inr (dset s ''provenance'' (dict_list (lastn 20 (provenance_of s @
     [[(''event'', PStr ''context_compression''), (''version'', PInt 1), (''loop'', PInt n),
      (''stable_prefix_compressed'', PInt (count_action ''compressed'' sp)), (''stable_prefix_dropped'', PInt (count_action ''dropped'' sp)),
      (''working_set_compressed'', PInt (count_action ''compressed'' wk)), (''working_set_dropped'', PInt (count_action ''dropped'' wk)),
      (''total_compressed'', PInt b), (''total_dropped'', PInt d), (''pressure_score'', PInt a),
      (''stable_prefix_decisions'', dict_list (take 5 sp)), (''working_set_decisions'', dict_list (take 5 wk))]]))))"
proof -
  have o: "dget [(''score'', PInt a), (''compressed_segments'', PInt b), (''dropped_segments'', PInt d)] ''compressed_segments'' v = PInt b"
    "dget [(''score'', PInt a), (''compressed_segments'', PInt b), (''dropped_segments'', PInt d)] ''dropped_segments'' v = PInt d"
    "dget [(''score'', PInt a), (''compressed_segments'', PInt b), (''dropped_segments'', PInt d)] ''score'' v = PInt a" for v
    by simp_all
  show ?thesis
    unfolding record_compression_provenance_def Let_def assms o py_int_PInt bind_r_Inr ..
qed
lemma record_compression_total:
  assumes "provenance_ok s"
  shows "\<exists>out. record_compression_provenance s (fst (build_context_layers lt st c)) n = Inr out \<and> provenance_ok out"
proof -
  obtain a b d where o: "as_dict (dget (as_dict (dget (as_dict (dget (fst (build_context_layers lt st c)) ''compression'' (PDict []))) ''pressure'' (PDict []))) ''overall'' (PDict []))
     = [(''score'', PInt a), (''compressed_segments'', PInt b), (''dropped_segments'', PInt d)]" using overall_pressure by blast
  obtain e where r: "record_compression_provenance s (fst (build_context_layers lt st c)) n =
      Inr (dset s ''provenance'' (dict_list (lastn 20 (provenance_of s @ [e]))))" and e: "compression_ok e"
    using record_compression_entry [OF o refl refl, of s n] by (rule that) (simp add: compression_ok_def)
  have "list_all compression_ok (lastn 20 (provenance_of s @ [e]))"
    using assms e set_lastn_subset [of 20 "provenance_of s @ [e]"] by (auto simp: provenance_ok_def list_all_iff)
  then show ?thesis using r by (simp add: provenance_ok_def provenance_of_def)
qed

lemma context_end_total:
  assumes "provenance_ok s" "trace_ok s"
  shows "\<exists>t. context_end now s ctx tools = Inr t"
proof -
  obtain r where r: "get_compression_summary s = Inr r" using get_compression_summary_total [OF assms(1)] by blast
  have "\<exists>o2. append_event now (dset (dset (dset (dset s ''repo_context'' a) ''provenance'' b) ''telemetry'' c) ''mcp_tools'' d) k data = Inr o2" for a b c d k data
    using append_event_total [of "dset (dset (dset (dset s ''repo_context'' a) ''provenance'' b) ''telemetry'' c) ''mcp_tools'' d" now k data] assms(2) by auto
  then show ?thesis unfolding context_end_def Let_def r bind_r_Inr by (metis bind_r_Inr)
qed

lemma context_builder_total:
  assumes "trace_ok s" "provenance_ok s" "dget s ''_repo_root'' (PStr ''.'') = PStr p"
    and "or_default_int (as_dict (dget s ''budgets'' (PDict []))) ''current_loop'' 0 = Inr i"
    and "record_model_route (ensure_history_policy s) ''context_builder'' ''summarization'' ''router'' = Inr s1"
  shows "\<exists>t. context_builder fs post cs now s = Inr t"
proof -
  have d1: "dget s1 k v = dget s k v" if "k \<noteq> ''telemetry''" "k \<noteq> ''history_policy''" for k v
    using record_model_route_other [OF assms(5) that(1)] ensure_history_policy_other [OF that(2)] by (simp add: dget_def)
  have "trace_ok s1" using assms(1) trace_ok_cong [of s s1] d1 by simp
  then obtain s2 where s2: "node_event now s1 ''context_builder'' ''start'' = Inr s2" "trace_ok s2" using append_event_total by blast
  have d2: "dget s2 k v = dget s k v" if "k \<noteq> ''telemetry''" "k \<noteq> ''history_policy''" "k \<noteq> ''_trace_events''" for k v
    using append_event_map_of [OF s2(1) that(3)] d1 [OF that(1,2)] by (simp add: dget_def)
  have pr: "provenance_ok s2" using assms(2) d2 by (simp add: provenance_ok_def provenance_of_def)
  let ?g = "gathered fs post cs (fs_resolve fs p) s2"
  obtain out where out: "record_compression_provenance s2 (fst (build_context_layers None s2 (fst ?g))) i = Inr out" "provenance_ok out"
    using record_compression_total [OF pr] by blast
  have "trace_ok out" using s2(2) record_compression_other [OF out(1), of "''_trace_events''"] trace_ok_cong [of s2 out] by (simp add: dget_def)
  then obtain t where "context_end now out (with_layers (fst (build_context_layers None s2 (fst ?g))) (fst ?g)) (snd ?g) = Inr t"
    using context_end_total out(2) by blast
  then show ?thesis
    using assms(3-5) s2(1) out(1) by (simp add: context_builder_def d2 Let_def case_prod_beta)
qed

text \<open>
  Nothing outside can stop the node: once the call is routed, with an intact trace and numeric counters, it
  returns a state, whatever the file system, the runner, the MCP servers and the stores answer.
\<close>

theorem context_builder_survives:
  assumes "trace_ok s" "provenance_ok s" "dget s ''_repo_root'' (PStr ''.'') = PStr p"
    and "or_default_int (as_dict (dget s ''budgets'' (PDict []))) ''current_loop'' 0 = Inr i"
    and "record_model_route (ensure_history_policy s) ''context_builder'' ''summarization'' ''router'' = Inr s1"
  shows "\<exists>t. context_builder fs post cs now s = Inr t"
  by (rule context_builder_total [OF assms])

lemma record_model_route_total:
  assumes "py_int (dget (as_dict (dget s ''budgets'' (PDict []))) ''current_loop'' (PInt 0)) = Inr i"
    and "or_default_int (as_dict (dget s ''_model_routing_policy'' (PDict []))) ''interactive_context_limit'' 1800 = Inr a"
    and "or_default_int (as_dict (dget s ''_model_routing_policy'' (PDict []))) ''deep_planning_context_limit'' 3200 = Inr b"
    and "or_default_int (as_dict (dget s ''_model_routing_policy'' (PDict []))) ''recovery_retry_threshold'' 1 = Inr c"
    and "strip (gets (as_dict (dget s ''route'' (PDict []))) ''lane'' []) \<in> insert [] (set route_lanes)"
  shows "\<exists>t. record_model_route s node tc slot = Inr t"
proof -
  have "\<exists>t. bind_r (decide_model_route x) (\<lambda>d. Inr (f d)) = Inr t" if "norm_lane x \<in> insert [] (set route_lanes)" for x and f :: "ModelRoutingDecision \<Rightarrow> pydict"
    using decide_model_route_total [OF that] by auto
  note t = this
  show ?thesis unfolding record_model_route_def Let_def assms(1-4) bind_r_Inr
    by (rule t) (use assms(5) in \<open>auto simp: norm_lane_def\<close>)
qed

text \<open>An environment in which every request and every store fails.\<close>

definition demo_fs :: file_system where
  "demo_fs = \<lparr> fs_resolve = (\<lambda>p. p), fs_tree = (\<lambda>_. Folder None), fs_is_dir = (\<lambda>_ _. False),
     fs_glyphs = \<lparr> tg_last = ''+-- '', tg_middle = ''|-- '', tg_bar = ''|   '' \<rparr> \<rparr>"

definition demo_stores :: context_stores where
  "demo_stores = \<lparr> cs_procedures = (\<lambda>_ _ _. Inl (OSError [])), cs_episodes = (\<lambda>_ _ _ _. Inl (OSError [])),
     cs_memories = (\<lambda>_ _ _. Inl (OSError [])) \<rparr>"

definition demo_request :: pydict where
  "demo_request = [(''request'', PStr ''explain''), (''_runner_base_url'', PStr ''http://r''), (''_mcp_enabled'', PBool True),
     (''_mcp_servers'', PDict demo_servers), (''context_reset_requested'', PBool True),
     (''repo_context'', PDict [(''episodic_facts'', PList [PDict []])])]"

lemma demo_request_facts:
  "trace_ok demo_request" "provenance_ok demo_request" "dget demo_request ''_repo_root'' (PStr ''.'') = PStr ''.''"
  "or_default_int (as_dict (dget demo_request ''budgets'' (PDict []))) ''current_loop'' 0 = Inr 0"
  by (simp_all add: demo_request_def trace_ok_def provenance_ok_def provenance_of_def or_default_int_def or_val_def)

lemma demo_request_routed:
  obtains s1 where "record_model_route (ensure_history_policy demo_request) ''context_builder'' ''summarization'' ''router'' = Inr s1"
proof -
  have d: "dget (ensure_history_policy demo_request) k v = v" if "k \<in> {''_models'', ''_model_routing_policy'', ''route'', ''budgets''}" for k v
    using that ensure_history_policy_other [of k demo_request] by (auto simp: dget_def demo_request_def)
  have "\<exists>s1. record_model_route (ensure_history_policy demo_request) ''context_builder'' ''summarization'' ''router'' = Inr s1"
    by (rule record_model_route_total) (simp_all add: d or_default_int_def or_val_def)
  then show thesis using that by blast
qed

theorem context_builder_survives_witness:
  "\<exists>t. context_builder demo_fs (\<lambda>_ _ _ _. TransportError []) demo_stores (\<lambda>_. 0) demo_request = Inr t"
proof -
  obtain s1 where "record_model_route (ensure_history_policy demo_request) ''context_builder'' ''summarization'' ''router'' = Inr s1"
    by (rule demo_request_routed)
  then show ?thesis by (rule context_builder_survives [OF demo_request_facts])
qed

section \<open>Only tools of servers that keep their pin\<close>

lemma gathered_tools:
  assumes "tool \<in> set (snd (gathered fs post cs root_path s))"
  obtains client raw where "discover_tools post client (as_dict (dget s ''_mcp_servers'' (PDict []))) = Inr raw"
    "tool \<in> set raw" "\<not> is_mismatch tool"
proof -
  obtain summary catalog tools where m: "mcp_catalog_snapshot post s = Inr (summary, catalog, tools)" "tool \<in> set tools"
    using assms by (auto simp: gathered_def with_mcp_def Let_def case_prod_beta split: sum.splits prod.splits)
  then show thesis using that
    by (auto simp: mcp_catalog_snapshot_def Let_def bind_r_eq_Inr split: if_splits option.splits)
qed

text \<open>
  C29. The planner is offered no tool of a server that broke its pin: if a tool that the node puts into the state carries
  the name of a server with a pin, that server is configured, and the tool is an entry of a tool list whose hash is the
  pinned one, with nothing but the name of the server and the hash added to it.
\<close>

theorem context_tools_pinned:
  assumes "context_builder fs post cs now s = Inr t"
    and "tool \<in> set (dicts_of (as_list (dget t ''mcp_tools'' PNone)))"
    and "expected_hash (as_dict (dget s ''_mcp_servers'' (PDict []))) (gets tool ''server_name'' []) \<noteq> []"
  shows "\<exists>tools d. compute_tools_hash tools = expected_hash (as_dict (dget s ''_mcp_servers'' (PDict []))) (gets tool ''server_name'' []) \<and>
     PDict d \<in> set tools \<and>
     tool = dset (dset d ''server_name'' (dget tool ''server_name'' PNone)) ''_schema_hash'' (PStr (compute_tools_hash tools)) \<and>
     gets tool ''server_name'' [] \<in> fst ` set (as_dict (dget s ''_mcp_servers'' (PDict [])))"
  using assms(1)
proof (rule context_builder_cases)
  fix s' root_path
  assume same: "\<And>k. k \<notin> {''telemetry'', ''_trace_events'', ''history_policy''} \<Longrightarrow> map_of s' k = map_of s k"
    and t: "map_of t ''mcp_tools'' = Some (dict_list (snd (gathered fs post cs root_path s')))"
  have "tool \<in> set (snd (gathered fs post cs root_path s'))" using assms(2) t by (simp add: dget_def)
  then obtain client raw where "discover_tools post client (as_dict (dget s' ''_mcp_servers'' (PDict []))) = Inr raw" "tool \<in> set raw" "\<not> is_mismatch tool"
    by (rule gathered_tools)
  moreover have "dget s' ''_mcp_servers'' (PDict []) = dget s ''_mcp_servers'' (PDict [])" using same [of "''_mcp_servers''"] by (simp add: dget_def)
  ultimately have "discover_tools post client (as_dict (dget s ''_mcp_servers'' (PDict []))) = Inr raw" "tool \<in> set raw" "\<not> is_mismatch tool" by simp_all
  from pinned_tools_match [OF this assms(3)] show ?thesis .
qed

theorem context_tools_pinned_witness:
  "\<exists>t tool. context_builder demo_fs (demo_answer (json_dumps False '','' '':'' (PList demo_tools))) demo_stores (\<lambda>_. 0) demo_request = Inr t \<and>
     tool \<in> set (dicts_of (as_list (dget t ''mcp_tools'' PNone))) \<and>
     (\<exists>tools d. compute_tools_hash tools = expected_hash demo_servers (gets tool ''server_name'' []) \<and> PDict d \<in> set tools)"
proof -
  let ?post = "demo_answer (json_dumps False '','' '':'' (PList demo_tools))"
  let ?tool = "[(''name'', PStr ''read''), (''server_name'', PStr ''s''), (''_schema_hash'', PStr (compute_tools_hash demo_tools))]"
  obtain s1 where r: "record_model_route (ensure_history_policy demo_request) ''context_builder'' ''summarization'' ''router'' = Inr s1"
    by (rule demo_request_routed)
  obtain t where t: "context_builder demo_fs ?post demo_stores (\<lambda>_. 0) demo_request = Inr t"
    using context_builder_total [OF demo_request_facts r] by blast
  have sv: "as_dict (dget demo_request ''_mcp_servers'' (PDict [])) = demo_servers" by (simp add: demo_request_def)
  have i: "?tool \<in> set (dicts_of (as_list (dget t ''mcp_tools'' PNone)))"
    using t
  proof (rule context_builder_cases)
    fix s' root_path
    assume same: "\<And>k. k \<notin> {''telemetry'', ''_trace_events'', ''history_policy''} \<Longrightarrow> map_of s' k = map_of demo_request k"
      and tools: "map_of t ''mcp_tools'' = Some (dict_list (snd (gathered demo_fs ?post demo_stores root_path s')))"
    have c: "runner_client_from_state s' = Some demo_runner"
      by (simp add: runner_client_from_state_def dget_def same demo_request_def demo_runner_def validate_base_url_fn_def opt_text_def strip_ends is_space_def code_def)
    have m: "py_bool (dget s' ''_mcp_enabled'' (PBool False))" "as_dict (dget s' ''_mcp_servers'' (PDict [])) = demo_servers" "demo_servers \<noteq> []"
      by (simp_all add: dget_def same demo_request_def demo_servers_def)
    have "mcp_catalog_snapshot ?post s' = Inr (summarize_tools [?tool], strip (gets (summarize_tools [?tool]) ''summary'' []), [?tool])"
      unfolding mcp_catalog_snapshot_def Let_def c m(2) option.case demo_discovered bind_r_Inr using m(1,3) by (simp add: is_mismatch_def)
    then show ?thesis using tools by (simp add: gathered_def with_mcp_def Let_def case_prod_beta dget_def)
  qed
  have "compute_tools_hash demo_tools \<noteq> []" using length_sha256_hex by (metis compute_tools_hash_def list.size(3) zero_neq_numeral)
  moreover have "expected_hash demo_servers ''s'' = compute_tools_hash demo_tools" 
    using pin_unchanged [OF sha256_hex_valid] by (simp add: expected_hash_def demo_servers_def compute_tools_hash_def)
  ultimately have "expected_hash (as_dict (dget demo_request ''_mcp_servers'' (PDict []))) (gets ?tool ''server_name'' []) \<noteq> []"
    by (simp add: sv)
  from context_tools_pinned [OF t i this] show ?thesis using t i unfolding sv by blast
qed

section \<open>A reset forgets\<close>

lemma map_of_dset_some: "map_of (dset_some d k v) k' = (if k' = k \<and> py_bool v then Some v else map_of d k')"
  by (simp add: dset_some_def)

lemma base_context_reset:
  assumes "py_bool (dget s ''context_reset_requested'' (PBool False))" "k \<notin> set persistent_repo_context_keys"
  shows "map_of (base_context s) k = None"
  using assms by (auto simp: base_context_def Let_def map_of_eq_None_iff split: option.splits)

definition recall_keys :: "string list" where
  "recall_keys = [''episodic_facts'', ''semantic_memories'', ''cached_procedures'']"

definition recalled :: "pydict list \<Rightarrow> pyval option" where
  "recalled ds = (if ds = [] then None else Some (dict_list ds))"

lemma with_files_recall: "k \<in> set recall_keys \<Longrightarrow> map_of (with_files fs r c) k = map_of c k"
  by (auto simp: with_files_def recall_keys_def)

lemma with_runner_recall: "k \<in> set recall_keys \<Longrightarrow> map_of (with_runner post s c) k = map_of c k"
  by (auto simp: with_runner_def map_of_dset_some recall_keys_def split: sum.splits prod.splits)

lemma with_mcp_recall: "k \<in> set recall_keys \<Longrightarrow> map_of (fst (with_mcp post s c)) k = map_of c k"
proof -
  assume "k \<in> set recall_keys"
  then have k: "k \<noteq> ''mcp_capabilities''" "k \<noteq> ''mcp_catalog''" "k \<noteq> ''mcp_tools_catalog''" "k \<noteq> ''mcp_hash_mismatches''"
    "k \<noteq> ''mcp_recovery_hints''" "k \<noteq> ''mcp_relevant_tools''" by (auto simp: recall_keys_def)
  have other: "map_of (dset_some d k' v) k = map_of d k" "map_of (dset d k' v) k = map_of d k" if "k \<noteq> k'" for d k' v
    using that by (simp_all add: dset_some_def)
  have "map_of (if b then dset d ''mcp_tools_catalog'' v else d) k = map_of d k" for b d v
    using other(2) [OF k(3)] by simp
  then show ?thesis
    by (cases "mcp_catalog_snapshot post s") (simp_all only: with_mcp_def Let_def other k not_False_eq_True sum.case split_beta fst_conv)
qed

lemma with_layers_recall: "k \<in> set recall_keys \<Longrightarrow> map_of (with_layers l c) k = map_of c k"
  by (auto simp: with_layers_def layer_keys_def recall_keys_def)

lemma gathered_recall:
  assumes "py_bool (dget s ''context_reset_requested'' (PBool False))"
  shows "map_of (fst (gathered fs post cs root_path s)) ''episodic_facts'' = recalled (load_episodic_context cs s)"
    "map_of (fst (gathered fs post cs root_path s)) ''semantic_memories'' = recalled (load_semantic_context cs s)"
    "map_of (fst (gathered fs post cs root_path s)) ''cached_procedures'' = recalled (load_cached_procedures cs s)"
proof -
  let ?c = "fst (with_mcp post s (with_runner post s (with_files fs root_path (base_context s))))"
  have n: "map_of ?c k = None" if "k \<in> set recall_keys" for k
  proof -
    have "k \<notin> set persistent_repo_context_keys" using that by (auto simp: recall_keys_def persistent_repo_context_keys_def)
    then show ?thesis using base_context_reset [OF assms] by (simp add: with_mcp_recall with_runner_recall with_files_recall that)
  qed
  have g: "fst (gathered fs post cs root_path s) = with_stores cs s ?c" by (simp add: gathered_def case_prod_beta)
  show "map_of (fst (gathered fs post cs root_path s)) ''episodic_facts'' = recalled (load_episodic_context cs s)"
    "map_of (fst (gathered fs post cs root_path s)) ''semantic_memories'' = recalled (load_semantic_context cs s)"
    "map_of (fst (gathered fs post cs root_path s)) ''cached_procedures'' = recalled (load_cached_procedures cs s)"
    unfolding g by (simp_all add: with_stores_def map_of_dset_some recalled_def n recall_keys_def)
qed

lemma load_cong:
  assumes "\<And>k. k \<notin> {''telemetry'', ''_trace_events'', ''history_policy''} \<Longrightarrow> map_of s' k = map_of s k"
  shows "load_episodic_context cs s' = load_episodic_context cs s" "load_semantic_context cs s' = load_semantic_context cs s"
    "load_cached_procedures cs s' = load_cached_procedures cs s"
    "dget s' ''context_reset_requested'' v = dget s ''context_reset_requested'' v"
  using assms by (simp_all add: load_episodic_context_def load_semantic_context_def load_cached_procedures_def dget_def)

text \<open>
  A requested reset forgets what was recalled: the facts, memories and procedures in the new context are exactly
  those that the stores return now, and when they return nothing the context has none, whatever
  the old context held.
\<close>

theorem context_reset_forgets:
  assumes "context_builder fs post cs now s = Inr t" "py_bool (dget s ''context_reset_requested'' (PBool False))"
  shows "\<exists>ctx. dget t ''repo_context'' PNone = PDict ctx \<and>
     map_of ctx ''episodic_facts'' = recalled (load_episodic_context cs s) \<and>
     map_of ctx ''semantic_memories'' = recalled (load_semantic_context cs s) \<and>
     map_of ctx ''cached_procedures'' = recalled (load_cached_procedures cs s)"
  using assms(1)
proof (rule context_builder_cases)
  fix s' root_path layers
  let ?ctx = "with_layers layers (fst (gathered fs post cs root_path s'))"
  assume same: "\<And>k. k \<notin> {''telemetry'', ''_trace_events'', ''history_policy''} \<Longrightarrow> map_of s' k = map_of s k"
    and t: "map_of t ''repo_context'' = Some (PDict ?ctx)"
  have r: "py_bool (dget s' ''context_reset_requested'' (PBool False))" using assms(2) load_cong(4) [OF same] by simp
  have "map_of ?ctx k = map_of (fst (gathered fs post cs root_path s')) k" if "k \<in> set recall_keys" for k
    by (rule with_layers_recall [OF that])
  then show ?thesis
    using t gathered_recall [OF r, of fs post cs root_path] load_cong(1-3) [OF same, of cs]
    by (intro exI [of _ ?ctx]) (simp add: dget_def recall_keys_def)
qed

theorem context_reset_forgets_witness:
  "\<exists>t ctx. context_builder demo_fs (\<lambda>_ _ _ _. TransportError []) demo_stores (\<lambda>_. 0) demo_request = Inr t \<and>
     dget t ''repo_context'' PNone = PDict ctx \<and> map_of ctx ''episodic_facts'' = None"
proof -
  obtain s1 where r: "record_model_route (ensure_history_policy demo_request) ''context_builder'' ''summarization'' ''router'' = Inr s1"
    by (rule demo_request_routed)
  obtain t where t: "context_builder demo_fs (\<lambda>_ _ _ _. TransportError []) demo_stores (\<lambda>_. 0) demo_request = Inr t"
    using context_builder_total [OF demo_request_facts r] by blast
  have "load_episodic_context demo_stores demo_request = []" by (simp add: load_episodic_context_def demo_request_def Let_def)
  moreover have "py_bool (dget demo_request ''context_reset_requested'' (PBool False))" by (simp add: demo_request_def)
  ultimately show ?thesis using context_reset_forgets [OF t] t by (auto simp: recalled_def)
qed

end
