(* ===== verification/Router_Remote.thy ===== *)
theory Router_Remote
  imports Planner_Node
begin

text \<open>
  The remote half of \<open>nodes/router.py\<close>: the request to the model of the router slot and the decoding of its answer.
  The prompt file, the language model, the message of a JSON error and pydantic's validation of a
  decision are parameters. The result is the function that the router node calls.
\<close>

definition router_system_prompt :: string where
  "router_system_prompt = ''You are a router for a repo-aware coding orchestrator. Return strict JSON only.''"

definition router_user_prompt :: "pydict \<Rightarrow> RouterDecision \<Rightarrow> string" where
  "router_user_prompt state def =
     (let nl = [CHR 0x0A];
          planner_context = as_dict (dget (as_dict (dget state ''repo_context'' (PDict []))) ''planner_context'' (PDict []))
      in ''Classify the request and choose the best orchestration lane.'' @ nl @ ''Return only JSON.'' @ nl @ nl @
         ''request: '' @ strip (gets state ''request'' []) @ nl @
         ''default_route: '' @ json_dumps False '','' '':'' (PDict (dump_router_decision def)) @ nl @
         ''planner_context_tokens: '' @ py_str (dget planner_context ''token_estimate'' (PInt 0)) @ nl @
         ''verification: '' @ dumps_plain (dget state ''verification'' (PDict [])) @ nl)"

definition decode_route :: "plan_env \<Rightarrow> (pydict \<Rightarrow> RouterDecision result) \<Rightarrow> string \<Rightarrow> RouterDecision result" where
  "decode_route env validate raw = (case json_loads (planner_json_block raw) of
     None \<Rightarrow> Inl (OtherError ''JSONDecodeError'' (pe_json_error env (planner_json_block raw)))
   | Some (PDict d) \<Rightarrow> validate d
   | Some _ \<Rightarrow> Inl (ValueError ''router completion did not return an object''))"

definition router_remote :: "plan_env \<Rightarrow> (pydict \<Rightarrow> RouterDecision result) \<Rightarrow> remote_router" where
  "router_remote env validate state def route_decision =
     (let slot = as_dict (dget (as_dict (dget state ''_models'' (PDict []))) ''router'' (PDict []))
      in bind_r (temperature_of (dget slot ''temperature'' (PFloat 0 0))) (\<lambda>temperature.
         case resolve_inference_client state ''router'' of
           Inl _ \<Rightarrow> Inr (None, None)
         | Inr ((base_url, api_key, timeout_s), model) \<Rightarrow>
             bind_r (text_or_empty (pe_read_file env (gets state ''_repo_root'' ''.'') ''prompts/router.md'')) (\<lambda>prompt_text.
             bind_r (ask_planner_model env (strip (rd_lane def))
                 \<lparr> lr_model = model, lr_api_key = api_key, lr_base_url = base_url, lr_timeout_s = timeout_s,
                   lr_system_prompt = or_str (strip prompt_text) router_system_prompt, lr_user_prompt = router_user_prompt state def,
                   pq_temperature = temperature, pq_max_tokens = 700 \<rparr>) (\<lambda>(raw, meta).
             bind_r (decode_route env validate raw) (\<lambda>r. Inr (Some r, meta))))))"

section \<open>Every route is legal\<close>

lemma decode_route_validated: "decode_route env validate raw = Inr r \<Longrightarrow> \<exists>d. validate d = Inr r"
  by (auto simp: decode_route_def split: option.splits pyval.splits)

lemma remote_decision:
  assumes "router_remote env validate s def rd = Inr (Some r, m)"
  shows "\<exists>d. validate d = Inr r"
proof -
  obtain c where c: "resolve_inference_client s ''router'' = Inr c"
    using assms by (cases "resolve_inference_client s ''router''") (auto simp: router_remote_def Let_def bind_r_eq_Inr)
  have "\<exists>raw. decode_route env validate raw = Inr r"
    using assms unfolding router_remote_def Let_def c sum.case case_prod_beta bind_r_eq_Inr by auto
  then show ?thesis using decode_route_validated by blast
qed

lemma default_route_checked: "default_route s = Inr d \<Longrightarrow> check_router_decision d = Inr d"
  by (auto simp: default_route_def bind_r_eq_Inr check_router_decision_def split: if_splits)

text \<open>A decision that passed the validation has a legal intent and a legal lane.\<close>

lemma checked_route: "check_router_decision d = Inr d \<Longrightarrow> rd_intent d \<in> set intents \<and> rd_lane d \<in> set route_lanes"
  by (auto simp: check_router_decision_def split: if_splits)

lemma route_payload_fields:
  "dget (route_payload r rd) ''intent'' v = PStr (rd_intent r)" "dget (route_payload r rd) ''lane'' v = PStr (rd_lane r)"
  by (simp_all add: route_payload_def Let_def dump_router_decision_def)

text \<open>
  The route is well typed whatever a model answers: after the router the state carries a route whose intent
  and lane are legal, provided that the validation lets only legal decisions pass.
\<close>

theorem router_route_legal:
  assumes "router (router_remote env validate) now s = Inr t"
    and "\<And>d r. validate d = Inr r \<Longrightarrow> check_router_decision r = Inr r"
  shows "\<exists>p i l. dget t ''route'' PNone = PDict p \<and> dget p ''intent'' PNone = PStr i \<and> i \<in> set intents \<and>
     dget p ''lane'' PNone = PStr l \<and> l \<in> set route_lanes"
proof -
  obtain def s2 tel data where def: "default_route s = Inr def"
    and e: "append_event now (dset (router_out (router_remote env validate) s2 def) ''telemetry'' tel) ''node'' data = Inr t"
    using assms(1) unfolding router_def Let_def bind_r_eq_Inr by blast
  let ?rd = "latest_model_route s2 ''router''"
  obtain r where r: "map_of (router_out (router_remote env validate) s2 def) ''route'' = Some (PDict (route_payload r ?rd))"
    and ok: "check_router_decision r = Inr r"
  proof (cases "router_model_output (router_remote env validate) s2 def ?rd")
    case (Inl exc)
    then show thesis using default_route_checked [OF def] by (intro that [of def]) (simp_all add: router_out_def with_route_def Let_def)
  next
    case (Inr rr)
    let ?r = "case fst rr of Some r \<Rightarrow> r | None \<Rightarrow> def"
    have "check_router_decision ?r = Inr ?r"
    proof (cases "fst rr")
      case (Some r)
      then have "router_remote env validate s2 def ?rd = Inr (Some r, snd rr)" using Inr by (cases rr) (simp add: router_model_output_def split: if_splits)
      then show ?thesis using remote_decision assms(2) Some by fastforce
    qed (use default_route_checked [OF def] in simp)
    then show thesis using Inr by (intro that [of ?r]) (simp_all add: router_out_def with_route_def record_inference_other Let_def)
  qed
  have "dget t ''route'' PNone = PDict (route_payload r ?rd)" using append_event_map_of [OF e, of "''route''"] r by (simp add: dget_def)
  then show ?thesis using checked_route [OF ok] by (auto simp: route_payload_fields)
qed

definition checked_only :: "pydict \<Rightarrow> RouterDecision result" where
  "checked_only d = check_router_decision
     \<lparr> rd_intent = gets d ''intent'' [], rd_task_class = ''analysis'', rd_lane = gets d ''lane'' ''interactive'', rd_rationale = [],
       rd_context_scope = ''stable_prefix'', rd_latency_sensitive = True, rd_cache_affinity = [], rd_prefix_segment = ''stable_prefix'',
       rd_provider_used = ''local'', rd_provider = [], rd_model = [], rd_context_tokens = 0, rd_compression_pressure = 0, rd_fact_count = 0 \<rparr>"

definition chatty_env :: plan_env where
  "chatty_env = \<lparr> pe_diversity = None, pe_sla_select = None, pe_read_file = (\<lambda>_ _. Inr None),
     pe_stream = (\<lambda>_. Inr (''{'' @ [CHR 0x22] @ ''intent'' @ [CHR 0x22] @ '': '' @ [CHR 0x22] @ ''debug'' @ [CHR 0x22] @ ''}'')),
     pe_chat = (\<lambda>_. Inl (RuntimeError [])), pe_json_error = (\<lambda>_. []), pe_schema_ok = (\<lambda>_. True),
     pe_validate_plan = (\<lambda>_. Inl (ValueError [])) \<rparr>"

definition routed_state :: pydict where
  "routed_state = [(''request'', PStr ''explain''),
     (''_models'', PDict [(''router'', PDict [(''provider'', PStr ''openai_compatible''), (''model'', PStr ''m'')])]),
     (''_model_provider_runtime'', PDict [(''openai_compatible'', PDict [(''api_key'', PStr ''k''), (''base_url'', PStr ''http://m'')])])]"

theorem router_route_legal_witness:
  "\<exists>t p i. router (router_remote chatty_env checked_only) (\<lambda>_. 0) routed_state = Inr t \<and>
     dget t ''route'' PNone = PDict p \<and> dget p ''intent'' PNone = PStr i \<and> i \<in> set intents"
proof -
  have "(case router (router_remote chatty_env checked_only) (\<lambda>_. 0) routed_state of Inr _ \<Rightarrow> True | Inl _ \<Rightarrow> False) = True" by code_simp
  then obtain t where t: "router (router_remote chatty_env checked_only) (\<lambda>_. 0) routed_state = Inr t" by (auto split: sum.splits)
  have "check_router_decision r = Inr r" if "checked_only d = Inr r" for d r
    using that by (auto simp: checked_only_def check_router_decision_def split: if_splits)
  then show ?thesis using router_route_legal [OF t] t by blast
qed

end
