(* ===== verification/Approval_Policy.thy ===== *)
theory Approval_Policy
  imports Py_Prelude "HOL-Library.Multiset"
begin

text \<open>
  The approval policies of \<open>approval_policy.py\<close> (timed, quorum, role), the stateless engine that evaluates
  them, and the two operations of the service (\<open>set_approval_policy\<close> and the vote of \<open>cast_vote\<close> in
  \<open>api/service.py\<close>) that keep a decision per run. Times are rational numbers; the readings of the clock
  are arguments.
\<close>

section \<open>Policies, votes and decisions\<close>

record TimedApprovalPolicy =
  timeout_seconds :: rat
  auto_action :: string

record QuorumApprovalPolicy =
  required_approvals :: int
  required_rejections :: int
  allowed_reviewers :: "string list"

record RoleApprovalPolicy =
  required_roles :: "string list"
  require_all_roles :: bool

datatype ApprovalPolicy =
    Timed TimedApprovalPolicy
  | Quorum QuorumApprovalPolicy
  | Role RoleApprovalPolicy

record ApprovalVote =
  reviewer_id :: string
  av_role :: "string option"
  av_action :: string
  av_timestamp :: rat
  av_comment :: string

record ApprovalDecision =
  ad_run_id :: string
  ad_status :: string
  ad_policy :: ApprovalPolicy
  ad_votes :: "ApprovalVote list"
  ad_created_at :: rat
  ad_resolved_at :: "rat option"

section \<open>The engine\<close>

definition evaluate_timed :: "TimedApprovalPolicy \<Rightarrow> rat \<Rightarrow> string" where
  "evaluate_timed policy elapsed =
     (if timeout_seconds policy \<le> elapsed
      then if auto_action policy = ''approve'' then ''approved'' else ''timed_out''
      else ''pending'')"

definition counted_votes :: "QuorumApprovalPolicy \<Rightarrow> ApprovalVote list \<Rightarrow> ApprovalVote list" where
  "counted_votes policy votes =
     (if allowed_reviewers policy \<noteq> []
      then filter (\<lambda>v. reviewer_id v \<in> set (allowed_reviewers policy)) votes else votes)"

definition action_count :: "string \<Rightarrow> ApprovalVote list \<Rightarrow> int" where
  "action_count a votes = int (length (filter (\<lambda>v. av_action v = a) votes))"

definition evaluate_quorum :: "QuorumApprovalPolicy \<Rightarrow> ApprovalVote list \<Rightarrow> string" where
  "evaluate_quorum policy votes =
     (let filtered = counted_votes policy votes;
          approvals = action_count ''approve'' filtered;
          rejections = action_count ''reject'' filtered
      in if required_rejections policy \<le> rejections then ''rejected''
         else if required_approvals policy \<le> approvals then ''approved''
         else ''pending'')"

definition has_role :: "string list \<Rightarrow> string \<Rightarrow> ApprovalVote \<Rightarrow> bool" where
  "has_role roles a v = (av_action v = a \<and> (case av_role v of Some r \<Rightarrow> r \<in> set roles | None \<Rightarrow> False))"

definition approving_roles :: "string list \<Rightarrow> ApprovalVote list \<Rightarrow> string list" where
  "approving_roles roles votes = concat (map (\<lambda>v. case av_role v of Some r \<Rightarrow> [r] | None \<Rightarrow> [])
     (filter (has_role roles ''approve'') votes))"

definition evaluate_role :: "RoleApprovalPolicy \<Rightarrow> ApprovalVote list \<Rightarrow> string" where
  "evaluate_role policy votes =
     (let roles = required_roles policy; approving = approving_roles roles votes
      in if list_ex (has_role roles ''reject'') votes then ''rejected''
         else if require_all_roles policy
           then if roles \<noteq> [] \<and> set roles \<subseteq> set approving then ''approved'' else ''pending''
           else if approving \<noteq> [] then ''approved'' else ''pending'')"

fun evaluate :: "ApprovalPolicy \<Rightarrow> ApprovalVote list \<Rightarrow> rat \<Rightarrow> string" where
  "evaluate (Timed p) votes elapsed = evaluate_timed p elapsed"
| "evaluate (Quorum p) votes elapsed = evaluate_quorum p votes"
| "evaluate (Role p) votes elapsed = evaluate_role p votes"

section \<open>Decisions of the service\<close>

type_synonym decisions = "string \<rightharpoonup> ApprovalDecision"

definition set_approval_policy :: "rat \<Rightarrow> string \<Rightarrow> ApprovalPolicy \<Rightarrow> decisions \<Rightarrow> decisions" where
  "set_approval_policy now run_id policy ds =
     ds(run_id \<mapsto> \<lparr> ad_run_id = run_id, ad_status = ''pending'', ad_policy = policy, ad_votes = [],
                    ad_created_at = now, ad_resolved_at = None \<rparr>)"

text \<open>
  The locked part of \<open>cast_vote\<close>: the vote is recorded, the policy evaluated on all votes and the status
  kept. The three readings of the clock are those for the time stamp, the elapsed time and the resolution.
  A resolved decision makes the service approve or reject the pending run.
\<close>

definition cast_vote ::
  "rat \<Rightarrow> rat \<Rightarrow> rat \<Rightarrow> string \<Rightarrow> string \<Rightarrow> string option \<Rightarrow> string \<Rightarrow> string \<Rightarrow> decisions
     \<Rightarrow> (decisions \<times> string \<times> nat) result" where
  "cast_vote t1 t2 t3 run_id reviewer role action comment ds =
     (case ds run_id of
        None \<Rightarrow> Inl (KeyError run_id)
      | Some d \<Rightarrow>
          (let vote = \<lparr> reviewer_id = reviewer, av_role = role, av_action = action, av_timestamp = t1, av_comment = comment \<rparr>;
               votes = ad_votes d @ [vote];
               new_status = evaluate (ad_policy d) votes (t2 - ad_created_at d);
               d' = d \<lparr> ad_votes := votes, ad_status := new_status,
                        ad_resolved_at := (if new_status \<noteq> ''pending'' then Some t3 else ad_resolved_at d) \<rparr>
           in Inr (ds(run_id \<mapsto> d'), new_status, length votes)))"

datatype follow_up = ApproveRun | RejectRun | NoFollowUp

definition vote_follow_up :: "bool \<Rightarrow> string \<Rightarrow> follow_up" where
  "vote_follow_up pending status =
     (if \<not> pending then NoFollowUp
      else if status = ''approved'' then ApproveRun
      else if status \<in> {''rejected'', ''timed_out''} then RejectRun else NoFollowUp)"

section \<open>Properties\<close>

lemma mset_filter_length: "mset vs = mset ws \<Longrightarrow> length (filter P vs) = length (filter P ws)"
  by (metis mset_filter size_mset)

lemma counted_votes_append: "counted_votes p (vs @ ws) = counted_votes p vs @ counted_votes p ws"
  by (simp add: counted_votes_def)

lemma action_count_append: "action_count a (vs @ ws) = action_count a vs + action_count a ws"
  by (simp add: action_count_def)

lemma action_count_nonneg: "0 \<le> action_count a vs"
  by (simp add: action_count_def)

lemma set_approving_roles:
  "set (approving_roles roles votes) = {r. \<exists>v\<in>set votes. has_role roles ''approve'' v \<and> av_role v = Some r}"
  by (auto simp: approving_roles_def split: option.splits)

text \<open>Both evaluations of votes depend on the votes cast, not on their order.\<close>

lemma evaluate_quorum_mset: "mset vs = mset ws \<Longrightarrow> evaluate_quorum p vs = evaluate_quorum p ws"
proof -
  assume a: "mset vs = mset ws"
  then have "mset (counted_votes p vs) = mset (counted_votes p ws)" by (simp add: counted_votes_def)
  then have "action_count x (counted_votes p vs) = action_count x (counted_votes p ws)" for x
    unfolding action_count_def using mset_filter_length by metis
  then show ?thesis by (simp add: evaluate_quorum_def Let_def)
qed

lemma evaluate_role_set:
  assumes "set vs = set ws"
  shows "evaluate_role p vs = evaluate_role p ws"
proof -
  have "set (approving_roles r vs) = set (approving_roles r ws)" for r
    unfolding set_approving_roles assms ..
  moreover from this have "approving_roles r vs = [] \<longleftrightarrow> approving_roles r ws = []" for r by (metis set_empty)
  ultimately show ?thesis unfolding evaluate_role_def Let_def list_ex_iff assms by simp
qed

text \<open>
  The order in which the votes arrive is irrelevant: two lists with the same votes give the same status
  under every policy.
\<close>

theorem evaluate_order_irrelevant:
  assumes "mset vs = mset ws"
  shows "evaluate p vs elapsed = evaluate p ws elapsed"
  using evaluate_quorum_mset [OF assms] evaluate_role_set [OF mset_eq_setD [OF assms]] by (cases p) auto

theorem evaluate_order_irrelevant_witness:
  "evaluate (Role \<lparr> required_roles = [''sec''], require_all_roles = False \<rparr>)
      [\<lparr> reviewer_id = ''a'', av_role = Some ''sec'', av_action = ''approve'', av_timestamp = 0, av_comment = [] \<rparr>,
       \<lparr> reviewer_id = ''b'', av_role = Some ''sec'', av_action = ''reject'', av_timestamp = 1, av_comment = [] \<rparr>] 0 = ''rejected''"
proof -
  let ?p = "Role \<lparr> required_roles = [''sec''], require_all_roles = False \<rparr>"
  let ?a = "\<lparr> reviewer_id = ''a'', av_role = Some ''sec'', av_action = ''approve'', av_timestamp = 0, av_comment = [] \<rparr>"
  let ?b = "\<lparr> reviewer_id = ''b'', av_role = Some ''sec'', av_action = ''reject'', av_timestamp = 1, av_comment = [] \<rparr>"
  have "evaluate ?p [?a, ?b] 0 = evaluate ?p [?b, ?a] 0" by (rule evaluate_order_irrelevant) simp
  also have "\<dots> = ''rejected''" by (simp add: evaluate_role_def Let_def has_role_def)
  finally show ?thesis .
qed

text \<open>A rejection is final under further votes.\<close>

lemma evaluate_timed_not_rejected: "evaluate_timed p e \<noteq> ''rejected''"
  by (simp add: evaluate_timed_def)

lemma evaluate_rejected_append:
  assumes "evaluate p vs e = ''rejected''"
  shows "evaluate p (vs @ ws) e' = ''rejected''"
proof (cases p)
  case (Quorum q)
  then have "required_rejections q \<le> action_count ''reject'' (counted_votes q vs)"
    using assms by (auto simp: evaluate_quorum_def Let_def split: if_splits)
  then have "required_rejections q \<le> action_count ''reject'' (counted_votes q (vs @ ws))"
    using action_count_nonneg [of "''reject''" "counted_votes q ws"] by (simp add: counted_votes_append action_count_append)
  then show ?thesis using Quorum by (simp add: evaluate_quorum_def Let_def)
next
  case (Role r)
  then show ?thesis using assms by (auto simp: evaluate_role_def Let_def split: if_splits)
qed (use assms evaluate_timed_not_rejected in auto)

text \<open>What a vote does to the decision of its run, and that it leaves the other runs alone.\<close>

lemma cast_vote_Inr:
  assumes "cast_vote t1 t2 t3 run reviewer role action comment ds = Inr (ds', st, n)"
  obtains d v where "ds run = Some d" "ad_policy (the (ds' run)) = ad_policy d"
    "ad_votes (the (ds' run)) = ad_votes d @ [v]" "ad_status (the (ds' run)) = st"
    "st = evaluate (ad_policy d) (ad_votes d @ [v]) (t2 - ad_created_at d)" "ds' run \<noteq> None"
    "n = length (ad_votes d) + 1" "\<And>r. r \<noteq> run \<Longrightarrow> ds' r = ds r"
  using assms by (auto simp: cast_vote_def Let_def split: option.splits)

text \<open>A ballot: the arguments of one vote on a run, with its three readings of the clock.\<close>

type_synonym ballot = "rat \<times> rat \<times> rat \<times> string \<times> string option \<times> string \<times> string"

fun cast_all :: "string \<Rightarrow> ballot list \<Rightarrow> decisions \<Rightarrow> (decisions \<times> string list) result" where
  "cast_all run [] ds = Inr (ds, [])"
| "cast_all run ((t1, t2, t3, reviewer, role, action, comment) # bs) ds =
     bind_r (cast_vote t1 t2 t3 run reviewer role action comment ds) (\<lambda>(ds1, st, n).
     bind_r (cast_all run bs ds1) (\<lambda>(ds2, sts). Inr (ds2, st # sts)))"

lemma cast_all_rejected:
  assumes "cast_all run bs ds = Inr (ds', sts)" "ds run = Some d" "\<And>e. evaluate (ad_policy d) (ad_votes d) e = ''rejected''"
  shows "set sts \<subseteq> {''rejected''}"
  using assms
proof (induction run bs ds arbitrary: ds' sts d rule: cast_all.induct)
  case (2 run t1 t2 t3 reviewer role action comment bs ds)
  from 2(2) obtain ds1 st n sts2 where v: "cast_vote t1 t2 t3 run reviewer role action comment ds = Inr (ds1, st, n)"
    and r: "cast_all run bs ds1 = Inr (ds', sts2)" and s: "sts = st # sts2"
    by (auto simp: bind_r_eq_Inr)
  from v obtain v' where d1: "ad_policy (the (ds1 run)) = ad_policy d" "ad_votes (the (ds1 run)) = ad_votes d @ [v']"
    "ds1 run \<noteq> None" "st = evaluate (ad_policy d) (ad_votes d @ [v']) (t2 - ad_created_at d)"
    by (rule cast_vote_Inr) (use 2(3) in auto)
  have st: "st = ''rejected''" using d1(4) evaluate_rejected_append 2(4) by blast
  obtain e where e: "ds1 run = Some e" using d1(3) by auto
  have "evaluate (ad_policy e) (ad_votes e) x = ''rejected''" for x
    using d1(1,2) e evaluate_rejected_append [OF 2(4), of "[v']"] by simp
  then have "set sts2 \<subseteq> {''rejected''}" using 2(1) [OF r e] by blast
  then show ?case using st s by simp
qed simp

lemma evaluate_rejected_any: "evaluate p vs e = ''rejected'' \<Longrightarrow> evaluate p vs e' = ''rejected''"
  using evaluate_rejected_append [of p vs e "[]"] by simp

text \<open>
  C37. A rejection is final: once a vote on a run has been answered with a rejection, every further vote on
  that run is answered with a rejection too, whoever casts it, until the policy is set anew.
\<close>

theorem rejection_is_final:
  assumes "cast_vote t1 t2 t3 run reviewer role action comment ds = Inr (ds1, ''rejected'', n)"
    and "cast_all run ballots ds1 = Inr (ds2, answers)"
  shows "set answers \<subseteq> {''rejected''}"
  using assms(1)
proof (rule cast_vote_Inr)
  fix d v
  assume d: "ds1 run \<noteq> None" "ad_policy (the (ds1 run)) = ad_policy d" "ad_votes (the (ds1 run)) = ad_votes d @ [v]"
    "''rejected'' = evaluate (ad_policy d) (ad_votes d @ [v]) (t2 - ad_created_at d)"
  obtain e where e: "ds1 run = Some e" using d(1) by auto
  have "evaluate (ad_policy e) (ad_votes e) (t2 - ad_created_at d) = ''rejected''" using d(2-4) e by simp
  then show ?thesis using cast_all_rejected [OF assms(2) e] evaluate_rejected_any by blast
qed

definition demo_decisions :: decisions where
  "demo_decisions = set_approval_policy 0 ''r1''
     (Quorum \<lparr> required_approvals = 1, required_rejections = 1, allowed_reviewers = [] \<rparr>) Map.empty"

theorem rejection_is_final_witness:
  "\<exists>ds1 ds2 answers. cast_vote 1 1 1 ''r1'' ''bob'' None ''reject'' [] demo_decisions = Inr (ds1, ''rejected'', 1) \<and>
     cast_all ''r1'' [(2, 2, 2, ''eve'', None, ''approve'', [])] ds1 = Inr (ds2, answers) \<and> answers = [''rejected'']"
proof -
  let ?v = "cast_vote 1 1 1 ''r1'' ''bob'' None ''reject'' [] demo_decisions"
  obtain ds1 where v: "?v = Inr (ds1, ''rejected'', 1)"
    by (simp add: cast_vote_def demo_decisions_def set_approval_policy_def Let_def evaluate_quorum_def counted_votes_def
        action_count_def)
  then have "ds1 ''r1'' \<noteq> None" by (auto simp: cast_vote_def Let_def split: option.splits)
  then obtain ds2 answers where c: "cast_all ''r1'' [(2, 2, 2, ''eve'', None, ''approve'', [])] ds1 = Inr (ds2, answers)"
    by (auto simp: cast_vote_def Let_def split: option.splits)
  then have "length answers = 1" by (auto simp: bind_r_eq_Inr)
  then show ?thesis using rejection_is_final [OF v c] v c by (cases answers) auto
qed

text \<open>
  An approval is not final: the status is evaluated anew at every vote, and a later rejection overturns it. (The run has
  been resumed by then; the later answer only changes the recorded decision, or rejects the run if it is pending again.)
\<close>

theorem approval_overturned:
  assumes "cast_vote t1 t2 t3 run reviewer role ''reject'' comment ds = Inr (ds', st, n)"
    and "ds run = Some d" "ad_policy d = Quorum q" "required_rejections q \<le> 1" "allowed_reviewers q = []"
  shows "st = ''rejected''"
proof -
  have "1 \<le> action_count ''reject'' (counted_votes q (ad_votes d @
      [\<lparr> reviewer_id = reviewer, av_role = role, av_action = ''reject'', av_timestamp = t1, av_comment = comment \<rparr>]))"
    using assms(5) action_count_nonneg [of "''reject''" "ad_votes d"] by (simp add: counted_votes_def action_count_def)
  then show ?thesis using assms by (auto simp: cast_vote_def Let_def evaluate_quorum_def)
qed

text \<open>
  The quorum rule: a run is rejected exactly when enough of the counted votes reject, and approved exactly
  when too few reject and enough approve, and otherwise pending; votes of reviewers who are not on a non-empty list do not count.
\<close>

theorem quorum_rule:
  "let counted = filter (\<lambda>v. allowed_reviewers q = [] \<or> reviewer_id v \<in> set (allowed_reviewers q)) votes
   in (evaluate (Quorum q) votes e = ''rejected'' \<longleftrightarrow> required_rejections q \<le> action_count ''reject'' counted) \<and>
      (evaluate (Quorum q) votes e = ''approved'' \<longleftrightarrow>
         action_count ''reject'' counted < required_rejections q \<and> required_approvals q \<le> action_count ''approve'' counted) \<and>
      (evaluate (Quorum q) votes e = ''pending'' \<longleftrightarrow>
         action_count ''reject'' counted < required_rejections q \<and> action_count ''approve'' counted < required_approvals q)"
proof -
  have "counted_votes q votes = filter (\<lambda>v. allowed_reviewers q = [] \<or> reviewer_id v \<in> set (allowed_reviewers q)) votes"
    by (simp add: counted_votes_def)
  then show ?thesis by (auto simp: evaluate_quorum_def Let_def)
qed

text \<open>The quorum counts votes and not reviewers: one reviewer reaches every quorum alone by voting again.\<close>

theorem one_reviewer_reaches_quorum:
  "evaluate (Quorum \<lparr> required_approvals = 3, required_rejections = 1, allowed_reviewers = [''bob''] \<rparr>)
     (replicate 3 \<lparr> reviewer_id = ''bob'', av_role = None, av_action = ''approve'', av_timestamp = 0, av_comment = [] \<rparr>) 0
   = ''approved''"
  by (simp add: evaluate_quorum_def counted_votes_def action_count_def numeral_3_eq_3)

end
