(* ===== verification/Rate_Limit.thy ===== *)
theory Rate_Limit
  imports Py_Prelude
begin

text \<open>
  The token buckets of \<open>rate_limit.py\<close> that guard the remote API, one bucket per client. Time stamps and
  token counts are rational numbers (the rounding of floating point is left out); every reading of the
  monotonic clock is an argument. The dictionary of buckets is an association list.
\<close>

section \<open>One bucket\<close>

record TokenBucket =
  tb_capacity :: rat
  refill_rate :: rat
  tokens :: rat
  last_refill :: rat

definition new_bucket :: "rat \<Rightarrow> rat \<Rightarrow> rat \<Rightarrow> TokenBucket" where
  "new_bucket now capacity rate =
     \<lparr> tb_capacity = capacity, refill_rate = rate, tokens = capacity, last_refill = now \<rparr>"

definition refill :: "rat \<Rightarrow> TokenBucket \<Rightarrow> TokenBucket" where
  "refill now b = b \<lparr> tokens := min (tb_capacity b) (tokens b + (now - last_refill b) * refill_rate b), last_refill := now \<rparr>"

definition acquire :: "rat \<Rightarrow> TokenBucket \<Rightarrow> bool \<times> TokenBucket" where
  "acquire now b =
     (let b1 = refill now b
      in if 1 \<le> tokens b1 then (True, b1 \<lparr> tokens := tokens b1 - 1 \<rparr>) else (False, b1))"

section \<open>The limiter\<close>

record RateLimiter =
  buckets :: "(string \<times> TokenBucket) list"
  rl_capacity :: rat
  rl_refill_rate :: rat
  total_requests :: nat
  total_rejections :: nat

definition new_limiter :: "rat \<Rightarrow> rat \<Rightarrow> RateLimiter" where
  "new_limiter capacity rate =
     \<lparr> buckets = [], rl_capacity = capacity, rl_refill_rate = rate, total_requests = 0, total_rejections = 0 \<rparr>"

text \<open>
  A request has two sections. The first runs under the lock of the limiter and makes sure that the client has a
  bucket; the second, after the lock is released, looks the bucket up again and takes a token. Whatever runs in
  between may have removed the bucket, and then the lookup raises. (That the bucket is removed after the lookup, but before
  its own lock is taken, is not modelled.) \<open>check\<close> is a request that is not interrupted;
  the first reading of the clock is the one for a bucket that is created, the second that of \<open>acquire\<close>.
\<close>

definition check_enter :: "rat \<Rightarrow> string \<Rightarrow> RateLimiter \<Rightarrow> RateLimiter" where
  "check_enter t0 client_id l =
     (let l1 = l \<lparr> total_requests := total_requests l + 1 \<rparr>
      in case map_of (buckets l) client_id of
           None \<Rightarrow> l1 \<lparr> buckets := AList.update client_id (new_bucket t0 (rl_capacity l) (rl_refill_rate l)) (buckets l) \<rparr>
         | Some _ \<Rightarrow> l1)"

definition check_take :: "rat \<Rightarrow> string \<Rightarrow> RateLimiter \<Rightarrow> bool result \<times> RateLimiter" where
  "check_take t1 client_id l =
     (case map_of (buckets l) client_id of
        None \<Rightarrow> (Inl (KeyError client_id), l)
      | Some b \<Rightarrow>
          (let (allowed, b1) = acquire t1 b
           in (Inr allowed, l \<lparr> buckets := AList.update client_id b1 (buckets l),
                               total_rejections := total_rejections l + of_bool (\<not> allowed) \<rparr>)))"

definition check :: "rat \<Rightarrow> rat \<Rightarrow> string \<Rightarrow> RateLimiter \<Rightarrow> bool result \<times> RateLimiter" where
  "check t0 t1 client_id l = check_take t1 client_id (check_enter t0 client_id l)"

lemma check_uninterrupted:
  assumes "acquire t1 (case map_of (buckets l) c of None \<Rightarrow> new_bucket t0 (rl_capacity l) (rl_refill_rate l) | Some b \<Rightarrow> b) = (a, b')"
  obtains l' where "check t0 t1 c l = (Inr a, l')" "buckets l' = AList.update c b' (buckets l)"
    "rl_capacity l' = rl_capacity l" "rl_refill_rate l' = rl_refill_rate l"
  using assms
  by (cases "map_of (buckets l) c")
    (auto simp: check_def check_enter_def check_take_def Let_def update_conv update_last split: prod.splits)

definition limiter_metrics :: "RateLimiter \<Rightarrow> (string \<times> nat) list" where
  "limiter_metrics l = [(''total_requests'', total_requests l), (''total_rejections'', total_rejections l),
                        (''active_buckets'', length (buckets l))]"

definition cleanup :: "rat \<Rightarrow> rat \<Rightarrow> RateLimiter \<Rightarrow> nat \<times> RateLimiter" where
  "cleanup now max_idle l =
     (let stale = filter (\<lambda>(k, b). max_idle < now - last_refill b) (buckets l)
      in (length stale, l \<lparr> buckets := filter (\<lambda>(k, b). \<not> max_idle < now - last_refill b) (buckets l) \<rparr>))"

section \<open>Bounds of a bucket\<close>

definition bucket_ok :: "TokenBucket \<Rightarrow> bool" where
  "bucket_ok b \<longleftrightarrow> 0 \<le> tokens b \<and> tokens b \<le> tb_capacity b \<and> 0 \<le> refill_rate b"

lemma new_bucket_ok: "0 \<le> c \<Longrightarrow> 0 \<le> r \<Longrightarrow> bucket_ok (new_bucket t c r)"
  by (simp add: bucket_ok_def new_bucket_def)

lemma acquire_fields:
  "acquire t b = (a, b') \<Longrightarrow> tb_capacity b' = tb_capacity b \<and> refill_rate b' = refill_rate b \<and> last_refill b' = t \<and>
     tokens b' = tokens (refill t b) - of_bool a \<and> (a \<longleftrightarrow> 1 \<le> tokens (refill t b))"
  by (auto simp: acquire_def refill_def Let_def split: if_splits)

lemma refill_nonneg: "bucket_ok b \<Longrightarrow> last_refill b \<le> t \<Longrightarrow> 0 \<le> tokens (refill t b)"
  by (simp add: refill_def bucket_ok_def)

lemma acquire_ok:
  assumes "bucket_ok b" "last_refill b \<le> t" "acquire t b = (a, b')"
  shows "bucket_ok b'"
proof -
  note f = acquire_fields [OF assms(3)]
  have "tokens (refill t b) \<le> tb_capacity b" by (simp add: refill_def)
  then show ?thesis using f refill_nonneg [OF assms(1,2)] assms(1) by (cases a) (auto simp: bucket_ok_def)
qed

text \<open>A sequence of requests to one bucket, and how many of them are granted.\<close>

fun acquire_all :: "rat list \<Rightarrow> TokenBucket \<Rightarrow> bool list \<times> TokenBucket" where
  "acquire_all [] b = ([], b)"
| "acquire_all (t # ts) b = (let (a, b1) = acquire t b; (as, b2) = acquire_all ts b1 in (a # as, b2))"

definition granted :: "bool list \<Rightarrow> nat" where
  "granted as = length (filter id as)"

lemma acquire_all_budget:
  assumes "bucket_ok b" "sorted (last_refill b # ts)" "acquire_all ts b = (as, b')"
  shows "bucket_ok b' \<and> of_nat (granted as) + tokens b' \<le> tokens b + (last_refill b' - last_refill b) * refill_rate b \<and>
     last_refill b' = last (last_refill b # ts) \<and> refill_rate b' = refill_rate b"
  using assms
proof (induction ts arbitrary: b as)
  case Nil
  then show ?case by (simp add: granted_def)
next
  case (Cons t ts)
  obtain a b1 where a: "acquire t b = (a, b1)" by (cases "acquire t b")
  obtain as2 where as: "acquire_all ts b1 = (as2, b')" "as = a # as2"
    using Cons.prems(3) a by (auto split: prod.splits)
  note f = acquire_fields [OF a]
  have t: "last_refill b \<le> t" "sorted (last_refill b1 # ts)" using Cons.prems(2) f by auto
  have ok: "bucket_ok b1" by (rule acquire_ok [OF Cons.prems(1) t(1) a])
  note IH = Cons.IH [OF ok t(2) as(1)]
  have "tokens (refill t b) \<le> tokens b + (t - last_refill b) * refill_rate b" by (simp add: refill_def)
  then have "of_bool a + tokens b1 \<le> tokens b + (t - last_refill b) * refill_rate b" using f by simp
  moreover have "of_nat (granted as) = of_bool a + (of_nat (granted as2) :: rat)" by (simp add: as(2) granted_def)
  ultimately show ?case using IH f by (auto simp: algebra_simps)
qed

text \<open>
  C38. Rate bound: in every sequence of requests a bucket grants at most its capacity plus what is refilled
  in the time that passes between its creation and the last request.
\<close>

theorem bucket_rate_bound:
  assumes "0 \<le> c" "0 \<le> r" "sorted (t # ts)"
  shows "of_nat (granted (fst (acquire_all ts (new_bucket t c r)))) \<le> c + (last (t # ts) - t) * r"
proof -
  let ?b = "new_bucket t c r"
  obtain as b' where a: "acquire_all ts ?b = (as, b')" by (cases "acquire_all ts ?b")
  have s: "sorted (last_refill ?b # ts)" using assms(3) by (simp add: new_bucket_def)
  note m = acquire_all_budget [OF new_bucket_ok [OF assms(1,2)] s a]
  have "0 \<le> tokens b'" using m by (simp add: bucket_ok_def)
  then have "of_nat (granted as) \<le> c + (last (t # ts) - t) * r" using m by (auto simp: new_bucket_def split: if_splits)
  then show ?thesis unfolding a by simp
qed

theorem bucket_rate_bound_witness:
  "granted (fst (acquire_all [0, 0, 0, 1] (new_bucket 0 2 1))) = 3 \<and>
   of_nat (granted (fst (acquire_all [0, 0, 0, 1] (new_bucket 0 2 1)))) \<le> (3 :: rat)"
proof -
  have "granted (fst (acquire_all [0, 0, 0, 1] (new_bucket 0 2 1))) = 3"
    by (simp add: granted_def acquire_def refill_def new_bucket_def Let_def)
  then show ?thesis using bucket_rate_bound [of 2 1 0 "[0, 0, 0, 1]"] by simp
qed

section \<open>The limiter refines one bucket per client\<close>

datatype limiter_op = Request string rat rat | Cleanup rat rat

fun op_times :: "limiter_op \<Rightarrow> rat list" where
  "op_times (Request c t0 t1) = [t0, t1]"
| "op_times (Cleanup t m) = [t]"

text \<open>The answers that a client gets from the limiter, among the operations of all clients.\<close>

fun run_limiter :: "string \<Rightarrow> limiter_op list \<Rightarrow> RateLimiter \<Rightarrow> bool list" where
  "run_limiter c [] l = []"
| "run_limiter c (Request d t0 t1 # ops) l =
     (let (r, l') = check t0 t1 d l
      in (case r of Inr a \<Rightarrow> if d = c then [a] else [] | Inl _ \<Rightarrow> []) @ run_limiter c ops l')"
| "run_limiter c (Cleanup t m # ops) l = run_limiter c ops (snd (cleanup t m l))"

text \<open>The specification: the client alone with a bucket that is never removed.\<close>

definition spec_check :: "rat \<Rightarrow> rat \<Rightarrow> rat \<Rightarrow> rat \<Rightarrow> TokenBucket option \<Rightarrow> bool \<times> TokenBucket" where
  "spec_check cap rate t0 t1 b = acquire t1 (case b of None \<Rightarrow> new_bucket t0 cap rate | Some b \<Rightarrow> b)"

fun run_spec :: "rat \<Rightarrow> rat \<Rightarrow> string \<Rightarrow> limiter_op list \<Rightarrow> TokenBucket option \<Rightarrow> bool list" where
  "run_spec cap rate c [] b = []"
| "run_spec cap rate c (Request d t0 t1 # ops) b =
     (if d = c then let (a, b') = spec_check cap rate t0 t1 b in a # run_spec cap rate c ops (Some b')
      else run_spec cap rate c ops b)"
| "run_spec cap rate c (Cleanup t m # ops) b = run_spec cap rate c ops b"

text \<open>
  The simulation at time \<open>now\<close>: the limiter holds the bucket of the specification, or has dropped it and
  the bucket is full again.
\<close>

definition full_at :: "rat \<Rightarrow> TokenBucket \<Rightarrow> bool" where
  "full_at now b \<longleftrightarrow> tb_capacity b \<le> tokens b + (now - last_refill b) * refill_rate b"

definition bucket_sim :: "rat \<Rightarrow> rat \<Rightarrow> rat \<Rightarrow> TokenBucket option \<Rightarrow> TokenBucket option \<Rightarrow> bool" where
  "bucket_sim cap rate now lb sb \<longleftrightarrow>
     (case sb of None \<Rightarrow> lb = None
      | Some b \<Rightarrow> bucket_ok b \<and> tb_capacity b = cap \<and> refill_rate b = rate \<and> last_refill b \<le> now \<and>
                  (lb = Some b \<or> lb = None \<and> full_at now b))"

lemma full_at_mono: "full_at t b \<Longrightarrow> t \<le> t' \<Longrightarrow> 0 \<le> refill_rate b \<Longrightarrow> full_at t' b"
  unfolding full_at_def by (meson add_left_mono diff_right_mono mult_right_mono order_trans)

lemma bucket_sim_mono: "bucket_sim cap rate t lb sb \<Longrightarrow> t \<le> t' \<Longrightarrow> bucket_sim cap rate t' lb sb"
  by (auto simp: bucket_sim_def bucket_ok_def dest: full_at_mono split: option.splits)

lemma refill_full:
  "full_at t b \<Longrightarrow> refill t b = \<lparr> tb_capacity = tb_capacity b, refill_rate = refill_rate b, tokens = tb_capacity b, last_refill = t \<rparr>"
  by (simp add: refill_def full_at_def min_def)

lemma refill_new: "0 \<le> r \<Longrightarrow> t0 \<le> t1 \<Longrightarrow>
    refill t1 (new_bucket t0 c r) = \<lparr> tb_capacity = c, refill_rate = r, tokens = c, last_refill = t1 \<rparr>"
  by (simp add: refill_def new_bucket_def min_def)

text \<open>A request of the client itself: both sides answer the same and end in the same bucket.\<close>

lemma sim_request:
  assumes sim: "bucket_sim cap rate now lb sb" and pos: "0 \<le> cap" "0 \<le> rate" and t: "now \<le> t0" "t0 \<le> t1"
    and s: "spec_check cap rate t0 t1 sb = (a, b')"
  shows "acquire t1 (case lb of None \<Rightarrow> new_bucket t0 cap rate | Some b \<Rightarrow> b) = (a, b')"
    and "bucket_sim cap rate t1 (Some b') (Some b')"
proof -
  have eq: "acquire t1 (case lb of None \<Rightarrow> new_bucket t0 cap rate | Some b \<Rightarrow> b) = (a, b')"
  proof (cases sb)
    case None
    then show ?thesis using sim s by (simp add: bucket_sim_def spec_check_def)
  next
    case (Some b)
    have b: "bucket_ok b" "tb_capacity b = cap" "refill_rate b = rate" "last_refill b \<le> now" "lb = Some b \<or> lb = None \<and> full_at now b"
      using sim Some by (auto simp: bucket_sim_def)
    have a: "acquire t1 b = (a, b')" using s Some by (simp add: spec_check_def)
    show ?thesis
    proof (cases lb)
      case None
      then have "full_at t1 b" using b(3,5) pos(2) t full_at_mono [of now b t1] by auto
      then have "refill t1 b = refill t1 (new_bucket t0 cap rate)" using b(2,3) pos t by (simp add: refill_full refill_new)
      then show ?thesis using a None by (simp add: acquire_def)
    qed (use a b(5) in auto)
  qed
  show "acquire t1 (case lb of None \<Rightarrow> new_bucket t0 cap rate | Some b \<Rightarrow> b) = (a, b')" by (rule eq)
  define b0 where "b0 = (case sb of None \<Rightarrow> new_bucket t0 cap rate | Some b \<Rightarrow> b)"
  have b0: "bucket_ok b0" "last_refill b0 \<le> t1" "tb_capacity b0 = cap" "refill_rate b0 = rate"
    using sim pos t by (auto simp: b0_def bucket_sim_def new_bucket_ok split: option.splits) (auto simp: new_bucket_def)
  have "acquire t1 b0 = (a, b')" using s by (simp add: spec_check_def b0_def)
  then show "bucket_sim cap rate t1 (Some b') (Some b')"
    using acquire_ok [OF b0(1,2)] acquire_fields [of t1 b0 a b'] b0 by (auto simp: bucket_sim_def)
qed

lemma sim_cleanup:
  assumes sim: "bucket_sim cap rate now lb sb" and t: "now \<le> t" and idle: "cap \<le> m * rate"
    and lb': "lb' = (case lb of Some b \<Rightarrow> if m < t - last_refill b then None else Some b | None \<Rightarrow> None)"
  shows "bucket_sim cap rate t lb' sb"
proof (cases sb)
  case None
  then show ?thesis using sim lb' by (simp add: bucket_sim_def)
next
  case (Some b)
  have b: "bucket_ok b" "tb_capacity b = cap" "refill_rate b = rate" "last_refill b \<le> now" "lb = Some b \<or> lb = None \<and> full_at now b"
    using sim Some by (auto simp: bucket_sim_def)
  have "full_at t b" if "m < t - last_refill b"
  proof -
    have "m * rate \<le> (t - last_refill b) * rate" using that b(1,3) by (intro mult_right_mono) (auto simp: bucket_ok_def)
    then show ?thesis using b(1,2,3) idle by (simp add: full_at_def bucket_ok_def)
  qed
  moreover have "full_at t b" if "full_at now b" using full_at_mono [OF that t] b(1) by (simp add: bucket_ok_def)
  ultimately show ?thesis using b t Some by (auto simp: bucket_sim_def lb' split: if_splits)
qed

lemma map_of_filter_snd:
  "distinct (map fst xs) \<Longrightarrow> map_of (filter (\<lambda>(k, b). P b) xs) c = (case map_of xs c of Some b \<Rightarrow> if P b then Some b else None | None \<Rightarrow> None)"
  by (induction xs) (auto simp: map_of_eq_None_iff split: option.splits dest: map_of_SomeD)

text \<open>Every idle limit of a cleanup is long enough for a bucket to fill up.\<close>

definition long_idle :: "rat \<Rightarrow> rat \<Rightarrow> limiter_op \<Rightarrow> bool" where
  "long_idle cap rate op = (case op of Cleanup t m \<Rightarrow> cap \<le> m * rate | _ \<Rightarrow> True)"

lemma run_limiter_sim:
  assumes "distinct (map fst (buckets l))" "rl_capacity l = cap" "rl_refill_rate l = rate" "0 \<le> cap" "0 \<le> rate"
    and "bucket_sim cap rate now (map_of (buckets l) c) sb"
    and "sorted (now # concat (map op_times ops))" "list_all (long_idle cap rate) ops"
  shows "run_limiter c ops l = run_spec cap rate c ops sb"
  using assms
proof (induction ops arbitrary: l sb now)
  case (Cons x ops)
  show ?case
  proof (cases x)
    case (Request d t0 t1)
    have t: "now \<le> t0" "t0 \<le> t1" "sorted (t1 # concat (map op_times ops))" using Cons.prems(7) Request by auto
    obtain a b' where chk: "acquire t1 (case map_of (buckets l) d of None \<Rightarrow> new_bucket t0 cap rate | Some b \<Rightarrow> b) = (a, b')"
      by (cases "acquire t1 (case map_of (buckets l) d of None \<Rightarrow> new_bucket t0 cap rate | Some b \<Rightarrow> b)")
    obtain l' where l': "check t0 t1 d l = (Inr a, l')" "buckets l' = AList.update d b' (buckets l)" "rl_capacity l' = cap" "rl_refill_rate l' = rate"
      using check_uninterrupted [OF chk [folded Cons.prems(2,3)]] Cons.prems(2,3) by metis
    have dist: "distinct (map fst (buckets l'))" using Cons.prems(1) by (simp add: l' distinct_update)
    note IH = Cons.IH [OF dist l'(3,4) Cons.prems(4,5) _ t(3)]
    show ?thesis
    proof (cases "d = c")
      case True
      obtain a2 b2 where s: "spec_check cap rate t0 t1 sb = (a2, b2)" by (cases "spec_check cap rate t0 t1 sb")
      have "a2 = a" "b2 = b'" using sim_request(1) [OF Cons.prems(6,4,5) t(1,2) s] chk True by auto
      moreover have "run_limiter c ops l' = run_spec cap rate c ops (Some b')"
        using IH [of "Some b'"] sim_request(2) [OF Cons.prems(6,4,5) t(1,2) s] Cons.prems(8) True \<open>b2 = b'\<close>
        by (simp add: l'(2) update_conv)
      ultimately show ?thesis using Request True s l'(1) by simp
    next
      case False
      have "bucket_sim cap rate t1 (map_of (buckets l') c) sb"
        using bucket_sim_mono [OF Cons.prems(6), of t1] t False by (simp add: l'(2) update_conv)
      then have "run_limiter c ops l' = run_spec cap rate c ops sb" using IH Cons.prems(8) by simp
      then show ?thesis using Request False l'(1) by simp
    qed
  next
    case (Cleanup t m)
    define l' where "l' = snd (cleanup t m l)"
    have t: "now \<le> t" "sorted (t # concat (map op_times ops))" using Cons.prems(7) Cleanup by auto
    have b: "buckets l' = filter (\<lambda>(k, b). \<not> m < t - last_refill b) (buckets l)" "rl_capacity l' = cap" "rl_refill_rate l' = rate"
      using Cons.prems(2,3) by (simp_all add: l'_def cleanup_def)
    have dist: "distinct (map fst (buckets l'))" using Cons.prems(1) by (simp add: b(1) distinct_map_filter)
    have "bucket_sim cap rate t (map_of (buckets l') c) sb"
      by (rule sim_cleanup [OF Cons.prems(6) t(1)])
        (use Cons.prems(1,8) Cleanup in \<open>auto simp: long_idle_def b(1) map_of_filter_snd split: option.splits\<close>)
    then have "run_limiter c ops l' = run_spec cap rate c ops sb"
      using Cons.IH [OF dist b(2,3) Cons.prems(4,5) _ t(2)] Cons.prems(8) by simp
    then show ?thesis using Cleanup by (simp add: l'_def)
  qed
qed simp

text \<open>
  Isolation of uninterrupted requests: among the requests of all clients and the cleanups of idle buckets, a client
  gets exactly the answers that a bucket of its own, never removed, would give to its requests alone, provided that no
  cleanup removes a bucket before it could have filled up and none runs between the two sections of a request.
\<close>

theorem limiter_refines_buckets:
  assumes "0 \<le> cap" "0 \<le> rate" "sorted (concat (map op_times ops))" "list_all (long_idle cap rate) ops"
  shows "run_limiter c ops (new_limiter cap rate) = run_spec cap rate c ops None"
proof (cases "concat (map op_times ops)")
  case Nil
  then have "ops = []" by (cases ops) (auto elim: op_times.elims)
  then show ?thesis by simp
next
  case (Cons t ts)
  show ?thesis
    by (rule run_limiter_sim [of _ _ _ t]) (use assms Cons in \<open>auto simp: new_limiter_def bucket_sim_def\<close>)
qed

theorem limiter_refines_buckets_witness:
  "run_limiter ''a'' [Request ''a'' 0 0, Request ''b'' 0 0, Request ''a'' 0 0, Cleanup 9 5, Request ''a'' 9 9] (new_limiter 1 1)
     = [True, False, True]"
proof -
  let ?ops = "[Request ''a'' 0 0, Request ''b'' 0 0, Request ''a'' 0 0, Cleanup 9 5, Request ''a'' 9 9]"
  have "run_limiter ''a'' ?ops (new_limiter 1 1) = run_spec 1 1 ''a'' ?ops None"
    by (rule limiter_refines_buckets) (simp_all add: long_idle_def)
  also have "\<dots> = [True, False, True]"
    by (simp add: spec_check_def acquire_def refill_def new_bucket_def Let_def)
  finally show ?thesis .
qed

text \<open>
  The hypothesis on the cleanups is needed: with a rate of zero a cleanup gives a client that used its only token
  another one.
\<close>

theorem cleanup_refills_drained_client:
  "run_limiter ''a'' [Request ''a'' 0 0, Request ''a'' 1 1, Cleanup 9 5, Request ''a'' 9 9] (new_limiter 1 0) = [True, False, True]"
  by (simp add: new_limiter_def check_def check_enter_def check_take_def cleanup_def acquire_def refill_def new_bucket_def Let_def)

text \<open>
  And so is the other one: a client that was idle for too long is answered with an exception when a cleanup runs between
  the two sections of its request.
\<close>

theorem interrupted_request_raises:
  assumes "map_of (buckets l) c = Some b" "max_idle < now - last_refill b" "distinct (map fst (buckets l))"
  shows "fst (check_take t1 c (snd (cleanup now max_idle (check_enter t0 c l)))) = Inl (KeyError c)"
  using assms by (simp add: check_take_def cleanup_def check_enter_def Let_def map_of_filter_snd)

end
