(* ===== verification/Healing.thy ===== *)
theory Healing
  imports Py_Text
begin

text \<open>
  The healing loop of \<open>healing_loop.py\<close>: the allowlist of test commands with the shell splitting it rests on
  (\<open>shlex.split\<close>), the detection of a test runner, the reading of a test report, and the queue of healing jobs.
  Jobs are mutable objects shared by two lists; here the history is the store of jobs and the pending list
  holds positions in it. The subprocess, the file system and the graph runner are arguments.
\<close>

section \<open>Splitting a command like a shell\<close>

datatype sh_state = Between | InWord | InQuote char | Escaped "char option"

definition sh_space :: "char \<Rightarrow> bool" where
  "sh_space c = (c \<in> {CHR '' '', CHR 0x09, CHR 0x0D, CHR 0x0A})"

definition sh_quote :: "char \<Rightarrow> bool" where
  "sh_quote c = (c = quote1 \<or> c = quote2)"

definition backslash :: char where
  "backslash = CHR 0x5C"

text \<open>The state of the lexer, whether the current word had a quote, and the word so far.\<close>

fun shlex_from :: "sh_state \<Rightarrow> bool \<Rightarrow> string \<Rightarrow> string \<Rightarrow> string list option" where
  "shlex_from Between q w [] = Some []"
| "shlex_from InWord q w [] = Some (if w \<noteq> [] \<or> q then [w] else [])"
| "shlex_from (InQuote c) q w [] = None"
| "shlex_from (Escaped e) q w [] = None"
| "shlex_from Between q w (c # s) =
     (if sh_space c then shlex_from Between False [] s
      else if c = backslash then shlex_from (Escaped None) False [] s
      else if sh_quote c then shlex_from (InQuote c) False [] s
      else shlex_from InWord False [c] s)"
| "shlex_from InWord q w (c # s) =
     (if sh_space c then
        (if w \<noteq> [] \<or> q then map_option ((#) w) (shlex_from Between False [] s) else shlex_from Between False [] s)
      else if sh_quote c then shlex_from (InQuote c) q w s
      else if c = backslash then shlex_from (Escaped None) q w s
      else shlex_from InWord q (w @ [c]) s)"
| "shlex_from (InQuote k) q w (c # s) =
     (if c = k then shlex_from InWord True w s
      else if c = backslash \<and> k = quote2 then shlex_from (Escaped (Some k)) True w s
      else shlex_from (InQuote k) True (w @ [c]) s)"
| "shlex_from (Escaped e) q w (c # s) =
     (case e of
        None \<Rightarrow> shlex_from InWord q (w @ [c]) s
      | Some k \<Rightarrow> shlex_from (InQuote k) q (w @ (if c \<noteq> backslash \<and> c \<noteq> k then [backslash] else []) @ [c]) s)"

definition shlex_split :: "string \<Rightarrow> string list option" where
  "shlex_split s = shlex_from Between False [] s"

definition basename :: "string \<Rightarrow> string" where
  "basename p = rev (takeWhile (\<lambda>c. c \<noteq> CHR ''/'') (rev p))"

definition ALLOWED_TEST_COMMANDS :: "string list" where
  "ALLOWED_TEST_COMMANDS = [''pytest'', ''python'', ''uv'', ''npm'', ''yarn'', ''cargo'', ''make'', ''go'']"

definition validate_test_command :: "string \<Rightarrow> bool" where
  "validate_test_command cmd =
     (case shlex_split cmd of
        None \<Rightarrow> False
      | Some [] \<Rightarrow> False
      | Some (p # _) \<Rightarrow> basename p \<in> set ALLOWED_TEST_COMMANDS)"

section \<open>Detection of the test runner\<close>

text \<open>What reading and parsing \<open>package.json\<close> can give; an undecodable file raises a \<open>ValueError\<close> that is not caught.\<close>

datatype package_file = Unreadable | NotUtf8 string | InvalidJson | Parsed pyval

text \<open>\<open>key in v\<close>.\<close>

definition py_contains :: "string \<Rightarrow> pyval \<Rightarrow> bool result" where
  "py_contains key v = (case v of
       PDict d \<Rightarrow> Inr (map_of d key \<noteq> None)
     | PList xs \<Rightarrow> Inr (PStr key \<in> set xs)
     | PStr s \<Rightarrow> Inr (\<exists>i\<in>set [0..<Suc (length s)]. prefix key (drop i s))
     | _ \<Rightarrow> Inl (TypeError (''argument of type '' @ [quote1] @ type_name v @ [quote1] @ '' is not iterable'')))"

definition detect_test_runner :: "(string \<Rightarrow> bool) \<Rightarrow> package_file \<Rightarrow> string result" where
  "detect_test_runner file_exists package_json =
     (if file_exists ''Cargo.toml'' then Inr ''cargo test --all''
      else if file_exists ''package.json'' then
        (case package_json of
           Unreadable \<Rightarrow> Inr ''npm test''
         | InvalidJson \<Rightarrow> Inr ''npm test''
         | NotUtf8 m \<Rightarrow> Inl (ValueError m)
         | Parsed pkg \<Rightarrow>
             bind_r (dict_method pkg ''get'') (\<lambda>d.
             bind_r (py_contains ''test'' (dget d ''scripts'' (PDict []))) (\<lambda>_. Inr ''npm test'')))
      else if file_exists ''go.mod'' then Inr ''go test ./...''
      else if file_exists ''pyproject.toml'' \<or> file_exists ''pytest.ini'' \<or> file_exists ''setup.cfg''
      then Inr ''python -m pytest''
      else if file_exists ''Makefile'' then Inr ''make test''
      else Inr ''python -m pytest'')"

section \<open>Reading a test report\<close>

definition is_digit :: "char \<Rightarrow> bool" where
  "is_digit c = (48 \<le> code c \<and> code c \<le> 57)"

text \<open>The first match of \<open>(\d+)\s+word\<close>: its digits.\<close>

definition count_here :: "string \<Rightarrow> string \<Rightarrow> string option" where
  "count_here word s =
     (let ds = takeWhile is_digit s; r = dropWhile is_digit s
      in if ds \<noteq> [] \<and> takeWhile is_space r \<noteq> [] \<and> prefix word (dropWhile is_space r) then Some ds else None)"

fun find_count :: "string \<Rightarrow> string \<Rightarrow> string option" where
  "find_count word [] = count_here word []"
| "find_count word (c # s) = (case count_here word (c # s) of Some ds \<Rightarrow> Some ds | None \<Rightarrow> find_count word s)"

definition read_count :: "string \<Rightarrow> string \<Rightarrow> int result" where
  "read_count word s = (case find_count word s of None \<Rightarrow> Inr 0 | Some ds \<Rightarrow> py_int (PStr ds))"

text \<open>
  The matches of \<open>^FAILED\s+(\S+)\<close> on all lines: the flag says whether the scan is at the start of a line.
\<close>

definition failed_here :: "string \<Rightarrow> (string \<times> string) option" where
  "failed_here s =
     (if prefix ''FAILED'' s then
        (let r = drop 6 s; t = dropWhile is_space r; w = takeWhile (\<lambda>c. \<not> is_space c) t
         in if takeWhile is_space r \<noteq> [] \<and> w \<noteq> [] then Some (w, drop (length w) t) else None)
      else None)"

lemma failed_here_shorter: "failed_here s = Some (w, r) \<Longrightarrow> length r < length s"
proof -
  assume a: "failed_here s = Some (w, r)"
  then have p: "prefix ''FAILED'' s" and r: "r = drop (length w) (dropWhile is_space (drop 6 s))"
    by (auto simp: failed_here_def Let_def split: if_splits)
  have "length r \<le> length (drop 6 s)" unfolding r using length_dropWhile_le [of is_space "drop 6 s"] by simp
  moreover have "6 \<le> length s" using p prefix_length_le [of "''FAILED''" s] by simp
  ultimately show ?thesis by simp
qed

function failed_lines :: "bool \<Rightarrow> string \<Rightarrow> string list" where
  "failed_lines line_start [] = []"
| "failed_lines line_start (c # s) =
     (case (if line_start then failed_here (c # s) else None) of
        Some (w, r) \<Rightarrow> w # failed_lines False r
      | None \<Rightarrow> failed_lines (c = CHR 0x0A) s)"
  by pat_completeness auto
termination
  by (relation "measure (\<lambda>(b, s). length s)") (auto split: if_splits dest: failed_here_shorter)

record TestSuiteResult =
  ts_passed :: int
  ts_failed :: int
  ts_errors :: int
  ts_failed_tests :: "string list"
  ts_output :: string

text \<open>
  One poll: the subprocess is an argument that gets the command and gives its output and its exit code
  (None when it has none), or the text of the exception that starting it raised.
\<close>

definition suite_result :: "string \<Rightarrow> int \<Rightarrow> TestSuiteResult result" where
  "suite_result raw_output exit_code =
     bind_r (read_count ''passed'' raw_output) (\<lambda>passed.
     bind_r (read_count ''failed'' raw_output) (\<lambda>failed.
     bind_r (read_count ''error'' raw_output) (\<lambda>errors.
       Inr \<lparr> ts_passed = passed, ts_failed = failed,
             ts_errors = (if exit_code = 2 \<and> errors = 0 \<and> failed = 0 then 1 else errors),
             ts_failed_tests = failed_lines True raw_output, ts_output = take 4000 raw_output \<rparr>)))"

definition poll_once :: "(string list \<Rightarrow> string + string \<times> int option) \<Rightarrow> string \<Rightarrow> TestSuiteResult result" where
  "poll_once spawn cmd =
     (if \<not> validate_test_command cmd then
        Inr \<lparr> ts_passed = 0, ts_failed = 0, ts_errors = 1, ts_failed_tests = [],
              ts_output = ''Blocked unsafe test command: '' @ cmd \<rparr>
      else case spawn (the (shlex_split cmd)) of
          Inl message \<Rightarrow> suite_result message 2
        | Inr (output, returncode) \<Rightarrow> suite_result output (case returncode of None \<Rightarrow> 0 | Some n \<Rightarrow> n))"

section \<open>The queue of jobs\<close>

datatype job_status = Queued | JobRunning | Healed | JobFailed | JobSkipped

record HealingJob =
  hj_failing_tests :: "string list"
  hj_priority :: nat
  hj_status :: job_status

record HealingLoop =
  hl_max_concurrent :: int
  hl_history :: "HealingJob list"
  hl_pending :: "nat list"

text \<open>The outcome of a graph run for the n-th job; no function when no graph runner is configured.\<close>

type_synonym graph_runner = "(nat \<Rightarrow> HealingJob \<Rightarrow> pyval result) option"

definition enqueue :: "TestSuiteResult \<Rightarrow> HealingLoop \<Rightarrow> HealingLoop" where
  "enqueue r h =
     (if 0 < ts_failed r
      then h \<lparr> hl_pending := hl_pending h @ [length (hl_history h)],
               hl_history := hl_history h @ [\<lparr> hj_failing_tests = ts_failed_tests r, hj_priority = 1, hj_status = Queued \<rparr>] \<rparr>
      else h)"

definition run_job :: "graph_runner \<Rightarrow> nat \<Rightarrow> HealingJob \<Rightarrow> job_status" where
  "run_job runner i job =
     (case runner of
        None \<Rightarrow> JobSkipped
      | Some f \<Rightarrow>
          (case f i job of
             Inl _ \<Rightarrow> JobFailed
           | Inr result \<Rightarrow>
               (let verification = (case result of PDict d \<Rightarrow> dget d ''verification'' (PDict []) | _ \<Rightarrow> PDict [])
                in case verification of
                     PDict v \<Rightarrow> if py_bool (dget v ''ok'' (PBool False)) then Healed else JobFailed
                   | _ \<Rightarrow> JobFailed)))"

definition set_job_status :: "job_status \<Rightarrow> nat \<Rightarrow> HealingJob list \<Rightarrow> HealingJob list" where
  "set_job_status st i js = js [i := (js ! i) \<lparr> hj_status := st \<rparr>]"

text \<open>\<open>xs[:n]\<close> and \<open>xs[n:]\<close>.\<close>

definition slice_pos :: "int \<Rightarrow> 'a list \<Rightarrow> nat" where
  "slice_pos n xs = (if 0 \<le> n then nat n else nat (int (length xs) + n))"

text \<open>
  The jobs of a batch run concurrently; each writes its own status only, so their order does not matter and
  they are run here one after the other.
\<close>

definition dispatch_pending_jobs :: "graph_runner \<Rightarrow> HealingLoop \<Rightarrow> HealingLoop" where
  "dispatch_pending_jobs runner h =
     (let n = slice_pos (hl_max_concurrent h) (hl_pending h);
          batch = take n (hl_pending h);
          started = fold (set_job_status JobRunning) batch (hl_history h);
          finished = fold (\<lambda>i js. set_job_status (run_job runner i (js ! i)) i js) batch started
      in h \<lparr> hl_pending := drop n (hl_pending h), hl_history := finished \<rparr>)"

definition healing_iteration :: "graph_runner \<Rightarrow> TestSuiteResult \<Rightarrow> HealingLoop \<Rightarrow> HealingLoop" where
  "healing_iteration runner r h = dispatch_pending_jobs runner (enqueue r h)"

definition new_healing_loop :: "int \<Rightarrow> HealingLoop" where
  "new_healing_loop n = \<lparr> hl_max_concurrent = n, hl_history = [], hl_pending = [] \<rparr>"

definition run_loop :: "graph_runner \<Rightarrow> TestSuiteResult list \<Rightarrow> HealingLoop \<Rightarrow> HealingLoop" where
  "run_loop runner polls h = fold (healing_iteration runner) polls h"

section \<open>Safety of the test command\<close>

text \<open>
  A test command that is not on the allowlist is never started: the result of the poll does not depend
  on what the subprocess would do, and it reports one error and no failure.
\<close>

theorem unsafe_command_not_started:
  assumes "\<not> validate_test_command cmd"
  shows "poll_once spawn cmd = poll_once spawn' cmd \<and> (\<exists>r. poll_once spawn cmd = Inr r \<and> ts_errors r = 1 \<and> ts_failed r = 0)"
  using assms by (simp add: poll_once_def)

theorem unsafe_command_not_started_witness:
  "poll_once (\<lambda>_. Inl ''a'') ''rm -rf /'' = poll_once (\<lambda>_. Inr (''3 failed'', Some 1)) ''rm -rf /''"
proof -
  have "\<not> validate_test_command ''rm -rf /''" by code_simp
  then show ?thesis using unsafe_command_not_started by blast
qed

lemma detected_commands_valid:
  "list_all validate_test_command [''cargo test --all'', ''npm test'', ''go test ./...'', ''python -m pytest'', ''make test'']"
  by code_simp

text \<open>
  Every test runner that is detected passes the allowlist, whatever files the repository has.
\<close>

theorem detected_runner_allowed:
  assumes "detect_test_runner ex package = Inr cmd"
  shows "validate_test_command cmd"
  using assms detected_commands_valid
  by (auto simp: detect_test_runner_def bind_r_eq_Inr split: if_splits package_file.splits)

theorem detected_runner_allowed_witness:
  "detect_test_runner (\<lambda>f. f = ''go.mod'') Unreadable = Inr ''go test ./...'' \<and> validate_test_command ''go test ./...''"
proof -
  have d: "detect_test_runner (\<lambda>f. f = ''go.mod'') Unreadable = Inr ''go test ./...''" by (simp add: detect_test_runner_def)
  then show ?thesis using detected_runner_allowed [OF d] by simp
qed

section \<open>Round trip of a report\<close>

lemma nat_str_digit: "c \<in> set (nat_str n) \<Longrightarrow> is_digit c"
proof (induction n rule: nat_str.induct)
  case (1 n)
  then show ?case
    by (subst (asm) (2) nat_str.simps) (auto simp: is_digit_def code_digit_char split: if_splits)
qed

lemma takeWhile_all_append: "(\<And>x. x \<in> set xs \<Longrightarrow> P x) \<Longrightarrow> \<not> P y \<Longrightarrow> takeWhile P (xs @ y # ys) = xs \<and> dropWhile P (xs @ y # ys) = y # ys"
  by (induction xs) auto

lemma not_digit_space: "\<not> is_digit CHR '' ''" "is_space CHR '' ''"
  by code_simp+

lemma count_here_printed:
  assumes "word \<noteq> []" "\<not> is_space (hd word)"
  shows "count_here word (nat_str n @ '' '' @ word @ post) = Some (nat_str n)"
proof -
  obtain w ws where w: "word = w # ws" using assms(1) by (cases word) auto
  have "takeWhile is_digit (nat_str n @ CHR '' '' # word @ post) = nat_str n \<and>
      dropWhile is_digit (nat_str n @ CHR '' '' # word @ post) = CHR '' '' # word @ post"
    by (rule takeWhile_all_append) (auto intro: nat_str_digit simp: not_digit_space)
  then show ?thesis
    using assms nat_str_neq_Nil by (simp add: count_here_def Let_def not_digit_space w)
qed

lemma count_here_no_digit: "s = [] \<or> \<not> is_digit (hd s) \<Longrightarrow> count_here word s = None"
  by (cases s) (auto simp: count_here_def)

lemma find_count_skip:
  "(\<And>c. c \<in> set pre \<Longrightarrow> \<not> is_digit c) \<Longrightarrow> find_count word (pre @ s) = find_count word s"
  by (induction pre) (simp_all add: count_here_no_digit)

lemma find_count_here: "count_here word s = Some ds \<Longrightarrow> find_count word s = Some ds"
  by (cases s) auto

text \<open>A number that another word follows is skipped, all its suffixes included.\<close>

lemma count_here_other:
  assumes "\<And>c. c \<in> set ds \<Longrightarrow> is_digit c" "\<not> is_space (hd other)" "other \<noteq> []" "\<not> prefix word (other @ post)"
  shows "count_here word (ds @ '' '' @ other @ post) = None"
proof -
  obtain w ws where w: "other = w # ws" using assms(3) by (cases other) auto
  have "takeWhile is_digit (ds @ CHR '' '' # other @ post) = ds \<and>
      dropWhile is_digit (ds @ CHR '' '' # other @ post) = CHR '' '' # other @ post"
    by (rule takeWhile_all_append) (auto intro: assms(1) simp: not_digit_space)
  then show ?thesis using assms(2,4) by (simp add: count_here_def Let_def not_digit_space w)
qed

lemma find_count_other:
  assumes "\<And>c. c \<in> set ds \<Longrightarrow> is_digit c" "\<not> is_space (hd other)" "other \<noteq> []" "\<not> prefix word (other @ post)"
  shows "find_count word (ds @ '' '' @ other @ post) = find_count word (other @ post)"
  using assms
proof (induction ds)
  case Nil
  then show ?case by (simp add: count_here_no_digit not_digit_space)
next
  case (Cons d ds)
  have "count_here word ((d # ds) @ '' '' @ other @ post) = None" by (rule count_here_other) (use Cons.prems in auto)
  then show ?case using Cons by simp
qed

lemma not_space_digit: "is_digit c \<Longrightarrow> \<not> is_space c \<and> c \<noteq> CHR ''-'' \<and> c \<noteq> CHR ''+''"
  by (auto simp: is_digit_def is_space_def Let_def code_def)

lemma py_int_nat_str: "length (nat_str n) \<le> 4300 \<Longrightarrow> py_int (PStr (nat_str n)) = Inr (int n)"
proof -
  assume len: "length (nat_str n) \<le> 4300"
  obtain d ds where d: "nat_str n = d # ds" by (cases "nat_str n") auto
  have dig: "is_digit (hd (nat_str n))" "is_digit (last (nat_str n))" 
    using nat_str_digit [of "hd (nat_str n)" n] nat_str_digit [of "last (nat_str n)" n] by simp_all
  then have "strip (nat_str n) = nat_str n" using not_space_digit by (intro strip_ends) auto
  then have "parse_int (nat_str n) = parse_digits 0 False (nat_str n)"
    using dig(1) not_space_digit by (auto simp: parse_int_def d)
  also have "\<dots> = Some (int n)" using parse_digits_nat_str [of 0 False n "[]"] by simp
  finally have p: "parse_int (nat_str n) = Some (int n)" .
  have "filter (\<lambda>c. 48 \<le> code c \<and> code c \<le> 57) (nat_str n) = nat_str n"
    using nat_str_digit by (auto simp: filter_id_conv is_digit_def)
  then show ?thesis using len by (simp add: py_int_def p int_digit_limit_def)
qed

lemma no_digits: "c \<in> set ''failed, '' \<Longrightarrow> \<not> is_digit c" "c \<in> set ''passed'' \<Longrightarrow> \<not> is_digit c"
  by (auto simp: is_digit_def code_def)

text \<open>
  Round trip of a test report: from a report that prints the numbers of failed and passed tests, in the
  form in which pytest ends its output, the loop reads exactly these numbers and no error.
\<close>

theorem report_round_trip:
  assumes pre: "\<forall>c\<in>set pre. \<not> is_digit c" and post: "find_count ''error'' post = None"
    and len: "length (nat_str f) \<le> 4300" "length (nat_str p) \<le> 4300" and code: "exit_code \<noteq> 2"
  shows "\<exists>r. suite_result (pre @ nat_str f @ '' failed, '' @ nat_str p @ '' passed'' @ post) exit_code = Inr r \<and>
     ts_failed r = int f \<and> ts_passed r = int p \<and> ts_errors r = 0"
proof -
  let ?tail = "nat_str p @ '' passed'' @ post"
  let ?s = "pre @ nat_str f @ '' failed, '' @ ?tail"
  have start: "find_count word ?s = find_count word (nat_str f @ '' '' @ ''failed, '' @ ?tail)" for word
    using find_count_skip [of pre word] pre by simp
  have skip: "find_count word ?s = find_count word ?tail" if w: "\<not> prefix word (''failed, '' @ ?tail)" for word
    unfolding start using find_count_other [of "nat_str f" "''failed, ''" word ?tail] w nat_str_digit
      find_count_skip [of "''failed, ''" word ?tail] no_digits(1) not_space_digit
    by (simp add: is_space_def code_def)
  have 1: "find_count ''failed'' ?s = Some (nat_str f)"
    unfolding start using count_here_printed [of "''failed''" f "'', '' @ ?tail"]
    by (intro find_count_here) (simp add: is_space_def code_def)
  have 2: "find_count ''passed'' ?s = Some (nat_str p)"
    using skip [of "''passed''"] count_here_printed [of "''passed''" p post] find_count_here [of "''passed''" ?tail]
    by (simp add: is_space_def code_def)
  have "find_count ''error'' ?tail = find_count ''error'' (''passed'' @ post)"
    using find_count_other [of "nat_str p" "''passed''" "''error''" post] nat_str_digit by (simp add: is_space_def code_def)
  also have "\<dots> = None" using find_count_skip [of "''passed''" "''error''" post] no_digits(2) post by simp
  finally have 3: "find_count ''error'' ?s = None" using skip [of "''error''"] by simp
  have "read_count ''passed'' ?s = Inr (int p)" "read_count ''failed'' ?s = Inr (int f)" "read_count ''error'' ?s = Inr 0"
    unfolding read_count_def 1 2 3 using len py_int_nat_str by simp_all
  then show ?thesis using code unfolding suite_result_def by simp
qed

theorem report_round_trip_witness:
  "\<exists>r. suite_result (''= '' @ nat_str 12 @ '' failed, '' @ nat_str 345 @ '' passed'' @ '' in 0.5s'') 1 = Inr r \<and>
     ts_failed r = 12 \<and> ts_passed r = 345"
proof -
  have a: "\<forall>c\<in>set ''= ''. \<not> is_digit c" "find_count ''error'' '' in 0.5s'' = None" by code_simp+
  have "nat_str 12 = ''12''" "nat_str 345 = ''345''" by code_simp+
  then show ?thesis using report_round_trip [OF a, of 12 345 1] by fastforce
qed

section \<open>Jobs\<close>

text \<open>The specification of the history: one job per failing poll, in order, with the outcome of its run.\<close>

definition finished_job :: "graph_runner \<Rightarrow> nat \<Rightarrow> TestSuiteResult \<Rightarrow> HealingJob" where
  "finished_job runner i r =
     (let j = \<lparr> hj_failing_tests = ts_failed_tests r, hj_priority = 1, hj_status = JobRunning \<rparr>
      in j \<lparr> hj_status := run_job runner i j \<rparr>)"

definition failing :: "TestSuiteResult list \<Rightarrow> TestSuiteResult list" where
  "failing polls = filter (\<lambda>r. 0 < ts_failed r) polls"

definition expected_history :: "graph_runner \<Rightarrow> TestSuiteResult list \<Rightarrow> HealingJob list" where
  "expected_history runner polls = map (\<lambda>(i, r). finished_job runner i r) (enumerate 0 (failing polls))"

lemma expected_history_snoc:
  "expected_history runner (polls @ [r]) = expected_history runner polls @
     (if 0 < ts_failed r then [finished_job runner (length (expected_history runner polls)) r] else [])"
  by (simp add: expected_history_def failing_def enumerate_append_eq)

lemma healing_iteration_step:
  assumes "hl_pending h = []" "1 \<le> hl_max_concurrent h"
  shows "hl_pending (healing_iteration runner r h) = [] \<and>
     hl_max_concurrent (healing_iteration runner r h) = hl_max_concurrent h \<and>
     hl_history (healing_iteration runner r h) = hl_history h @
       (if 0 < ts_failed r then [finished_job runner (length (hl_history h)) r] else [])"
proof -
  have "take (nat (hl_max_concurrent h)) [x] = [x]" "drop (nat (hl_max_concurrent h)) [x] = []" for x :: nat
    using assms(2) by (cases "nat (hl_max_concurrent h)"; simp)+
  moreover have "Suc 0 \<le> nat (hl_max_concurrent h)" using assms(2) by simp
  ultimately show ?thesis
    using assms by (simp add: healing_iteration_def dispatch_pending_jobs_def enqueue_def slice_pos_def set_job_status_def
        finished_job_def Let_def nth_append)
qed

lemma run_loop_snoc: "run_loop runner (polls @ [r]) h = healing_iteration runner r (run_loop runner polls h)"
  by (simp add: run_loop_def)

lemma run_loop_history:
  assumes "1 \<le> n"
  shows "hl_pending (run_loop runner polls (new_healing_loop n)) = [] \<and>
     hl_max_concurrent (run_loop runner polls (new_healing_loop n)) = n \<and>
     hl_history (run_loop runner polls (new_healing_loop n)) = expected_history runner polls"
proof (induction polls rule: rev_induct)
  case Nil
  then show ?case by (simp add: run_loop_def new_healing_loop_def expected_history_def failing_def)
next
  case (snoc r polls)
  then show ?case
    using healing_iteration_step [of "run_loop runner polls (new_healing_loop n)"] assms
    by (simp add: run_loop_snoc expected_history_snoc)
qed

text \<open>
  The healing loop keeps up: with at least one concurrent job, after every poll nothing is pending, and
  the history is exactly one job per failing poll, in order, each with the final outcome of its own run.
\<close>

theorem healing_loop_refines:
  assumes "1 \<le> n"
  shows "hl_pending (run_loop runner polls (new_healing_loop n)) = [] \<and>
     hl_history (run_loop runner polls (new_healing_loop n)) = expected_history runner polls"
  using run_loop_history [OF assms] by blast

definition demo_poll :: "int \<Rightarrow> TestSuiteResult" where
  "demo_poll k = \<lparr> ts_passed = 0, ts_failed = k, ts_errors = 0, ts_failed_tests = [''t''], ts_output = [] \<rparr>"

theorem healing_loop_refines_witness:
  "map hj_status (hl_history (run_loop (Some (\<lambda>i _. if i = 0 then Inr (PDict []) else
       Inr (PDict [(''verification'', PDict [(''ok'', PBool True)])])))
     [demo_poll 1, demo_poll 0, demo_poll 2] (new_healing_loop 2))) = [JobFailed, Healed]"
  using healing_loop_refines [of 2 "Some (\<lambda>i _. if i = 0 then Inr (PDict []) else
       Inr (PDict [(''verification'', PDict [(''ok'', PBool True)])]))" "[demo_poll 1, demo_poll 0, demo_poll 2]"]
  by (simp add: expected_history_def failing_def demo_poll_def finished_job_def run_job_def Let_def)

text \<open>With a limit of zero no job is ever started: the queue grows with every failing poll.\<close>

theorem zero_concurrency_never_heals:
  "length (hl_pending (run_loop runner polls (new_healing_loop 0))) = length (failing polls) \<and>
   list_all (\<lambda>j. hj_status j = Queued) (hl_history (run_loop runner polls (new_healing_loop 0)))"
proof -
  have "hl_max_concurrent (run_loop runner polls (new_healing_loop 0)) = 0 \<and>
    length (hl_pending (run_loop runner polls (new_healing_loop 0))) = length (failing polls) \<and>
    list_all (\<lambda>j. hj_status j = Queued) (hl_history (run_loop runner polls (new_healing_loop 0)))"
  proof (induction polls rule: rev_induct)
    case Nil
    then show ?case by (simp add: run_loop_def new_healing_loop_def failing_def)
  next
    case (snoc r polls)
    then show ?case
      by (simp add: run_loop_snoc healing_iteration_def dispatch_pending_jobs_def enqueue_def slice_pos_def failing_def Let_def)
  qed
  then show ?thesis by blast
qed

end
