(* ===== verification/Procedure_Cache.thy ===== *)
theory Procedure_Cache
  imports Planner_Memory Py_Json Sha256
begin

text \<open>
  \<open>procedure_cache.py\<close>: the table of verified tool sequences, keyed by the hash of a canonical name and a
  normalised request. A table is the list of its rows in the order of insertion; \<open>ORDER BY\<close> is a stable sort and a
  negative \<open>LIMIT\<close> none, as in SQLite. The shown properties: a stored procedure is found again under
  any spelling of the request with the same words, the uses are counted per procedure and survive a new version.
\<close>

section \<open>Rows and keys\<close>

record procedure_row =
  pr_procedure_id :: string
  pr_canonical_name :: string
  pr_request_hash :: string
  pr_task_class :: string
  pr_steps_json :: string
  pr_verification_json :: string
  pr_use_count :: int
  pr_last_used_at :: "string option"
  pr_created_at :: string

type_synonym procedure_table = "procedure_row list"

text \<open>\<open>str.split()\<close>: the maximal runs of characters that are not blank.\<close>

fun split_blank_aux :: "string \<Rightarrow> string \<Rightarrow> string list" where
  "split_blank_aux acc [] = (if acc = [] then [] else [rev acc])"
| "split_blank_aux acc (c # s) =
     (if is_space c then (if acc = [] then [] else [rev acc]) @ split_blank_aux [] s
      else split_blank_aux (c # acc) s)"

definition split_blank :: "string \<Rightarrow> string list" where
  "split_blank s = split_blank_aux [] s"

definition canonical_request_hash :: "string \<Rightarrow> string" where
  "canonical_request_hash request = take 32 (sha256_hex (join '' '' (split_blank (lower request))))"

definition procedure_id_of :: "string \<Rightarrow> string \<Rightarrow> string" where
  "procedure_id_of canonical_name request_hash = take 24 (sha256_hex (canonical_name @ ''|'' @ request_hash))"

section \<open>Operations\<close>

definition upsert_row :: "procedure_row \<Rightarrow> procedure_table \<Rightarrow> procedure_table" where
  "upsert_row row rows =
     (if pr_procedure_id row \<in> pr_procedure_id ` set rows
      then map (\<lambda>r. if pr_procedure_id r = pr_procedure_id row
                    then r \<lparr> pr_steps_json := pr_steps_json row, pr_verification_json := pr_verification_json row,
                             pr_task_class := pr_task_class row, pr_created_at := pr_created_at row \<rparr>
                    else r) rows
      else rows @ [row])"

definition store_procedure ::
  "string \<Rightarrow> string \<Rightarrow> string \<Rightarrow> pyval list \<Rightarrow> pyval list \<Rightarrow> string \<Rightarrow> procedure_table \<Rightarrow> string \<times> procedure_table" where
  "store_procedure canonical_name request task_class steps verification created_at rows =
     (let request_hash = canonical_request_hash request;
          procedure_id = procedure_id_of canonical_name request_hash;
          row = \<lparr> pr_procedure_id = procedure_id, pr_canonical_name = canonical_name, pr_request_hash = request_hash,
                  pr_task_class = task_class, pr_steps_json = json_dumps True '', '' '': '' (PList steps),
                  pr_verification_json = json_dumps True '', '' '': '' (PList verification),
                  pr_use_count = 0, pr_last_used_at = None, pr_created_at = created_at \<rparr>
      in (procedure_id, upsert_row row rows))"

definition sql_limit :: "int \<Rightarrow> 'a list \<Rightarrow> 'a list" where
  "sql_limit n xs = (if n < 0 then xs else take (nat n) xs)"

definition row_entry :: "procedure_row \<Rightarrow> pydict option" where
  "row_entry row = (case (json_loads (pr_steps_json row), json_loads (pr_verification_json row)) of
       (Some steps, Some verification) \<Rightarrow>
         Some [(''procedure_id'', PStr (pr_procedure_id row)), (''canonical_name'', PStr (pr_canonical_name row)),
               (''task_class'', PStr (pr_task_class row)), (''steps'', steps), (''verification'', verification),
               (''use_count'', PInt (pr_use_count row)),
               (''last_used_at'', (case pr_last_used_at row of None \<Rightarrow> PNone | Some t \<Rightarrow> PStr t)),
               (''created_at'', PStr (pr_created_at row))]
     | _ \<Rightarrow> None)"

definition lookup_procedure :: "string \<Rightarrow> string \<Rightarrow> int \<Rightarrow> procedure_table \<Rightarrow> pydict list" where
  "lookup_procedure request canonical_name limit rows =
     (let request_hash = canonical_request_hash request;
          found = filter (\<lambda>r. pr_request_hash r = request_hash \<and> (canonical_name = [] \<or> pr_canonical_name r = canonical_name)) rows
      in List.map_filter row_entry (sql_limit limit (sort_desc pr_use_count found)))"

definition record_use :: "string \<Rightarrow> string \<Rightarrow> procedure_table \<Rightarrow> procedure_table" where
  "record_use procedure_id used_at rows =
     map (\<lambda>r. if pr_procedure_id r = procedure_id
              then r \<lparr> pr_use_count := pr_use_count r + 1, pr_last_used_at := Some used_at \<rparr> else r) rows"

definition list_procedures :: "int \<Rightarrow> procedure_table \<Rightarrow> pydict list" where
  "list_procedures limit rows =
     map (\<lambda>row. [(''procedure_id'', PStr (pr_procedure_id row)), (''canonical_name'', PStr (pr_canonical_name row)),
                 (''task_class'', PStr (pr_task_class row)), (''use_count'', PInt (pr_use_count row)),
                 (''last_used_at'', (case pr_last_used_at row of None \<Rightarrow> PNone | Some t \<Rightarrow> PStr t)),
                 (''created_at'', PStr (pr_created_at row))])
       (sql_limit limit (sort_desc pr_use_count rows))"

text \<open>The name of a procedure: its first four tools, in the order of their first use.\<close>

definition call_name :: "pyval \<Rightarrow> string" where
  "call_name tool_call = (case tool_call of PDict d \<Rightarrow> strip (gets d ''tool'' []) | _ \<Rightarrow> [])"

definition add_name :: "string list \<Rightarrow> string \<Rightarrow> string list" where
  "add_name names name = (if name \<noteq> [] \<and> name \<notin> set names then names @ [name] else names)"

fun tool_names :: "pyval list \<Rightarrow> string list \<Rightarrow> string list result" where
  "tool_names [] names = Inr names"
| "tool_names (step # steps) names = (case step of
       PDict d \<Rightarrow> bind_r (py_iter (dget d ''tools'' (PList [])))
                    (\<lambda>calls. tool_names steps (foldl add_name names (map call_name calls)))
     | _ \<Rightarrow> tool_names steps names)"

definition canonical_procedure_name :: "pyval list \<Rightarrow> string result" where
  "canonical_procedure_name steps =
     bind_r (tool_names steps []) (\<lambda>names.
       Inr (if names = [] then ''unnamed_procedure'' else join ''_'' (take 4 names)))"

section \<open>The table\<close>

definition table_ok :: "procedure_table \<Rightarrow> bool" where
  "table_ok rows \<longleftrightarrow> distinct (map pr_procedure_id rows) \<and>
     (\<forall>r\<in>set rows. pr_procedure_id r = procedure_id_of (pr_canonical_name r) (pr_request_hash r))"

text \<open>The uses counted for an identifier.\<close>

definition uses :: "string \<Rightarrow> procedure_table \<Rightarrow> int" where
  "uses i rows = (case find (\<lambda>r. pr_procedure_id r = i) rows of None \<Rightarrow> 0 | Some r \<Rightarrow> pr_use_count r)"

lemma upsert_row_ids:
  "map pr_procedure_id (upsert_row row rows) =
     (if pr_procedure_id row \<in> pr_procedure_id ` set rows then map pr_procedure_id rows
      else map pr_procedure_id rows @ [pr_procedure_id row])"
  by (auto simp: upsert_row_def)

lemma upsert_row_ok:
  assumes "table_ok rows" "pr_procedure_id row = procedure_id_of (pr_canonical_name row) (pr_request_hash row)"
  shows "table_ok (upsert_row row rows)"
proof -
  have "distinct (map pr_procedure_id (upsert_row row rows))"
    using assms(1) by (auto simp: upsert_row_ids table_ok_def)
  moreover have "\<forall>r\<in>set (upsert_row row rows). pr_procedure_id r = procedure_id_of (pr_canonical_name r) (pr_request_hash r)"
    using assms by (auto simp: upsert_row_def table_ok_def)
  ultimately show ?thesis by (simp add: table_ok_def)
qed

lemma store_procedure_ok: "table_ok rows \<Longrightarrow> table_ok (snd (store_procedure name request cls steps verification t rows))"
  by (simp add: store_procedure_def Let_def upsert_row_ok)

lemma record_use_ok:
  assumes "table_ok rows"
  shows "table_ok (record_use i t rows)"
proof -
  have "map pr_procedure_id (record_use i t rows) = map pr_procedure_id rows" by (simp add: record_use_def)
  moreover have "\<forall>r\<in>set (record_use i t rows). pr_procedure_id r = procedure_id_of (pr_canonical_name r) (pr_request_hash r)"
    using assms by (auto simp: table_ok_def record_use_def)
  ultimately show ?thesis using assms by (simp add: table_ok_def)
qed

lemma uses_upsert: "pr_use_count row = 0 \<Longrightarrow> uses i (upsert_row row rows) = uses i rows"
proof -
  assume z: "pr_use_count row = 0"
  have m: "uses i (map (\<lambda>r. if P r then f r else r) rs) = uses i rs"
    if "\<And>r. pr_procedure_id (f r) = pr_procedure_id r" "\<And>r. pr_use_count (f r) = pr_use_count r" for P f rs
    using that by (induction rs) (auto simp: uses_def)
  have a: "uses i (rows @ [row]) = uses i rows" by (induction rows) (auto simp: uses_def z)
  show ?thesis unfolding upsert_row_def by (simp add: a m)
qed

lemma uses_record:
  "uses i (record_use j t rows) = uses i rows + (if i = j \<and> i \<in> pr_procedure_id ` set rows then 1 else 0)"
  by (induction rows) (auto simp: uses_def record_use_def)

lemma filter_one:
  assumes "distinct (map f xs)" "x \<in> set xs" "\<And>y. y \<in> set xs \<Longrightarrow> P y \<longleftrightarrow> f y = f x"
  shows "filter P xs = [x]"
proof -
  have "filter P xs = filter (\<lambda>y. f y = f x) xs" using assms(3) by (rule filter_cong [OF refl])
  also have "\<dots> = [x]" using assms(1,2)
  proof (induction xs)
    case (Cons z zs)
    then show ?case
    proof (cases "z = x")
      case True
      then have "filter (\<lambda>y. f y = f x) zs = []" using Cons.prems(1) by (auto simp: filter_empty_conv image_iff)
      then show ?thesis using True by simp
    next
      case False
      then have "f z \<noteq> f x" using Cons.prems by (auto simp: image_iff)
      then show ?thesis using Cons False by simp
    qed
  qed simp
  finally show ?thesis .
qed

text \<open>The row of a procedure after it was stored.\<close>

lemma store_procedure_row:
  assumes "table_ok rows"
    and "\<forall>r\<in>set rows. pr_procedure_id r = procedure_id_of name (canonical_request_hash request) \<longrightarrow>
           pr_canonical_name r = name \<and> pr_request_hash r = canonical_request_hash request"
  obtains r where "r \<in> set (snd (store_procedure name request cls steps verification t rows))"
    "pr_procedure_id r = procedure_id_of name (canonical_request_hash request)"
    "pr_canonical_name r = name" "pr_request_hash r = canonical_request_hash request" "pr_task_class r = cls"
    "pr_steps_json r = json_dumps True '', '' '': '' (PList steps)"
    "pr_verification_json r = json_dumps True '', '' '': '' (PList verification)"
    "pr_use_count r = uses (procedure_id_of name (canonical_request_hash request)) rows"
proof (cases "procedure_id_of name (canonical_request_hash request) \<in> pr_procedure_id ` set rows")
  case True
  let ?i = "procedure_id_of name (canonical_request_hash request)"
  obtain r where f: "find (\<lambda>r. pr_procedure_id r = ?i) rows = Some r"
    using True by (cases "find (\<lambda>r. pr_procedure_id r = ?i) rows") (auto simp: find_None_iff)
  then have r: "r \<in> set rows" "pr_procedure_id r = ?i" by (auto simp: find_Some_iff)
  let ?r = "r \<lparr> pr_steps_json := json_dumps True '', '' '': '' (PList steps),
     pr_verification_json := json_dumps True '', '' '': '' (PList verification), pr_task_class := cls, pr_created_at := t \<rparr>"
  show ?thesis
  proof (rule that [of ?r])
    show "?r \<in> set (snd (store_procedure name request cls steps verification t rows))"
      using True r by (auto simp: store_procedure_def Let_def upsert_row_def)
    show "pr_canonical_name ?r = name" "pr_request_hash ?r = canonical_request_hash request" using assms(2) r by auto
  qed (use r in \<open>simp_all add: uses_def f\<close>)
next
  case False
  let ?i = "procedure_id_of name (canonical_request_hash request)"
  have "find (\<lambda>r. pr_procedure_id r = ?i) rows = None" using False by (auto simp: find_None_iff image_iff)
  then show ?thesis
    using False by (intro that [of "\<lparr> pr_procedure_id = ?i, pr_canonical_name = name,
      pr_request_hash = canonical_request_hash request, pr_task_class = cls,
      pr_steps_json = json_dumps True '', '' '': '' (PList steps), pr_verification_json = json_dumps True '', '' '': '' (PList verification),
      pr_use_count = 0, pr_last_used_at = None, pr_created_at = t \<rparr>"]) (simp_all add: store_procedure_def Let_def upsert_row_def uses_def)
qed

text \<open>
  A stored procedure is found again: for any request with the same words, in any case and spacing, the
  lookup by name returns exactly the stored steps and checks (with the keys of their dictionaries sorted) and the
  uses counted so far. The identifier has to be free of collisions in the table.
\<close>

theorem stored_procedure_found:
  assumes "table_ok rows" "name \<noteq> []" "limit \<noteq> 0" "json_plain (PList steps)" "json_plain (PList verification)"
    and "\<forall>r\<in>set rows. pr_procedure_id r = procedure_id_of name (canonical_request_hash request) \<longrightarrow>
           pr_canonical_name r = name \<and> pr_request_hash r = canonical_request_hash request"
    and "split_blank (lower other) = split_blank (lower request)"
  shows "\<exists>entry. lookup_procedure other name limit (snd (store_procedure name request cls steps verification t rows)) = [entry] \<and>
    dget entry ''steps'' PNone = sort_keys (PList steps) \<and> dget entry ''verification'' PNone = sort_keys (PList verification) \<and>
    dget entry ''task_class'' PNone = PStr cls \<and>
    dget entry ''use_count'' PNone = PInt (uses (procedure_id_of name (canonical_request_hash request)) rows)"
proof -
  let ?rows = "snd (store_procedure name request cls steps verification t rows)"
    and ?h = "canonical_request_hash request"
  have h: "canonical_request_hash other = ?h" by (simp add: canonical_request_hash_def assms(7))
  obtain r where r: "r \<in> set ?rows" "pr_procedure_id r = procedure_id_of name ?h" "pr_canonical_name r = name"
      "pr_request_hash r = ?h" "pr_task_class r = cls" "pr_steps_json r = json_dumps True '', '' '': '' (PList steps)"
      "pr_verification_json r = json_dumps True '', '' '': '' (PList verification)"
      "pr_use_count r = uses (procedure_id_of name ?h) rows"
    by (rule store_procedure_row [OF assms(1) assms(6)])
  have ok: "table_ok ?rows" by (rule store_procedure_ok [OF assms(1)])
  then have ids: "pr_procedure_id y = procedure_id_of (pr_canonical_name y) (pr_request_hash y)" if "y \<in> set ?rows" for y
    using that by (simp add: table_ok_def)
  have same: "pr_request_hash y = ?h \<and> pr_canonical_name y = name \<longleftrightarrow> pr_procedure_id y = pr_procedure_id r" if y: "y \<in> set ?rows" for y
  proof
    assume "pr_procedure_id y = pr_procedure_id r"
    moreover have "inj_on pr_procedure_id (set ?rows)" using ok by (simp add: table_ok_def distinct_map)
    ultimately have "y = r" using y r(1) by (auto dest: inj_onD)
    then show "pr_request_hash y = ?h \<and> pr_canonical_name y = name" using r by simp
  qed (simp add: ids y r(2))
  have "filter (\<lambda>y. pr_request_hash y = ?h \<and> (name = [] \<or> pr_canonical_name y = name)) ?rows = [r]"
    using ok r(1) same assms(2) by (intro filter_one [of pr_procedure_id]) (auto simp: table_ok_def)
  moreover have "sql_limit limit [r] = [r]" using assms(3) by (cases "nat limit") (auto simp: sql_limit_def)
  moreover have seps: "json_seps '', '' '': ''"
    unfolding json_seps_def by (rule exI [of _ "'' ''"], rule exI [of _ "'' ''"]) (simp add: json_space_def code_def)
  ultimately show ?thesis
    using json_round_trip_sorted [OF seps assms(4)] json_round_trip_sorted [OF seps assms(5)]
    by (simp add: lookup_procedure_def Let_def h sort_desc_def row_entry_def List.map_filter_def r dget_def)
qed

theorem stored_procedure_found_witness:
  "\<exists>entry. lookup_procedure ''fix the  bug'' ''read_file'' 3 (snd (store_procedure ''read_file'' ''Fix the BUG'' ''debug''
        [PDict [(''tools'', PList []), (''id'', PStr ''s1'')]] [] ''2026-01-01'' [])) = [entry] \<and>
    dget entry ''steps'' PNone = sort_keys (PList [PDict [(''tools'', PList []), (''id'', PStr ''s1'')]]) \<and>
    dget entry ''verification'' PNone = sort_keys (PList []) \<and> dget entry ''task_class'' PNone = PStr ''debug'' \<and>
    dget entry ''use_count'' PNone = PInt (uses (procedure_id_of ''read_file'' (canonical_request_hash ''Fix the BUG'')) [])"
proof (rule stored_procedure_found)
  show "split_blank (lower ''fix the  bug'') = split_blank (lower ''Fix the BUG'')" by code_simp
qed (simp_all add: table_ok_def)

end
