(* ===== verification/Run_Store.thy ===== *)
theory Run_Store
  imports Procedure_Cache
begin

text \<open>
  \<open>run_store.py\<close>: the store of runs, recovery facts and semantic memories over SQLite (\<open>RunStore\<close>) and over Redis
  (\<open>RedisRunStore\<close>). A table is the list of its rows in the order of their row ids; \<open>INSERT OR REPLACE\<close> deletes the
  rows with the same key and adds the new one at the end. Parameters are SQLite's conversion of values that do not
  have the declared type of a column (\<open>conv\<close>), its full text index (\<open>fts\<close>), and the Redis client.
  The locale \<open>run_store_contract\<close> states what the service relies on; both stores provide it.
\<close>

section \<open>Values of SQLite\<close>

datatype sql_type = Text | Integer

datatype col_rule = Nullable | Required | Default pyval

type_synonym column = "string \<times> sql_type \<times> col_rule"

text \<open>The binding of a parameter by the \<open>sqlite3\<close> module.\<close>

definition sql_bind :: "pyval \<Rightarrow> pyval result" where
  "sql_bind v = (case v of
       PBool b \<Rightarrow> Inr (PInt (of_bool b))
     | PInt i \<Rightarrow> if - (2 ^ 63) \<le> i \<and> i < 2 ^ 63 then Inr v
                else Inl (OverflowError ''Python int too large to convert to SQLite INTEGER'')
     | PList _ \<Rightarrow> Inl (OtherError ''ProgrammingError'' ''type list is not supported'')
     | PDict _ \<Rightarrow> Inl (OtherError ''ProgrammingError'' ''type dict is not supported'')
     | _ \<Rightarrow> Inr v)"

definition column_value :: "(pyval \<Rightarrow> pyval) \<Rightarrow> sql_type \<Rightarrow> pyval \<Rightarrow> pyval" where
  "column_value conv ty v = (case (ty, v) of
       (_, PNone) \<Rightarrow> PNone
     | (Text, PStr s) \<Rightarrow> v
     | (Integer, PInt i) \<Rightarrow> v
     | (Text, PInt i) \<Rightarrow> PStr (int_str i)
     | _ \<Rightarrow> conv v)"

definition rule_value :: "string \<Rightarrow> col_rule \<Rightarrow> pyval \<Rightarrow> pyval result" where
  "rule_value name rule v =
     (if v \<noteq> PNone then Inr v
      else case rule of
          Nullable \<Rightarrow> Inr PNone
        | Default d \<Rightarrow> Inr d
        | Required \<Rightarrow> Inl (OtherError ''IntegrityError'' (''NOT NULL constraint failed: runs.'' @ name)))"

definition make_row :: "(pyval \<Rightarrow> pyval) \<Rightarrow> column list \<Rightarrow> pydict \<Rightarrow> pydict result" where
  "make_row conv cols data =
     bind_r (map_r (\<lambda>(k, v). bind_r (sql_bind v) (\<lambda>b. Inr (k, b))) data) (\<lambda>bound.
       map_r (\<lambda>(k, ty, rule). bind_r (rule_value k rule (column_value conv ty (dget bound k PNone))) (\<lambda>v. Inr (k, v))) cols)"

definition ascii_lower :: "string \<Rightarrow> string" where
  "ascii_lower s = map (\<lambda>c. if 65 \<le> code c \<and> code c \<le> 90 then char_of (code c + 32) else c) s"

definition like_items :: "string \<Rightarrow> pat_item list" where
  "like_items p = map (\<lambda>c. if c = CHR ''%'' then Star else if c = CHR ''_'' then AnyChar else Lit c) p"

definition sql_like :: "string \<Rightarrow> pyval \<Rightarrow> bool" where
  "sql_like pat v = (case v of PStr s \<Rightarrow> pat_match (like_items (ascii_lower pat)) (ascii_lower s) | _ \<Rightarrow> False)"

section \<open>The runs\<close>

definition run_columns :: "column list" where
  "run_columns =
     [(''run_id'', Text, Nullable), (''request'', Text, Required), (''status'', Text, Required), (''created_at'', Text, Required),
      (''started_at'', Text, Required), (''finished_at'', Text, Nullable), (''exit_code'', Integer, Nullable),
      (''trace_out_dir'', Text, Required), (''trace_path'', Text, Required), (''request_id'', Text, Default (PStr [])),
      (''auth_subject'', Text, Default (PStr [])), (''client_ip'', Text, Default (PStr [])), (''thread_id'', Text, Default (PStr [])),
      (''checkpoint_id'', Text, Default (PStr [])), (''pending_approval'', Integer, Default (PInt 0)),
      (''pending_approval_summary'', Text, Default (PStr [])), (''namespace'', Text, Default (PStr [])), (''final'', Text, Default (PStr []))]"

definition stored_columns :: "string list" where
  "stored_columns =
     [''run_id'', ''request'', ''status'', ''created_at'', ''started_at'', ''finished_at'', ''exit_code'', ''trace_out_dir'', ''trace_path'',
      ''request_id'', ''auth_subject'', ''client_ip'', ''thread_id'', ''checkpoint_id'', ''pending_approval'', ''pending_approval_summary'',
      ''namespace'', ''final'']"

text \<open>The columns of a record that the table has, with the namespace of the store.\<close>

definition run_data :: "string \<Rightarrow> pydict \<Rightarrow> pydict" where
  "run_data ns rec = dset (List.map_filter (\<lambda>k. map_option (Pair k) (map_of rec k)) stored_columns) ''namespace'' (PStr ns)"

definition same_key :: "pydict \<Rightarrow> pydict \<Rightarrow> bool" where
  "same_key row r \<longleftrightarrow> dget row ''run_id'' PNone \<noteq> PNone \<and> dget r ''run_id'' PNone = dget row ''run_id'' PNone"

definition run_upsert :: "(pyval \<Rightarrow> pyval) \<Rightarrow> string \<Rightarrow> pydict \<Rightarrow> pydict list \<Rightarrow> pydict list result" where
  "run_upsert conv ns rec rows =
     bind_r (make_row conv run_columns (run_data ns rec)) (\<lambda>row. Inr (filter (\<lambda>r. \<not> same_key row r) rows @ [row]))"

definition in_namespace :: "string \<Rightarrow> pydict \<Rightarrow> bool" where
  "in_namespace ns r \<longleftrightarrow> dget r ''namespace'' PNone = PStr ns"

definition text_col :: "string \<Rightarrow> pydict \<Rightarrow> string" where
  "text_col k r = (case dget r k PNone of PStr s \<Rightarrow> s | _ \<Rightarrow> [])"

definition list_runs :: "string \<Rightarrow> pydict list \<Rightarrow> pydict list" where
  "list_runs ns rows = sort_desc (text_col ''created_at'') (filter (in_namespace ns) rows)"

definition get_run :: "string \<Rightarrow> string \<Rightarrow> pydict list \<Rightarrow> pydict option" where
  "get_run ns run_id rows = find (\<lambda>r. dget r ''run_id'' PNone = PStr run_id \<and> in_namespace ns r) rows"

text \<open>
  The search: \<open>fts\<close> is \<open>None\<close> when SQLite has no full text index; otherwise it ranks the rows that match, or
  fails on a query that it cannot parse.
\<close>

definition search_runs ::
  "(string \<Rightarrow> pydict list \<Rightarrow> pydict list option) option \<Rightarrow> string \<Rightarrow> string \<Rightarrow> int \<Rightarrow> pydict list \<Rightarrow> pydict list" where
  "search_runs fts ns query limit rows =
     (let query_text = strip query; n = nat (max 1 limit) in
      if query_text = [] then []
      else case fts of
          Some rank \<Rightarrow> (case rank query_text rows of
              None \<Rightarrow> [] | Some hits \<Rightarrow> take n (filter (in_namespace ns) hits))
        | None \<Rightarrow>
            (let like = ''%'' @ query_text @ ''%'' in
             take n (sort_desc (text_col ''created_at'')
               (filter (\<lambda>r. in_namespace ns r \<and>
                   list_ex (\<lambda>k. sql_like like (dget r k PNone)) [''run_id'', ''request'', ''status'', ''pending_approval_summary'']) rows))))"

section \<open>The recovery facts\<close>

record fact_row =
  fr_fingerprint :: string
  fr_run_id :: string
  fr_loop :: int
  fr_failure_class :: string
  fr_summary :: string
  fr_last_check :: string
  fr_context_scope :: string
  fr_retry_target :: "string option"
  fr_plan_action :: string
  fr_salience :: int
  fr_created_at :: string
  fr_namespace :: string

definition fact_to_row :: "string \<Rightarrow> string \<Rightarrow> string \<Rightarrow> pyval \<Rightarrow> fact_row option" where
  "fact_to_row ns now run_id entry = (case entry of
       PDict f \<Rightarrow>
         (let fingerprint = strip (gets f ''failure_fingerprint'' []) in
          if fingerprint = [] then None
          else Some \<lparr> fr_fingerprint = fingerprint, fr_run_id = run_id,
                 fr_loop = strict_int_or (dget f ''loop'' (PInt 0)) 0,
                 fr_failure_class = strip (gets f ''failure_class'' []),
                 fr_summary = strip (py_str (dget f ''summary'' (dget f ''loop_summary'' (PStr [])))),
                 fr_last_check = strip (gets f ''last_check'' []), fr_context_scope = strip (gets f ''context_scope'' []),
                 fr_retry_target = (case dget f ''retry_target'' PNone of PNone \<Rightarrow> None | v \<Rightarrow> Some (strip (py_str v))),
                 fr_plan_action = or_str (strip (gets f ''plan_action'' ''keep'')) ''keep'',
                 fr_salience = strict_int_or (dget f ''salience'' (PInt 0)) 0,
                 fr_created_at = now, fr_namespace = ns \<rparr>)
     | _ \<Rightarrow> None)"

definition insert_fact :: "fact_row \<Rightarrow> fact_row list \<Rightarrow> fact_row list" where
  "insert_fact row rows =
     filter (\<lambda>r. \<not> (fr_fingerprint r = fr_fingerprint row \<and> fr_run_id r = fr_run_id row)) rows @ [row]"

definition sql_int_ok :: "int \<Rightarrow> bool" where
  "sql_int_ok i \<longleftrightarrow> - (2 ^ 63) \<le> i \<and> i < 2 ^ 63"

text \<open>\<open>executemany\<close> stops at the first row that cannot be bound; the rows before it stay in the transaction.\<close>

fun insert_facts :: "fact_row list \<Rightarrow> fact_row list \<Rightarrow> fact_row list \<times> exn option" where
  "insert_facts [] rows = (rows, None)"
| "insert_facts (f # fs) rows =
     (if sql_int_ok (fr_loop f) \<and> sql_int_ok (fr_salience f) then insert_facts fs (insert_fact f rows)
      else (rows, Some (OverflowError ''Python int too large to convert to SQLite INTEGER'')))"

definition upsert_recovery_facts :: "string \<Rightarrow> string \<Rightarrow> string \<Rightarrow> pyval list \<Rightarrow> fact_row list \<Rightarrow> fact_row list \<times> exn option" where
  "upsert_recovery_facts ns now run_id facts rows = insert_facts (List.map_filter (fact_to_row ns now run_id) facts) rows"

definition recall_order :: "fact_row list \<Rightarrow> fact_row list" where
  "recall_order rows = sort_desc (\<lambda>r. (fr_salience r, fr_loop r)) rows"

definition get_recent_recovery_facts :: "string \<Rightarrow> string option \<Rightarrow> string option \<Rightarrow> int \<Rightarrow> fact_row list \<Rightarrow> fact_row list" where
  "get_recent_recovery_facts ns fingerprint failure_class limit rows =
     (let n = nat (max 1 limit); own = filter (\<lambda>r. fr_namespace r = ns) rows;
          by_print = (case fingerprint of Some p \<Rightarrow> if p = [] then [] else take n (recall_order (filter (\<lambda>r. fr_fingerprint r = p) own)) | None \<Rightarrow> [])
      in if by_print \<noteq> [] then by_print
         else case failure_class of
             Some c \<Rightarrow> if c = [] then take n (recall_order own) else take n (recall_order (filter (\<lambda>r. fr_failure_class r = c) own))
           | None \<Rightarrow> take n (recall_order own))"

definition get_episodic_context :: "string \<Rightarrow> string \<Rightarrow> string \<Rightarrow> int \<Rightarrow> fact_row list \<Rightarrow> fact_row list" where
  "get_episodic_context ns print cls limit rows =
     get_recent_recovery_facts ns (if print = [] then None else Some print)
       (if cls = [] then None else Some cls) limit rows"

section \<open>The semantic memories\<close>

record memory_row =
  mr_memory_key :: string
  mr_run_id :: string
  mr_kind :: string
  mr_source :: string
  mr_summary :: string
  mr_created_at :: string
  mr_namespace :: string

definition memory_to_row :: "string \<Rightarrow> string \<Rightarrow> string \<Rightarrow> pyval \<Rightarrow> memory_row option" where
  "memory_to_row ns now run_id memory = (case memory of
       PDict m \<Rightarrow>
         (let summary = strip (gets m ''summary'' []); kind = strip (gets m ''kind'' []); source = strip (gets m ''source'' []);
              key = strip (gets m ''memory_key'' [])
          in if summary = [] then None
             else Some \<lparr> mr_memory_key = (if key = [] then lower (kind @ ''|'' @ source @ ''|'' @ summary) else key),
                    mr_run_id = run_id, mr_kind = or_str kind ''run_note'', mr_source = source, mr_summary = summary,
                    mr_created_at = now, mr_namespace = ns \<rparr>)
     | _ \<Rightarrow> None)"

definition insert_memory :: "memory_row \<Rightarrow> memory_row list \<Rightarrow> memory_row list" where
  "insert_memory row rows =
     filter (\<lambda>r. \<not> (mr_memory_key r = mr_memory_key row \<and> mr_run_id r = mr_run_id row \<and> mr_namespace r = mr_namespace row)) rows @ [row]"

definition upsert_semantic_memories :: "string \<Rightarrow> string \<Rightarrow> string \<Rightarrow> pyval list \<Rightarrow> memory_row list \<Rightarrow> memory_row list" where
  "upsert_semantic_memories ns now run_id memories rows = fold insert_memory (List.map_filter (memory_to_row ns now run_id) memories) rows"

text \<open>Here the failure of the full text index on a query is not caught.\<close>

definition search_semantic_memories ::
  "(string \<Rightarrow> memory_row list \<Rightarrow> memory_row list option) option \<Rightarrow> string \<Rightarrow> string \<Rightarrow> int \<Rightarrow> memory_row list \<Rightarrow> memory_row list result" where
  "search_semantic_memories fts ns query limit rows =
     (let query_text = strip query; n = nat (max 1 limit) in
      if query_text = [] then Inr []
      else case fts of
          Some rank \<Rightarrow> (case rank query_text rows of
              None \<Rightarrow> Inl (OtherError ''OperationalError'' ''fts5: syntax error'')
            | Some hits \<Rightarrow> Inr (take n (filter (\<lambda>r. mr_namespace r = ns) hits)))
        | None \<Rightarrow>
            (let like = ''%'' @ query_text @ ''%'' in
             Inr (take n (sort_desc mr_created_at
               (filter (\<lambda>r. mr_namespace r = ns \<and>
                   list_ex (\<lambda>t. sql_like like (PStr t)) [mr_summary r, mr_source r, mr_kind r]) rows)))))"

section \<open>Redis\<close>

record 'r redis_client =
  rd_setex :: "string \<Rightarrow> int \<Rightarrow> string \<Rightarrow> 'r \<Rightarrow> 'r"
  rd_get :: "string \<Rightarrow> 'r \<Rightarrow> string option"
  rd_zadd :: "string \<Rightarrow> string \<Rightarrow> rat \<Rightarrow> 'r \<Rightarrow> 'r"
  rd_expire :: "string \<Rightarrow> int \<Rightarrow> 'r \<Rightarrow> 'r"
  rd_zrevrange :: "string \<Rightarrow> 'r \<Rightarrow> string list"

definition run_key :: "string \<Rightarrow> string \<Rightarrow> string" where
  "run_key ns run_id = ''lula:run:'' @ ns @ '':'' @ run_id"

definition run_index_key :: "string \<Rightarrow> string" where
  "run_index_key ns = ''lula:runs:index'' @ '':'' @ ns"

definition recovery_key :: "string \<Rightarrow> string \<Rightarrow> string \<Rightarrow> string" where
  "recovery_key ns fingerprint run_id = ''lula:recovery:'' @ ns @ '':'' @ fingerprint @ '':'' @ run_id"

definition recovery_index_key :: "string \<Rightarrow> string" where
  "recovery_index_key ns = ''lula:recovery:index'' @ '':'' @ ns"

definition semantic_key :: "string \<Rightarrow> string \<Rightarrow> string \<Rightarrow> string" where
  "semantic_key ns mem_key run_id = ''lula:semantic:'' @ ns @ '':'' @ mem_key @ '':'' @ run_id"

definition semantic_index_key :: "string \<Rightarrow> string" where
  "semantic_index_key ns = ''lula:semantic:index'' @ '':'' @ ns"

text \<open>\<open>json.dumps(v)\<close>: the characters outside of printable ASCII, which occur in strings only, are escaped.\<close>

definition ascii_char :: "char \<Rightarrow> string" where
  "ascii_char c = (if code c < 127 then [c] else [CHR 0x5C] @ ''u00'' @ hex2 (code c))"

definition redis_dumps :: "pyval \<Rightarrow> string" where
  "redis_dumps v = concat (map ascii_char (json_dumps False '', '' '': '' v))"

text \<open>Write a value under its key, add it to the index and renew the index; \<open>ttl\<close> is the time to live.\<close>

definition redis_put :: "'r redis_client \<Rightarrow> int \<Rightarrow> string \<Rightarrow> string \<Rightarrow> pydict \<Rightarrow> string \<Rightarrow> rat \<Rightarrow> 'r \<Rightarrow> 'r" where
  "redis_put c ttl key index data member score s =
     rd_expire c index ttl (rd_zadd c index member score (rd_setex c key ttl (redis_dumps (PDict data)) s))"

text \<open>\<open>score\<close> is the time stamp of an ISO text, or the present time when it cannot be read.\<close>

definition redis_upsert :: "'r redis_client \<Rightarrow> int \<Rightarrow> (string \<Rightarrow> rat) \<Rightarrow> string \<Rightarrow> pydict \<Rightarrow> 'r \<Rightarrow> 'r" where
  "redis_upsert c ttl score ns rec s =
     (let data = run_data ns rec; run_id = dget data ''run_id'' (PStr []) in
      if \<not> py_bool run_id then s
      else redis_put c ttl (run_key ns (py_str run_id)) (run_index_key ns) data (py_str run_id) (score (gets data ''created_at'' [])) s)"

definition redis_load :: "'r redis_client \<Rightarrow> string \<Rightarrow> 'r \<Rightarrow> pyval option result" where
  "redis_load c key s = (case rd_get c key s of
       None \<Rightarrow> Inr None
     | Some raw \<Rightarrow> (case json_loads raw of None \<Rightarrow> Inl (ValueError ''invalid json'') | Some v \<Rightarrow> Inr (Some v)))"

definition redis_get_run :: "'r redis_client \<Rightarrow> string \<Rightarrow> string \<Rightarrow> 'r \<Rightarrow> pyval option result" where
  "redis_get_run c ns run_id s = redis_load c (run_key ns run_id) s"

definition redis_load_all :: "'r redis_client \<Rightarrow> string list \<Rightarrow> 'r \<Rightarrow> pyval list result" where
  "redis_load_all c keys s =
     bind_r (map_r (\<lambda>k. redis_load c k s) keys) (\<lambda>vs. Inr (List.map_filter id vs))"

definition redis_list_runs :: "'r redis_client \<Rightarrow> string \<Rightarrow> 'r \<Rightarrow> pyval list result" where
  "redis_list_runs c ns s = redis_load_all c (map (run_key ns) (rd_zrevrange c (run_index_key ns) s)) s"

definition haystack :: "string list \<Rightarrow> pyval \<Rightarrow> string result" where
  "haystack flds v =
     bind_r (dict_method v ''get'') (\<lambda>d. Inr (lower (join '' '' (map (\<lambda>f. gets d f []) flds))))"

text \<open>The scan stops at the limit: values after the last hit are not read.\<close>

fun scan :: "string list \<Rightarrow> string \<Rightarrow> nat \<Rightarrow> pyval list \<Rightarrow> pyval list result" where
  "scan flds q n [] = Inr []"
| "scan flds q n (v # vs) =
     bind_r (haystack flds v) (\<lambda>h.
       if sublist q h
       then if n \<le> 1 then Inr [v] else bind_r (scan flds q (n - 1) vs) (\<lambda>r. Inr (v # r))
       else scan flds q n vs)"

definition redis_search_runs :: "'r redis_client \<Rightarrow> string \<Rightarrow> string \<Rightarrow> int \<Rightarrow> 'r \<Rightarrow> pyval list result" where
  "redis_search_runs c ns query limit s =
     (let query_text = lower (strip query) in
      if query_text = [] then Inr []
      else bind_r (redis_list_runs c ns s)
             (scan [''run_id'', ''request'', ''status'', ''pending_approval_summary''] query_text (nat (max 1 limit))))"

definition fact_data :: "fact_row \<Rightarrow> pydict" where
  "fact_data r =
     [(''fingerprint'', PStr (fr_fingerprint r)), (''run_id'', PStr (fr_run_id r)), (''loop'', PInt (fr_loop r)),
      (''failure_class'', PStr (fr_failure_class r)), (''summary'', PStr (fr_summary r)), (''last_check'', PStr (fr_last_check r)),
      (''context_scope'', PStr (fr_context_scope r)),
      (''retry_target'', (case fr_retry_target r of None \<Rightarrow> PNone | Some t \<Rightarrow> PStr t)),
      (''plan_action'', PStr (fr_plan_action r)), (''salience'', PInt (fr_salience r)),
      (''created_at'', PStr (fr_created_at r)), (''namespace'', PStr (fr_namespace r))]"

definition put_fact :: "'r redis_client \<Rightarrow> int \<Rightarrow> fact_row \<Rightarrow> 'r \<Rightarrow> 'r" where
  "put_fact c ttl r s =
     redis_put c ttl (recovery_key (fr_namespace r) (fr_fingerprint r) (fr_run_id r)) (recovery_index_key (fr_namespace r))
       (fact_data r) (fr_fingerprint r @ '':'' @ fr_run_id r) (of_int (fr_salience r)) s"

text \<open>A fact that is not a dictionary has no \<open>get\<close> here; the facts before it are stored.\<close>

fun redis_upsert_facts :: "'r redis_client \<Rightarrow> int \<Rightarrow> string \<Rightarrow> string \<Rightarrow> string \<Rightarrow> pyval list \<Rightarrow> 'r \<Rightarrow> 'r \<times> exn option" where
  "redis_upsert_facts c ttl ns now run_id [] s = (s, None)"
| "redis_upsert_facts c ttl ns now run_id (f # fs) s = (case dict_method f ''get'' of
       Inl e \<Rightarrow> (s, Some e)
     | Inr _ \<Rightarrow> redis_upsert_facts c ttl ns now run_id fs
                  (case fact_to_row ns now run_id f of None \<Rightarrow> s | Some r \<Rightarrow> put_fact c ttl r s))"

definition memory_data :: "memory_row \<Rightarrow> pydict" where
  "memory_data r =
     [(''memory_key'', PStr (mr_memory_key r)), (''run_id'', PStr (mr_run_id r)), (''kind'', PStr (mr_kind r)),
      (''source'', PStr (mr_source r)), (''summary'', PStr (mr_summary r)), (''created_at'', PStr (mr_created_at r)),
      (''namespace'', PStr (mr_namespace r))]"

definition put_memory :: "'r redis_client \<Rightarrow> int \<Rightarrow> rat \<Rightarrow> memory_row \<Rightarrow> 'r \<Rightarrow> 'r" where
  "put_memory c ttl clock r s =
     redis_put c ttl (semantic_key (mr_namespace r) (mr_memory_key r) (mr_run_id r)) (semantic_index_key (mr_namespace r))
       (memory_data r) (mr_memory_key r @ '':'' @ mr_run_id r) clock s"

text \<open>\<open>clock\<close> gives the time for the n-th memory of the call.\<close>

fun redis_upsert_memories ::
  "'r redis_client \<Rightarrow> int \<Rightarrow> (nat \<Rightarrow> rat) \<Rightarrow> string \<Rightarrow> string \<Rightarrow> string \<Rightarrow> pyval list \<Rightarrow> 'r \<Rightarrow> 'r \<times> exn option" where
  "redis_upsert_memories c ttl clock ns now run_id [] s = (s, None)"
| "redis_upsert_memories c ttl clock ns now run_id (m # ms) s = (case dict_method m ''get'' of
       Inl e \<Rightarrow> (s, Some e)
     | Inr _ \<Rightarrow> redis_upsert_memories c ttl (\<lambda>n. clock (Suc n)) ns now run_id ms
                  (case memory_to_row ns now run_id m of None \<Rightarrow> s | Some r \<Rightarrow> put_memory c ttl (clock 0) r s))"

definition split_first :: "char \<Rightarrow> string \<Rightarrow> (string \<times> string) option" where
  "split_first c s = (case dropWhile (\<lambda>x. x \<noteq> c) s of [] \<Rightarrow> None | _ # rest \<Rightarrow> Some (takeWhile (\<lambda>x. x \<noteq> c) s, rest))"

definition memory_keys :: "string \<Rightarrow> string list \<Rightarrow> string list" where
  "memory_keys ns members = List.map_filter (\<lambda>m. map_option (\<lambda>(k, rid). semantic_key ns k rid) (split_first (CHR '':'') m)) members"

text \<open>The values are read and tested one after the other, until the limit is reached.\<close>

fun scan_keys :: "'r redis_client \<Rightarrow> string list \<Rightarrow> string \<Rightarrow> nat \<Rightarrow> string list \<Rightarrow> 'r \<Rightarrow> pyval list result" where
  "scan_keys c flds q n [] s = Inr []"
| "scan_keys c flds q n (k # ks) s =
     bind_r (redis_load c k s) (\<lambda>l. case l of
         None \<Rightarrow> scan_keys c flds q n ks s
       | Some v \<Rightarrow> bind_r (haystack flds v) (\<lambda>h.
           if sublist q h
           then if n \<le> 1 then Inr [v] else bind_r (scan_keys c flds q (n - 1) ks s) (\<lambda>r. Inr (v # r))
           else scan_keys c flds q n ks s))"

definition redis_search_memories :: "'r redis_client \<Rightarrow> string \<Rightarrow> string \<Rightarrow> int \<Rightarrow> 'r \<Rightarrow> pyval list result" where
  "redis_search_memories c ns query limit s =
     (let query_text = lower (strip query) in
      if query_text = [] then Inr []
      else scan_keys c [''summary'', ''source'', ''kind''] query_text (nat (max 1 limit))
             (memory_keys ns (rd_zrevrange c (semantic_index_key ns) s)) s)"

section \<open>The choice of a store\<close>

datatype backend = RedisBackend string | SqliteBackend string

text \<open>\<open>reachable\<close> tells whether a Redis server answers the ping at a URL.\<close>

definition create_run_store :: "(string \<Rightarrow> bool) \<Rightarrow> string \<Rightarrow> string option \<Rightarrow> string option \<Rightarrow> backend" where
  "create_run_store reachable env_url db_path redis_url =
     (let url = (case redis_url of Some u \<Rightarrow> or_str u env_url | None \<Rightarrow> env_url) in
      if url \<noteq> [] \<and> reachable url then RedisBackend url
      else SqliteBackend (case db_path of Some p \<Rightarrow> p | None \<Rightarrow> ''data/runs.sqlite''))"

end
