(* ===== verification/Run_Store_Props.thy ===== *)
theory Run_Store_Props
  imports Run_Store
begin

text \<open>
  The contract of a run store and the two stores that provide it: after any sequence of writes, the run
  that is read is the last one written under its identifier. Beside it, the facts that are recalled, and the
  limits of the namespaces.
\<close>

section \<open>The contract\<close>

fun col_ok :: "sql_type \<Rightarrow> col_rule \<Rightarrow> pyval \<Rightarrow> bool" where
  "col_ok Text rule (PStr s) \<longleftrightarrow> True"
| "col_ok Integer rule (PInt i) \<longleftrightarrow> sql_int_ok i"
| "col_ok Integer rule (PBool b) \<longleftrightarrow> True"
| "col_ok ty rule PNone \<longleftrightarrow> rule \<noteq> Required"
| "col_ok ty rule v \<longleftrightarrow> False"

text \<open>A record whose columns have their declared types, as the service writes it.\<close>

definition payload_ok :: "pydict \<Rightarrow> bool" where
  "payload_ok p \<longleftrightarrow> list_all (\<lambda>(k, ty, rule). k = ''namespace'' \<or> col_ok ty rule (dget p k PNone)) run_columns"

text \<open>What a reader relies on: the texts and the exit code are those written, and the approval flag has the same truth.\<close>

definition reads_as :: "pydict \<Rightarrow> pydict \<Rightarrow> bool" where
  "reads_as p d \<longleftrightarrow>
     (\<forall>k\<in>set stored_columns. k \<noteq> ''namespace'' \<longrightarrow> (\<forall>s. dget p k PNone = PStr s \<longrightarrow> dget d k PNone = PStr s)) \<and>
     (\<forall>i. dget p ''exit_code'' PNone = PInt i \<longrightarrow> dget d ''exit_code'' PNone = PInt i) \<and>
     py_bool (dget d ''pending_approval'' PNone) = py_bool (dget p ''pending_approval'' PNone)"

fun upsert_all :: "(pydict \<Rightarrow> 's \<Rightarrow> 's result) \<Rightarrow> pydict list \<Rightarrow> 's \<Rightarrow> 's result" where
  "upsert_all up [] s = Inr s"
| "upsert_all up (p # ps) s = bind_r (up p s) (upsert_all up ps)"

definition last_write :: "string \<Rightarrow> pydict list \<Rightarrow> pydict option" where
  "last_write i ps = find (\<lambda>p. dget p ''run_id'' PNone = PStr i) (rev ps)"

locale run_store_contract =
  fixes up :: "pydict \<Rightarrow> 's \<Rightarrow> 's result"
    and get :: "string \<Rightarrow> 's \<Rightarrow> pydict option"
    and ok :: "pydict \<Rightarrow> bool"
  assumes write_read: "ok p \<Longrightarrow> dget p ''run_id'' PNone = PStr i \<Longrightarrow>
      \<exists>s' d. up p s = Inr s' \<and> get i s' = Some d \<and> reads_as p d"
    and write_other: "ok p \<Longrightarrow> dget p ''run_id'' PNone = PStr i \<Longrightarrow> up p s = Inr s' \<Longrightarrow> j \<noteq> i \<Longrightarrow> get j s' = get j s"
    and has_id: "ok p \<Longrightarrow> \<exists>i. dget p ''run_id'' PNone = PStr i"
begin

lemma upsert_all_defined: "list_all ok ps \<Longrightarrow> \<exists>s'. upsert_all up ps s = Inr s'"
proof (induction ps arbitrary: s)
  case (Cons p ps)
  then obtain i where "dget p ''run_id'' PNone = PStr i" using has_id by auto
  then obtain s1 where "up p s = Inr s1" using write_read Cons.prems by fastforce
  then show ?case using Cons by simp
qed simp

lemma read_last:
  assumes "list_all ok ps" "upsert_all up ps s = Inr s'"
  shows "case last_write i ps of None \<Rightarrow> get i s' = get i s | Some p \<Rightarrow> \<exists>d. get i s' = Some d \<and> reads_as p d"
  using assms
proof (induction ps arbitrary: s' rule: rev_induct)
  case (snoc p ps)
  have split: "upsert_all up (ps @ [p]) s = bind_r (upsert_all up ps s) (up p)" for s
  proof (induction ps arbitrary: s)
    case (Cons q qs)
    then show ?case by (cases "up q s") simp_all
  qed (simp add: bind_r_def split: sum.splits)
  obtain s1 where s1: "upsert_all up ps s = Inr s1" "up p s1 = Inr s'"
    using snoc.prems(2) by (auto simp: split bind_r_eq_Inr)
  obtain j where j: "dget p ''run_id'' PNone = PStr j" using snoc.prems(1) has_id by auto
  show ?case
  proof (cases "i = j")
    case True
    then show ?thesis using write_read [of p j s1] snoc.prems(1) j s1(2) by (auto simp: last_write_def)
  next
    case False
    then have "get i s' = get i s1" using write_other [of p j s1 s' i] snoc.prems(1) j s1(2) by auto
    moreover have "last_write i (ps @ [p]) = last_write i ps" using False j by (simp add: last_write_def)
    ultimately show ?thesis using snoc.IH [OF _ s1(1)] snoc.prems(1) by (cases "last_write i ps") simp_all
  qed
qed (simp add: last_write_def)

end

section \<open>The store over SQLite\<close>

definition bound_value :: "pyval \<Rightarrow> pyval" where
  "bound_value v = (case v of PBool b \<Rightarrow> PInt (of_bool b) | _ \<Rightarrow> v)"

definition stored_value :: "col_rule \<Rightarrow> pyval \<Rightarrow> pyval" where
  "stored_value rule v = (if v = PNone then (case rule of Default d \<Rightarrow> d | _ \<Rightarrow> PNone) else bound_value v)"

lemma map_r_map: "(\<And>x. x \<in> set xs \<Longrightarrow> f x = Inr (g x)) \<Longrightarrow> map_r f xs = Inr (map g xs)"
  by (induction xs) auto

lemma sql_bind_ok: "col_ok ty rule v \<Longrightarrow> sql_bind v = Inr (bound_value v)"
  by (cases "(ty, rule, v)" rule: col_ok.cases) (auto simp: sql_bind_def bound_value_def sql_int_ok_def)

lemma rule_column_ok: "col_ok ty rule v \<Longrightarrow> rule_value k rule (column_value conv ty (bound_value v)) = Inr (stored_value rule v)"
  by (cases "(ty, rule, v)" rule: col_ok.cases)
    (auto simp: rule_value_def column_value_def bound_value_def stored_value_def split: col_rule.splits sql_type.splits)

lemma map_of_map_filter: "map_of (List.map_filter (\<lambda>k. map_option (Pair k) (f k)) ks) k = (if k \<in> set ks then f k else None)"
  by (induction ks) (auto simp: List.map_filter_simps split: option.splits)

lemma dget_run_data:
  "k \<in> set stored_columns \<Longrightarrow> dget (run_data ns p) k PNone = (if k = ''namespace'' then PStr ns else dget p k PNone)"
  by (simp add: run_data_def dget_def map_of_map_filter)

lemma dget_map_snd: "f PNone = PNone \<Longrightarrow> dget (map (\<lambda>kv. (fst kv, f (snd kv))) d) k PNone = f (dget d k PNone)"
  by (induction d) auto

lemma stored_columns_eq: "stored_columns = map fst run_columns"
  by (simp add: stored_columns_def run_columns_def)

lemma stored_column_ex: "k \<in> set stored_columns \<Longrightarrow> \<exists>ty rule. (k, ty, rule) \<in> set run_columns"
  unfolding stored_columns_eq by clarsimp blast

lemma run_data_keys:
  "map fst (List.map_filter (\<lambda>k. map_option (Pair k) (f k)) ks) = filter (\<lambda>k. f k \<noteq> None) ks"
  by (induction ks) (auto simp: List.map_filter_simps split: option.splits)

lemma run_data_distinct: "distinct (map fst (run_data ns p))"
  unfolding run_data_def
  by (intro distinct_update, unfold run_data_keys, intro distinct_filter) (simp add: stored_columns_def)

lemma run_data_entry:
  assumes "(k, v) \<in> set (run_data ns p)"
  shows "k \<in> set stored_columns" "v = (if k = ''namespace'' then PStr ns else dget p k PNone)"
proof -
  have "fst ` set (run_data ns p) = insert ''namespace'' (set (map fst (List.map_filter (\<lambda>k. map_option (Pair k) (map_of p k)) stored_columns)))"
    unfolding run_data_def by (simp add: dom_update)
  moreover have "''namespace'' \<in> set stored_columns" by (simp add: stored_columns_def)
  ultimately have "fst ` set (run_data ns p) \<subseteq> set stored_columns" unfolding run_data_keys by auto
  then show k: "k \<in> set stored_columns" using assms by force
  have "dget (run_data ns p) k PNone = v" using assms run_data_distinct [of ns p] by (simp add: dget_def)
  then show "v = (if k = ''namespace'' then PStr ns else dget p k PNone)" using dget_run_data [OF k, of ns p] by simp
qed

lemma run_data_col:
  assumes "payload_ok p" "(k, v) \<in> set (run_data ns p)"
  obtains ty rule where "col_ok ty rule v"
proof (cases "k = ''namespace''")
  case True
  then show ?thesis using run_data_entry [OF assms(2)] that [of Text Required] by simp
next
  case False
  obtain ty rule where "(k, ty, rule) \<in> set run_columns" using stored_column_ex [OF run_data_entry(1) [OF assms(2)]] by blast
  then have "col_ok ty rule v" using assms(1) False run_data_entry(2) [OF assms(2)] by (auto simp: payload_ok_def list_all_iff)
  then show ?thesis by (rule that)
qed

lemma run_data_bound:
  assumes "payload_ok p"
  shows "map_r (\<lambda>(k, v). bind_r (sql_bind v) (\<lambda>b. Inr (k, b))) (run_data ns p) =
    Inr (map (\<lambda>kv. (fst kv, bound_value (snd kv))) (run_data ns p))"
proof (rule map_r_map, clarsimp)
  fix k v
  assume "(k, v) \<in> set (run_data ns p)"
  with assms obtain ty rule where "col_ok ty rule v" by (rule run_data_col)
  then show "bind_r (sql_bind v) (\<lambda>b. Inr (k, b)) = Inr (k, bound_value v)" by (simp add: sql_bind_ok)
qed

definition stored_row :: "string \<Rightarrow> pydict \<Rightarrow> pydict" where
  "stored_row ns p = map (\<lambda>(k, ty, rule). (k, if k = ''namespace'' then PStr ns else stored_value rule (dget p k PNone))) run_columns"

lemma make_row_ok:
  assumes "payload_ok p"
  shows "make_row conv run_columns (run_data ns p) = Inr (stored_row ns p)"
proof -
  have "map_r (\<lambda>(k, ty, rule). bind_r (rule_value k rule (column_value conv ty
          (dget (map (\<lambda>kv. (fst kv, bound_value (snd kv))) (run_data ns p)) k PNone))) (\<lambda>v. Inr (k, v))) run_columns
      = Inr (stored_row ns p)"
    unfolding stored_row_def
  proof (rule map_r_map, clarsimp)
    fix k ty rule
    assume c: "(k, ty, rule) \<in> set run_columns"
    then have k: "k \<in> set stored_columns" unfolding stored_columns_eq by force
    have b: "bound_value PNone = PNone" by (simp add: bound_value_def)
    note d = dget_map_snd [of bound_value, OF b] dget_run_data [OF k]
    have n: "ty = Text \<and> rule = Default (PStr [])" if "k = ''namespace''" using c that by (simp add: run_columns_def)
    show "(k = ''namespace'' \<longrightarrow> bind_r (rule_value ''namespace'' rule (column_value conv ty
             (dget (map (\<lambda>kv. (fst kv, bound_value (snd kv))) (run_data ns p)) ''namespace'' PNone))) (\<lambda>v. Inr (''namespace'', v)) = Inr (''namespace'', PStr ns)) \<and>
          (k \<noteq> ''namespace'' \<longrightarrow> bind_r (rule_value k rule (column_value conv ty
             (dget (map (\<lambda>kv. (fst kv, bound_value (snd kv))) (run_data ns p)) k PNone))) (\<lambda>v. Inr (k, v)) = Inr (k, stored_value rule (dget p k PNone)))"
    proof (intro conjI impI)
      assume "k = ''namespace''"
      then show "bind_r (rule_value ''namespace'' rule (column_value conv ty
             (dget (map (\<lambda>kv. (fst kv, bound_value (snd kv))) (run_data ns p)) ''namespace'' PNone))) (\<lambda>v. Inr (''namespace'', v)) = Inr (''namespace'', PStr ns)"
        using n d by (simp add: column_value_def bound_value_def rule_value_def)
    next
      assume k': "k \<noteq> ''namespace''"
      then have "col_ok ty rule (dget p k PNone)" using assms c by (auto simp: payload_ok_def list_all_iff)
      from rule_column_ok [OF this] show "bind_r (rule_value k rule (column_value conv ty
             (dget (map (\<lambda>kv. (fst kv, bound_value (snd kv))) (run_data ns p)) k PNone))) (\<lambda>v. Inr (k, v)) = Inr (k, stored_value rule (dget p k PNone))"
        using k' d by simp
    qed
  qed
  then show ?thesis unfolding make_row_def run_data_bound [OF assms] by simp
qed

lemma dget_stored_row:
  "(k, ty, rule) \<in> set run_columns \<Longrightarrow> k \<noteq> ''namespace'' \<Longrightarrow> dget (stored_row ns p) k PNone = stored_value rule (dget p k PNone)"
proof -
  assume c: "(k, ty, rule) \<in> set run_columns" and k: "k \<noteq> ''namespace''"
  have "distinct (map fst (stored_row ns p))" by (simp add: stored_row_def run_columns_def)
  moreover have "(k, stored_value rule (dget p k PNone)) \<in> set (stored_row ns p)"
    using imageI [OF c, of "\<lambda>(k, ty, rule). (k, if k = ''namespace'' then PStr ns else stored_value rule (dget p k PNone))"] k
    unfolding stored_row_def set_map by simp
  ultimately show ?thesis by (simp add: dget_def)
qed

lemma namespace_stored_row: "in_namespace ns (stored_row ns p)"
  by (simp add: in_namespace_def stored_row_def run_columns_def)

lemma stored_row_reads: "payload_ok p \<Longrightarrow> reads_as p (stored_row ns p)"
proof -
  assume p: "payload_ok p"
  have "dget (stored_row ns p) k PNone = PStr s" if c: "k \<in> set stored_columns" "k \<noteq> ''namespace''" "dget p k PNone = PStr s" for k s
  proof -
    obtain ty rule where "(k, ty, rule) \<in> set run_columns" using stored_column_ex [OF c(1)] by blast
    then show ?thesis using dget_stored_row c by (simp add: stored_value_def bound_value_def)
  qed
  moreover have e: "(''exit_code'', Integer, Nullable) \<in> set run_columns"
    and a: "(''pending_approval'', Integer, Default (PInt 0)) \<in> set run_columns" by (simp_all add: run_columns_def)
  moreover have "py_bool (dget (stored_row ns p) ''pending_approval'' PNone) = py_bool (dget p ''pending_approval'' PNone)"
    using dget_stored_row [OF a] by (cases "dget p ''pending_approval'' PNone") (simp_all add: stored_value_def bound_value_def)
  ultimately show ?thesis
    unfolding reads_as_def using dget_stored_row [OF e] by (simp add: stored_value_def bound_value_def)
qed

definition sqlite_ok :: "pydict \<Rightarrow> bool" where
  "sqlite_ok p \<longleftrightarrow> payload_ok p \<and> (case dget p ''run_id'' PNone of PStr i \<Rightarrow> True | _ \<Rightarrow> False)"

lemma run_id_stored_row: "dget (stored_row ns p) ''run_id'' PNone = stored_value Nullable (dget p ''run_id'' PNone)"
  by (rule dget_stored_row [of _ Text]) (simp_all add: run_columns_def)

lemma run_upsert_ok:
  assumes "payload_ok p" "dget p ''run_id'' PNone = PStr i"
  shows "run_upsert conv ns p rows = Inr (filter (\<lambda>r. dget r ''run_id'' PNone \<noteq> PStr i) rows @ [stored_row ns p])"
  using assms by (simp add: run_upsert_def make_row_ok same_key_def run_id_stored_row stored_value_def bound_value_def)

lemma find_filter_keep: "(\<And>x. P x \<Longrightarrow> Q x) \<Longrightarrow> find P (filter Q xs) = find P xs"
  by (induction xs) auto

lemma find_append: "find P (xs @ ys) = (case find P xs of None \<Rightarrow> find P ys | Some x \<Rightarrow> Some x)"
  by (induction xs) auto

lemma get_run_filtered: "get_run m i (filter (\<lambda>r. dget r ''run_id'' PNone \<noteq> PStr i) rows) = None"
  by (auto simp: get_run_def find_None_iff)

lemma get_run_written:
  assumes "payload_ok p" "dget p ''run_id'' PNone = PStr i" "run_upsert conv ns p rows = Inr rows'"
  shows "get_run ns i rows' = Some (stored_row ns p)"
    and "j \<noteq> i \<Longrightarrow> get_run ns' j rows' = get_run ns' j rows"
    and "ns' \<noteq> ns \<Longrightarrow> get_run ns' i rows' = None"
proof -
  let ?f = "filter (\<lambda>r. dget r ''run_id'' PNone \<noteq> PStr i) rows"
  have r: "rows' = ?f @ [stored_row ns p]" using run_upsert_ok [OF assms(1,2), of conv ns rows] assms(3) by simp
  have i: "dget (stored_row ns p) ''run_id'' PNone = PStr i"
    by (simp add: run_id_stored_row assms(2) stored_value_def bound_value_def)
  have none: "find (\<lambda>r. dget r ''run_id'' PNone = PStr i \<and> in_namespace m r) ?f = None" for m
    using get_run_filtered [of m i rows] by (simp add: get_run_def)
  show "get_run ns i rows' = Some (stored_row ns p)"
    by (simp add: r get_run_def find_append none i namespace_stored_row)
  show "get_run ns' i rows' = None" if "ns' \<noteq> ns"
  proof -
    have "\<not> in_namespace ns' (stored_row ns p)" using that namespace_stored_row [of ns p] by (simp add: in_namespace_def)
    then show ?thesis by (simp add: r get_run_def find_append none)
  qed
  show "get_run ns' j rows' = get_run ns' j rows" if "j \<noteq> i"
  proof -
    have "find (\<lambda>r. dget r ''run_id'' PNone = PStr j \<and> in_namespace ns' r) ?f = find (\<lambda>r. dget r ''run_id'' PNone = PStr j \<and> in_namespace ns' r) rows"
      using that by (intro find_filter_keep) auto
    then show ?thesis using that by (simp add: r get_run_def find_append i split: option.splits)
  qed
qed

interpretation sqlite_runs: run_store_contract "run_upsert conv ns" "get_run ns" sqlite_ok for conv ns
proof
  fix p i and s :: "pydict list"
  assume "sqlite_ok p" "dget p ''run_id'' PNone = PStr i"
  then have p: "payload_ok p" "dget p ''run_id'' PNone = PStr i" by (simp_all add: sqlite_ok_def)
  obtain s' where s': "run_upsert conv ns p s = Inr s'" using run_upsert_ok [OF p] by simp
  then show "\<exists>s' d. run_upsert conv ns p s = Inr s' \<and> get_run ns i s' = Some d \<and> reads_as p d"
    using get_run_written(1) [OF p s'] stored_row_reads [OF p(1)] by blast
qed (auto simp: sqlite_ok_def get_run_written(2) split: pyval.splits)

section \<open>The store over Redis\<close>

locale redis_server =
  fixes c :: "'r redis_client" and ttl :: int and score :: "string \<Rightarrow> rat" and ns :: string
  assumes get_setex: "0 < t \<Longrightarrow> rd_get c k (rd_setex c k' t v s) = (if k = k' then Some v else rd_get c k s)"
    and get_zadd: "k \<noteq> k' \<Longrightarrow> rd_get c k (rd_zadd c k' m x s) = rd_get c k s"
    and get_expire: "k \<noteq> k' \<Longrightarrow> rd_get c k (rd_expire c k' t s) = rd_get c k s"
    and ttl_pos: "0 < ttl"
begin

lemma get_put: "k \<noteq> index \<Longrightarrow> rd_get c k (redis_put c ttl key index data m x s) = (if k = key then Some (redis_dumps (PDict data)) else rd_get c k s)"
  unfolding redis_put_def by (simp add: get_expire get_zadd get_setex ttl_pos)

end

definition redis_ok :: "string \<Rightarrow> pydict \<Rightarrow> bool" where
  "redis_ok ns p \<longleftrightarrow> payload_ok p \<and> (case dget p ''run_id'' PNone of PStr i \<Rightarrow> i \<noteq> [] | _ \<Rightarrow> False) \<and>
     list_all (\<lambda>x. code x < 127) (json_dumps False '', '' '': '' (PDict (run_data ns p)))"

definition redis_read :: "'r redis_client \<Rightarrow> string \<Rightarrow> string \<Rightarrow> 'r \<Rightarrow> pydict option" where
  "redis_read c ns i s = (case redis_get_run c ns i s of Inr (Some (PDict d)) \<Rightarrow> Some d | _ \<Rightarrow> None)"

lemma run_key_not_index: "run_key ns i \<noteq> run_index_key ns'"
  by (simp add: run_key_def run_index_key_def)

lemma run_key_eq: "run_key ns i = run_key ns j \<longleftrightarrow> i = j"
  by (simp add: run_key_def)

lemma redis_dumps_ascii: "list_all (\<lambda>x. code x < 127) (json_dumps False '', '' '': '' v) \<Longrightarrow> redis_dumps v = json_dumps False '', '' '': '' v"
proof -
  have "concat (map ascii_char t) = t" if "list_all (\<lambda>x. code x < 127) t" for t
    using that by (induction t) (simp_all add: ascii_char_def)
  then show "list_all (\<lambda>x. code x < 127) (json_dumps False '', '' '': '' v) \<Longrightarrow> redis_dumps v = json_dumps False '', '' '': '' v"
    by (simp add: redis_dumps_def)
qed

lemma json_seps_default: "json_seps '', '' '': ''"
  unfolding json_seps_def by (rule exI [of _ "'' ''"], rule exI [of _ "'' ''"]) (simp add: json_space_def code_def)

lemma col_ok_plain: "col_ok ty rule v \<Longrightarrow> json_plain v"
  by (cases "(ty, rule, v)" rule: col_ok.cases) auto

lemma redis_text_read:
  assumes "redis_ok ns p"
  shows "json_loads (redis_dumps (PDict (run_data ns p))) = Some (PDict (run_data ns p))"
proof -
  have "json_plain v" if "(k, v) \<in> set (run_data ns p)" for k v
    using assms that col_ok_plain by (auto simp: redis_ok_def elim: run_data_col)
  then have "json_plain (PDict (run_data ns p))" by (auto simp: run_data_distinct)
  note plain = json_loads_dumps [OF json_seps_default this]
  have "redis_dumps (PDict (run_data ns p)) = json_dumps False '', '' '': '' (PDict (run_data ns p))"
    using assms by (intro redis_dumps_ascii) (simp only: redis_ok_def)
  then show ?thesis using plain by (simp only:)
qed

lemma run_data_reads: "reads_as p (run_data ns p)"
  unfolding reads_as_def using dget_run_data by (auto simp: stored_columns_def)

sublocale redis_server \<subseteq> redis_runs: run_store_contract "\<lambda>p s. Inr (redis_upsert c ttl score ns p s)" "redis_read c ns" "redis_ok ns"
proof
  fix p i s
  assume p: "redis_ok ns p" "dget p ''run_id'' PNone = PStr i"
  have id: "dget (run_data ns p) ''run_id'' (PStr []) = PStr i" "i \<noteq> []"
  proof -
    have "dget (run_data ns p) ''run_id'' PNone = PStr i" using dget_run_data [of "''run_id''" ns p] p(2) by (simp add: stored_columns_def)
    then show "dget (run_data ns p) ''run_id'' (PStr []) = PStr i" by (auto simp: dget_def split: option.splits)
    show "i \<noteq> []" using p by (simp add: redis_ok_def)
  qed
  have up: "rd_get c (run_key ns j) (redis_upsert c ttl score ns p s) =
      (if j = i then Some (redis_dumps (PDict (run_data ns p))) else rd_get c (run_key ns j) s)" for j
    by (simp add: redis_upsert_def Let_def id get_put [OF run_key_not_index] run_key_eq)
  have "redis_read c ns i (redis_upsert c ttl score ns p s) = Some (run_data ns p)"
    by (simp add: redis_read_def redis_get_run_def redis_load_def up redis_text_read [OF p(1)])
  then show "\<exists>s' d. Inr (redis_upsert c ttl score ns p s) = Inr s' \<and> redis_read c ns i s' = Some d \<and> reads_as p d"
    using run_data_reads by blast
  show "redis_read c ns j s' = redis_read c ns j s" if "Inr (redis_upsert c ttl score ns p s) = Inr s'" "j \<noteq> i" for s' j
    using that up [of j] by (auto simp: redis_read_def redis_get_run_def redis_load_def)
qed (auto simp: redis_ok_def split: pyval.splits)

context redis_server
begin

lemma redis_read_last:
  assumes "list_all (redis_ok ns) ps"
  shows "case last_write i ps of
      None \<Rightarrow> redis_read c ns i (fold (redis_upsert c ttl score ns) ps s) = redis_read c ns i s
    | Some p \<Rightarrow> \<exists>d. redis_read c ns i (fold (redis_upsert c ttl score ns) ps s) = Some d \<and> reads_as p d"
proof -
  have "upsert_all (\<lambda>p s. Inr (redis_upsert c ttl score ns p s)) ps t = Inr (fold (redis_upsert c ttl score ns) ps t)" for t
    by (induction ps arbitrary: t) simp_all
  then show ?thesis by (rule redis_runs.read_last [OF assms])
qed

end

text \<open>Redis in memory, before anything expires: strings, and sorted sets of members with their scores.\<close>

type_synonym redis_memory = "(string \<rightharpoonup> string) \<times> (string \<Rightarrow> (string \<times> rat) list)"

definition redis_in_memory :: "redis_memory redis_client" where
  "redis_in_memory = \<lparr> rd_setex = (\<lambda>k t v s. ((fst s)(k \<mapsto> v), snd s)), rd_get = (\<lambda>k s. fst s k),
     rd_zadd = (\<lambda>k m x s. (fst s, (snd s)(k := AList.update m x (snd s k)))), rd_expire = (\<lambda>k t s. s),
     rd_zrevrange = (\<lambda>k s. rev (map fst (sort_key (\<lambda>mx. (snd mx, fst mx)) (snd s k)))) \<rparr>"

lemma redis_in_memory_laws: "redis_server redis_in_memory 86400"
  by unfold_locales (simp_all add: redis_in_memory_def)

interpretation memory_redis: redis_server redis_in_memory 86400 score ns for score ns
  by (rule redis_in_memory_laws)

section \<open>What the service relies on\<close>

definition demo_run :: "string \<Rightarrow> string \<Rightarrow> pydict" where
  "demo_run i status = [(''run_id'', PStr i), (''request'', PStr ''fix''), (''status'', PStr status), (''created_at'', PStr ''t0''),
     (''started_at'', PStr ''t0''), (''finished_at'', PNone), (''exit_code'', PNone), (''trace_out_dir'', PStr ''out''),
     (''trace_path'', PStr ''out/run.json''), (''pending_approval'', PBool False)]"

text \<open>
  The SQLite store refines a map from run identifiers to records: any sequence of well-typed writes succeeds, and
  afterwards each run reads as the last record written under its identifier, and no other run exists.
\<close>

theorem sqlite_reads_last_write:
  assumes "list_all sqlite_ok ps"
  shows "\<exists>rows. upsert_all (run_upsert conv ns) ps [] = Inr rows \<and>
    (\<forall>i. case last_write i ps of None \<Rightarrow> get_run ns i rows = None | Some p \<Rightarrow> \<exists>d. get_run ns i rows = Some d \<and> reads_as p d)"
proof -
  obtain rows where rows: "upsert_all (run_upsert conv ns) ps [] = Inr rows"
    using sqlite_runs.upsert_all_defined [OF assms] by blast
  moreover have "get_run ns i [] = None" for i by (simp add: get_run_def)
  then have "case last_write i ps of None \<Rightarrow> get_run ns i rows = None | Some p \<Rightarrow> \<exists>d. get_run ns i rows = Some d \<and> reads_as p d" for i
    using sqlite_runs.read_last [OF assms rows, of i] by (cases "last_write i ps") simp_all
  ultimately show ?thesis by blast
qed

theorem sqlite_reads_last_write_witness:
  "\<exists>rows. upsert_all (run_upsert (\<lambda>v. v) ''n'') [demo_run ''a'' ''running'', demo_run ''b'' ''running'', demo_run ''a'' ''failed''] [] = Inr rows \<and>
    (\<forall>i. case last_write i [demo_run ''a'' ''running'', demo_run ''b'' ''running'', demo_run ''a'' ''failed''] of
        None \<Rightarrow> get_run ''n'' i rows = None | Some p \<Rightarrow> \<exists>d. get_run ''n'' i rows = Some d \<and> reads_as p d)"
  by (rule sqlite_reads_last_write) code_simp

text \<open>
  The same for Redis, of which only the documented effects of its commands are assumed, as long as nothing expires:
  the two stores keep the same contract.
\<close>

theorem redis_reads_last_write:
  assumes "redis_server c ttl" "list_all (redis_ok ns) ps" "\<forall>k. rd_get c k s = None"
  shows "case last_write i ps of
      None \<Rightarrow> redis_read c ns i (fold (redis_upsert c ttl score ns) ps s) = None
    | Some p \<Rightarrow> \<exists>d. redis_read c ns i (fold (redis_upsert c ttl score ns) ps s) = Some d \<and> reads_as p d"
proof -
  have "redis_read c ns i s = None" by (simp add: redis_read_def redis_get_run_def redis_load_def assms(3))
  then show ?thesis using redis_server.redis_read_last [OF assms(1,2), of i score s] by (cases "last_write i ps") simp_all
qed

text \<open>
  The namespaces are not separate in SQLite: the primary key is the identifier alone, so a store of another
  namespace that writes a run of the same identifier removes it from this one.
\<close>

theorem sqlite_namespaces_collide:
  assumes "sqlite_ok p" "dget p ''run_id'' PNone = PStr i" "other \<noteq> ns" "run_upsert conv other p rows = Inr rows'"
  shows "get_run ns i rows' = None"
  using get_run_written(3) [of p i conv other rows rows' ns] assms by (auto simp: sqlite_ok_def)

text \<open>In Redis they are: for identifiers without a colon, equal keys mean the same namespace and the same run.\<close>

lemma last_colon:
  assumes "CHR '':'' \<notin> set i" "CHR '':'' \<notin> set j" "a @ '':'' @ i = b @ '':'' @ j"
  shows "a = b \<and> i = j"
proof -
  have "rev i @ CHR '':'' # rev a = rev j @ CHR '':'' # rev b" using arg_cong [OF assms(3), of rev] by simp
  moreover have "takeWhile (\<lambda>x. x \<noteq> CHR '':'') (rev k @ CHR '':'' # t) = rev k" if "CHR '':'' \<notin> set k" for k t
    using that by (subst takeWhile_append2) auto
  ultimately have "rev i = rev j" using assms(1,2) by metis
  then show ?thesis using assms(3) by simp
qed

theorem redis_keys_separate:
  assumes "CHR '':'' \<notin> set i" "CHR '':'' \<notin> set j"
  shows "run_key ns i = run_key ns' j \<longleftrightarrow> ns = ns' \<and> i = j"
  using last_colon [OF assms, of ns ns'] by (auto simp: run_key_def)

text \<open>The key of a memory is found again from the member of the index, wherever the member is split.\<close>

lemma semantic_key_again: "split_first (CHR '':'') (k @ '':'' @ rid) = Some (a, b) \<Longrightarrow> semantic_key ns a b = semantic_key ns k rid"
proof -
  assume "split_first (CHR '':'') (k @ '':'' @ rid) = Some (a, b)"
  then have "a @ CHR '':'' # b = k @ '':'' @ rid"
    by (auto simp: split_first_def split: list.splits)
      (metis (mono_tags, lifting) dropWhile_eq_Cons_conv takeWhile_dropWhile_id)
  then show ?thesis by (simp add: semantic_key_def)
qed

text \<open>
  Recalled facts come from the own namespace, at most \<open>max 1 limit\<close> of them, ordered by salience and then by loop.
\<close>

theorem recalled_facts:
  "length (get_recent_recovery_facts ns fp cls limit rows) \<le> nat (max 1 limit) \<and>
   set (get_recent_recovery_facts ns fp cls limit rows) \<subseteq> {r \<in> set rows. fr_namespace r = ns} \<and>
   sorted_wrt (\<lambda>a b. (fr_salience b, fr_loop b) \<le> (fr_salience a, fr_loop a)) (get_recent_recovery_facts ns fp cls limit rows)"
proof -
  have one: "length (take n (recall_order fs)) \<le> n \<and> set (take n (recall_order fs)) \<subseteq> set fs \<and>
      sorted_wrt (\<lambda>a b. (fr_salience b, fr_loop b) \<le> (fr_salience a, fr_loop a)) (take n (recall_order fs))" for n fs
  proof -
    have "sorted_wrt (\<lambda>a b. (fr_salience a, fr_loop a) \<le> (fr_salience b, fr_loop b)) (sort_key (\<lambda>r. (fr_salience r, fr_loop r)) (rev fs))"
      using sorted_sort_key [of "\<lambda>r. (fr_salience r, fr_loop r)" "rev fs"] unfolding sorted_wrt_map .
    then have "sorted_wrt (\<lambda>a b. (fr_salience b, fr_loop b) \<le> (fr_salience a, fr_loop a)) (recall_order fs)"
      unfolding recall_order_def sort_desc_def sorted_wrt_rev .
    moreover have "set (take n (recall_order fs)) \<subseteq> set fs"
      using set_take_subset [of n "recall_order fs"] by (simp add: recall_order_def sort_desc_def)
    ultimately show ?thesis by (simp add: sorted_wrt_take)
  qed
  let ?own = "filter (\<lambda>r. fr_namespace r = ns) rows" and ?n = "nat (max 1 limit)"
  have "\<exists>fs. get_recent_recovery_facts ns fp cls limit rows = take ?n (recall_order fs) \<and> set fs \<subseteq> set ?own"
    by (auto simp: get_recent_recovery_facts_def Let_def split: option.splits)
  then obtain fs where fs: "get_recent_recovery_facts ns fp cls limit rows = take ?n (recall_order fs)" "set fs \<subseteq> set ?own" by blast
  then show ?thesis unfolding fs(1) using one [of ?n fs] by auto
qed

end
