(* ===== verification/Run_Service.thy ===== *)
theory Run_Service
  imports Run_Store_Props Run_Command Approval_Policy
begin

text \<open>
  \<open>api/service.py\<close>: the life cycle of runs in the service. The state holds the records of the runs, the
  table of started processes with their exit codes, the files, and the calls made to the run store in order. What an
  operation does under the lock is one definition; the threads that read a process's output finish a run in two
  such sections. Processes exit and write files on their own, which the step relation of \<open>Run_Service_Props\<close> adds.
  The clock, the outcome of starting a process, path resolution and whether a file can be written are arguments.
  Metrics are left out but for the number of active runs.
\<close>

section \<open>Records\<close>

record RunRecord =
  rr_run_id :: string
  rr_request :: string
  rr_argv :: "string list"
  rr_trace_out_dir :: string
  rr_trace_path :: string
  rr_process :: "nat option"
  rr_created_at :: string
  rr_started_at :: string
  rr_status :: string
  rr_finished_at :: "string option"
  rr_exit_code :: "int option"
  rr_logs :: "string list"
  rr_request_id :: string
  rr_auth_subject :: string
  rr_client_ip :: string
  rr_cancel_requested :: bool
  rr_thread_id :: string
  rr_checkpoint_id :: string
  rr_pending_approval :: bool
  rr_pending_approval_summary :: string
  rr_pending_approval_details :: pydict
  rr_approval_history :: "pydict list"
  rr_final :: string

record process =
  pc_argv :: "string list"
  pc_env :: environ
  pc_exit :: "int option"
  pc_terminated :: bool

datatype store_call =
    UpsertRun pydict
  | UpsertFacts string "pyval list"
  | UpsertMemories string "pydict list"

record service =
  sv_runs :: "(string \<times> RunRecord) list"
  sv_procs :: "process list"
  sv_files :: "string \<rightharpoonup> string"
  sv_store :: bool
  sv_calls :: "store_call list"
  sv_cache :: "procedure_table option"
  sv_active :: int
  sv_decisions :: decisions

text \<open>
  What one call sees of its surroundings: \<open>se_now\<close> gives its readings of the clock, \<open>se_spawn\<close> whether a process
  starts and whether it has already exited, \<open>se_tmp\<close> the temporary file for approvals, \<open>se_accepts\<close> whether the
  store takes the facts of a run without raising.
\<close>

record service_env =
  se_now :: "nat \<Rightarrow> string"
  se_root :: string
  se_python :: string
  se_expand :: "string \<Rightarrow> string"
  se_resolve :: "string \<Rightarrow> string"
  se_uuid :: string
  se_environ :: environ
  se_spawn :: "string list \<Rightarrow> int option result"
  se_tmp :: "string result"
  se_writable :: "string \<Rightarrow> bool"
  se_secret :: string
  se_iat :: nat
  se_nonce :: string
  se_accepts :: "store_call \<Rightarrow> bool"

section \<open>Helpers\<close>

definition normalized_run_id :: "pyval \<Rightarrow> string option" where
  "normalized_run_id raw = (case non_empty_str raw of None \<Rightarrow> None | Some v \<Rightarrow> if run_id_ok v then Some v else None)"

definition trace_path_for_run :: "service_env \<Rightarrow> string \<Rightarrow> string \<Rightarrow> string" where
  "trace_path_for_run e out_dir run_id =
     (let d = se_expand e out_dir;
          trace_dir = (if is_absolute d then d else se_root e @ ''/'' @ d)
      in se_resolve e trace_dir @ ''/run-'' @ run_id @ ''.json'')"

definition load_trace :: "(string \<rightharpoonup> string) \<Rightarrow> string \<Rightarrow> pydict option" where
  "load_trace files path = (case files path of
       None \<Rightarrow> None
     | Some text \<Rightarrow> (case json_loads text of Some (PDict d) \<Rightarrow> Some d | _ \<Rightarrow> None))"

definition trace_pending :: "pydict \<Rightarrow> pydict option" where
  "trace_pending trace =
     (let tool_results = dicts_of (as_list (dget trace ''tool_results'' (PList [])));
          wanted = (\<lambda>result. lower (strip (gets (as_dict (dget result ''artifacts'' (PDict []))) ''error'' [])) = ''approval_required''
                             \<and> is_dict (dget (as_dict (dget result ''artifacts'' (PDict []))) ''approval'' (PDict [])))
      in map_option (\<lambda>result. as_dict (dget (as_dict (dget result ''artifacts'' (PDict []))) ''approval'' (PDict [])))
           (find wanted (rev tool_results)))"

definition approval_state_from_trace :: "pydict option \<Rightarrow> pydict" where
  "approval_state_from_trace trace_payload = (case trace_payload of
       None \<Rightarrow> [(''pending'', PBool False), (''summary'', PStr []), (''details'', PDict []), (''history'', PList []),
                 (''thread_id'', PStr []), (''checkpoint_id'', PStr [])]
     | Some trace \<Rightarrow>
         (let checkpoint = as_dict (dget trace ''checkpoint'' (PDict []));
              thread_id = strip (gets checkpoint ''thread_id'' []);
              checkpoint_id = strip (py_str (or_val (or_val (dget checkpoint ''latest_checkpoint_id'' PNone)
                                                            (dget checkpoint ''resume_checkpoint_id'' PNone)) (PStr [])));
              approval = as_dict (dget trace ''approval'' (PDict []));
              explicit = (map_of approval ''pending'' \<noteq> None);
              details0 = as_dict (dget approval ''pending_details'' (PDict []));
              history = dicts_of (as_list (dget approval ''history'' (PList [])));
              pending0 = py_bool (dget approval ''pending'' (PBool False));
              summary0 = strip (gets approval ''summary'' []);
              found = (if \<not> explicit \<and> details0 = [] then trace_pending trace else None);
              details = (case found of Some d \<Rightarrow> d | None \<Rightarrow> details0);
              pending = (found \<noteq> None \<or> pending0);
              summary = (if details \<noteq> [] \<and> summary0 = [] then approval_summary_text details else summary0)
          in [(''pending'', PBool pending), (''summary'', PStr summary), (''details'', PDict details),
              (''history'', dict_list history), (''thread_id'', PStr thread_id), (''checkpoint_id'', PStr checkpoint_id)]))"

definition apply_approval_state_to_record :: "pydict \<Rightarrow> RunRecord \<Rightarrow> RunRecord" where
  "apply_approval_state_to_record st r =
     (let thread_id = strip (gets st ''thread_id'' []); checkpoint_id = strip (gets st ''checkpoint_id'' []);
          history = as_list (dget st ''history'' (PList []));
          r1 = (if thread_id \<noteq> [] then r \<lparr> rr_thread_id := thread_id \<rparr> else r);
          r2 = (if checkpoint_id \<noteq> [] then r1 \<lparr> rr_checkpoint_id := checkpoint_id \<rparr> else r1);
          r3 = (if history \<noteq> [] then r2 \<lparr> rr_approval_history := dicts_of history \<rparr> else r2)
      in if py_bool (dget st ''pending'' (PBool False)) \<and> \<not> rr_cancel_requested r3
         then r3 \<lparr> rr_status := ''suspended'', rr_pending_approval := True,
                   rr_pending_approval_summary := strip (gets st ''summary'' []),
                   rr_pending_approval_details := as_dict (dget st ''details'' (PDict [])) \<rparr>
         else r3 \<lparr> rr_pending_approval := False, rr_pending_approval_summary := [], rr_pending_approval_details := [] \<rparr>)"

definition apply_trace_state_to_payload :: "pydict \<Rightarrow> pydict option \<Rightarrow> pydict" where
  "apply_trace_state_to_payload payload trace_payload =
     (let o1 = dset (dset payload ''trace_ready'' (PBool (trace_payload \<noteq> None)))
                 ''trace'' (case trace_payload of None \<Rightarrow> PNone | Some d \<Rightarrow> PDict d);
          final_text = (case trace_payload of None \<Rightarrow> [] | Some d \<Rightarrow> strip (gets d ''final'' []));
          o2 = (if final_text \<noteq> [] then dset o1 ''final'' (PStr final_text) else o1);
          st = approval_state_from_trace trace_payload;
          o3 = dset o2 ''thread_id'' (PStr (or_str (strip (gets st ''thread_id'' [])) (strip (gets o2 ''thread_id'' []))));
          o4 = dset o3 ''checkpoint_id'' (PStr (or_str (strip (gets st ''checkpoint_id'' [])) (strip (gets o3 ''checkpoint_id'' []))));
          o5 = dset o4 ''pending_approval'' (PBool (py_bool (dget st ''pending'' (dget o4 ''pending_approval'' (PBool False)))));
          o6 = dset o5 ''pending_approval_summary'' (PStr (strip (py_str (dget st ''summary'' (dget o5 ''pending_approval_summary'' (PStr []))))));
          o7 = dset o6 ''pending_approval_details'' (PDict (as_dict (dget st ''details'' (PDict []))));
          history = as_list (dget st ''history'' (PList []));
          o8 = (if history \<noteq> [] then dset o7 ''approval_history'' (dict_list (dicts_of history))
                else if map_of o7 ''approval_history'' = None then dset o7 ''approval_history'' (PList []) else o7)
      in if py_bool (dget o8 ''pending_approval'' PNone) \<and> strip (gets o8 ''status'' []) \<notin> {''cancelled'', ''rejected''}
         then dset o8 ''status'' (PStr ''suspended'') else o8)"

text \<open>\<open>json.dumps(v, ensure_ascii=False, indent=2)\<close>.\<close>

definition new_line :: "nat \<Rightarrow> string" where
  "new_line n = CHR 0x0A # replicate (2 * n) (CHR '' '')"

primrec json_indent :: "pyval \<Rightarrow> nat \<Rightarrow> string" where
  "json_indent PNone n = ''null''"
| "json_indent (PBool b) n = (if b then ''true'' else ''false'')"
| "json_indent (PInt i) n = int_str i"
| "json_indent (PFloat m x) n = float_str m x"
| "json_indent (PStr s) n = json_str s"
| "json_indent (PList xs) n =
     (if xs = [] then ''[]'' else ''['' @ new_line (Suc n) @ join ('','' @ new_line (Suc n)) (map (\<lambda>f. f (Suc n)) (map json_indent xs)) @ new_line n @ '']'')"
| "json_indent (PDict d) n =
     (if d = [] then ''{}''
      else ''{'' @ new_line (Suc n) @ join ('','' @ new_line (Suc n)) (map (\<lambda>kf. json_str (fst kf) @ '': '' @ snd kf (Suc n)) (map (map_prod id json_indent) d))
           @ new_line n @ ''}'')"

definition approval_written :: "bool \<Rightarrow> pydict \<Rightarrow> pydict list \<Rightarrow> pydict option \<Rightarrow> pydict \<Rightarrow> pydict" where
  "approval_written pending details history last_decision trace =
     (let a0 = as_dict (dget trace ''approval'' (PDict []));
          a1 = dset (dset a0 ''pending'' (PBool pending)) ''history'' (dict_list history);
          a2 = (if details \<noteq> [] then dset (dset a1 ''pending_details'' (PDict details)) ''summary'' (PStr (approval_summary_text details))
                else dset (AList.delete ''pending_details'' a1) ''summary'' (PStr []));
          a3 = (case last_decision of Some d \<Rightarrow> dset a2 ''last_decision'' (PDict d) | None \<Rightarrow> a2)
      in dset trace ''approval'' (PDict a3))"

definition write_trace_approval_state ::
  "service_env \<Rightarrow> string \<Rightarrow> bool \<Rightarrow> pydict \<Rightarrow> pydict list \<Rightarrow> pydict option \<Rightarrow> (string \<rightharpoonup> string) \<Rightarrow> (string \<rightharpoonup> string)" where
  "write_trace_approval_state e path pending details history last_decision files =
     (case load_trace files path of
        None \<Rightarrow> files
      | Some trace \<Rightarrow> if se_writable e path
                      then files(path \<mapsto> json_indent (PDict (approval_written pending details history last_decision trace)) 0)
                      else files)"

definition value_flag :: "string \<Rightarrow> bool" where
  "value_flag t \<longleftrightarrow> t \<in> {''--thread-id'', ''--checkpoint-id''}"

definition resume_flag :: "string \<Rightarrow> bool" where
  "resume_flag t \<longleftrightarrow> t = ''--resume''"

fun drop_resume_args :: "string list \<Rightarrow> string list" where
  "drop_resume_args [] = []"
| "drop_resume_args (t # ts) =
     (if resume_flag t then drop_resume_args ts
      else if value_flag t then drop_resume_args (drop 1 ts)
      else t # drop_resume_args ts)"

definition resume_argv :: "RunRecord \<Rightarrow> string list" where
  "resume_argv r = drop_resume_args (rr_argv r) @ [''--resume''] @
     (if rr_thread_id r \<noteq> [] then [''--thread-id'', rr_thread_id r] else []) @
     (if rr_checkpoint_id r \<noteq> [] then [''--checkpoint-id'', rr_checkpoint_id r] else [])"

definition memory_entry :: "string \<Rightarrow> string \<Rightarrow> string \<Rightarrow> pydict" where
  "memory_entry kind source summary = [(''kind'', PStr kind), (''source'', PStr source), (''summary'', PStr summary)]"

definition decision_text :: "pydict \<Rightarrow> string" where
  "decision_text entry =
     (let s1 = or_str (strip (gets entry ''decision'' [])) ''approval'' @ '' by '' @ or_str (strip (gets entry ''actor'' [])) ''operator'';
          challenge = strip (gets entry ''challenge_id'' []); rationale = strip (gets entry ''rationale'' []);
          s2 = (if challenge \<noteq> [] then s1 @ '' for '' @ challenge else s1)
      in if rationale \<noteq> [] then s2 @ '': '' @ rationale else s2)"

definition semantic_memories_from_trace :: "pydict option \<Rightarrow> string \<Rightarrow> pydict list" where
  "semantic_memories_from_trace trace_payload request = (case trace_payload of
       None \<Rightarrow> []
     | Some trace \<Rightarrow>
         (let request_text = strip (gets trace ''request'' request);
              final_text = strip (gets trace ''final'' []);
              loops = filter (\<lambda>l. strip (gets l ''summary'' []) \<noteq> []) (lastn 5 (dicts_of (as_list (dget trace ''loop_summaries'' (PList [])))));
              st = approval_state_from_trace trace_payload;
              approval_summary = strip (gets st ''summary'' []);
              history = dicts_of (as_list (dget st ''history'' (PList [])))
          in (if request_text \<noteq> [] then [memory_entry ''request'' ''user_request'' request_text] else []) @
             (if final_text \<noteq> [] then [memory_entry ''final_output'' ''reporter'' (take 600 final_text)] else []) @
             map (\<lambda>l. memory_entry ''loop_summary'' (or_str (strip (gets l ''failure_class'' [])) ''loop_summary'') (strip (gets l ''summary'' []))) loops @
             (if approval_summary \<noteq> []
              then [memory_entry ''approval_summary''
                      (or_str (strip (gets (as_dict (dget st ''details'' (PDict []))) ''operation_class'' ''approval'')) ''approval'') approval_summary]
              else []) @
             map (\<lambda>h. memory_entry ''approval_history'' (or_str (strip (gets h ''decision'' [])) ''approval'') (decision_text h)) (lastn 5 history)))"

section \<open>Refreshing and reading\<close>

definition finish :: "string \<Rightarrow> int \<Rightarrow> RunRecord \<Rightarrow> RunRecord" where
  "finish now exit_code r = r \<lparr> rr_exit_code := Some exit_code, rr_finished_at := Some now,
     rr_status := (if rr_cancel_requested r then ''cancelled'' else if exit_code = 0 then ''succeeded'' else ''failed'') \<rparr>"

definition poll :: "process list \<Rightarrow> RunRecord \<Rightarrow> int option" where
  "poll procs r = (case rr_process r of Some pid \<Rightarrow> if pid < length procs then pc_exit (procs ! pid) else None | None \<Rightarrow> None)"

text \<open>The record after a refresh, or \<open>None\<close> when there is nothing to do.\<close>

definition refresh_record :: "string \<Rightarrow> (string \<rightharpoonup> string) \<Rightarrow> process list \<Rightarrow> RunRecord \<Rightarrow> RunRecord option" where
  "refresh_record now files procs r =
     (if rr_finished_at r \<noteq> None then None
      else case poll procs r of
          None \<Rightarrow> None
        | Some exit_code \<Rightarrow>
            (let trace = load_trace files (rr_trace_path r);
                 r1 = apply_approval_state_to_record (approval_state_from_trace trace) (finish now exit_code r);
                 final_text = (case trace of None \<Rightarrow> [] | Some d \<Rightarrow> strip (gets d ''final'' []))
             in Some (if final_text \<noteq> [] then r1 \<lparr> rr_final := final_text \<rparr> else r1)))"

definition record_payload :: "RunRecord \<Rightarrow> pydict" where
  "record_payload r =
     [(''run_id'', PStr (rr_run_id r)), (''request'', PStr (rr_request r)), (''status'', PStr (rr_status r)),
      (''created_at'', PStr (rr_created_at r)), (''started_at'', PStr (rr_started_at r)), (''finished_at'', str_opt (rr_finished_at r)),
      (''exit_code'', (case rr_exit_code r of None \<Rightarrow> PNone | Some i \<Rightarrow> PInt i)),
      (''trace_out_dir'', PStr (rr_trace_out_dir r)), (''trace_path'', PStr (rr_trace_path r)), (''log_lines'', PInt (int (length (rr_logs r)))),
      (''request_id'', PStr (rr_request_id r)), (''auth_subject'', PStr (rr_auth_subject r)), (''client_ip'', PStr (rr_client_ip r)),
      (''thread_id'', PStr (rr_thread_id r)), (''checkpoint_id'', PStr (rr_checkpoint_id r)),
      (''pending_approval'', PBool (rr_pending_approval r)), (''pending_approval_summary'', PStr (rr_pending_approval_summary r)),
      (''approval_history'', dict_list (rr_approval_history r)), (''cancel_requested'', PBool (rr_cancel_requested r)),
      (''cancellable'', PBool (rr_finished_at r = None \<and> \<not> rr_cancel_requested r))] @
     (if rr_final r \<noteq> [] then [(''final'', PStr (rr_final r))] else [])"

definition put_record :: "string \<Rightarrow> RunRecord \<Rightarrow> service \<Rightarrow> service" where
  "put_record run_id r s = s \<lparr> sv_runs := AList.update run_id r (sv_runs s) \<rparr>"

definition store_calls :: "store_call list \<Rightarrow> service \<Rightarrow> service" where
  "store_calls cs s = (if sv_store s then s \<lparr> sv_calls := sv_calls s @ cs \<rparr> else s)"

definition refresh :: "string \<Rightarrow> string \<Rightarrow> service \<Rightarrow> service" where
  "refresh now run_id s = (case map_of (sv_runs s) run_id of
       None \<Rightarrow> s
     | Some r \<Rightarrow> (case refresh_record now (sv_files s) (sv_procs s) r of
           None \<Rightarrow> s
         | Some r' \<Rightarrow> store_calls [UpsertRun (record_payload r')] (put_record run_id r' s)))"

text \<open>\<open>persisted\<close> is what the run store answers for an identifier.\<close>

definition get_run_detail :: "service_env \<Rightarrow> (string \<Rightarrow> pydict option) \<Rightarrow> string \<Rightarrow> service \<Rightarrow> service \<times> pydict option" where
  "get_run_detail e persisted run_id s = (case normalized_run_id (PStr run_id) of
       None \<Rightarrow> (s, None)
     | Some rid \<Rightarrow>
         (let s1 = refresh (se_now e 9) rid s;
              payload = (case map_of (sv_runs s1) rid of
                  Some r \<Rightarrow> Some (record_payload r)
                | None \<Rightarrow> if sv_store s then persisted rid else None)
          in (s1, map_option (\<lambda>p. apply_trace_state_to_payload p (load_trace (sv_files s1) (gets p ''trace_path'' []))) payload)))"

definition list_run_payloads :: "service_env \<Rightarrow> pydict list \<Rightarrow> service \<Rightarrow> service \<times> pydict list" where
  "list_run_payloads e persisted s =
     (let s1 = fold (refresh (se_now e 9)) (map fst (sv_runs s)) s;
          in_memory = map (\<lambda>(rid, r). (rid, record_payload r)) (sv_runs s1);
          stored = (if sv_store s then map (\<lambda>p. (text_col ''run_id'' p, p)) persisted else []);
          merged = fold (\<lambda>(k, p) d. AList.update k p d) (stored @ in_memory) []
      in (s1, sort_desc (text_col ''created_at'') (map snd merged)))"

definition get_logs :: "service_env \<Rightarrow> string \<Rightarrow> service \<Rightarrow> service \<times> pydict option" where
  "get_logs e run_id s = (case normalized_run_id (PStr run_id) of
       None \<Rightarrow> (s, None)
     | Some rid \<Rightarrow>
         (let s1 = refresh (se_now e 0) rid s in
          (s1, map_option (\<lambda>r. [(''run_id'', PStr (rr_run_id r)), (''status'', PStr (rr_status r)),
               (''exit_code'', (case rr_exit_code r of None \<Rightarrow> PNone | Some i \<Rightarrow> PInt i)),
               (''cancel_requested'', PBool (rr_cancel_requested r)), (''logs'', str_list (rr_logs r))]) (map_of (sv_runs s1) rid))))"

section \<open>Creating and cancelling\<close>

definition flag_args :: "pydict \<Rightarrow> string list" where
  "flag_args payload =
     concat (map (\<lambda>(key, flag). case non_empty_str (dget payload key PNone) of Some v \<Rightarrow> [flag, v] | None \<Rightarrow> [])
       [(''profile'', ''--profile''), (''runner_base_url'', ''--runner-base-url''), (''thread_id'', ''--thread-id''), (''checkpoint_id'', ''--checkpoint-id'')])
     @ (if py_bool (dget payload ''resume'' PNone) then [''--resume''] else [])"

definition run_argv :: "service_env \<Rightarrow> string \<Rightarrow> string \<Rightarrow> string \<Rightarrow> string \<Rightarrow> string list" where
  "run_argv e request run_id out_dir view =
     [se_python e, ''-m'', ''lg_orch.main'', ''run'', request, ''--repo-root'', se_root e, ''--trace'', ''--run-id'', run_id,
      ''--trace-out-dir'', out_dir, ''--view'', view]"

definition caller_env :: "string \<Rightarrow> string \<Rightarrow> string \<Rightarrow> environ \<Rightarrow> environ" where
  "caller_env request_id auth_subject client_ip env =
     (let e1 = (if request_id \<noteq> [] then env(''LG_REQUEST_ID'' \<mapsto> request_id) else env);
          e2 = (if auth_subject \<noteq> [] then e1(''LG_REMOTE_API_AUTH_SUBJECT'' \<mapsto> auth_subject) else e1)
      in if client_ip \<noteq> [] then e2(''LG_REMOTE_API_CLIENT_IP'' \<mapsto> client_ip) else e2)"

definition new_record :: "service_env \<Rightarrow> string \<Rightarrow> string \<Rightarrow> string list \<Rightarrow> string \<Rightarrow> string \<Rightarrow> string \<Rightarrow> string \<Rightarrow> pydict \<Rightarrow> RunRecord" where
  "new_record e run_id request argv out_dir request_id auth_subject client_ip payload =
     \<lparr> rr_run_id = run_id, rr_request = request, rr_argv = argv, rr_trace_out_dir = out_dir,
       rr_trace_path = trace_path_for_run e out_dir run_id, rr_process = None, rr_created_at = se_now e 0, rr_started_at = se_now e 0,
       rr_status = ''running'', rr_finished_at = None, rr_exit_code = None, rr_logs = [], rr_request_id = request_id,
       rr_auth_subject = auth_subject, rr_client_ip = client_ip, rr_cancel_requested = False,
       rr_thread_id = opt_or (non_empty_str (dget payload ''thread_id'' PNone)) [],
       rr_checkpoint_id = opt_or (non_empty_str (dget payload ''checkpoint_id'' PNone)) [],
       rr_pending_approval = False, rr_pending_approval_summary = [], rr_pending_approval_details = [],
       rr_approval_history = [], rr_final = [] \<rparr>"

definition checked_run :: "service_env \<Rightarrow> pydict \<Rightarrow> (string \<times> string \<times> string \<times> string) result" where
  "checked_run e payload = (case non_empty_str (dget payload ''request'' PNone) of
       None \<Rightarrow> Inl (ValueError ''invalid_request'')
     | Some request \<Rightarrow>
         (let provided = dget payload ''run_id'' PNone; run_id = normalized_run_id provided;
              view = opt_or (non_empty_str (dget payload ''view'' PNone)) ''console'';
              out_dir = (case non_empty_str (dget payload ''trace_out_dir'' PNone) of
                  Some d \<Rightarrow> se_expand e d | None \<Rightarrow> ''artifacts/remote-api'')
          in if provided \<noteq> PNone \<and> run_id = None then Inl (ValueError ''invalid_run_id'')
             else if view \<notin> {''classic'', ''console''} then Inl (ValueError ''invalid_view'')
             else Inr (request, opt_or run_id (se_uuid e), out_dir, view)))"

text \<open>The section under the lock: the record is inserted and persisted before the process is started.\<close>

definition create_locked ::
  "service_env \<Rightarrow> string \<Rightarrow> RunRecord \<Rightarrow> environ \<Rightarrow> service \<Rightarrow> service \<times> unit result" where
  "create_locked e run_id r env s =
     (if map_of (sv_runs s) run_id \<noteq> None then (s, Inl (ValueError ''duplicate_run_id''))
      else let s1 = store_calls [UpsertRun (record_payload r)] (put_record run_id r s) in
           case se_spawn e (rr_argv r) of
             Inl x \<Rightarrow> (s1, Inl x)
           | Inr exited \<Rightarrow>
               (put_record run_id (r \<lparr> rr_process := Some (length (sv_procs s)) \<rparr>)
                  (s1 \<lparr> sv_procs := sv_procs s @ [\<lparr> pc_argv = rr_argv r, pc_env = env, pc_exit = exited, pc_terminated = False \<rparr>],
                        sv_active := sv_active s + 1 \<rparr>), Inr ()))"

definition create_run ::
  "service_env \<Rightarrow> pydict \<Rightarrow> string \<Rightarrow> string \<Rightarrow> string \<Rightarrow> service \<Rightarrow> service \<times> pydict result" where
  "create_run e payload request_id auth_subject client_ip s = (case checked_run e payload of
       Inl x \<Rightarrow> (s, Inl x)
     | Inr (request, run_id, out_dir, view) \<Rightarrow>
         (let argv = run_argv e request run_id out_dir view @ flag_args payload;
              r = new_record e run_id request argv out_dir request_id auth_subject client_ip payload;
              env = caller_env request_id auth_subject client_ip (se_environ e)
          in case create_locked e run_id r env s of
               (s1, Inl x) \<Rightarrow> (s1, Inl x)
             | (s1, Inr _) \<Rightarrow>
                 (let (s2, detail) = get_run_detail e (\<lambda>_. None) run_id s1 in
                  (s2, case detail of None \<Rightarrow> Inl (RuntimeError ''run_not_found'') | Some d \<Rightarrow> Inr d))))"

definition cancel_locked :: "service_env \<Rightarrow> string \<Rightarrow> service \<Rightarrow> service" where
  "cancel_locked e rid s =
     (let s1 = refresh (se_now e 0) rid s in
      case map_of (sv_runs s1) rid of
        None \<Rightarrow> s1
      | Some r \<Rightarrow> if rr_finished_at r = None \<and> \<not> rr_cancel_requested r
                  then put_record rid (r \<lparr> rr_cancel_requested := True, rr_status := ''cancelling'' \<rparr>) s1 else s1)"

definition terminate :: "string \<Rightarrow> service \<Rightarrow> service" where
  "terminate rid s = (case map_of (sv_runs s) rid of
       Some r \<Rightarrow> (case rr_process r of
           Some pid \<Rightarrow> if pid < length (sv_procs s) \<and> pc_exit (sv_procs s ! pid) = None
                      then s \<lparr> sv_procs := (sv_procs s)[pid := (sv_procs s ! pid) \<lparr> pc_terminated := True \<rparr>] \<rparr> else s
         | None \<Rightarrow> s)
     | None \<Rightarrow> s)"

definition cancel_run :: "service_env \<Rightarrow> string \<Rightarrow> service \<Rightarrow> service \<times> pydict option" where
  "cancel_run e run_id s = (case normalized_run_id (PStr run_id) of
       None \<Rightarrow> (s, None)
     | Some rid \<Rightarrow>
         (let s0 = refresh (se_now e 0) rid s; s1 = cancel_locked e rid s in
          case map_of (sv_runs s0) rid of
            None \<Rightarrow> (s1, None)
          | Some r \<Rightarrow>
              if rr_finished_at r \<noteq> None then (s1, Some (record_payload r))
              else get_run_detail e (\<lambda>_. None) rid (if rr_cancel_requested r then s1 else terminate rid s1)))"

section \<open>Approving and rejecting\<close>

definition decision_entry :: "string \<Rightarrow> string \<Rightarrow> string \<Rightarrow> string \<Rightarrow> string \<Rightarrow> pydict" where
  "decision_entry decision actor rationale challenge_id ts =
     [(''decision'', PStr decision), (''actor'', PStr actor), (''rationale'', PStr rationale), (''challenge_id'', PStr challenge_id), (''ts'', PStr ts)]"

definition actor_of :: "pydict \<Rightarrow> string \<Rightarrow> string" where
  "actor_of payload auth_subject = opt_or (non_empty_str (dget payload ''actor'' PNone)) (or_str auth_subject ''operator'')"

definition checked_approval :: "pydict \<Rightarrow> RunRecord \<Rightarrow> string result" where
  "checked_approval payload r =
     (if \<not> rr_pending_approval r then Inl (ValueError ''approval_not_pending'')
      else case non_empty_str (dget (rr_pending_approval_details r) ''challenge_id'' PNone) of
          None \<Rightarrow> Inl (ValueError ''approval_challenge_missing'')
        | Some challenge_id \<Rightarrow>
            if (case non_empty_str (dget payload ''challenge_id'' PNone) of Some c \<Rightarrow> c \<noteq> challenge_id | None \<Rightarrow> False)
            then Inl (ValueError ''challenge_id_mismatch'')
            else if rr_thread_id r = [] \<or> rr_checkpoint_id r = [] then Inl (ValueError ''resume_checkpoint_missing'')
            else Inr challenge_id)"

definition approvals_payload :: "service_env \<Rightarrow> RunRecord \<Rightarrow> string \<Rightarrow> pydict" where
  "approvals_payload e r challenge_id =
     (let operation_class = opt_or (non_empty_str (dget (rr_pending_approval_details r) ''operation_class'' PNone)) ''apply_patch'';
          tool_name = tool_name_for_approval operation_class challenge_id;
          token = PDict [(''challenge_id'', PStr challenge_id),
                         (''token'', PStr (approval_token_for_challenge (se_secret e) (se_iat e) (se_nonce e) challenge_id))]
      in [(tool_name, token), (''mutations'', PDict [(tool_name, token)])])"

definition resume_env :: "service_env \<Rightarrow> RunRecord \<Rightarrow> string \<Rightarrow> pydict list \<Rightarrow> pydict \<Rightarrow> environ" where
  "resume_env e r tmp history entry =
     (caller_env (rr_request_id r) (rr_auth_subject r) (rr_client_ip r) (se_environ e))
       (''LG_RESUME_APPROVALS_FILE'' \<mapsto> tmp,
        ''LG_APPROVAL_CONTEXT_JSON'' \<mapsto> json_dumps False '', '' '': ''
           (PDict [(''pending'', PBool False), (''history'', dict_list history), (''last_decision'', PDict entry)]))"

definition resumed :: "service_env \<Rightarrow> string list \<Rightarrow> nat \<Rightarrow> pydict list \<Rightarrow> string \<Rightarrow> RunRecord \<Rightarrow> RunRecord" where
  "resumed e argv pid history actor r =
     r \<lparr> rr_argv := argv, rr_process := Some pid, rr_started_at := se_now e 2, rr_finished_at := None, rr_exit_code := None,
         rr_status := ''running'', rr_pending_approval := False, rr_pending_approval_summary := [], rr_pending_approval_details := [],
         rr_approval_history := history, rr_logs := rr_logs r @ [''[approval] approved by '' @ actor] \<rparr>"

text \<open>The section of an approval under the lock; it yields the payload to persist, the history and the new entry.\<close>

definition approve_locked ::
  "service_env \<Rightarrow> string \<Rightarrow> pydict \<Rightarrow> string \<Rightarrow> service \<Rightarrow> service \<times> (string \<times> pydict \<times> pydict list \<times> pydict) option result" where
  "approve_locked e rid payload auth_subject s =
     (let s1 = refresh (se_now e 0) rid s in
      case map_of (sv_runs s1) rid of
        None \<Rightarrow> (s1, Inr None)
      | Some r \<Rightarrow> (case checked_approval payload r of
            Inl x \<Rightarrow> (s1, Inl x)
          | Inr challenge_id \<Rightarrow>
              (let actor = actor_of payload auth_subject;
                   entry = decision_entry ''approved'' actor (opt_or (non_empty_str (dget payload ''rationale'' PNone)) []) challenge_id (se_now e 1);
                   history = rr_approval_history r @ [entry]
               in case se_tmp e of
                    Inl x \<Rightarrow> (s1, Inl x)
                  | Inr tmp \<Rightarrow>
                      (let s2 = s1 \<lparr> sv_files := (sv_files s1)(tmp \<mapsto> json_dumps False '', '' '': '' (PDict (approvals_payload e r challenge_id))) \<rparr>;
                           argv = resume_argv r; pid = length (sv_procs s2)
                       in case se_spawn e argv of
                            Inl x \<Rightarrow> (s2, Inl x)
                          | Inr exited \<Rightarrow>
                              (let s3 = put_record rid (resumed e argv pid history actor r)
                                     (s2 \<lparr> sv_procs := sv_procs s2 @ [\<lparr> pc_argv = argv, pc_env = resume_env e r tmp history entry,
                                                                        pc_exit = exited, pc_terminated = False \<rparr>] \<rparr>);
                                   s4 = refresh (se_now e 3) rid s3
                               in (s4, Inr (map_option (\<lambda>r'. (rr_trace_path r', record_payload r', history, entry)) (map_of (sv_runs s4) rid))))))))"

definition record_decision ::
  "service_env \<Rightarrow> string \<times> pydict \<times> pydict list \<times> pydict \<Rightarrow> service \<Rightarrow> service" where
  "record_decision e d s = (case d of (path, payload_out, history, entry) \<Rightarrow>
     store_calls [UpsertRun payload_out]
       (s \<lparr> sv_files := write_trace_approval_state e path False [] history (Some entry) (sv_files s) \<rparr>))"

definition approve_run ::
  "service_env \<Rightarrow> string \<Rightarrow> pydict \<Rightarrow> string \<Rightarrow> service \<Rightarrow> service \<times> pydict option result" where
  "approve_run e run_id payload auth_subject s = (case normalized_run_id (PStr run_id) of
       None \<Rightarrow> (s, Inr None)
     | Some rid \<Rightarrow> (case approve_locked e rid payload auth_subject s of
           (s1, Inl x) \<Rightarrow> (s1, Inl x)
         | (s1, Inr None) \<Rightarrow> (s1, Inr None)
         | (s1, Inr (Some d)) \<Rightarrow>
             (let (s2, detail) = get_run_detail e (\<lambda>_. None) rid (record_decision e d s1) in
              (s2, case detail of None \<Rightarrow> Inl (RuntimeError ''run_not_found'') | Some p \<Rightarrow> Inr (Some p)))))"

definition rejected :: "service_env \<Rightarrow> pydict list \<Rightarrow> string \<Rightarrow> RunRecord \<Rightarrow> RunRecord" where
  "rejected e history actor r =
     r \<lparr> rr_pending_approval := False, rr_pending_approval_summary := [], rr_pending_approval_details := [],
         rr_approval_history := history, rr_finished_at := Some (se_now e 2), rr_exit_code := Some 1, rr_status := ''rejected'',
         rr_logs := rr_logs r @ [''[approval] rejected by '' @ actor] \<rparr>"

definition reject_locked ::
  "service_env \<Rightarrow> string \<Rightarrow> pydict \<Rightarrow> string \<Rightarrow> service \<Rightarrow> service \<times> (string \<times> pydict \<times> pydict list \<times> pydict) option result" where
  "reject_locked e rid payload auth_subject s =
     (let s1 = refresh (se_now e 0) rid s in
      case map_of (sv_runs s1) rid of
        None \<Rightarrow> (s1, Inr None)
      | Some r \<Rightarrow>
          if \<not> rr_pending_approval r then (s1, Inl (ValueError ''approval_not_pending''))
          else let actor = actor_of payload auth_subject;
                   challenge_id = opt_or (non_empty_str (dget (rr_pending_approval_details r) ''challenge_id'' PNone)) [];
                   entry = decision_entry ''rejected'' actor (opt_or (non_empty_str (dget payload ''rationale'' PNone)) []) challenge_id (se_now e 1);
                   history = rr_approval_history r @ [entry];
                   r' = rejected e history actor r
               in (put_record rid r' s1, Inr (Some (rr_trace_path r, record_payload r', history, entry))))"

definition reject_run ::
  "service_env \<Rightarrow> string \<Rightarrow> pydict \<Rightarrow> string \<Rightarrow> service \<Rightarrow> service \<times> pydict option result" where
  "reject_run e run_id payload auth_subject s = (case normalized_run_id (PStr run_id) of
       None \<Rightarrow> (s, Inr None)
     | Some rid \<Rightarrow> (case reject_locked e rid payload auth_subject s of
           (s1, Inl x) \<Rightarrow> (s1, Inl x)
         | (s1, Inr None) \<Rightarrow> (s1, Inr None)
         | (s1, Inr (Some d)) \<Rightarrow>
             (let (s2, detail) = get_run_detail e (\<lambda>_. None) rid (record_decision e d s1) in (s2, Inr detail))))"

text \<open>
  A vote decides a pending run. Of the exceptions of the decision only \<open>ValueError\<close> and \<open>RuntimeError\<close> are dropped.
\<close>

definition suppressed :: "service \<times> pydict option result \<Rightarrow> service \<times> unit result" where
  "suppressed sr = (case sr of
       (s, Inr _) \<Rightarrow> (s, Inr ())
     | (s, Inl (ValueError _)) \<Rightarrow> (s, Inr ())
     | (s, Inl (RuntimeError _)) \<Rightarrow> (s, Inr ())
     | (s, Inl x) \<Rightarrow> (s, Inl x))"

definition service_vote ::
  "service_env \<Rightarrow> rat \<Rightarrow> rat \<Rightarrow> rat \<Rightarrow> string \<Rightarrow> string \<Rightarrow> string option \<Rightarrow> string \<Rightarrow> string \<Rightarrow> service \<Rightarrow> service \<times> (string \<times> nat) result" where
  "service_vote e t1 t2 t3 run_id reviewer role action comment s =
     (case cast_vote t1 t2 t3 run_id reviewer role action comment (sv_decisions s) of
        Inl x \<Rightarrow> (s, Inl x)
      | Inr (ds, new_status, votes_cast) \<Rightarrow>
          (let s1 = s \<lparr> sv_decisions := ds \<rparr>;
               pending = (case map_of (sv_runs s) run_id of Some r \<Rightarrow> rr_pending_approval r | None \<Rightarrow> False);
               payload = [(''actor'', PStr reviewer), (''rationale'', PStr comment)];
               (s2, done) = (case vote_follow_up pending new_status of
                   ApproveRun \<Rightarrow> suppressed (approve_run e run_id payload [] s1)
                 | RejectRun \<Rightarrow> suppressed (reject_run e run_id payload [] s1)
                 | NoFollowUp \<Rightarrow> (s1, Inr ()))
           in (s2, bind_r done (\<lambda>_. Inr (new_status, votes_cast)))))"

section \<open>The threads that read the output of a process\<close>

definition append_log :: "string \<Rightarrow> string \<Rightarrow> service \<Rightarrow> service" where
  "append_log run_id line s = (case map_of (sv_runs s) run_id of
       None \<Rightarrow> s
     | Some r \<Rightarrow> put_record run_id (r \<lparr> rr_logs := rr_logs r @ [line] \<rparr>) s)"

text \<open>The first section of \<open>_mark_finished\<close>; \<open>None\<close> when it returns at once.\<close>

definition mark_finished_first :: "service_env \<Rightarrow> string \<Rightarrow> int \<Rightarrow> service \<Rightarrow> service option" where
  "mark_finished_first e run_id exit_code s = (case map_of (sv_runs s) run_id of
       None \<Rightarrow> None
     | Some r \<Rightarrow> if rr_finished_at r \<noteq> None then None
                 else Some ((put_record run_id (finish (se_now e 0) exit_code r) s) \<lparr> sv_active := sv_active s - 1 \<rparr>))"

definition trace_state :: "pydict \<Rightarrow> pyval" where
  "trace_state trace = dget trace ''state'' (PDict trace)"

definition trace_facts :: "pydict \<Rightarrow> pyval list" where
  "trace_facts trace = (case trace_state trace of PDict st \<Rightarrow> as_list (dget st ''facts'' (PList [])) | _ \<Rightarrow> [])"

definition knowledge_calls :: "service_env \<Rightarrow> string \<Rightarrow> pydict option \<Rightarrow> string \<Rightarrow> store_call list" where
  "knowledge_calls e run_id trace request = (case trace of
       None \<Rightarrow> []
     | Some t \<Rightarrow>
         (let facts = trace_facts t; memories = UpsertMemories run_id (semantic_memories_from_trace trace request) in
          if facts = [] then [memories]
          else UpsertFacts run_id facts # (if se_accepts e (UpsertFacts run_id facts) then [memories] else [])))"

definition procedure_of_trace :: "service_env \<Rightarrow> string option \<Rightarrow> pydict \<Rightarrow> string \<Rightarrow> (procedure_table \<Rightarrow> procedure_table) result" where
  "procedure_of_trace e finished_at trace request =
     bind_r (dict_method (trace_state trace) ''get'') (\<lambda>st.
       let plan = as_dict (dget st ''plan'' (PDict [])); steps = dget plan ''steps'' (PList []);
           verification = as_list (dget plan ''verification'' (PList [])); req = strip (gets st ''request'' request)
       in bind_r (dict_method (dget st ''route'' (PDict [])) ''get'') (\<lambda>route.
            let task_class = or_str (strip (gets route ''task_class'' [])) ''analysis''
            in if as_list steps = [] then Inr id
               else bind_r (canonical_procedure_name (as_list steps)) (\<lambda>name.
                      Inr (\<lambda>rows. snd (store_procedure name req task_class (as_list steps) verification
                                         (or_str (opt_or finished_at []) (se_now e 1)) rows)))))"

definition cache_procedure :: "service_env \<Rightarrow> string \<Rightarrow> string \<Rightarrow> string \<Rightarrow> service \<Rightarrow> service" where
  "cache_procedure e run_id path request s = (case (sv_cache s, load_trace (sv_files s) path) of
       (Some rows, Some trace) \<Rightarrow>
         (let finished_at = (case map_of (sv_runs s) run_id of Some r \<Rightarrow> rr_finished_at r | None \<Rightarrow> None) in
          case procedure_of_trace e finished_at trace request of
            Inl _ \<Rightarrow> s
          | Inr f \<Rightarrow> s \<lparr> sv_cache := Some (f rows) \<rparr>)
     | _ \<Rightarrow> s)"

text \<open>The second section: the approval that the trace asks for, the store, and the cache of procedures.\<close>

definition mark_finished_second :: "service_env \<Rightarrow> string \<Rightarrow> int \<Rightarrow> service \<Rightarrow> service" where
  "mark_finished_second e run_id exit_code s = (case map_of (sv_runs s) run_id of
       None \<Rightarrow> s
     | Some r \<Rightarrow>
         (let trace = load_trace (sv_files s) (rr_trace_path r);
              r' = apply_approval_state_to_record (approval_state_from_trace trace) r;
              s1 = store_calls (UpsertRun (record_payload r') # knowledge_calls e run_id trace (rr_request r)) (put_record run_id r' s);
              s2 = (if rr_pending_approval r'
                    then s1 \<lparr> sv_files := write_trace_approval_state e (rr_trace_path r) True (rr_pending_approval_details r')
                                (rr_approval_history r') (if rr_approval_history r' = [] then None else Some (last (rr_approval_history r'))) (sv_files s1) \<rparr>
                    else s1)
          in if exit_code = 0 then cache_procedure e run_id (rr_trace_path r) (rr_request r) s2 else s2))"

definition mark_finished :: "service_env \<Rightarrow> string \<Rightarrow> int \<Rightarrow> service \<Rightarrow> service" where
  "mark_finished e run_id exit_code s = (case mark_finished_first e run_id exit_code s of
       None \<Rightarrow> s | Some s1 \<Rightarrow> mark_finished_second e run_id exit_code s1)"

end
