(* ===== verification/Run_Service_Props.thy ===== *)
theory Run_Service_Props
  imports Run_Service
begin

text \<open>
  The service as a transition system: requests, threads that read the output of processes, and processes that exit
  and write files interleave in any order, at the granularity of the sections under the lock. The invariant ties the
  status of a run to its times, its exit rc and its pending approval, and everything handed to the run store
  to what the store accepts. From it follow the persistence of the last status and the guard of a resumption.
\<close>

section \<open>Steps\<close>

datatype thread =
    Starting string
  | Reading string nat
  | Applying string int
  | Deciding bool string "string \<times> pydict \<times> pydict list \<times> pydict"

type_synonym system = "service \<times> thread list"

definition env_fine :: "service_env \<Rightarrow> bool" where
  "env_fine e \<longleftrightarrow> (\<forall>argv c. se_spawn e argv = Inr (Some c) \<longrightarrow> sql_int_ok c)"

inductive svc_step :: "system \<Rightarrow> system \<Rightarrow> bool" where
  create: "env_fine e \<Longrightarrow> checked_run e payload = Inr (request, rid, out_dir, view) \<Longrightarrow>
     create_locked e rid (new_record e rid request (run_argv e request rid out_dir view @ flag_args payload) out_dir q a i payload) env s = (s', res) \<Longrightarrow>
     svc_step (s, ts) (s', (if res = Inr () then [Starting rid] else []) @ ts)"
| reading: "svc_step (s, ts) (refresh now rid s, ts)"
| cancel: "svc_step (s, ts) (cancel_locked e rid s, ts)"
| terminate: "svc_step (s, ts) (terminate rid s, ts)"
| approve: "env_fine e \<Longrightarrow> approve_locked e rid payload a s = (s', res) \<Longrightarrow>
     svc_step (s, ts) (s', (case res of Inr (Some d) \<Rightarrow> [Deciding True rid d] | _ \<Rightarrow> []) @ ts)"
| reject: "reject_locked e rid payload a s = (s', res) \<Longrightarrow>
     svc_step (s, ts) (s', (case res of Inr (Some d) \<Rightarrow> [Deciding False rid d] | _ \<Rightarrow> []) @ ts)"
| decide: "svc_step (s, us @ Deciding approved rid d # vs)
     (record_decision e d s, (if approved then [Starting rid] else []) @ us @ vs)"
| policy: "svc_step (s, ts) (s \<lparr> sv_decisions := ds \<rparr>, ts)"
| start: "map_of (sv_runs s) rid = Some r \<Longrightarrow> rr_process r = Some pid \<Longrightarrow>
     svc_step (s, us @ Starting rid # vs) (s, Reading rid pid # us @ vs)"
| line: "svc_step (s, ts) (append_log rid text s, ts)"
| finish_first: "pid < length (sv_procs s) \<Longrightarrow> pc_exit (sv_procs s ! pid) = Some rc \<Longrightarrow>
     svc_step (s, us @ Reading rid pid # vs)
       (case mark_finished_first e rid rc s of None \<Rightarrow> (s, us @ vs) | Some s' \<Rightarrow> (s', Applying rid rc # us @ vs))"
| finish_second: "svc_step (s, us @ Applying rid rc # vs) (mark_finished_second e rid rc s, us @ vs)"
| proc_exit: "pid < length (sv_procs s) \<Longrightarrow> pc_exit (sv_procs s ! pid) = None \<Longrightarrow> sql_int_ok rc \<Longrightarrow>
     svc_step (s, ts) (s \<lparr> sv_procs := (sv_procs s)[pid := (sv_procs s ! pid) \<lparr> pc_exit := Some rc \<rparr>] \<rparr>, ts)"
| files: "svc_step (s, ts) (s \<lparr> sv_files := f \<rparr>, ts)"

definition fresh_service :: "bool \<Rightarrow> procedure_table option \<Rightarrow> service" where
  "fresh_service store cache = \<lparr> sv_runs = [], sv_procs = [], sv_files = Map.empty, sv_store = store, sv_calls = [],
     sv_cache = cache, sv_active = 0, sv_decisions = Map.empty \<rparr>"

definition reachable :: "system \<Rightarrow> bool" where
  "reachable x \<longleftrightarrow> (\<exists>store cache. svc_step\<^sup>*\<^sup>* (fresh_service store cache, []) x)"

section \<open>The invariant of a record\<close>

definition statuses :: "string list" where
  "statuses = [''running'', ''cancelling'', ''succeeded'', ''failed'', ''cancelled'', ''suspended'', ''rejected'']"

text \<open>
  An unfinished run is running or cancelling and has no exit rc; a pending approval means a suspended run
  that nobody cancelled; a cancelled run was asked to stop; what is shown of an approval belongs to a pending one.
\<close>

definition record_ok :: "RunRecord \<Rightarrow> bool" where
  "record_ok r \<longleftrightarrow> rr_status r \<in> set statuses \<and>
     (rr_finished_at r = None \<longleftrightarrow> rr_status r \<in> {''running'', ''cancelling''}) \<and>
     (rr_exit_code r = None \<longleftrightarrow> rr_finished_at r = None) \<and>
     (rr_pending_approval r \<longrightarrow> rr_status r = ''suspended'' \<and> \<not> rr_cancel_requested r) \<and>
     (rr_status r \<in> {''cancelling'', ''cancelled''} \<longrightarrow> rr_cancel_requested r) \<and>
     (rr_status r = ''running'' \<longrightarrow> \<not> rr_cancel_requested r) \<and>
     (\<not> rr_pending_approval r \<longrightarrow> rr_pending_approval_summary r = [] \<and> rr_pending_approval_details r = [])"

definition record_inv :: "string \<Rightarrow> RunRecord \<Rightarrow> bool" where
  "record_inv rid r \<longleftrightarrow> rr_run_id r = rid \<and> record_ok r \<and> (case rr_exit_code r of None \<Rightarrow> True | Some c \<Rightarrow> sql_int_ok c)"

lemma record_inv_pending: "record_inv rid r \<Longrightarrow> rr_finished_at r = None \<Longrightarrow> \<not> rr_pending_approval r"
  by (auto simp: record_inv_def record_ok_def)

lemma record_finish_inv:
  assumes "record_inv rid r" "rr_finished_at r = None" "sql_int_ok rc"
  shows "record_inv rid (finish now rc r)" "rr_finished_at (finish now rc r) \<noteq> None" "\<not> rr_pending_approval (finish now rc r)"
  using assms by (auto simp: record_inv_def record_ok_def finish_def statuses_def)

lemma apply_approval_fields:
  "rr_run_id (apply_approval_state_to_record st r) = rr_run_id r"
  "rr_finished_at (apply_approval_state_to_record st r) = rr_finished_at r"
  "rr_exit_code (apply_approval_state_to_record st r) = rr_exit_code r"
  "rr_cancel_requested (apply_approval_state_to_record st r) = rr_cancel_requested r"
  "rr_request (apply_approval_state_to_record st r) = rr_request r"
  by (simp_all add: apply_approval_state_to_record_def Let_def)

lemma if_True_False: "(if b then True else False) = b"
  by simp

lemma apply_approval_pending:
  "rr_pending_approval (apply_approval_state_to_record st r) \<longleftrightarrow> py_bool (dget st ''pending'' (PBool False)) \<and> \<not> rr_cancel_requested r"
  "rr_status (apply_approval_state_to_record st r) =
     (if py_bool (dget st ''pending'' (PBool False)) \<and> \<not> rr_cancel_requested r then ''suspended'' else rr_status r)"
  "rr_pending_approval_summary (apply_approval_state_to_record st r) =
     (if py_bool (dget st ''pending'' (PBool False)) \<and> \<not> rr_cancel_requested r then strip (gets st ''summary'' []) else [])"
  "rr_pending_approval_details (apply_approval_state_to_record st r) =
     (if py_bool (dget st ''pending'' (PBool False)) \<and> \<not> rr_cancel_requested r then as_dict (dget st ''details'' (PDict [])) else [])"
  by (simp_all add: apply_approval_state_to_record_def Let_def if_distrib [of rr_pending_approval] if_distrib [of rr_status]
      if_distrib [of rr_pending_approval_summary] if_distrib [of rr_pending_approval_details] if_distrib [of rr_cancel_requested]
      if_True_False cong: if_cong split del: if_split)

lemma apply_approval_status:
  "apply_approval_state_to_record st r = r' \<Longrightarrow>
     rr_pending_approval r' \<and> rr_status r' = ''suspended'' \<and> \<not> rr_cancel_requested r \<or>
     \<not> rr_pending_approval r' \<and> rr_status r' = rr_status r \<and> rr_pending_approval_summary r' = [] \<and> rr_pending_approval_details r' = []"
  using apply_approval_pending [of st r] by (auto split: if_splits)

lemma apply_approval_inv:
  assumes "record_inv rid r" "rr_finished_at r \<noteq> None" "\<not> rr_pending_approval r"
  shows "record_inv rid (apply_approval_state_to_record st r)"
proof -
  let ?r = "apply_approval_state_to_record st r"
  from assms have "rr_pending_approval ?r \<and> rr_status ?r = ''suspended'' \<and> \<not> rr_cancel_requested ?r \<or>
      \<not> rr_pending_approval ?r \<and> rr_status ?r = rr_status r \<and> rr_pending_approval_summary ?r = [] \<and> rr_pending_approval_details ?r = []"
    using apply_approval_status [of st r, OF refl] by (simp only: apply_approval_fields)
  with assms show ?thesis unfolding record_inv_def record_ok_def statuses_def
    by (elim disjE) (simp_all only: apply_approval_fields, auto)
qed

lemma final_inv: "record_inv rid (r \<lparr> rr_final := t \<rparr>) = record_inv rid r"
  by (simp add: record_inv_def record_ok_def)

lemma refresh_record_inv:
  assumes "refresh_record now files procs r = Some r'" "record_inv rid r" "\<forall>p\<in>set procs. \<forall>c. pc_exit p = Some c \<longrightarrow> sql_int_ok c"
  shows "record_inv rid r' \<and> rr_finished_at r' \<noteq> None"
proof -
  obtain rc where c: "poll procs r = Some rc" "rr_finished_at r = None"
    using assms(1) by (auto simp: refresh_record_def split: if_splits option.splits)
  then have "sql_int_ok rc" using assms(3) by (auto simp: poll_def split: option.splits if_splits)
  note f = record_finish_inv [OF assms(2) c(2) this, of now]
  have "record_inv rid (apply_approval_state_to_record st (finish now rc r))" for st
    by (intro apply_approval_inv f)
  then show ?thesis
    using assms(1) f(2) by (auto simp: refresh_record_def c Let_def final_inv apply_approval_fields split: if_splits option.splits)
qed

lemma payload_inv: "record_inv rid r \<Longrightarrow> sqlite_ok (record_payload r)"
proof -
  have f: "col_ok Text Nullable (str_opt t)" for t by (cases t) (simp_all add: str_opt_def opt_val_def)
  show "record_inv rid r \<Longrightarrow> sqlite_ok (record_payload r)"
    by (auto simp: sqlite_ok_def payload_ok_def run_columns_def record_payload_def record_inv_def dget_def f split: option.splits)
qed

section \<open>The invariant of the service\<close>

definition runs_inv :: "service \<Rightarrow> bool" where
  "runs_inv s \<longleftrightarrow> (\<forall>rid r. map_of (sv_runs s) rid = Some r \<longrightarrow> record_inv rid r) \<and>
     (\<forall>p\<in>set (sv_procs s). \<forall>c. pc_exit p = Some c \<longrightarrow> sql_int_ok c) \<and>
     (\<forall>p. UpsertRun p \<in> set (sv_calls s) \<longrightarrow> sqlite_ok p)"

definition idle :: "service \<Rightarrow> string \<Rightarrow> bool" where
  "idle s rid \<longleftrightarrow> (case map_of (sv_runs s) rid of Some r \<Rightarrow> rr_finished_at r \<noteq> None \<and> \<not> rr_pending_approval r | None \<Rightarrow> False)"

fun applying :: "thread list \<Rightarrow> string list" where
  "applying [] = []"
| "applying (Applying rid rc # ts) = rid # applying ts"
| "applying (t # ts) = applying ts"

lemma applying_append: "applying (us @ vs) = applying us @ applying vs"
  by (induction us rule: applying.induct) auto

definition threads_inv :: "service \<Rightarrow> thread list \<Rightarrow> bool" where
  "threads_inv s ts \<longleftrightarrow> distinct (applying ts) \<and> (\<forall>rid\<in>set (applying ts). idle s rid) \<and>
     (\<forall>b rid d. Deciding b rid d \<in> set ts \<longrightarrow> sqlite_ok (fst (snd d)))"

text \<open>Every section keeps the invariant, and leaves the runs alone that a thread is about to settle.\<close>

definition keeps :: "(service \<Rightarrow> service) \<Rightarrow> bool" where
  "keeps f \<longleftrightarrow> (\<forall>s. runs_inv s \<longrightarrow> runs_inv (f s) \<and> (\<forall>rid. idle s rid \<longrightarrow> idle (f s) rid))"

lemma put_record_inv: "runs_inv s \<Longrightarrow> record_inv rid r \<Longrightarrow> runs_inv (put_record rid r s)"
  by (simp add: runs_inv_def put_record_def)

lemma idle_put: "idle (put_record rid r s) k = (if k = rid then rr_finished_at r \<noteq> None \<and> \<not> rr_pending_approval r else idle s k)"
  by (simp add: idle_def put_record_def)

lemma store_calls_inv:
  "runs_inv s \<Longrightarrow> (\<And>p. UpsertRun p \<in> set cs \<Longrightarrow> sqlite_ok p) \<Longrightarrow> runs_inv (store_calls cs s)"
  by (auto simp: runs_inv_def store_calls_def)

lemma idle_store_calls [simp]: "idle (store_calls cs s) rid = idle s rid"
  by (simp add: idle_def store_calls_def)

lemma runs_invD: "runs_inv s \<Longrightarrow> map_of (sv_runs s) rid = Some r \<Longrightarrow> record_inv rid r"
  by (simp add: runs_inv_def)

lemma refresh_keeps: "keeps (refresh now rid)"
  unfolding keeps_def
proof (intro allI impI conjI)
  fix s k
  assume inv: "runs_inv s"
  show "runs_inv (refresh now rid s)"
  proof (cases "map_of (sv_runs s) rid")
    case (Some r)
    have "record_inv rid r'" if "refresh_record now (sv_files s) (sv_procs s) r = Some r'" for r'
      using refresh_record_inv [OF that runs_invD [OF inv Some]] inv by (simp add: runs_inv_def)
    then show ?thesis using inv Some
      by (auto simp: refresh_def split: option.splits intro!: store_calls_inv put_record_inv payload_inv)
  qed (simp add: refresh_def inv)
  show "idle (refresh now rid s) k" if "idle s k"
    using that by (auto simp: refresh_def refresh_record_def idle_put idle_def [of s] split: option.splits)
qed

lemma keepsD: "keeps f \<Longrightarrow> runs_inv s \<Longrightarrow> runs_inv (f s)"
  and keeps_idle: "keeps f \<Longrightarrow> runs_inv s \<Longrightarrow> idle s rid \<Longrightarrow> idle (f s) rid"
  by (auto simp: keeps_def)

lemma keeps_other:
  assumes "\<And>s. sv_runs (f s) = sv_runs s" "\<And>s. sv_procs (f s) = sv_procs s" "\<And>s. sv_calls (f s) = sv_calls s"
  shows "keeps f"
  using assms by (auto simp: keeps_def runs_inv_def idle_def)

lemma append_log_keeps: "keeps (append_log rid text)"
  unfolding keeps_def append_log_def
proof (intro allI impI conjI)
  fix s k
  assume inv: "runs_inv s"
  show "runs_inv (case map_of (sv_runs s) rid of None \<Rightarrow> s | Some r \<Rightarrow> put_record rid (r \<lparr> rr_logs := rr_logs r @ [text] \<rparr>) s)"
    using inv by (auto simp: record_inv_def record_ok_def dest: runs_invD split: option.splits intro!: put_record_inv)
  show "idle (case map_of (sv_runs s) rid of None \<Rightarrow> s | Some r \<Rightarrow> put_record rid (r \<lparr> rr_logs := rr_logs r @ [text] \<rparr>) s) k" if "idle s k"
    using that by (auto simp: idle_put idle_def [of s] split: option.splits)
qed

lemma cancel_keeps: "keeps (cancel_locked e rid)"
  unfolding keeps_def
proof (intro allI impI conjI)
  fix s k
  assume inv: "runs_inv s"
  let ?s = "refresh (se_now e 0) rid s"
  have r: "runs_inv ?s" by (rule keepsD [OF refresh_keeps inv])
  have "record_inv rid (r \<lparr> rr_cancel_requested := True, rr_status := ''cancelling'' \<rparr>)"
    if "record_inv rid r" "rr_finished_at r = None" for r
    using that by (auto simp: record_inv_def record_ok_def statuses_def)
  then show "runs_inv (cancel_locked e rid s)"
    using r by (auto simp: cancel_locked_def Let_def dest: runs_invD split: option.splits intro!: put_record_inv)
  show "idle (cancel_locked e rid s) k" if "idle s k"
    using keeps_idle [OF refresh_keeps inv that, of "se_now e 0" rid]
    by (auto simp: cancel_locked_def Let_def idle_put idle_def [of ?s] split: option.splits)
qed

lemma terminate_keeps: "keeps (terminate rid)"
  unfolding keeps_def
proof (intro allI impI conjI)
  fix s k
  assume inv: "runs_inv s"
  show "runs_inv (terminate rid s)"
    using inv by (auto simp: terminate_def runs_inv_def split: option.splits dest!: set_update_subset_insert [THEN subsetD])
  show "idle (terminate rid s) k" if "idle s k"
    using that by (auto simp: terminate_def idle_def split: option.splits)
qed

lemma runs_inv_procs:
  "runs_inv (s \<lparr> sv_procs := ps \<rparr>) \<longleftrightarrow> (\<forall>rid r. map_of (sv_runs s) rid = Some r \<longrightarrow> record_inv rid r) \<and>
     (\<forall>p\<in>set ps. \<forall>c. pc_exit p = Some c \<longrightarrow> sql_int_ok c) \<and> (\<forall>p. UpsertRun p \<in> set (sv_calls s) \<longrightarrow> sqlite_ok p)"
  by (simp add: runs_inv_def)

lemma runs_inv_files [simp]: "runs_inv (s \<lparr> sv_files := f \<rparr>) = runs_inv s"
  and runs_inv_active [simp]: "runs_inv (s \<lparr> sv_active := n \<rparr>) = runs_inv s"
  and runs_inv_cache [simp]: "runs_inv (s \<lparr> sv_cache := c \<rparr>) = runs_inv s"
  and runs_inv_decisions [simp]: "runs_inv (s \<lparr> sv_decisions := ds \<rparr>) = runs_inv s"
  by (simp_all add: runs_inv_def)

lemma idle_fields [simp]:
  "idle (s \<lparr> sv_files := f \<rparr>) k = idle s k" "idle (s \<lparr> sv_active := n \<rparr>) k = idle s k" "idle (s \<lparr> sv_cache := c \<rparr>) k = idle s k"
  "idle (s \<lparr> sv_decisions := ds \<rparr>) k = idle s k" "idle (s \<lparr> sv_procs := ps \<rparr>) k = idle s k"
  by (simp_all add: idle_def)

lemma new_record_inv: "record_inv rid (new_record e rid request argv out_dir q a i payload)"
  by (simp add: record_inv_def record_ok_def new_record_def statuses_def)

lemma process_inv: "record_inv rid (r \<lparr> rr_process := p \<rparr>) = record_inv rid r"
  by (simp add: record_inv_def record_ok_def)

lemma create_locked_inv:
  assumes "env_fine e" "record_inv rid r" "runs_inv s" "create_locked e rid r env s = (s', res)"
  shows "runs_inv s'" "idle s k \<Longrightarrow> idle s' k"
proof -
  let ?s1 = "store_calls [UpsertRun (record_payload r)] (put_record rid r s)"
  have s1: "runs_inv ?s1" using assms by (auto intro!: store_calls_inv put_record_inv payload_inv)
  show "runs_inv s'"
  proof (cases "map_of (sv_runs s) rid = None \<and> (\<exists>x. se_spawn e (rr_argv r) = Inr x)")
    case True
    then obtain x where x: "se_spawn e (rr_argv r) = Inr x" by blast
    have c: "\<forall>c. x = Some c \<longrightarrow> sql_int_ok c" using assms(1) x by (auto simp: env_fine_def)
    have p: "sv_procs ?s1 = sv_procs s" by (simp add: store_calls_def put_record_def)
    have "runs_inv (?s1 \<lparr> sv_procs := sv_procs s @ [\<lparr> pc_argv = rr_argv r, pc_env = env, pc_exit = x, pc_terminated = False \<rparr>], sv_active := sv_active s + 1 \<rparr>)"
      using s1 c p unfolding runs_inv_active runs_inv_procs by (simp add: runs_inv_def)
    then have "runs_inv (put_record rid (r \<lparr> rr_process := Some (length (sv_procs s)) \<rparr>)
        (?s1 \<lparr> sv_procs := sv_procs s @ [\<lparr> pc_argv = rr_argv r, pc_env = env, pc_exit = x, pc_terminated = False \<rparr>], sv_active := sv_active s + 1 \<rparr>))"
      using assms(2) by (intro put_record_inv) (simp_all add: process_inv)
    then show ?thesis using assms(4) True x by (auto simp: create_locked_def Let_def)
  next
    case False
    then show ?thesis using assms(3,4) s1 by (auto simp: create_locked_def Let_def split: if_splits sum.splits)
  qed
  show "idle s' k" if "idle s k"
  proof -
    have "k \<noteq> rid" if "map_of (sv_runs s) rid = None" using that \<open>idle s k\<close> by (auto simp: idle_def split: option.splits)
    then show ?thesis using that assms(4) by (auto simp: create_locked_def Let_def idle_put split: if_splits sum.splits)
  qed
qed

lemma rejected_inv: "record_inv rid r \<Longrightarrow> record_inv rid (rejected e h a r) \<and> rr_finished_at (rejected e h a r) \<noteq> None \<and> \<not> rr_pending_approval (rejected e h a r)"
  by (auto simp: record_inv_def record_ok_def rejected_def statuses_def sql_int_ok_def)

lemma reject_locked_inv:
  assumes "runs_inv s" "reject_locked e rid payload a s = (s', res)"
  shows "runs_inv s'" "idle s k \<Longrightarrow> idle s' k" "res = Inr (Some d) \<Longrightarrow> sqlite_ok (fst (snd d))"
proof -
  let ?s = "refresh (se_now e 0) rid s"
  have inv: "runs_inv ?s" by (rule keepsD [OF refresh_keeps assms(1)])
  note rej = rejected_inv [OF runs_invD [OF inv]]
  show "runs_inv s'" using assms(2) inv rej
    by (auto simp: reject_locked_def Let_def split: option.splits if_splits intro!: put_record_inv)
  show "idle s' k" if "idle s k"
    using keeps_idle [OF refresh_keeps assms(1) that, of "se_now e 0" rid] assms(2) rej
    by (auto simp: reject_locked_def Let_def idle_put split: option.splits if_splits)
  show "sqlite_ok (fst (snd d))" if "res = Inr (Some d)"
    using that assms(2) rej by (auto simp: reject_locked_def Let_def split: option.splits if_splits intro!: payload_inv [of rid])
qed

lemma resumed_inv: "record_inv rid r \<Longrightarrow> rr_pending_approval r \<Longrightarrow> record_inv rid (resumed e argv pid h a r)"
  by (auto simp: record_inv_def record_ok_def resumed_def statuses_def)

text \<open>What an approval needs: a pending run with the challenge of the request, and a checkpoint to resume from.\<close>

lemma checked_approval_ok:
  "checked_approval payload r = Inr c \<Longrightarrow> rr_pending_approval r \<and> rr_thread_id r \<noteq> [] \<and> rr_checkpoint_id r \<noteq> [] \<and>
     non_empty_str (dget (rr_pending_approval_details r) ''challenge_id'' PNone) = Some c \<and>
     non_empty_str (dget payload ''challenge_id'' PNone) \<in> {None, Some c}"
  by (auto simp: checked_approval_def split: if_splits option.splits)

text \<open>The two ways through the section of an approval.\<close>

lemma approve_locked_cases:
  assumes "approve_locked e rid payload a s = (s', res)"
  obtains (stopped) f where "s' = (refresh (se_now e 0) rid s) \<lparr> sv_files := f \<rparr>" "\<And>d. res \<noteq> Inr (Some d)"
  | (started) r c tmp x entry history s3 where
    "map_of (sv_runs (refresh (se_now e 0) rid s)) rid = Some r" "checked_approval payload r = Inr c"
    "se_tmp e = Inr tmp" "se_spawn e (resume_argv r) = Inr x"
    "entry = decision_entry ''approved'' (actor_of payload a) (opt_or (non_empty_str (dget payload ''rationale'' PNone)) []) c (se_now e 1)"
    "history = rr_approval_history r @ [entry]"
    "s3 = put_record rid (resumed e (resume_argv r) (length (sv_procs (refresh (se_now e 0) rid s))) history (actor_of payload a) r)
       ((refresh (se_now e 0) rid s) \<lparr> sv_files := (sv_files (refresh (se_now e 0) rid s))(tmp \<mapsto> json_dumps False '', '' '': '' (PDict (approvals_payload e r c))),
          sv_procs := sv_procs (refresh (se_now e 0) rid s) @
            [\<lparr> pc_argv = resume_argv r, pc_env = resume_env e r tmp history entry, pc_exit = x, pc_terminated = False \<rparr>] \<rparr>)"
    "s' = refresh (se_now e 3) rid s3"
    "res = Inr (map_option (\<lambda>r'. (rr_trace_path r', record_payload r', history, entry)) (map_of (sv_runs s') rid))"
proof -
  let ?s = "refresh (se_now e 0) rid s"
  consider "map_of (sv_runs ?s) rid = None" | r x where "map_of (sv_runs ?s) rid = Some r" "checked_approval payload r = Inl x"
    | r c x where "map_of (sv_runs ?s) rid = Some r" "checked_approval payload r = Inr c" "se_tmp e = Inl x"
    | r c t x where "map_of (sv_runs ?s) rid = Some r" "checked_approval payload r = Inr c" "se_tmp e = Inr t" "se_spawn e (resume_argv r) = Inl x"
    | r c t x where "map_of (sv_runs ?s) rid = Some r" "checked_approval payload r = Inr c" "se_tmp e = Inr t" "se_spawn e (resume_argv r) = Inr x"
    by (metis old.sum.exhaust option.exhaust)
  then show ?thesis
  proof cases
    case 1
    then show ?thesis using assms by (intro stopped [of "sv_files ?s"]) (auto simp: approve_locked_def Let_def)
  next
    case 2
    then show ?thesis using assms by (intro stopped [of "sv_files ?s"]) (auto simp: approve_locked_def Let_def)
  next
    case 3
    then show ?thesis using assms by (intro stopped [of "sv_files ?s"]) (auto simp: approve_locked_def Let_def)
  next
    case 4
    then show ?thesis using assms by (intro stopped) (auto simp: approve_locked_def Let_def)
  next
    case 5
    then show ?thesis using assms by (intro started [OF 5 refl refl refl]) (auto simp: approve_locked_def Let_def)
  qed
qed

lemma approve_locked_inv:
  assumes "env_fine e" "runs_inv s" "approve_locked e rid payload a s = (s', res)"
  shows "runs_inv s'" "idle s k \<Longrightarrow> idle s' k" "res = Inr (Some d) \<Longrightarrow> sqlite_ok (fst (snd d))"
proof -
  let ?s = "refresh (se_now e 0) rid s"
  have inv: "runs_inv ?s" by (rule keepsD [OF refresh_keeps assms(2)])
  have "runs_inv s' \<and> (idle s k \<longrightarrow> idle s' k) \<and> (res = Inr (Some d) \<longrightarrow> sqlite_ok (fst (snd d)))"
    using assms(3)
  proof (cases rule: approve_locked_cases)
    case (stopped f)
    then show ?thesis using inv keeps_idle [OF refresh_keeps assms(2)] by auto
  next
    case (started r c tmp x entry history s3)
    have r: "record_inv rid r" "rr_pending_approval r" using runs_invD [OF inv started(1)] checked_approval_ok [OF started(2)] by auto
    have x: "\<forall>c. x = Some c \<longrightarrow> sql_int_ok c" using assms(1) started(4) by (auto simp: env_fine_def)
    have "runs_inv s3" unfolding started(7)
      using inv x r by (intro put_record_inv resumed_inv) (auto simp: runs_inv_def)
    then have s': "runs_inv s'" unfolding started(8) by (rule keepsD [OF refresh_keeps])
    have "k \<noteq> rid" if "idle ?s k" using that started(1) r(2) by (auto simp: idle_def)
    then have "idle s3 k" if "idle ?s k" unfolding started(7) using that by (simp add: idle_put)
    then have "idle s' k" if "idle s k" unfolding started(8)
      using keeps_idle [OF refresh_keeps assms(2) that] keeps_idle [OF refresh_keeps \<open>runs_inv s3\<close>] by simp
    moreover have "sqlite_ok (fst (snd d))" if "res = Inr (Some d)"
      using that payload_inv [OF runs_invD [OF s']] by (auto simp: started(9))
    ultimately show ?thesis using s' by simp
  qed
  then show "runs_inv s'" "idle s k \<Longrightarrow> idle s' k" "res = Inr (Some d) \<Longrightarrow> sqlite_ok (fst (snd d))" by auto
qed

lemma record_decision_inv:
  "runs_inv s \<Longrightarrow> sqlite_ok (fst (snd d)) \<Longrightarrow> runs_inv (record_decision e d s)"
  "idle (record_decision e d s) k = idle s k"
  by (auto simp: record_decision_def split: prod.splits intro!: store_calls_inv)

lemma mark_first_inv:
  assumes "runs_inv s" "mark_finished_first e rid c s = Some s'" "sql_int_ok c"
  shows "runs_inv s'" "idle s' rid" "\<not> idle s rid" "idle s k \<Longrightarrow> idle s' k"
proof -
  obtain r where r: "map_of (sv_runs s) rid = Some r" "rr_finished_at r = None"
    "s' = (put_record rid (finish (se_now e 0) c r) s) \<lparr> sv_active := sv_active s - 1 \<rparr>"
    using assms(2) by (auto simp: mark_finished_first_def split: option.splits if_splits)
  note f = record_finish_inv [OF runs_invD [OF assms(1) r(1)] r(2) assms(3), of "se_now e 0"]
  show "runs_inv s'" unfolding r(3) using assms(1) f(1) by (simp add: put_record_inv)
  show "idle s' rid" "idle s k \<Longrightarrow> idle s' k" unfolding r(3) using f(2,3) by (simp_all add: idle_put)
  show "\<not> idle s rid" by (simp add: idle_def r)
qed

lemma cache_procedure_inv [simp]: "runs_inv (cache_procedure e rid p q s) = runs_inv s" "idle (cache_procedure e rid p q s) k = idle s k"
  by (auto simp: cache_procedure_def Let_def split: option.splits sum.splits)

lemma knowledge_calls_runs: "UpsertRun p \<notin> set (knowledge_calls e rid t q)"
  by (auto simp: knowledge_calls_def Let_def split: option.splits)

lemma mark_second_inv:
  assumes "runs_inv s" "idle s rid"
  shows "runs_inv (mark_finished_second e rid c s)" "k \<noteq> rid \<Longrightarrow> idle s k \<Longrightarrow> idle (mark_finished_second e rid c s) k"
proof -
  obtain r where r: "map_of (sv_runs s) rid = Some r" "rr_finished_at r \<noteq> None" "\<not> rr_pending_approval r"
    using assms(2) by (auto simp: idle_def split: option.splits)
  define r' where "r' = apply_approval_state_to_record (approval_state_from_trace (load_trace (sv_files s) (rr_trace_path r))) r"
  have r': "record_inv rid r'" unfolding r'_def by (rule apply_approval_inv [OF runs_invD [OF assms(1) r(1)] r(2,3)])
  have "runs_inv (store_calls (UpsertRun (record_payload r') # knowledge_calls e rid t (rr_request r)) (put_record rid r' s))" for t
    using assms(1) r' payload_inv [OF r'] knowledge_calls_runs by (auto intro!: store_calls_inv put_record_inv)
  then show "runs_inv (mark_finished_second e rid c s)"
    by (simp add: mark_finished_second_def r(1) Let_def r'_def [symmetric])
  show "k \<noteq> rid \<Longrightarrow> idle s k \<Longrightarrow> idle (mark_finished_second e rid c s) k"
    by (simp add: mark_finished_second_def r(1) Let_def idle_put)
qed

lemma threads_inv_idle: "threads_inv s ts \<Longrightarrow> (\<And>k. idle s k \<Longrightarrow> idle s' k) \<Longrightarrow> threads_inv s' ts"
  by (auto simp: threads_inv_def)

lemma threads_inv_keeps: "keeps f \<Longrightarrow> runs_inv s \<Longrightarrow> threads_inv s ts \<Longrightarrow> threads_inv (f s) ts"
  by (erule threads_inv_idle) (rule keeps_idle)

lemma threads_inv_drop: "threads_inv s (us @ t # vs) \<Longrightarrow> threads_inv s (us @ vs)"
  by (cases t) (auto simp: threads_inv_def applying_append)

lemma threads_inv_add: "threads_inv s ts \<Longrightarrow> threads_inv s (Starting rid # ts) \<and> threads_inv s (Reading rid pid # ts)"
  by (auto simp: threads_inv_def)

lemma threads_inv_decide: "threads_inv s ts \<Longrightarrow> sqlite_ok (fst (snd d)) \<Longrightarrow> threads_inv s (Deciding b rid d # ts)"
  by (auto simp: threads_inv_def)

lemma threads_inv_result:
  assumes "threads_inv s ts" "\<And>d. res = Inr (Some d) \<Longrightarrow> sqlite_ok (fst (snd d))"
  shows "threads_inv s ((case res of Inr (Some d) \<Rightarrow> [Deciding b rid d] | _ \<Rightarrow> []) @ ts)"
  using assms by (auto split: sum.splits option.splits intro: threads_inv_decide)

lemma finish_second_threads:
  assumes "threads_inv s (us @ Applying rid c # vs)"
  shows "idle s rid" "rid \<notin> set (applying (us @ vs))"
  using assms by (auto simp: threads_inv_def applying_append)

lemma threads_inv_deciding: "threads_inv s ts \<Longrightarrow> Deciding b rid d \<in> set ts \<Longrightarrow> sqlite_ok (fst (snd d))"
  unfolding threads_inv_def by blast

lemma svc_step_inv:
  assumes "svc_step x y" "runs_inv (fst x)" "threads_inv (fst x) (snd x)"
  shows "runs_inv (fst y) \<and> threads_inv (fst y) (snd y)"
  using assms
proof (induction rule: svc_step.induct)
  case (create e payload request rid out_dir view q a i env s s' res ts)
  note inv = create_locked_inv [OF create(1) new_record_inv _ create(3)]
  have "threads_inv s' ts" using create(5) inv(2) create(4) by (auto intro: threads_inv_idle)
  then show ?case using inv(1) create(4) threads_inv_add by auto
next
  case (reading s ts now rid)
  then show ?case using refresh_keeps by (simp add: keepsD threads_inv_keeps)
next
  case (cancel s ts e rid)
  then show ?case using cancel_keeps by (simp add: keepsD threads_inv_keeps)
next
  case (terminate s ts rid)
  then show ?case using terminate_keeps by (simp add: keepsD threads_inv_keeps)
next
  case (approve e rid payload a s s' res ts)
  note inv = approve_locked_inv [OF approve(1) _ approve(2)]
  have "threads_inv s' ts" using approve(3,4) inv(2) by (auto intro: threads_inv_idle)
  then show ?case using approve(3) inv(1,3) by (auto intro: threads_inv_result)
next
  case (reject e rid payload a s s' res ts)
  note inv = reject_locked_inv [OF _ reject(1)]
  have "threads_inv s' ts" using reject(2,3) inv(2) by (auto intro: threads_inv_idle)
  then show ?case using reject(2) inv(1,3) by (auto intro: threads_inv_result)
next
  case (decide s us approved rid d vs e)
  have d: "sqlite_ok (fst (snd d))" using decide(2) by (intro threads_inv_deciding [of s _ approved rid]) auto
  have "threads_inv s (us @ vs)" using decide(2) by (auto intro: threads_inv_drop)
  then have "threads_inv (record_decision e d s) (us @ vs)" by (rule threads_inv_idle) (simp add: record_decision_inv)
  then show ?case using d decide(1) record_decision_inv(1) threads_inv_add by auto
next
  case (policy s ts ds)
  then show ?case by (auto intro: threads_inv_idle)
next
  case (start s rid r pid us vs)
  then have "threads_inv s (us @ vs)" by (auto intro: threads_inv_drop)
  then show ?case using start threads_inv_add by auto
next
  case (line s ts rid l)
  then show ?case using append_log_keeps by (simp add: keepsD threads_inv_keeps)
next
  case (finish_first pid s c us rid vs e)
  have d: "threads_inv s (us @ vs)" using finish_first(4) by (auto intro: threads_inv_drop)
  have c: "sql_int_ok c" using finish_first(1-3) by (auto simp: runs_inv_def)
  show ?case
  proof (cases "mark_finished_first e rid c s")
    case None
    then show ?thesis using finish_first(3) d by simp
  next
    case (Some s')
    note inv = mark_first_inv [OF _ Some c]
    have "threads_inv s' (us @ vs)" using d inv(4) finish_first(3) by (auto intro: threads_inv_idle)
    moreover have "rid \<notin> set (applying (us @ vs))" using d inv(3) finish_first(3) by (auto simp: threads_inv_def)
    ultimately have "threads_inv s' (Applying rid c # us @ vs)"
      using inv(2) finish_first(3) by (auto simp: threads_inv_def)
    then show ?thesis using Some inv(1) finish_first(3) by simp
  qed
next
  case (finish_second s us rid c vs e)
  then have inv: "runs_inv s" and t: "threads_inv s (us @ Applying rid c # vs)" by simp_all
  note f = finish_second_threads [OF t]
  have d: "threads_inv s (us @ vs)" using t by (rule threads_inv_drop)
  have "idle (mark_finished_second e rid c s) k" if k: "k \<in> set (applying (us @ vs))" for k
  proof (rule mark_second_inv(2) [OF inv f(1)])
    show "k \<noteq> rid" using k f(2) by blast
    show "idle s k" using k d by (simp add: threads_inv_def)
  qed
  then have "threads_inv (mark_finished_second e rid c s) (us @ vs)" using d by (auto simp: threads_inv_def)
  then show ?case using mark_second_inv(1) [OF inv f(1)] by simp
next
  case (proc_exit pid s c ts)
  have "runs_inv (s \<lparr> sv_procs := (sv_procs s)[pid := (sv_procs s ! pid) \<lparr> pc_exit := Some c \<rparr>] \<rparr>)"
    using proc_exit(3,4) by (auto simp: runs_inv_def dest!: set_update_subset_insert [THEN subsetD])
  then show ?case using proc_exit(5) by (auto intro: threads_inv_idle)
next
  case (files s ts f)
  then show ?case by (auto intro: threads_inv_idle)
qed

lemma service_reachable_inv: "reachable x \<Longrightarrow> runs_inv (fst x) \<and> threads_inv (fst x) (snd x)"
proof -
  assume "reachable x"
  then obtain st ch where "svc_step\<^sup>*\<^sup>* (fresh_service st ch, []) x" by (auto simp: reachable_def)
  then show ?thesis
  proof (induction rule: rtranclp_induct)
    case base
    then show ?case by (simp add: runs_inv_def threads_inv_def fresh_service_def)
  next
    case (step y z)
    then show ?case using svc_step_inv by blast
  qed
qed

section \<open>Properties\<close>

text \<open>
  C12. In every reachable state, whatever the interleaving of requests, threads and processes, the record of a run is
  consistent: an unfinished run is running or cancelling and has no exit code, a pending approval means a suspended
  run that nobody cancelled, and a cancelled run was asked to stop.
\<close>

theorem run_records_consistent:
  assumes "reachable (s, ts)" "map_of (sv_runs s) rid = Some r"
  shows "rr_run_id r = rid \<and> record_ok r"
  using runs_invD [OF _ assms(2)] service_reachable_inv [OF assms(1)] by (simp add: record_inv_def)




text \<open>
  C13. The locked section of an approval resumes a run only when the approval is valid: when it succeeds, the run was
  pending, its challenge was the one of the request (if that named one), thread and checkpoint were known, and exactly
  one process is new, with the arguments that resume from them. Otherwise no process is started.
\<close>

theorem approval_starts_process:
  assumes "approve_locked e rid payload a s = (s', res)"
  shows "case res of
      Inr (Some d) \<Rightarrow> \<exists>r c p. map_of (sv_runs (refresh (se_now e 0) rid s)) rid = Some r \<and> rr_pending_approval r \<and>
        non_empty_str (dget (rr_pending_approval_details r) ''challenge_id'' PNone) = Some c \<and>
        non_empty_str (dget payload ''challenge_id'' PNone) \<in> {None, Some c} \<and> rr_thread_id r \<noteq> [] \<and> rr_checkpoint_id r \<noteq> [] \<and>
        sv_procs s' = sv_procs s @ [p] \<and>
        pc_argv p = drop_resume_args (rr_argv r) @ [''--resume'', ''--thread-id'', rr_thread_id r, ''--checkpoint-id'', rr_checkpoint_id r]
    | _ \<Rightarrow> sv_procs s' = sv_procs s"
proof -
  have p: "sv_procs (refresh n k x) = sv_procs x" for n k x
    by (simp add: refresh_def store_calls_def put_record_def split: option.splits)
  show ?thesis using assms
  proof (cases rule: approve_locked_cases)
    case (stopped f)
    then show ?thesis by (auto simp: p split: sum.splits option.splits)
  next
    case (started r c tmp x entry history s3)
    have "sv_procs s' = sv_procs s @ [\<lparr> pc_argv = resume_argv r, pc_env = resume_env e r tmp history entry, pc_exit = x, pc_terminated = False \<rparr>]"
      by (simp add: started(8) p started(7) put_record_def)
    moreover have "map_of (sv_runs s3) rid \<noteq> None" by (simp add: started(7) put_record_def)
    then have "map_of (sv_runs s') rid \<noteq> None"
      by (auto simp: started(8) refresh_def store_calls_def put_record_def split: option.splits)
    ultimately show ?thesis
      using started(1) checked_approval_ok [OF started(2)] by (auto simp: started(9) resume_argv_def split: option.splits)
  qed
qed

lemma non_empty_str_stripped:
  assumes "non_empty_str v = Some c"
  shows "c \<noteq> []" "\<not> is_space (hd c)" "\<not> is_space (last c)"
proof -
  obtain t where t: "c = strip t" "strip t \<noteq> []" using assms by (auto simp: non_empty_str_def split: pyval.splits if_splits)
  then show "c \<noteq> []" "\<not> is_space (hd c)" using strip_neq_hd by auto
  have "dropWhile is_space (rev (lstrip t)) \<noteq> []" using t by (auto simp: strip_def rstrip_def)
  then have "\<not> is_space (hd (dropWhile is_space (rev (lstrip t))))" by (rule hd_dropWhile)
  then show "\<not> is_space (last c)" by (simp add: t(1) strip_def rstrip_def last_rev)
qed

lemma approvals_text_read:
  "json_object (strip (json_dumps False '', '' '': '' (PDict (approvals_payload e r c)))) = Some (approvals_payload e r c)"
proof -
  let ?t = "json_dumps False '', '' '': '' (PDict (approvals_payload e r c))"
  obtain mid where m: "?t = ''{'' @ mid @ ''}''" by simp
  have "strip ?t = ?t" unfolding m by (rule strip_ends) (simp_all add: is_space_def code_def)
  moreover have "tool_name_for_approval x c \<noteq> ''mutations''" for x by (simp add: tool_name_for_approval_def Let_def)
  then have "json_plain (PDict (approvals_payload e r c))" by (simp add: approvals_payload_def Let_def)
  then have "json_loads ?t = Some (PDict (approvals_payload e r c))" by (rule json_loads_dumps [OF json_seps_default])
  moreover have "?t \<noteq> []" unfolding m by simp
  ultimately show ?thesis unfolding json_object_def by simp
qed

text \<open>
  C14. An approval reaches the executor: the process that an approval starts finds, through the file named in its
  environment, a token for the tool of the challenge, and the executor's check of the shape accepts that token unchanged.
  This needs a secret, a nonce without a dot (the generator draws hexadecimal digits), a name of the temporary file
  without outer blanks, and a challenge without a dot: the token of one with a dot would not be accepted.
\<close>

theorem approval_reaches_executor:
  assumes "approve_locked e rid payload a s = (s', Inr (Some d))" "se_tmp e = Inr tmp" "tmp \<noteq> []" "strip tmp = tmp"
    and "se_secret e \<noteq> []" "se_nonce e \<noteq> []" "CHR ''.'' \<notin> set (se_nonce e)"
    and "map_of (sv_runs (refresh (se_now e 0) rid s)) rid = Some r"
    and "non_empty_str (dget (rr_pending_approval_details r) ''challenge_id'' PNone) = Some c" "CHR ''.'' \<notin> set c"
  shows "\<exists>approvals token. resume_approvals (pc_env (last (sv_procs s'))) (sv_files s') = Some approvals \<and>
    dget approvals (tool_name_for_approval (opt_or (non_empty_str (dget (rr_pending_approval_details r) ''operation_class'' PNone)) ''apply_patch'') c) PNone
      = PDict token \<and>
    coerce_approval_token (PDict token) = Some token \<and> dget token ''challenge_id'' PNone = PStr c"
proof -
  have p: "sv_procs (refresh n k x) = sv_procs x" "sv_files (refresh n k x) = sv_files x" for n k x
    by (simp_all add: refresh_def store_calls_def put_record_def split: option.splits)
  let ?token = "[(''challenge_id'', PStr c), (''token'', PStr (approval_token_for_challenge (se_secret e) (se_iat e) (se_nonce e) c))]"
  have shape: "coerce_approval_token (PDict ?token) = Some ?token"
    using non_empty_str_stripped [OF assms(9)] by (intro generated_token_accepted assms)
  have "resume_approvals (pc_env (last (sv_procs s'))) (sv_files s') = Some (approvals_payload e r c)"
    using assms(1)
  proof (cases rule: approve_locked_cases)
    case (started r' c' tmp' x entry history s3)
    have eq: "r' = r" "c' = c" "tmp' = tmp"
      using started(1,3) checked_approval_ok [OF started(2)] assms(2,8,9) by auto
    have last: "pc_env (last (sv_procs s')) = resume_env e r tmp history entry"
      by (simp add: started(8) p started(7) put_record_def eq)
    have handed: "sv_files s' tmp = Some (json_dumps False '', '' '': '' (PDict (approvals_payload e r c)))"
      by (simp only: started(8) p started(7) put_record_def eq) simp
    have "env_text (resume_env e r tmp history entry) ''LG_RESUME_APPROVALS_FILE'' = tmp"
      using assms(4) by (simp add: env_text_def resume_env_def)
    moreover have "strip (json_dumps False '', '' '': '' (PDict (approvals_payload e r c))) \<noteq> []"
      using approvals_text_read [of e r c] by (auto simp: json_object_def)
    ultimately show ?thesis
      unfolding last resume_approvals_def Let_def using approvals_text_read [of e r c] assms(3) handed
      by (simp only: handed or_str_def if_False option.case if_not_P)
  qed blast
  moreover have "dget (approvals_payload e r c)
      (tool_name_for_approval (opt_or (non_empty_str (dget (rr_pending_approval_details r) ''operation_class'' PNone)) ''apply_patch'') c) PNone = PDict ?token"
    by (simp add: approvals_payload_def Let_def)
  ultimately show ?thesis using shape by (intro exI [of _ "approvals_payload e r c"] exI [of _ ?token]) simp
qed

lemma map_of_refresh: "map_of (sv_runs (refresh now rid s)) k = None \<longleftrightarrow> map_of (sv_runs s) k = None"
  by (auto simp: refresh_def store_calls_def put_record_def split: option.splits)

lemma approve_locked_success:
  assumes "map_of (sv_runs (refresh (se_now e 0) rid s)) rid = Some r" "checked_approval payload r = Inr c"
    "se_tmp e = Inr tmp" "se_spawn e (resume_argv r) = Inr x"
  shows "\<exists>s' d. approve_locked e rid payload a s = (s', Inr (Some d))"
proof -
  obtain s' res where l: "approve_locked e rid payload a s = (s', res)" by (meson surj_pair)
  from l show ?thesis
  proof (cases rule: approve_locked_cases)
    case (stopped f)
    have "\<exists>s' y. approve_locked e rid payload a s = (s', Inr y)" using assms by (simp add: approve_locked_def Let_def)
    then have "res = Inr None" using l stopped(2) by (metis option.exhaust prod.inject)
    then show ?thesis using l assms by (auto simp: approve_locked_def Let_def put_record_def map_of_refresh)
  next
    case (started r c tmp x entry history s3)
    have "map_of (sv_runs s') rid \<noteq> None" by (simp add: started(7,8) map_of_refresh put_record_def)
    then show ?thesis using l started(9) by auto
  qed
qed

lemma refresh_procs [simp]: "sv_procs (refresh now rid s) = sv_procs s"
  by (simp add: refresh_def store_calls_def put_record_def split: option.splits)

lemma refresh_finished: "map_of (sv_runs s) rid = Some r \<Longrightarrow> rr_finished_at r \<noteq> None \<Longrightarrow> refresh now rid s = s"
  by (simp add: refresh_def refresh_record_def)

lemma refresh_running: "map_of (sv_runs s) rid = Some r \<Longrightarrow> poll (sv_procs s) r = None \<Longrightarrow> refresh now rid s = s"
  by (simp add: refresh_def refresh_record_def)

section \<open>Two races\<close>

definition demo_svc_env :: service_env where
  "demo_svc_env = \<lparr> se_now = (\<lambda>n. ''t''), se_root = ''/r'', se_python = ''py'', se_expand = (\<lambda>p. p), se_resolve = (\<lambda>p. p), se_uuid = ''u'',
     se_environ = Map.empty, se_spawn = (\<lambda>_. Inr None), se_tmp = Inr ''/tmp/a'', se_writable = (\<lambda>_. True), se_secret = [], se_iat = 0,
     se_nonce = ''n'', se_accepts = (\<lambda>_. True) \<rparr>"

definition demo_request :: pydict where
  "demo_request = [(''request'', PStr ''fix''), (''run_id'', PStr ''a'')]"

definition demo_record :: RunRecord where
  "demo_record = new_record demo_svc_env ''a'' ''fix'' (run_argv demo_svc_env ''fix'' ''a'' ''artifacts/remote-api'' ''console'' @ flag_args demo_request)
     ''artifacts/remote-api'' [] [] [] demo_request"

definition demo_trace_dict :: pydict where
  "demo_trace_dict = [(''approval'', PDict [(''pending'', PBool True), (''pending_details'', PDict [(''challenge_id'', PStr ''c'')])]),
     (''checkpoint'', PDict [(''thread_id'', PStr ''t''), (''latest_checkpoint_id'', PStr ''k'')])]"

definition demo_trace :: string where
  "demo_trace = json_dumps False '', '' '': '' (PDict demo_trace_dict)"

definition created :: service where
  "created = fst (create_locked demo_svc_env ''a'' demo_record Map.empty (fresh_service True None))"

definition exit_process :: "nat \<Rightarrow> service \<Rightarrow> service" where
  "exit_process pid s = s \<lparr> sv_procs := (sv_procs s)[pid := (sv_procs s ! pid) \<lparr> pc_exit := Some 0 \<rparr>] \<rparr>"

definition exited :: service where
  "exited = exit_process 0 (created \<lparr> sv_files := [rr_trace_path demo_record \<mapsto> demo_trace] \<rparr>)"

lemma reach_step: "reachable x \<Longrightarrow> svc_step x y \<Longrightarrow> reachable y"
  unfolding reachable_def by (meson rtranclp.rtrancl_into_rtrancl)

lemma reachable_created: "reachable (created, [Starting ''a''])"
proof -
  have fresh: "reachable (fresh_service True None, [])" unfolding reachable_def by blast
  have "create_locked demo_svc_env ''a'' demo_record Map.empty (fresh_service True None) = (created, Inr ())"
    by (rule prod_eqI) (simp add: created_def, code_simp)
  moreover have "env_fine demo_svc_env" by (simp add: env_fine_def demo_svc_env_def)
  moreover have "checked_run demo_svc_env demo_request = Inr (''fix'', ''a'', ''artifacts/remote-api'', ''console'')" by code_simp
  ultimately have "svc_step (fresh_service True None, []) (created, (if Inr () = (Inr () :: unit result) then [Starting ''a''] else []) @ [])"
    unfolding demo_record_def by (intro svc_step.create)
  then show ?thesis using reach_step [OF fresh] by simp
qed

lemma created_state:
  "map_of (sv_runs created) ''a'' = Some (demo_record \<lparr> rr_process := Some 0 \<rparr>)"
  "sv_procs created = [\<lparr> pc_argv = rr_argv demo_record, pc_env = Map.empty, pc_exit = None, pc_terminated = False \<rparr>]"
  by (simp_all add: created_def create_locked_def fresh_service_def store_calls_def put_record_def Let_def demo_svc_env_def)

lemma exited_state:
  "map_of (sv_runs exited) ''a'' = Some (demo_record \<lparr> rr_process := Some 0 \<rparr>)"
  "sv_procs exited = [\<lparr> pc_argv = rr_argv demo_record, pc_env = Map.empty, pc_exit = Some 0, pc_terminated = False \<rparr>]"
  "sv_files exited = [rr_trace_path demo_record \<mapsto> demo_trace]"
  by (simp_all add: exited_def exit_process_def created_state)

lemma reachable_exited: "reachable (exited, [Reading ''a'' 0])"
proof -
  have "svc_step (created, [] @ Starting ''a'' # []) (created, Reading ''a'' 0 # [] @ [])"
    by (rule svc_step.start [OF created_state(1)]) simp
  then have "reachable (created, [Reading ''a'' 0])" using reach_step [OF reachable_created] by simp
  then have "reachable (created \<lparr> sv_files := [rr_trace_path demo_record \<mapsto> demo_trace] \<rparr>, [Reading ''a'' 0])"
    by (rule reach_step) (rule svc_step.files)
  then show ?thesis unfolding exited_def exit_process_def
    by (elim reach_step, intro svc_step.proc_exit) (simp_all add: sql_int_ok_def created_state)
qed

text \<open>The record once a request has seen the exit and the trace.\<close>

definition suspended :: RunRecord where
  "suspended = apply_approval_state_to_record (approval_state_from_trace (Some demo_trace_dict))
     (finish ''t'' 0 (demo_record \<lparr> rr_process := Some 0 \<rparr>))"

lemma suspended_facts:
  "rr_finished_at suspended = Some ''t''" "\<not> rr_cancel_requested suspended" "checked_approval [] suspended = Inr ''c''"
  by code_simp+

lemma load_demo_trace: "load_trace [p \<mapsto> demo_trace] p = Some demo_trace_dict"
proof -
  have "json_plain (PDict demo_trace_dict)" by (simp add: demo_trace_dict_def)
  then have "json_loads demo_trace = Some (PDict demo_trace_dict)"
    unfolding demo_trace_def by (rule json_loads_dumps [OF json_seps_default])
  then show ?thesis by (simp add: load_trace_def)
qed

lemma refresh_exited: "map_of (sv_runs (refresh ''t'' ''a'' exited)) ''a'' = Some suspended"
proof -
  have f: "rr_finished_at demo_record = None" "strip (gets demo_trace_dict ''final'' []) = []" by code_simp+
  have "refresh_record ''t'' (sv_files exited) (sv_procs exited) (demo_record \<lparr> rr_process := Some 0 \<rparr>) = Some suspended"
    by (simp add: refresh_record_def f poll_def exited_state load_demo_trace suspended_def Let_def)
  then show ?thesis by (simp add: refresh_def exited_state(1) store_calls_def put_record_def)
qed

lemma refresh_exited_again: "map_of (sv_runs (refresh ''t'' ''a'' (refresh ''t'' ''a'' exited))) ''a'' = Some suspended"
  using refresh_finished [OF refresh_exited] refresh_exited by (simp add: suspended_facts)

definition approved_state :: service where
  "approved_state = fst (approve_locked demo_svc_env ''a'' [] [] (refresh ''t'' ''a'' exited))"

definition approved_decision :: "string \<times> pydict \<times> pydict list \<times> pydict" where
  "approved_decision = (case snd (approve_locked demo_svc_env ''a'' [] [] (refresh ''t'' ''a'' exited)) of Inr (Some d) \<Rightarrow> d | _ \<Rightarrow> ([], [], [], []))"

lemma demo_svc_env_fields: "se_now demo_svc_env n = ''t''" "se_tmp demo_svc_env = Inr ''/tmp/a''" "se_spawn demo_svc_env argv = Inr None"
  by (simp_all add: demo_svc_env_def)

lemma approved_result:
  "approve_locked demo_svc_env ''a'' [] [] (refresh ''t'' ''a'' exited) = (approved_state, Inr (Some approved_decision))"
proof -
  have "\<exists>s' d. approve_locked demo_svc_env ''a'' [] [] (refresh ''t'' ''a'' exited) = (s', Inr (Some d))"
    by (rule approve_locked_success [of _ _ _ suspended _ "''c''" "''/tmp/a''" None])
      (simp_all add: demo_svc_env_fields refresh_exited_again suspended_facts)
  then show ?thesis unfolding approved_state_def approved_decision_def by (metis fst_conv old.sum.simps(6) option.simps(5) snd_conv)
qed

lemma resumed_fields:
  "rr_process (resumed e argv pid history actor r) = Some pid" "rr_finished_at (resumed e argv pid history actor r) = None"
  "rr_cancel_requested (resumed e argv pid history actor r) = rr_cancel_requested r"
  by (simp_all add: resumed_def)

lemma approved_record:
  "\<exists>r. map_of (sv_runs approved_state) ''a'' = Some r \<and> rr_finished_at r = None \<and> \<not> rr_cancel_requested r \<and> rr_process r = Some 1"
  "length (sv_procs approved_state) = 2" "pc_exit (sv_procs approved_state ! 0) = Some 0" "pc_exit (sv_procs approved_state ! 1) = None"
proof -
  have "(\<exists>r. map_of (sv_runs approved_state) ''a'' = Some r \<and> rr_finished_at r = None \<and> \<not> rr_cancel_requested r \<and> rr_process r = Some 1) \<and>
    length (sv_procs approved_state) = 2 \<and> pc_exit (sv_procs approved_state ! 0) = Some 0 \<and> pc_exit (sv_procs approved_state ! 1) = None"
    using approved_result
  proof (cases rule: approve_locked_cases)
    case (started r c tmp x entry history s3)
    have r: "r = suspended" "x = None" using started(1,4) by (simp_all add: demo_svc_env_fields refresh_exited_again)
    have s3: "map_of (sv_runs s3) ''a'' = Some (resumed demo_svc_env (resume_argv r) 1 history (actor_of [] []) r)"
      "length (sv_procs s3) = 2" "pc_exit (sv_procs s3 ! 0) = Some 0" "pc_exit (sv_procs s3 ! 1) = None"
      by (simp_all add: started(7) put_record_def exited_state r(2))
    have "poll (sv_procs s3) (resumed demo_svc_env (resume_argv r) 1 history (actor_of [] []) r) = None"
      using s3(2,4) by (simp add: poll_def resumed_fields)
    then have "approved_state = s3" unfolding started(8) by (intro refresh_running [OF s3(1)])
    then show ?thesis using s3 suspended_facts(2) by (simp add: resumed_fields r(1))
  qed blast
  then show "\<exists>r. map_of (sv_runs approved_state) ''a'' = Some r \<and> rr_finished_at r = None \<and> \<not> rr_cancel_requested r \<and> rr_process r = Some 1"
    "length (sv_procs approved_state) = 2" "pc_exit (sv_procs approved_state ! 0) = Some 0" "pc_exit (sv_procs approved_state ! 1) = None" by blast+
qed

lemma reachable_approved: "reachable (approved_state, [Deciding True ''a'' approved_decision, Reading ''a'' 0])"
proof -
  have "reachable (refresh ''t'' ''a'' exited, [Reading ''a'' 0])" by (rule reach_step [OF reachable_exited svc_step.reading])
  moreover have "env_fine demo_svc_env" by (simp add: env_fine_def demo_svc_env_def)
  ultimately show ?thesis using reach_step svc_step.approve [OF _ approved_result] by fastforce
qed

text \<open>
  A thread that still waits for the process of a suspended run takes the resumed run for finished: when a request
  has seen the exit first and the run was approved in between, the record says succeeded while the new process runs,
  and the outcome of the new process is never recorded.
\<close>

theorem stale_thread_finishes_resumed_run:
  "\<exists>s ts r. reachable (s, ts) \<and> map_of (sv_runs s) ''a'' = Some r \<and> rr_status r = ''succeeded'' \<and>
     rr_process r = Some 1 \<and> pc_exit (sv_procs s ! 1) = None"
proof -
  obtain r where r: "map_of (sv_runs approved_state) ''a'' = Some r" "rr_finished_at r = None" "\<not> rr_cancel_requested r" "rr_process r = Some 1"
    using approved_record(1) by blast
  let ?s = "(put_record ''a'' (finish ''t'' 0 r) approved_state) \<lparr> sv_active := sv_active approved_state - 1 \<rparr>"
  have m: "mark_finished_first demo_svc_env ''a'' 0 approved_state = Some ?s"
    by (simp add: mark_finished_first_def r demo_svc_env_fields)
  have "0 < length (sv_procs approved_state)" using approved_record(2) by simp
  from svc_step.finish_first [OF this approved_record(3), of "[Deciding True ''a'' approved_decision]" "''a''" "[]" demo_svc_env]
  have "reachable (?s, [Applying ''a'' 0, Deciding True ''a'' approved_decision])"
    using reach_step [OF reachable_approved] by (simp add: m)
  moreover have "map_of (sv_runs ?s) ''a'' = Some (finish ''t'' 0 r)" "rr_status (finish ''t'' 0 r) = ''succeeded''"
    "rr_process (finish ''t'' 0 r) = Some 1" "pc_exit (sv_procs ?s ! 1) = None"
    using r approved_record(4) by (simp_all add: put_record_def finish_def)
  ultimately show ?thesis by blast
qed

theorem run_records_consistent_witness:
  "rr_run_id (the (map_of (sv_runs approved_state) ''a'')) = ''a'' \<and> record_ok (the (map_of (sv_runs approved_state) ''a''))"
proof (rule run_records_consistent [OF reachable_approved])
  show "map_of (sv_runs approved_state) ''a'' = Some (the (map_of (sv_runs approved_state) ''a''))" using approved_record(1) by auto
qed


theorem approval_starts_process_witness:
  "case Inr (Some approved_decision) :: (string \<times> pydict \<times> pydict list \<times> pydict) option result of
      Inr (Some d) \<Rightarrow> \<exists>r c p. map_of (sv_runs (refresh (se_now demo_svc_env 0) ''a'' (refresh ''t'' ''a'' exited))) ''a'' = Some r \<and> rr_pending_approval r \<and>
        non_empty_str (dget (rr_pending_approval_details r) ''challenge_id'' PNone) = Some c \<and>
        non_empty_str (dget [] ''challenge_id'' PNone) \<in> {None, Some c} \<and> rr_thread_id r \<noteq> [] \<and> rr_checkpoint_id r \<noteq> [] \<and>
        sv_procs approved_state = sv_procs (refresh ''t'' ''a'' exited) @ [p] \<and>
        pc_argv p = drop_resume_args (rr_argv r) @ [''--resume'', ''--thread-id'', rr_thread_id r, ''--checkpoint-id'', rr_checkpoint_id r]
    | _ \<Rightarrow> sv_procs approved_state = sv_procs (refresh ''t'' ''a'' exited)"
  by (rule approval_starts_process [OF approved_result])

text \<open>The same demonstration with a secret: the approval section does not evaluate the token.\<close>

definition secret_env :: service_env where
  "secret_env = demo_svc_env \<lparr> se_secret := ''k'' \<rparr>"

theorem approval_reaches_executor_witness:
  "\<exists>(s' :: service) r. map_of (sv_runs (refresh ''t'' ''a'' (refresh ''t'' ''a'' exited))) ''a'' = Some r \<and>
    (\<exists>approvals token. resume_approvals (pc_env (last (sv_procs s'))) (sv_files s') = Some approvals \<and>
    dget approvals (tool_name_for_approval (opt_or (non_empty_str (dget (rr_pending_approval_details r) ''operation_class'' PNone)) ''apply_patch'') ''c'') PNone
      = PDict token \<and>
    coerce_approval_token (PDict token) = Some token \<and> dget token ''challenge_id'' PNone = PStr ''c'')"
proof -
  note r = refresh_exited_again suspended_facts(3)
  have e: "se_now secret_env 0 = ''t''" "se_tmp secret_env = Inr ''/tmp/a''" "se_spawn secret_env v = Inr None" "se_secret secret_env \<noteq> []"
    "se_nonce secret_env = ''n''" for v by (simp_all add: secret_env_def demo_svc_env_def)
  have "\<exists>s' d. approve_locked secret_env ''a'' [] [] (refresh ''t'' ''a'' exited) = (s', Inr (Some d))"
    by (rule approve_locked_success [of _ _ _ suspended _ "''c''" "''/tmp/a''" None]) (simp_all add: r e)
  then obtain s' d where a: "approve_locked secret_env ''a'' [] [] (refresh ''t'' ''a'' exited) = (s', Inr (Some d))" by blast
  have path: "''/tmp/a'' \<noteq> []" "strip ''/tmp/a'' = ''/tmp/a''" by (simp, code_simp)
  have nonce: "se_nonce secret_env \<noteq> []" "CHR ''.'' \<notin> set (se_nonce secret_env)" using e(5) by simp_all
  have run: "map_of (sv_runs (refresh (se_now secret_env 0) ''a'' (refresh ''t'' ''a'' exited))) ''a'' = Some suspended" using r(1) e(1) by simp
  have challenge: "non_empty_str (dget (rr_pending_approval_details suspended) ''challenge_id'' PNone) = Some ''c''" "CHR ''.'' \<notin> set ''c''"
    using checked_approval_ok [OF r(2)] by simp_all
  show ?thesis by (rule exI [of _ s'], rule exI [of _ suspended], rule conjI [OF r(1) approval_reaches_executor [OF a e(2) path e(4) nonce run challenge]])
qed

text \<open>
  The number of active runs is counted down whenever a run ends, but an approval, which starts another process
  for the run, does not count it up again: a run that was suspended, resumed and has ended counts minus one.
\<close>

lemma active_refresh: "sv_active (refresh now rid s) = sv_active s"
  by (simp add: refresh_def store_calls_def put_record_def split: option.splits)

lemma active_finished: "mark_finished_first e rid c s = Some s' \<Longrightarrow> sv_active s' = sv_active s - 1"
  by (auto simp: mark_finished_first_def split: option.splits if_splits)

theorem approval_not_counted:
  assumes "approve_locked e rid payload a s = (s', res)"
  shows "sv_active s' = sv_active s"
  using assms by (cases rule: approve_locked_cases) (simp_all add: active_refresh put_record_def)

text \<open>
  A run whose process cannot be started stays in the table as running: no refresh ever ends it, and its
  identifier cannot be used again.
\<close>

theorem failed_start_stays_running:
  assumes "map_of (sv_runs s) rid = None" "se_spawn e (rr_argv r) = Inl x" "rr_process r = None"
    and "create_locked e rid r env s = (s', res)"
  shows "res = Inl x \<and> map_of (sv_runs s') rid = Some r \<and> refresh now rid s' = s' \<and>
    snd (create_locked e2 rid r2 env2 s') = Inl (ValueError ''duplicate_run_id'')"
proof -
  have s': "s' = store_calls [UpsertRun (record_payload r)] (put_record rid r s)" "res = Inl x"
    using assms by (auto simp: create_locked_def Let_def)
  then have "map_of (sv_runs s') rid = Some r" by (simp add: store_calls_def put_record_def)
  then show ?thesis using s'(2) assms(3) by (simp add: refresh_def refresh_record_def poll_def create_locked_def)
qed

text \<open>Resuming twice adds the flags once, and other arguments keep their order.\<close>

lemma drop_resume_append:
  "drop_resume_args (drop_resume_args xs @ [''--resume'', ''--thread-id'', t, ''--checkpoint-id'', k]) = drop_resume_args xs"
  by (induction xs rule: drop_resume_args.induct) (simp_all add: resume_flag_def value_flag_def)

theorem resume_argv_again:
  assumes "rr_thread_id r \<noteq> []" "rr_checkpoint_id r \<noteq> []"
  shows "resume_argv (r \<lparr> rr_argv := resume_argv r \<rparr>) = resume_argv r"
  using assms by (simp add: resume_argv_def drop_resume_append)

end
