(* ===== verification/Inference_Client.thy ===== *)
theory Inference_Client
  imports Model_Routing Py_Json
begin

text \<open>
  \<open>tools/inference_client.py\<close>: the circuit breaker per server, the two nested retries of a completion, the reading
  of an answer, and the streaming variants. The server is a function from the number of the request within the call
  to its outcome; the readings of the clock are arguments. Metrics and the cache of HTTP clients are left out.
\<close>

section \<open>The circuit breaker\<close>

datatype cb_state = cb_closed | cb_open | cb_half_open

record CircuitBreaker =
  cb_state :: cb_state
  cb_failures :: int
  cb_opened_at :: rat

definition cb_failure_threshold :: int where "cb_failure_threshold = 5"

definition cb_open_seconds :: rat where "cb_open_seconds = 30"

definition new_breaker :: CircuitBreaker where
  "new_breaker = \<lparr> cb_state = cb_closed, cb_failures = 0, cb_opened_at = 0 \<rparr>"

definition allow_request :: "rat \<Rightarrow> CircuitBreaker \<Rightarrow> bool \<times> CircuitBreaker" where
  "allow_request now b = (case cb_state b of
       cb_closed \<Rightarrow> (True, b)
     | cb_open \<Rightarrow> if cb_open_seconds \<le> now - cb_opened_at b then (True, b \<lparr> cb_state := cb_half_open \<rparr>) else (False, b)
     | cb_half_open \<Rightarrow> (True, b))"

definition record_success :: "CircuitBreaker \<Rightarrow> CircuitBreaker" where
  "record_success b = b \<lparr> cb_state := cb_closed, cb_failures := 0 \<rparr>"

definition record_failure :: "rat \<Rightarrow> CircuitBreaker \<Rightarrow> CircuitBreaker" where
  "record_failure now b =
     (if cb_state b = cb_half_open then b \<lparr> cb_state := cb_open, cb_opened_at := now \<rparr>
      else let b' = b \<lparr> cb_failures := cb_failures b + 1 \<rparr>
           in if cb_failure_threshold \<le> cb_failures b' then b' \<lparr> cb_state := cb_open, cb_opened_at := now \<rparr> else b')"

section \<open>Requests and answers\<close>

record ToolDefinition =
  td_name :: string
  td_description :: string
  td_parameters :: pydict

record ToolCall =
  tc_id :: string
  tc_name :: string
  tc_arguments :: pyval

record InferenceResponse =
  ir_text :: string
  ir_latency_ms :: int
  ir_provider :: string
  ir_model :: string
  ir_usage :: "pydict option"
  ir_cache_metadata :: "pydict option"
  ir_headers :: "pydict option"
  ir_tool_calls :: "ToolCall list"

definition completion_payload ::
  "string \<Rightarrow> string \<Rightarrow> string \<Rightarrow> pyval \<Rightarrow> int \<Rightarrow> ToolDefinition list option \<Rightarrow> string option \<Rightarrow> pydict" where
  "completion_payload model system_prompt user_prompt temperature max_tokens tools tool_choice =
     [(''model'', PStr model),
      (''messages'', PList [PDict [(''role'', PStr ''system''), (''content'', PStr system_prompt)],
                            PDict [(''role'', PStr ''user''), (''content'', PStr user_prompt)]]),
      (''temperature'', temperature), (''max_tokens'', PInt (max 1 max_tokens))] @
     (case tools of None \<Rightarrow> []
      | Some ts \<Rightarrow> [(''tools'', PList (map (\<lambda>t. PDict [(''type'', PStr ''function''),
            (''function'', PDict [(''name'', PStr (td_name t)), (''description'', PStr (td_description t)), (''parameters'', PDict (td_parameters t))])]) ts))]) @
     (case tool_choice of None \<Rightarrow> [] | Some c \<Rightarrow> [(''tool_choice'', PStr c)])"








datatype call_exn = TransportFailure string | StatusFailure int "(string \<times> string) list" | Raised exn


section \<open>Retries\<close>

text \<open>The inner retry: after a failure of the transport there are \<open>k\<close> more attempts. It yields the number of the next request.\<close>

fun do_transport :: "nat \<Rightarrow> (nat \<Rightarrow> call_exn + 'r) \<Rightarrow> nat \<Rightarrow> (call_exn + 'r) \<times> nat" where
  "do_transport 0 ex n = (ex n, Suc n)"
| "do_transport (Suc k) ex n = (case ex n of
       Inl (TransportFailure m) \<Rightarrow> do_transport k ex (Suc n)
     | r \<Rightarrow> (r, Suc n))"



record inference_state =
  is_breaker :: CircuitBreaker
  is_policy :: "rat SlaRoutingPolicy"



section \<open>Streams\<close>

definition chunk_token :: "pyval \<Rightarrow> string option result" where
  "chunk_token chunk = (case chunk of
       PDict c \<Rightarrow> (case map_of c ''choices'' of
           None \<Rightarrow> Inl (KeyError ''choices'')
         | Some (PList []) \<Rightarrow> Inl (OtherError ''IndexError'' ''list index out of range'')
         | Some (PList (first # _)) \<Rightarrow> (case first of
               PDict f \<Rightarrow> (case map_of f ''delta'' of
                   None \<Rightarrow> Inl (KeyError ''delta'')
                 | Some delta \<Rightarrow> bind_r (dict_method delta ''get'') (\<lambda>d.
                     Inr (case dget d ''content'' (PStr []) of PStr t \<Rightarrow> if t = [] then None else Some t | _ \<Rightarrow> None)))
             | _ \<Rightarrow> Inl (TypeError ''indices must be integers or slices, not str''))
         | Some (PDict _) \<Rightarrow> Inl (KeyError ''0'')
         | Some (PStr []) \<Rightarrow> Inl (OtherError ''IndexError'' ''string index out of range'')
         | Some _ \<Rightarrow> Inl (TypeError ''object is not subscriptable''))
     | _ \<Rightarrow> Inl (TypeError ''indices must be integers or slices, not str''))"

fun stream_tokens :: "string list \<Rightarrow> string list \<times> exn option" where
  "stream_tokens [] = ([], None)"
| "stream_tokens (line # ls) =
     (let data = drop (length ''data: '') line in
      if \<not> prefix ''data: '' line \<or> data = ''[DONE]'' then stream_tokens ls
      else case json_loads data of
          None \<Rightarrow> ([], Some (ValueError ''invalid json''))
        | Some chunk \<Rightarrow> (case chunk_token chunk of
              Inl x \<Rightarrow> ([], Some x)
            | Inr tok \<Rightarrow> (let (toks, x) = stream_tokens ls in ((case tok of Some t \<Rightarrow> [t] | None \<Rightarrow> []) @ toks, x))))"

text \<open>
  \<open>conn\<close> gives the outcome of the n-th attempt to connect: an error, or the lines of the stream and whether it breaks
  after them. \<open>secs\<close> is the duration that is recorded.
\<close>

definition chat_completion_stream ::
  "rat \<Rightarrow> rat \<Rightarrow> rat \<Rightarrow> (string \<Rightarrow> nat \<Rightarrow> call_exn + (string list \<times> exn option)) \<Rightarrow> string \<Rightarrow> inference_state
     \<Rightarrow> inference_state \<times> string list \<times> call_exn option" where
  "chat_completion_stream t0 t1 secs conn model s =
     (let effective = sla_select_model (is_policy s) model;
          (allowed, b) = allow_request t0 (is_breaker s);
          failed = s \<lparr> is_breaker := record_failure t1 b \<rparr>
      in if \<not> allowed then (s \<lparr> is_breaker := b \<rparr>, [], Some (Raised (RuntimeError ''circuit_open'')))
         else case fst (do_transport 2 (conn effective) 0) of
             Inl x \<Rightarrow> (failed, [], Some x)
           | Inr (ls, broken) \<Rightarrow> (case stream_tokens ls of
                 (toks, Some x) \<Rightarrow> (failed, toks, Some (Raised x))
               | (toks, None) \<Rightarrow> (case broken of
                     Some x \<Rightarrow> (failed, toks, Some (Raised x))
                   | None \<Rightarrow> (\<lparr> is_breaker = record_success b, is_policy = record_latency (is_policy s) effective secs \<rparr>, toks, None))))"

definition stream_sync ::
  "rat \<Rightarrow> rat \<Rightarrow> rat \<Rightarrow> int \<Rightarrow> (string \<Rightarrow> nat \<Rightarrow> call_exn + (string list \<times> exn option)) \<Rightarrow> string \<Rightarrow> inference_state
     \<Rightarrow> inference_state \<times> (call_exn + InferenceResponse)" where
  "stream_sync t0 t1 secs latency conn model s =
     (let effective = sla_select_model (is_policy s) model;
          (allowed, b) = allow_request t0 (is_breaker s)
      in if \<not> allowed then (s \<lparr> is_breaker := b \<rparr>, Inl (Raised (RuntimeError ''circuit_open'')))
         else case chat_completion_stream t0 t1 secs conn effective (s \<lparr> is_breaker := b \<rparr>) of
             (s1, toks, Some x) \<Rightarrow> (s1 \<lparr> is_breaker := record_failure t1 (is_breaker s1) \<rparr>, Inl x)
           | (s1, toks, None) \<Rightarrow>
               (\<lparr> is_breaker = record_success (is_breaker s1),
                  is_policy = record_latency (is_policy s1) effective (of_int latency / 1000) \<rparr>,
                Inr \<lparr> ir_text = concat toks, ir_latency_ms = latency, ir_provider = [], ir_model = effective, ir_usage = None,
                      ir_cache_metadata = None, ir_headers = None, ir_tool_calls = [] \<rparr>))"

section \<open>The breaker counts failures\<close>

text \<open>What happens to a breaker that is closed: failures at some times, and successes.\<close>

datatype cb_event = Failure rat | Success

fun cb_step :: "cb_event \<Rightarrow> CircuitBreaker \<Rightarrow> CircuitBreaker" where
  "cb_step (Failure t) b = record_failure t b"
| "cb_step Success b = record_success b"

text \<open>The failures since the last success, latest first.\<close>

fun recent_failures :: "cb_event list \<Rightarrow> rat list \<Rightarrow> rat list" where
  "recent_failures [] fs = fs"
| "recent_failures (Failure t # es) fs = recent_failures es (t # fs)"
| "recent_failures (Success # es) fs = recent_failures es []"

definition breaker_counts :: "rat list \<Rightarrow> CircuitBreaker \<Rightarrow> bool" where
  "breaker_counts fs b \<longleftrightarrow> cb_failures b = int (length fs) \<and>
     (if length fs < 5 then cb_state b = cb_closed else cb_state b = cb_open \<and> cb_opened_at b = hd fs)"

lemma breaker_counts_step:
  assumes "breaker_counts fs b"
  shows "breaker_counts (t # fs) (record_failure t b)" "breaker_counts [] (record_success b)"
  using assms by (auto simp: breaker_counts_def record_failure_def record_success_def cb_failure_threshold_def Let_def split: if_splits)

lemma breaker_counts_run: "breaker_counts fs b \<Longrightarrow> breaker_counts (recent_failures es fs) (fold cb_step es b)"
proof (induction es fs arbitrary: b rule: recent_failures.induct)
  case (2 t es fs)
  then show ?case using breaker_counts_step(1) by simp
next
  case (3 es fs)
  then show ?case using breaker_counts_step(2) by simp
qed simp

text \<open>
  The breaker opens after exactly five failures in a row, and not before: after any failures and successes, a
  request at a time \<open>t\<close> is refused if and only if the last five or more outcomes were failures and the latest of
  them is less than thirty seconds ago.
\<close>

theorem breaker_refuses_iff:
  "\<not> fst (allow_request t (fold cb_step es new_breaker)) \<longleftrightarrow>
     5 \<le> length (recent_failures es []) \<and> t - hd (recent_failures es []) < 30"
proof -
  have "breaker_counts [] new_breaker" by (simp add: breaker_counts_def new_breaker_def)
  from breaker_counts_run [OF this, of es] show ?thesis
    by (auto simp: breaker_counts_def allow_request_def cb_open_seconds_def split: if_splits)
qed

text \<open>An open breaker lets one probe through, whose failure opens it again for thirty seconds and whose success closes it.\<close>

theorem half_open_probe:
  assumes "cb_state b = cb_open" "30 \<le> t - cb_opened_at b"
  shows "fst (allow_request t b) \<and>
    (\<not> fst (allow_request t' (record_failure t1 (snd (allow_request t b)))) \<longleftrightarrow> t' - t1 < 30) \<and>
    fst (allow_request t' (record_success (snd (allow_request t b))))"
  using assms by (auto simp: allow_request_def record_failure_def record_success_def cb_open_seconds_def)

section \<open>Bounds of a call\<close>








text \<open>
  A failing stream is counted twice, once by the stream and once by its synchronous wrapper: three calls
  that cannot connect open the breaker that is meant to open after five.
\<close>

theorem stream_failure_counted_twice:
  assumes "cb_state (is_breaker s) = cb_closed" "\<forall>m n. isl (conn m n)"
  shows "is_breaker (fst (stream_sync t0 t1 secs latency conn model s)) = record_failure t1 (record_failure t1 (is_breaker s))"
proof -
  have f: "isl (fst (do_transport k (conn m) n))" for k m n
    using assms(2) by (induction k "conn m" n rule: do_transport.induct) (auto split: sum.splits call_exn.splits, metis sum.disc(2))
  have "allow_request t0 (is_breaker s) = (True, is_breaker s)" using assms(1) by (simp add: allow_request_def)
  then show ?thesis
    using f [of 2 "sla_select_model (is_policy s) (sla_select_model (is_policy s) model)" 0]
    by (auto simp: stream_sync_def chat_completion_stream_def Let_def isl_def split: sum.splits)
qed

end
