(* ===== verification/Spec2Isabelle.thy ===== *)
theory Spec2Isabelle
  imports Executor_Props Verifier_Props Answer_Nodes Meta_Scheduler Context_Builder Router_Remote
    Run_Command Approval_Policy Rate_Limit Audit_Trail Healing Run_Service_Props Inference_Client
begin

text \<open>
  This development models Lula (\<open>src/py/src/lg_orch\<close>), an orchestrator that turns a request into a plan,
  has tools executed by a remote runner, verifies the outcome and retries within a loop budget.

  \<^bold>\<open>Parts.\<close> A LangGraph state machine (\<open>graph.py\<close>) runs nodes on one shared dictionary: \<open>ingest\<close> resets the
  state, \<open>policy_gate\<close> grants a pass of the loop and fixes the guards, \<open>context_builder\<close>, \<open>router\<close> and
  \<open>planner\<close> prepare a plan, \<open>coder\<close> hands a step over, \<open>executor\<close> sends tool calls to the runner, \<open>verifier\<close>
  judges the results, and \<open>reporter\<close> answers. Beside the graph stand the memory that fits context into token
  budgets, model routing, the GLEAN guidelines, approval tokens and policies, the runner client, the rate limiter and the audit trail of
  the service, the healing loop, the scheduler of sub-agents (\<open>meta_graph.py\<close>), the client of MCP tool servers,
  the configuration, the command that starts a run, and the service that starts, approves and records runs.

  \<^bold>\<open>Theories.\<close>
  \<^item> \<open>Py_Prelude\<close>, \<open>Py_Text\<close>, \<open>Py_Regex\<close>, \<open>Sha256\<close>: the Python values (\<open>pyval\<close>, \<open>pydict\<close>), exceptions as the
    left side of a sum, the string, integer, JSON, fnmatch and regular expression operations that the
    sources use, and SHA-256 on 32-bit words. A dictionary is an association list in insertion order.
    \<open>Py_Json\<close>: the JSON printer and parser, with the round trip between them.
  \<^item> \<open>App_Config\<close>: \<open>config.py\<close>, the tables of the configuration file with their defaults, ranges and environment
    overlays. \<open>Run_Command\<close>: \<open>commands/run.py\<close>, the validation of a run id and the checkpoint settings of a run.
  \<^item> \<open>Policy\<close>: \<open>policy.py\<close>, \<open>trace.py\<close>, \<open>nodes/policy_gate.py\<close>, \<open>nodes/ingest.py\<close>; bounds of the loop budget,
    guards that come from the configuration alone, reset of the state.
  \<^item> \<open>Graph\<close>: \<open>graph.py\<close>; the locale \<open>loop_keeper\<close> states what every node owes to the gate (it leaves the loop
    budget alone), and a potential that each step decreases.
  \<^item> \<open>Orch_State\<close>: the messages of \<open>state.py\<close>. \<open>Model_Routing\<close>: \<open>model_routing.py\<close>. \<open>Router_Node\<close>:
    \<open>nodes/router.py\<close>. \<open>Memory\<close>, \<open>Memory_Props\<close>: \<open>memory.py\<close>; the locale \<open>best_by_key\<close> is shared by the two
    deduplications.
  \<^item> \<open>Mcp_Client\<close>: \<open>tools/mcp_client.py\<close>. \<open>Context_Builder\<close>: \<open>nodes/context_builder.py\<close>, which gathers files, tool
    catalogues, runner snapshots and stored facts and never fails on any of them. \<open>Planner_Memory\<close>, \<open>Planner_Node\<close>,
    \<open>Planner_Props\<close>: \<open>nodes/planner.py\<close> with \<open>_planner_memory.py\<close>, \<open>_planner_prompt.py\<close> and \<open>_utils.py\<close>. \<open>Router_Remote\<close>:
    the route that the language model proposes to \<open>nodes/router.py\<close>.
  \<^item> \<open>Runner_Client\<close>: \<open>tools/runner_client.py\<close>. \<open>Glean\<close>: \<open>glean.py\<close>. \<open>Approvals\<close>: \<open>api/approvals.py\<close> and the
    token check of the executor.
  \<^item> \<open>Verifier_Node\<close>, \<open>Verifier_Props\<close>: \<open>nodes/verifier.py\<close>. \<open>Executor_Node\<close>, \<open>Executor_Props\<close>:
    \<open>nodes/executor.py\<close>. \<open>Answer_Nodes\<close>: \<open>nodes/coder.py\<close> and \<open>nodes/reporter.py\<close>.
  \<^item> \<open>Meta_Graph\<close>, \<open>Meta_Scheduler\<close>: \<open>meta_graph.py\<close>; the graph with its cycle check, and the asynchronous
    scheduler as a step relation over all interleavings.
  \<^item> \<open>Approval_Policy\<close>: \<open>approval_policy.py\<close> and the votes of \<open>api/service.py\<close>; a rejection is
    final, an approval is not. \<open>Rate_Limit\<close>: \<open>rate_limit.py\<close>; the rate bound of a bucket; the limiter answers like one
    bucket per client as long as requests are not interrupted by a cleanup and no cleanup is too early. \<open>Audit_Trail\<close>: \<open>audit.py\<close>; the log file determines the events. \<open>Healing\<close>: \<open>healing_loop.py\<close>;
    the command allowlist, the reading of test reports and the queue of jobs.
  \<^item> \<open>Procedure_Cache\<close>: \<open>procedure_cache.py\<close>. \<open>Run_Store\<close>, \<open>Run_Store_Props\<close>: \<open>run_store.py\<close>; the locale
    \<open>run_store_contract\<close> states what the service relies on, and both the SQLite and the Redis store provide it (texts, exit code and approval flag read as written).
    \<open>Run_Service\<close>, \<open>Run_Service_Props\<close>: the life cycle of runs in \<open>api/service.py\<close> as sections under its lock, and a
    step relation that interleaves them with the reader threads and the processes; the invariant of the records, the
    guard of a resumption, and the way of an approval from the service to the executor's check.
    \<open>Inference_Client\<close>: \<open>tools/inference_client.py\<close>; the circuit breaker and the bounds of the nested retries.
  \<^item> This theory composes the nodes into the orchestrator and proves what spans them: every run ends, the
    executor runs at most as often as the loop limit allows, a run that ends has answered and was settled,
    the gate configures the executor, a failed tool call is never reported as success, and a run that is started
    from a configuration file executes at most as often as the table of budgets in that file allows.

  \<^bold>\<open>State and operations.\<close> A node is a function from the state to a result; an exception that Python would
  raise is \<open>Inl\<close>. The clock gives the reading for the n-th trace event, the runner the answers for the n-th
  event, so that both may change over time. Definitions bear the names of the Python functions, without a
  leading underscore; parts of a long function have names of their own.

  \<^bold>\<open>Bounds and fuel.\<close> \<open>graph_run\<close> takes fuel; \<open>orchestrate_terminates\<close> shows that \<open>7 n + 3\<close> is enough for a loop
  limit of \<open>n\<close> (seven nodes per pass, the entry, and the two final nodes). The host may stop a run earlier:
  LangGraph's own limit on the number of steps is not modelled. All other recursion is total. The
  cycle check recurses on a worklist with a measure, the regular expressions on the expression.

  \<^bold>\<open>Parameters.\<close> Code outside the repository enters as an argument with its documented laws as hypotheses:
  pydantic's integer adapter (\<open>non_neg_adapter\<close>), LangGraph's update rule (\<open>channel_update\<close>), pydantic's validation
  of a plan and of a route, HTTP, the language model client, JSON schema validation, the TOML parser, the file
  system, the start of processes, the Redis client, the clock and random identifiers. The stores that the context builder asks for cached procedures, episodes
  and semantic hits are arguments that may answer anything or raise.

  \<^bold>\<open>Not modelled.\<close> The checkpoint backends and the long-term memory (SQL, network protocols and embeddings), the
  HTTP routing and event streams of the service, its authentication by a JWT library, the rest of the command line,
  the evaluation harness and the Rust runner. Logging and metrics have no effect on the state and are left out, as
  are floating point weights, which enter as decimals, and the constructor failure of the HTTP client. Where Python
  converts an integer to a float (\<open>float(score)\<close> in \<open>memory.py\<close>) the integer is kept, so that integers above \<open>2 ^ 53\<close>
  are compared exactly. Uploads of the audit sinks that fail lose their batch; the model ends with the batch that is
  handed to the client. A bucket of the rate limiter that is removed between its lookup and its own lock is not modelled.
\<close>

section \<open>The orchestrator as a whole\<close>

text \<open>
  What the graph needs from outside: the pydantic models, the clock, LangGraph's rule for the update of the
  state, the tool runner, the MCP servers, the file system and the stores, the language model, and the
  reflections that earlier runs of the process left. What may answer differently on every call is
  indexed by the length of the trace.
\<close>

record orch_env =
  e_validate :: int_adapter
  e_now :: clock
  e_upd :: "pydict \<Rightarrow> pydict \<Rightarrow> pydict"
  e_uuid :: string
  e_plan :: "nat \<Rightarrow> plan_env"
  e_validate_route :: "pydict \<Rightarrow> RouterDecision result"
  e_pool :: "nat \<Rightarrow> SharedReflectionPool"
  e_fs :: "nat \<Rightarrow> file_system"
  e_post :: "nat \<Rightarrow> http_post"
  e_stores :: "nat \<Rightarrow> context_stores"
  e_runner :: "nat \<Rightarrow> tool_runner"
  e_gen_token :: "string \<Rightarrow> string"
  e_schema_ok :: "pydict \<Rightarrow> bool"
  e_glean_flag :: "string option"
  e_default_url :: string
  e_getenv :: environment
  e_stream :: llm_stream
  e_chat :: llm_chat

fun node_impl :: "orch_env \<Rightarrow> gnode \<Rightarrow> node_fn" where
  "node_impl e Ingest = ingest (e_uuid e) (e_now e)"
| "node_impl e PolicyGate = policy_gate (e_validate e) (e_now e)"
| "node_impl e ContextBuilder = (\<lambda>s. context_builder (e_fs e (trace_len s)) (e_post e (trace_len s)) (e_stores e (trace_len s)) (e_now e) s)"
| "node_impl e Router = (\<lambda>s. router (router_remote (e_plan e (trace_len s)) (e_validate_route e)) (e_now e) s)"
| "node_impl e Planner = (\<lambda>s. planner_fn (e_plan e (trace_len s)) (e_now e) (e_pool e) s)"
| "node_impl e Coder = coder (e_getenv e) (e_stream e) (e_chat e) (e_now e)"
| "node_impl e Executor = executor (e_glean_flag e) (e_default_url e) (e_runner e) (e_gen_token e) (e_now e)"
| "node_impl e Verifier = (\<lambda>s. verifier (e_runner e (trace_len s)) (e_schema_ok e) (e_now e) s)"
| "node_impl e Reporter = reporter (e_getenv e) (e_stream e) (e_chat e) (e_now e)"
| "node_impl e END = Inr"

text \<open>A run of the compiled graph on an initial state, with a bound on the number of steps.\<close>

definition orchestrate :: "orch_env \<Rightarrow> nat \<Rightarrow> pydict \<Rightarrow> (pydict result) option" where
  "orchestrate e fuel raw = graph_run (node_impl e) (e_upd e) fuel (Ingest, raw)"

definition nodes_visited :: "orch_env \<Rightarrow> nat \<Rightarrow> pydict \<Rightarrow> gnode list" where
  "nodes_visited e fuel raw = graph_path (node_impl e) (e_upd e) fuel (Ingest, raw)"

text \<open>
  The documented behaviour that the theorems rely on: the adapter accepts the non-negative integers, and the
  update rule overwrites the declared keys. Nothing is assumed of the rest.
\<close>

definition env_ok :: "orch_env \<Rightarrow> bool" where
  "env_ok e \<longleftrightarrow> non_neg_adapter (e_validate e) \<and> channel_update (e_upd e)"

lemma graph_laws_env:
  assumes "env_ok e"
  shows "graph_laws (e_validate e) (e_now e) (e_upd e) (node_impl e)"
proof -
  have "loop_keeper (node_impl e ContextBuilder)" by unfold_locales (simp add: context_builder_keeps.keeps_loop)
  moreover have "loop_keeper (node_impl e Router)" by unfold_locales (simp add: router_keeps.keeps_loop)
  moreover have "loop_keeper (node_impl e Planner)" by unfold_locales (simp add: planner_keeps.keeps_loop)
  moreover have "loop_keeper (node_impl e Verifier)" by unfold_locales (simp add: verifier_keeps.keeps_loop)
  ultimately show ?thesis
    using assms coder_keeps.loop_keeper_axioms executor_keeps.loop_keeper_axioms
    by (auto simp: graph_laws_def env_ok_def worker_nodes_def)
qed

section \<open>A concrete environment\<close>

text \<open>
  An update rule that keeps the keys that matter here, and an environment in which the servers and the
  stores fail, no remote model is configured and the runner reports success: the documented laws hold in it.
\<close>

definition kept_keys :: "string list" where
  "kept_keys = loop_channels @ [''repo_context'']"

definition override :: "pydict \<Rightarrow> pydict \<Rightarrow> pydict" where
  "override s u = concat (map (\<lambda>k. case map_of u k of Some v \<Rightarrow> [(k, v)]
     | None \<Rightarrow> (case map_of s k of Some v \<Rightarrow> [(k, v)] | None \<Rightarrow> [])) kept_keys)"

lemma override_update: "channel_update override"
proof -
  have "map_of (concat (map (\<lambda>k. case f k of Some v \<Rightarrow> [(k, v)] | None \<Rightarrow> []) ks)) k = (if k \<in> set ks then f k else None)"
    for f :: "string \<Rightarrow> pyval option" and ks k
    by (induction ks) (auto split: option.splits)
  note m = this [of "\<lambda>k. case map_of u k of Some v \<Rightarrow> Some v | None \<Rightarrow> map_of s k" kept_keys k for s u k]
  have "map_of (override s u) k = (if k \<in> set kept_keys then case map_of u k of Some v \<Rightarrow> Some v | None \<Rightarrow> map_of s k else None)"
    for s u k unfolding m [symmetric] override_def
    by (intro arg_cong [where f = "\<lambda>x. map_of (concat x) k"] map_cong) (auto split: option.splits)
  then show ?thesis by (auto simp: channel_update_def kept_keys_def split: option.splits)
qed

definition demo_env :: orch_env where
  "demo_env = \<lparr> e_validate = int_only_adapter, e_now = (\<lambda>_. 0), e_upd = override, e_uuid = ''u1'',
     e_plan = (\<lambda>_. eager_env), e_validate_route = checked_only, e_pool = (\<lambda>_. demo_pool), e_fs = (\<lambda>_. demo_fs\<lparr> fs_tree := \<lambda>_. Folder (Some [(''a'', Plain)]) \<rparr>),
     e_post = (\<lambda>_ _ _ _ _. TransportError []), e_stores = (\<lambda>_. demo_stores),
     e_runner = (\<lambda>_ _ calls. Inr (map (\<lambda>c. [(''tool'', dget c ''tool'' PNone), (''ok'', PBool True)]) calls)), e_gen_token = (\<lambda>c. c),
     e_schema_ok = (\<lambda>_. True), e_glean_flag = None, e_default_url = ''http://r'', e_getenv = (\<lambda>_. None),
     e_stream = (\<lambda>_ _. Inl (RuntimeError [])), e_chat = (\<lambda>_. Inl (RuntimeError [])) \<rparr>"

definition demo_raw :: pydict where
  "demo_raw = [(''request'', PStr ''explain''), (''_budget_max_loops'', PInt 1)]"

lemma demo_env_ok: "env_ok demo_env"
  by (simp add: env_ok_def demo_env_def int_only_adapter_ok override_update)

section \<open>Termination\<close>

text \<open>After the entry node nothing of the loop budget is used.\<close>

lemma ingest_loops_left:
  assumes e: "channel_update upd" and d: "distinct (map fst raw)" and run: "ingest uuid now raw = Inr t"
  shows "loops_left validate (upd raw t) = nat (loop_limit raw)"
proof -
  have up: "map_of (upd raw t) k = (case map_of t k of None \<Rightarrow> map_of raw k | Some v \<Rightarrow> Some v)"
    if "k \<in> set loop_channels" for k using e that unfolding channel_update_def by blast
  have "map_of t ''budgets'' = Some (PDict [])"
    using ingest_map_of [OF d run, of "''budgets''"] by (simp add: orch_state_dump_def orch_defaults_def)
  then have b: "map_of (upd raw t) ''budgets'' = Some (PDict [])" using up by (simp add: loop_channels_def)
  have "map_of t ''_budget_max_loops'' = map_of raw ''_budget_max_loops''"
    using ingest_map_of [OF d run, of "''_budget_max_loops''"] orch_state_dump_internal [of "''_budget_max_loops''"]
    by (auto split: option.splits)
  then have m: "map_of (upd raw t) ''_budget_max_loops'' = map_of raw ''_budget_max_loops''"
    using up [of "''_budget_max_loops''"] by (auto simp: loop_channels_def split: option.splits)
  show ?thesis
    using b m by (simp add: loops_left_def loop_count_def loop_limit_def loop_view_def dget_def)
qed

lemma orchestrate_Suc:
  "orchestrate e (Suc f) raw = (case ingest (e_uuid e) (e_now e) raw of
      Inl x \<Rightarrow> Some (Inl x)
    | Inr t \<Rightarrow> graph_run (node_impl e) (e_upd e) f (PolicyGate, e_upd e raw t))"
  by (simp add: orchestrate_def graph_run.simps [of _ _ _ Ingest] graph_step_def next_node_def Let_def
      split: sum.splits)

lemma orchestrate_ends:
  assumes "env_ok e" "distinct (map fst raw)"
  shows "\<exists>r. orchestrate e (7 * nat (loop_limit raw) + 3) raw = Some r"
proof (cases "ingest (e_uuid e) (e_now e) raw")
  case (Inl x)
  then show ?thesis by (simp add: orchestrate_Suc numeral_3_eq_3)
next
  case (Inr t)
  let ?s = "e_upd e raw t"
  have "loops_left (e_validate e) ?s = nat (loop_limit raw)"
    using ingest_loops_left [OF _ assms(2) Inr] assms(1) by (simp add: env_ok_def)
  then have p: "potential (e_validate e) (PolicyGate, ?s) \<le> 7 * nat (loop_limit raw) + 2"
    by (simp add: potential_def)
  show ?thesis
    using graph_run_terminates [OF graph_laws_env [OF assms(1)] _ p] Inr by (simp add: orchestrate_Suc numeral_3_eq_3)
qed

text \<open>
  C1. A run of the orchestrator always ends: from every initial state, whatever the language model, the
  tool runner and the remote router answer, the graph reaches its end (or a node raises) within
  \<open>7 n + 3\<close> node executions, where \<open>n\<close> is the configured loop limit.
\<close>

theorem orchestrate_terminates:
  assumes "env_ok e" "distinct (map fst raw)"
  shows "\<exists>r. orchestrate e (7 * nat (loop_limit raw) + 3) raw = Some r"
  by (rule orchestrate_ends [OF assms])

theorem orchestrate_terminates_witness: "\<exists>r. orchestrate demo_env 10 demo_raw = Some r"
proof -
  have "loop_limit demo_raw = 1" by code_simp
  then show ?thesis using orchestrate_terminates [OF demo_env_ok, of demo_raw] by (simp add: demo_raw_def)
qed

lemma executions_bounded:
  assumes "env_ok e" "distinct (map fst raw)"
  shows "count_list (nodes_visited e fuel raw) Executor \<le> nat (loop_limit raw)"
proof (cases fuel)
  case (Suc f)
  show ?thesis
  proof (cases "ingest (e_uuid e) (e_now e) raw")
    case (Inr t)
    let ?s = "e_upd e raw t"
    have "loops_left (e_validate e) ?s = nat (loop_limit raw)"
      using ingest_loops_left [OF _ assms(2) Inr] assms(1) by (simp add: env_ok_def)
    then have "count_list (graph_path (node_impl e) (e_upd e) f (PolicyGate, ?s)) Executor \<le> nat (loop_limit raw)"
      using graph_path_executions [OF graph_laws_env [OF assms(1)], of PolicyGate f ?s] by (simp add: executions_left_def)
    then show ?thesis
      using Inr Suc by (simp add: nodes_visited_def graph_path.simps [of _ _ _ Ingest] graph_step_def next_node_def Let_def)
  qed (simp add: nodes_visited_def graph_path.simps [of _ _ _ Ingest] graph_step_def Suc)
qed (simp add: nodes_visited_def graph_path.simps)

text \<open>
  C2. The executor runs at most as many times as the loop limit allows, in every prefix of every run.
\<close>

theorem orchestrate_executions:
  assumes "env_ok e" "distinct (map fst raw)"
  shows "count_list (nodes_visited e fuel raw) Executor \<le> nat (loop_limit raw)"
  by (rule executions_bounded [OF assms])

theorem orchestrate_executions_witness: "count_list (nodes_visited demo_env 10 demo_raw) Executor \<le> 1"
proof -
  have "loop_limit demo_raw = 1" by code_simp
  then show ?thesis using orchestrate_executions [OF demo_env_ok, of demo_raw 10] by (simp add: demo_raw_def)
qed

section \<open>A configured run\<close>

lemma configured_limit:
  assumes "load_config env st file root_dir = Inr c" "initial_state env read_file uuid repo_root args checkpoint c = Some raw"
  shows "loop_limit raw = bg_max_loops (cfg_budgets c)" "1 \<le> bg_max_loops (cfg_budgets c)"
proof -
  show b: "1 \<le> bg_max_loops (cfg_budgets c)" using load_config_ok [OF assms(1)] by (simp add: config_ok_def budgets_ok_def)
  show "loop_limit raw = bg_max_loops (cfg_budgets c)"
    using initial_state_config(1) [OF assms(2)] b by (simp add: loop_limit_alt dget_def int_default_def)
qed

text \<open>
  A run of the command keeps to its configuration: for every configuration that loads, the run that the
  command starts ends within \<open>7 n + 3\<close> node executions and executes tools at most \<open>n\<close> times, where \<open>n\<close> is
  the configured number of loops, whatever the models, the runner, the servers and the stores answer.
\<close>

theorem configured_run_bounded:
  assumes "env_ok e" "load_config env st file root_dir = Inr c"
    and "initial_state env read_file uuid repo_root args checkpoint c = Some raw"
  shows "(\<exists>r. orchestrate e (7 * nat (bg_max_loops (cfg_budgets c)) + 3) raw = Some r) \<and>
     count_list (nodes_visited e fuel raw) Executor \<le> nat (bg_max_loops (cfg_budgets c))"
  using orchestrate_ends [OF assms(1) distinct_initial_state [OF assms(3)]]
    executions_bounded [OF assms(1) distinct_initial_state [OF assms(3)]] configured_limit(1) [OF assms(2,3)] by simp

theorem configured_run_bounded_witness:
  "\<exists>c raw. load_config (\<lambda>_. None) no_settings (\<lambda>_. Table demo_table) [] = Inr c \<and>
     initial_state (\<lambda>_. None) (\<lambda>_. None) ''u'' ''/r'' demo_args [] c = Some raw \<and> (\<exists>r. orchestrate demo_env 24 raw = Some r)"
proof -
  have "(case load_config (\<lambda>_. None) no_settings (\<lambda>_. Table demo_table) [] of
      Inr c \<Rightarrow> bg_max_loops (cfg_budgets c) = 3 \<and>
        (case initial_state (\<lambda>_. None) (\<lambda>_. None) ''u'' ''/r'' demo_args [] c of Some _ \<Rightarrow> True | None \<Rightarrow> False)
    | Inl _ \<Rightarrow> False) = True"
    by code_simp
  then obtain c raw where c: "load_config (\<lambda>_. None) no_settings (\<lambda>_. Table demo_table) [] = Inr c" "bg_max_loops (cfg_budgets c) = 3"
    "initial_state (\<lambda>_. None) (\<lambda>_. None) ''u'' ''/r'' demo_args [] c = Some raw"
    by (auto split: sum.splits option.splits)
  then show ?thesis using configured_run_bounded [OF demo_env_ok c(1,3)] by auto
qed

section \<open>How a run ends\<close>

text \<open>Why the reporter was reached: the budget is exhausted or the verification passed.\<close>

definition settled :: "pydict \<Rightarrow> bool" where
  "settled s \<longleftrightarrow> strip (gets s ''halt_reason'' []) \<in> {''max_loops_exhausted'', ''plan_max_iterations_exhausted''} \<or>
     py_bool (dget (as_dict (dget s ''verification'' PNone)) ''ok'' PNone)"

lemma next_Reporter_settled: "next_node n s = Inr Reporter \<Longrightarrow> n \<noteq> Reporter \<Longrightarrow> settled s"
  by (cases n) (auto simp: next_node_def settled_def route_after_policy_gate_def route_after_verifier_def Let_def
      split: if_splits pyval.splits)

lemma next_END: "next_node n s = Inr END \<Longrightarrow> n = Reporter \<or> n = END"
  by (cases n) (auto simp: next_node_def split: option.splits if_splits)

lemma next_Reporter_END: "next_node Reporter s = Inr m \<Longrightarrow> m = END"
  by (simp add: next_node_def)

lemma reporter_effect:
  assumes "reporter getenv stream chat now s = Inr t"
  shows "\<exists>f. map_of t ''final'' = Some (PStr f) \<and> f \<noteq> []"
    and "k \<notin> {''final'', ''_trace_events''} \<Longrightarrow> map_of t k = map_of s k"
proof -
  obtain s1 where s1: "node_event now s ''reporter'' ''start'' = Inr s1"
    and t: "node_event now (dset s1 ''final'' (PStr (final_answer getenv stream chat s1))) ''reporter'' ''end'' = Inr t"
    using assms by (auto simp: reporter_def bind_r_eq_Inr)
  show "\<exists>f. map_of t ''final'' = Some (PStr f) \<and> f \<noteq> []"
    using append_event_map_of [OF t, of "''final''"] final_answer_neq_Nil by simp
  show "k \<notin> {''final'', ''_trace_events''} \<Longrightarrow> map_of t k = map_of s k"
    using append_event_map_of [OF t, of k] append_event_map_of [OF s1, of k] by simp
qed

lemma settled_cong:
  "map_of s ''halt_reason'' = map_of t ''halt_reason'' \<Longrightarrow> map_of s ''verification'' = map_of t ''verification'' \<Longrightarrow>
     settled s = settled t"
  by (simp add: settled_def dget_def)

lemma graph_run_answers:
  assumes upd: "channel_update upd" and rep: "impl Reporter = reporter getenv stream chat now"
    and run: "graph_run impl upd fuel (n, s) = Some (Inr out)" and n: "n \<noteq> END" "n = Reporter \<longrightarrow> settled s"
  shows "settled out \<and> (\<exists>f. dget out ''final'' PNone = PStr f \<and> f \<noteq> [])"
  using run n
proof (induction fuel arbitrary: n s)
  case 0
  then show ?case by (simp add: graph_run.simps)
next
  case (Suc fuel)
  obtain m s' where step: "graph_step impl upd (n, s) = Inr (m, s')" and rest: "graph_run impl upd fuel (m, s') = Some (Inr out)"
    using Suc.prems(1,2) by (auto simp: graph_run.simps [of _ _ _ n] split: sum.splits)
  then obtain t where t: "impl n s = Inr t" "s' = upd s t" and m: "next_node n s' = Inr m"
    by (auto simp: graph_step_Inr)
  show ?case
  proof (cases "n = Reporter")
    case True
    have out: "out = s'" using rest m True by (cases fuel) (auto simp: next_Reporter_END graph_run.simps dest: next_Reporter_END)
    have r: "reporter getenv stream chat now s = Inr t" using t(1) rep True by simp
    have up: "map_of out k = (case map_of t k of None \<Rightarrow> map_of s k | Some v \<Rightarrow> Some v)" if "k \<in> set loop_channels" for k
      using upd that unfolding channel_update_def out t(2) by blast
    have same: "map_of out k = map_of s k" if "k \<in> set loop_channels" "k \<notin> {''final'', ''_trace_events''}" for k
      using up [OF that(1)] reporter_effect(2) [OF r that(2)] by (simp split: option.splits)
    have "map_of out ''halt_reason'' = map_of s ''halt_reason''" "map_of out ''verification'' = map_of s ''verification''"
      by (rule same; simp add: loop_channels_def)+
    then have "settled out" using Suc.prems(3) True settled_cong by blast
    then show ?thesis using reporter_effect(1) [OF r] up [of "''final''"] by (auto simp: loop_channels_def dget_def)
  next
    case False
    then have "m \<noteq> END" using m next_END Suc.prems(2) by blast
    then show ?thesis using Suc.IH [OF rest] next_Reporter_settled [OF _ False] m by blast
  qed
qed

text \<open>
  C3. A run that ends without an exception has answered: the final state holds a text that is not empty,
  and the run was settled, by a verification that passed or by a loop budget that is exhausted.
\<close>

theorem orchestrate_answers:
  assumes "env_ok e" "orchestrate e fuel raw = Some (Inr out)"
  shows "settled out \<and> (\<exists>f. dget out ''final'' PNone = PStr f \<and> f \<noteq> [])"
  using graph_run_answers [OF _ _ assms(2) [unfolded orchestrate_def]] assms(1) by (simp add: env_ok_def)

theorem orchestrate_answers_witness:
  "\<exists>out. orchestrate demo_env 10 demo_raw = Some (Inr out) \<and> settled out \<and> (\<exists>f. dget out ''final'' PNone = PStr f \<and> f \<noteq> [])"
proof -
  have "(case orchestrate demo_env 10 demo_raw of Some (Inr _) \<Rightarrow> True | _ \<Rightarrow> False) = True" by code_simp
  then obtain out where out: "orchestrate demo_env 10 demo_raw = Some (Inr out)" by (auto split: option.splits sum.splits)
  show ?thesis using orchestrate_answers [OF demo_env_ok out] out by blast
qed

section \<open>Interfaces between the nodes\<close>

text \<open>
  C5. The gate configures the executor: after a pass of the gate the executor requires an approval for
  every patch unless the configuration switches that off, and its write allowlist is the configured
  one, whatever guards the caller or a model had put into the state.
\<close>

theorem gate_configures_executor:
  assumes run: "policy_gate validate now s = Inr t" and upd: "channel_update upd"
    and cfg: "dget s ''_config_policy'' (PDict []) = PDict cfg"
  shows "ec_require_approval (exec_config_of (upd s t)) = py_bool (dget cfg ''require_approval_for_mutations'' (PBool True)) \<and>
     ec_allowed_paths (exec_config_of (upd s t)) =
       map normalize_rel_path (filter (\<lambda>p. p \<noteq> []) (strip_strs (as_list (dget cfg ''allowed_write_paths'' (PList [])))))"
  using run
proof (rule policy_gate_cases)
  fix b g c
  assume c: "py_dict (dget s ''_config_policy'' (PDict [])) = Inr c" and g: "dget t ''guards'' PNone = PDict (gate_guards c g)"
  have "map_of t ''guards'' = Some (PDict (gate_guards c g))" using g by (auto simp: dget_def split: option.splits)
  then have g': "dget (upd s t) ''guards'' v = PDict (gate_guards cfg g)" for v
    using upd c cfg by (simp add: channel_update_def loop_channels_def dget_def)
  have w: "concat (map (\<lambda>e. case e of PStr s \<Rightarrow> if strip s = [] then [] else [normalize_rel_path s] | _ \<Rightarrow> [])
       (map PStr (filter (\<lambda>p. p \<noteq> []) (strip_strs xs)))) = map normalize_rel_path (filter (\<lambda>p. p \<noteq> []) (strip_strs xs))" for xs
  proof (induction xs)
    case (Cons x xs)
    have "strip_strs (x # xs) = (case x of PStr s \<Rightarrow> [strip s] | _ \<Rightarrow> []) @ strip_strs xs" by (simp add: strip_strs_def)
    then show ?case using Cons by (cases x) simp_all
  qed (simp add: strip_strs_def)
  show ?thesis
    by (simp add: exec_config_of_def Let_def g' gate_guards_spec configured_write_allowlist_def w [simplified])
qed

theorem gate_configures_executor_witness:
  "\<exists>t. policy_gate int_only_adapter (\<lambda>_. 0) [(''_config_policy'', PDict [])] = Inr t \<and>
     ec_require_approval (exec_config_of (override [(''_config_policy'', PDict [])] t))"
proof -
  let ?s = "[(''_config_policy'', PDict [])]"
  obtain t where t: "policy_gate int_only_adapter (\<lambda>_. 0) ?s = Inr t"
    using policy_gate_total [of ?s "[]" "[]" "[]" int_only_adapter "\<lambda>_. 0"] by (auto simp: trace_ok_def)
  show ?thesis using gate_configures_executor [OF t override_update, of "[]"] t by simp
qed

text \<open>
  C4. A failed tool call cannot be reported as success: if the executor leaves a failed result, the
  verifier does not pass on the state it receives, and the graph goes back to the gate.
\<close>

theorem failed_tool_sends_back:
  assumes ex: "executor flag url runner gen now s = Inr t" and upd: "channel_update upd"
    and bad: "r \<in> set (dicts_of (as_list (dget t ''tool_results'' (PList []))))" "\<not> py_bool (dget r ''ok'' (PBool False))"
    and ver: "verifier vrunner schema_ok now (upd s t) = Inr v"
  shows "next_node Verifier (upd (upd s t) v) = Inr PolicyGate"
  using ver
proof (rule verifier_cases)
  fix s1 rs b gs loop report reason ss f tel out
  assume same: "\<And>k. k \<notin> {''history_policy'', ''telemetry'', ''_trace_events''} \<Longrightarrow> map_of s1 k = map_of (upd s t) k"
    and rs: "verifier_results vrunner s1 (dicts_of (as_list (dget s1 ''tool_results'' (PList [])))) = Inr (rs, b)"
    and rep: "verifier_report schema_ok s1 rs (build_checks rs @ gs) loop = (report, reason)"
    and out: "\<And>k. k \<noteq> ''_trace_events'' \<Longrightarrow> map_of out k = map_of (verifier_out s1 rs b report reason ss f tel) k"
    and v: "v = prune_post_verification_history out"
  have "map_of t ''tool_results'' \<noteq> None" using bad(1) by (auto simp: dget_def split: option.splits)
  then have "dget s1 ''tool_results'' (PList []) = dget t ''tool_results'' (PList [])"
    using same [of "''tool_results''"] upd by (auto simp: channel_update_def loop_channels_def dget_def)
  then have "r \<in> set rs" using verifier_results_budgets [OF rs] bad(1) by (auto dest: set_mono_prefix)
  then have "build_checks rs \<noteq> []" using bad(2) by (auto simp: build_checks_Nil list_all_iff result_failed_def)
  then have "\<not> py_bool (dget report ''ok'' x)" for x
    using verifier_report_ok [of schema_ok s1 rs "build_checks rs @ gs" loop x] rep by simp
  moreover have "map_of v ''verification'' = Some (PDict report)"
    by (simp add: v prune_post_other out verifier_out_keys)
  then have "map_of (upd (upd s t) v) ''verification'' = Some (PDict report)"
    using upd by (simp add: channel_update_def loop_channels_def)
  ultimately show ?thesis by (simp add: next_node_def route_after_verifier_def dget_def)
qed

definition demo_failed :: pydict where
  "demo_failed = [(''tool_results'', dict_list [[(''tool'', PStr ''exec''), (''ok'', PBool False),
      (''diagnostics'', dict_list [[(''fingerprint'', PStr ''fp'')]])]])]"

theorem failed_tool_sends_back_witness:
  "\<exists>t v. executor None [] (\<lambda>_ _ _. Inr []) (\<lambda>c. c) (\<lambda>_. 0) demo_failed = Inr t \<and>
     verifier (\<lambda>_ _. Inr []) (\<lambda>_. True) (\<lambda>_. 0) (override demo_failed t) = Inr v \<and>
     next_node Verifier (override (override demo_failed t) v) = Inr PolicyGate"
proof -
  let ?ex = "executor None [] (\<lambda>_ _ _. Inr []) (\<lambda>c. c) (\<lambda>_. 0) demo_failed"
  let ?ver = "\<lambda>t. verifier (\<lambda>_ _. Inr []) (\<lambda>_. True) (\<lambda>_. 0) (override demo_failed t)"
  have "(case ?ex of Inr t \<Rightarrow> (case dicts_of (as_list (dget t ''tool_results'' (PList []))) of
            [r] \<Rightarrow> \<not> py_bool (dget r ''ok'' (PBool False)) | _ \<Rightarrow> False) \<and>
          (case ?ver t of Inr v \<Rightarrow> True | Inl _ \<Rightarrow> False) | Inl _ \<Rightarrow> False) = True"
    by code_simp
  then obtain t r v where t: "?ex = Inr t" and r: "dicts_of (as_list (dget t ''tool_results'' (PList []))) = [r]"
      "\<not> py_bool (dget r ''ok'' (PBool False))" and v: "?ver t = Inr v"
    by (auto split: sum.splits list.splits)
  have "r \<in> set (dicts_of (as_list (dget t ''tool_results'' (PList []))))" by (simp add: r(1))
  from failed_tool_sends_back [OF t override_update this r(2) v] show ?thesis using t v by blast
qed

end
